(* ===== verification/KPrelude.thy ===== *)
theory KPrelude
  imports Main "HOL-Library.Word"
begin

text \<open>
  Shared vocabulary of the development: machine words, the ways a kernel routine can fail to
  return, the sequencing combinator the component models are written with, the page and
  rounding macros of \<^verbatim>\<open>kernel/riscv.h\<close>, \<^verbatim>\<open>kernel/memlayout.h\<close>, \<^verbatim>\<open>kernel/config.h\<close> and
  \<^verbatim>\<open>util/functions.h\<close>, and the generic lemmas about them.
\<close>

unbundle bit_operations_syntax

type_synonym u64 = "64 word"
type_synonym u32 = "32 word"
type_synonym u16 = "16 word"
type_synonym u8 = "8 word"

section \<open>Outcomes of kernel code\<close>

text \<open>
  A kernel routine either returns (\<open>Inr\<close>) or it never does: it panics, it touches memory the
  machine cannot serve (an S-mode page fault ends in \<^verbatim>\<open>panic("usertrap: not from user mode")\<close>,
  a misaligned access in a machine-mode panic), it shuts the machine down, or it spins.
\<close>

datatype kerr =
    Panic string       \<comment> \<open>\<^verbatim>\<open>panic\<close>, \<^verbatim>\<open>assert\<close>, \<^verbatim>\<open>kassert\<close>\<close>
  | Fault string       \<comment> \<open>an access the machine refuses\<close>
  | Halt int           \<comment> \<open>\<^verbatim>\<open>shutdown(code)\<close>\<close>
  | Spin               \<comment> \<open>a busy loop that is never left\<close>

definition kbind :: "kerr + 'a \<Rightarrow> ('a \<Rightarrow> kerr + 'b) \<Rightarrow> kerr + 'b" where
  "kbind m f = (case m of Inl e \<Rightarrow> Inl e | Inr x \<Rightarrow> f x)"

lemma kbind_Inl [simp]: "kbind (Inl e) f = Inl e"
  by (simp add: kbind_def)

lemma kbind_Inr [simp]: "kbind (Inr x) f = f x"
  by (simp add: kbind_def)

lemma kbind_eq_Inr: "kbind m f = Inr y \<longleftrightarrow> (\<exists>x. m = Inr x \<and> f x = Inr y)"
  by (cases m) simp_all

lemma kbind_eq_Inl:
  "kbind m f = Inl e \<longleftrightarrow> m = Inl e \<or> (\<exists>x. m = Inr x \<and> f x = Inl e)"
  by (cases m) simp_all

lemma kbind_assoc: "kbind (kbind m f) g = kbind m (\<lambda>x. kbind (f x) g)"
  by (cases m) simp_all

lemma kbind_cong [fundef_cong]:
  "m = m' \<Longrightarrow> (\<And>x. m' = Inr x \<Longrightarrow> f x = g x) \<Longrightarrow> kbind m f = kbind m' g"
  by (cases m') simp_all

lemma kbind_InrE:
  assumes "kbind m f = Inr y"
  obtains x where "m = Inr x" and "f x = Inr y"
  using assms by (auto simp: kbind_eq_Inr)

definition kassert :: "bool \<Rightarrow> string \<Rightarrow> kerr + unit" where
  "kassert b msg = (if b then Inr () else Inl (Panic msg))"

lemma kassert_simps [simp]:
  "kassert True msg = Inr ()" "kassert False msg = Inl (Panic msg)"
  by (simp_all add: kassert_def)

lemma kassert_eq_Inr [simp]: "kassert b msg = Inr u \<longleftrightarrow> b"
  by (simp add: kassert_def)

section \<open>Pages and rounding\<close>

definition PGSIZE :: u64 where "PGSIZE = 4096"
definition DRAM_BASE :: u64 where "DRAM_BASE = 0x80000000"
definition KERN_BASE :: u64 where "KERN_BASE = 0x80000000"
definition PKE_MAX_ALLOWABLE_RAM :: u64 where "PKE_MAX_ALLOWABLE_RAM = 128 * 1024 * 1024"
definition PHYS_TOP :: u64 where "PHYS_TOP = DRAM_BASE + PKE_MAX_ALLOWABLE_RAM"
definition USER_STACK_TOP :: u64 where "USER_STACK_TOP = 0x7ffff000"
definition USER_FREE_ADDRESS_START :: u64 where
  "USER_FREE_ADDRESS_START = 0x00000000 + PGSIZE * 1024"

lemmas layout_defs = PGSIZE_def DRAM_BASE_def KERN_BASE_def PKE_MAX_ALLOWABLE_RAM_def
  PHYS_TOP_def USER_STACK_TOP_def USER_FREE_ADDRESS_START_def

definition ROUNDUP :: "u64 \<Rightarrow> u64 \<Rightarrow> u64" where
  "ROUNDUP a b = ((a - 1) div b + 1) * b"

definition ROUNDDOWN :: "u64 \<Rightarrow> u64 \<Rightarrow> u64" where
  "ROUNDDOWN a b = a div b * b"

definition page_aligned :: "u64 \<Rightarrow> bool" where
  "page_aligned a \<longleftrightarrow> a mod 4096 = 0"

definition ram_page :: "u64 \<Rightarrow> bool" where
  \<comment> \<open>the start of a page of the physical memory the kernel maps\<close>
  "ram_page p \<longleftrightarrow> page_aligned p \<and> DRAM_BASE \<le> p \<and> p < PHYS_TOP"

lemma unat_PGSIZE [simp]: "unat PGSIZE = 4096"
  by (simp add: PGSIZE_def)

lemma unat_DRAM_BASE [simp]: "unat DRAM_BASE = 2147483648"
  by (simp add: DRAM_BASE_def)

lemma unat_PHYS_TOP [simp]: "unat PHYS_TOP = 2281701376"
  by (simp add: layout_defs)

lemma page_aligned_unat: "page_aligned a \<longleftrightarrow> unat a mod 4096 = 0"
  by (simp add: page_aligned_def word_unat_eq_iff unat_mod_distrib)

lemma unat_plus_small: "unat a + unat b < 2 ^ 64 \<Longrightarrow> unat (a + b) = unat a + unat (b :: u64)"
  by (simp add: unat_word_ariths)

lemma unat_mult_small: "unat a * unat b < 2 ^ 64 \<Longrightarrow> unat (a * b) = unat a * unat (b :: u64)"
  by (simp add: unat_word_ariths)

lemma ram_page_unat:
  "ram_page p \<longleftrightarrow> unat p mod 4096 = 0 \<and> 2147483648 \<le> unat p \<and> unat p < 2281701376"
  by (simp add: ram_page_def page_aligned_unat word_le_nat_alt word_less_nat_alt)

lemma ram_page_nonzero [simp]: "ram_page p \<Longrightarrow> p \<noteq> 0"
  by (auto simp: ram_page_unat)

lemma unat_ROUNDDOWN: "unat (ROUNDDOWN a PGSIZE) = unat a div 4096 * 4096"
proof -
  have "unat a div 4096 * 4096 \<le> unat a" by simp
  then have "unat (a div PGSIZE) * unat PGSIZE < 2 ^ 64"
    using unsigned_less [of a, where 'a = nat] by (simp add: unat_div_distrib)
  then show ?thesis
    by (simp add: ROUNDDOWN_def unat_mult_small unat_div_distrib)
qed

lemma ROUNDDOWN_aligned [simp]: "page_aligned (ROUNDDOWN a PGSIZE)"
  by (simp add: page_aligned_unat unat_ROUNDDOWN)

lemma ROUNDDOWN_id [simp]: "page_aligned a \<Longrightarrow> ROUNDDOWN a PGSIZE = a"
  by (simp add: word_unat_eq_iff unat_ROUNDDOWN page_aligned_unat mod_eq_0_iff_dvd)

lemma unat_ROUNDUP:
  assumes "0 < unat a" and "unat a \<le> 2 ^ 64 - 4096"
  shows "unat (ROUNDUP a PGSIZE) = ((unat a - 1) div 4096 + 1) * 4096"
proof -
  have a1: "unat (a - 1) = unat a - 1"
    using assms(1) by (metis unat_gt_0 unat_minus_one)
  have d: "unat ((a - 1) div PGSIZE) = (unat a - 1) div 4096"
    by (simp add: unat_div_distrib a1)
  have s: "unat ((a - 1) div PGSIZE + 1) = (unat a - 1) div 4096 + 1"
    using assms(2) by (subst unat_plus_small) (simp_all add: d)
  show ?thesis
    using assms(2) unfolding ROUNDUP_def by (subst unat_mult_small) (simp_all add: s)
qed

section \<open>C integers and strings\<close>

definition cdiv :: "int \<Rightarrow> int \<Rightarrow> int" where
  \<comment> \<open>the C quotient, which truncates towards zero\<close>
  "cdiv a b = (if 0 \<le> a then a div b else - ((- a) div b))"

definition cmod :: "int \<Rightarrow> int \<Rightarrow> int" where
  "cmod a b = a - cdiv a b * b"

lemma cdiv_nonneg [simp]: "0 \<le> a \<Longrightarrow> cdiv a b = a div b"
  by (simp add: cdiv_def)

lemma cmod_nonneg [simp]: "0 \<le> a \<Longrightarrow> cmod a b = a mod b"
  by (simp add: cmod_def minus_div_mult_eq_mod)

type_synonym cstring = "u8 list"   \<comment> \<open>without the terminating NUL\<close>

end
