(* ===== verification/Sync.thy ===== *)
theory Sync
  imports KPrelude
begin

text \<open>
  The synchronisation primitives: \<^verbatim>\<open>sync_barrier\<close>, \<^verbatim>\<open>sem_P\<close> and \<^verbatim>\<open>sem_V\<close> of
  \<^verbatim>\<open>kernel/sync_utils.h\<close> and the spinlock of \<^verbatim>\<open>spike_interface/atomic.h\<close>.  Several harts run
  them concurrently, so each is an interleaving step relation whose atomic steps are the memory
  accesses of the code (\<^verbatim>\<open>lw\<close>, \<^verbatim>\<open>amoadd.w\<close>, a plain load, a plain store).
\<close>

section \<open>Semaphores\<close>

datatype sem_pc =
    P_load            \<comment> \<open>about to execute the \<^verbatim>\<open>lw\<close> of \<^verbatim>\<open>sem_P\<close> (first or repeated)\<close>
  | P_dec             \<comment> \<open>left the spin loop, about to execute \<^verbatim>\<open>amoadd.w ... -1\<close>\<close>
  | Holding           \<comment> \<open>returned from \<^verbatim>\<open>sem_P\<close>, \<^verbatim>\<open>sem_V\<close> not yet executed\<close>
  | Released          \<comment> \<open>returned from \<^verbatim>\<open>sem_V\<close>\<close>

record sem_state =
  semaphore :: int
  sem_pcs :: "nat \<Rightarrow> sem_pc"

inductive sem_step :: "nat \<Rightarrow> sem_state \<Rightarrow> sem_state \<Rightarrow> bool" for h where
  load_spin: "sem_pcs s h = P_load \<Longrightarrow> semaphore s \<le> 0 \<Longrightarrow> sem_step h s s"
| load_exit: "sem_pcs s h = P_load \<Longrightarrow> 0 < semaphore s \<Longrightarrow>
    sem_step h s (s\<lparr>sem_pcs := (sem_pcs s)(h := P_dec)\<rparr>)"
| dec: "sem_pcs s h = P_dec \<Longrightarrow>
    sem_step h s (s\<lparr>semaphore := semaphore s - 1, sem_pcs := (sem_pcs s)(h := Holding)\<rparr>)"
| sem_V: "sem_pcs s h = Holding \<Longrightarrow>
    sem_step h s (s\<lparr>semaphore := semaphore s + 1, sem_pcs := (sem_pcs s)(h := Released)\<rparr>)"
| again: "sem_pcs s h = Released \<Longrightarrow>
    sem_step h s (s\<lparr>sem_pcs := (sem_pcs s)(h := P_load)\<rparr>)"

inductive_simps sem_step_iff: "sem_step h s s'"

inductive sem_reach :: "nat \<Rightarrow> int \<Rightarrow> sem_state \<Rightarrow> bool" for n v where
  init: "sem_reach n v \<lparr>semaphore = v, sem_pcs = (\<lambda>_. P_load)\<rparr>"
| step: "sem_reach n v s \<Longrightarrow> h < n \<Longrightarrow> sem_step h s s' \<Longrightarrow> sem_reach n v s'"

definition holders :: "nat \<Rightarrow> sem_state \<Rightarrow> nat set" where
  "holders n s = {h. h < n \<and> sem_pcs s h = Holding}"

lemma finite_holders [simp]: "finite (holders n s)"
  by (simp add: holders_def)

lemma sem_step_conserves:
  assumes "sem_step h s s'" and "h < n"
  shows "semaphore s' + int (card (holders n s')) = semaphore s + int (card (holders n s))"
  using assms(1)
proof cases
  case load_exit
  then have "holders n s' = holders n s" by (auto simp: holders_def)
  with load_exit show ?thesis by simp
next
  case dec
  then have "holders n s' = insert h (holders n s)" "h \<notin> holders n s"
    using assms(2) by (auto simp: holders_def)
  with dec show ?thesis by simp
next
  case sem_V
  then have "holders n s' = holders n s - {h}" "h \<in> holders n s"
    using assms(2) by (auto simp: holders_def)
  moreover from this have "0 < card (holders n s)" by (auto simp: card_gt_0_iff)
  ultimately show ?thesis using sem_V by simp
next
  case again
  then have "holders n s' = holders n s" by (auto simp: holders_def)
  with again show ?thesis by simp
qed simp

lemma sem_reach_conserves:
  "sem_reach n v s \<Longrightarrow> semaphore s + int (card (holders n s)) = v"
  by (induction rule: sem_reach.induct) (simp add: holders_def, metis sem_step_conserves)

lemma sem_reach_idle: "sem_reach n v s \<Longrightarrow> n \<le> h \<Longrightarrow> sem_pcs s h = P_load"
  by (induction rule: sem_reach.induct) (auto simp: sem_step_iff)

text \<open>With one hart the value can no longer change between the load and the decrement.\<close>

lemma sem_reach_one:
  "sem_reach 1 v s \<Longrightarrow> sem_pcs s 0 = P_dec \<Longrightarrow> 0 < semaphore s"
  by (induction rule: sem_reach.induct) (auto simp: sem_step_iff)

section \<open>The barrier\<close>

datatype bar_pc =
    B_arrive          \<comment> \<open>before the \<^verbatim>\<open>amoadd.w\<close>\<close>
  | B_wait            \<comment> \<open>in the \<^verbatim>\<open>do ... while (local < all)\<close> loop\<close>
  | B_passed          \<comment> \<open>returned\<close>

record bar_state =
  counter :: int
  bar_pcs :: "nat \<Rightarrow> bar_pc"

inductive sync_barrier :: "int \<Rightarrow> nat \<Rightarrow> bar_state \<Rightarrow> bar_state \<Rightarrow> bool" for all h where
  arrive_wait: "bar_pcs s h = B_arrive \<Longrightarrow> counter s + 1 < all \<Longrightarrow>
    sync_barrier all h s (s\<lparr>counter := counter s + 1, bar_pcs := (bar_pcs s)(h := B_wait)\<rparr>)"
| arrive_pass: "bar_pcs s h = B_arrive \<Longrightarrow> \<not> counter s + 1 < all \<Longrightarrow>
    sync_barrier all h s (s\<lparr>counter := counter s + 1, bar_pcs := (bar_pcs s)(h := B_passed)\<rparr>)"
| wait_again: "bar_pcs s h = B_wait \<Longrightarrow> counter s < all \<Longrightarrow> sync_barrier all h s s"
| wait_done: "bar_pcs s h = B_wait \<Longrightarrow> \<not> counter s < all \<Longrightarrow>
    sync_barrier all h s (s\<lparr>bar_pcs := (bar_pcs s)(h := B_passed)\<rparr>)"

inductive_simps sync_barrier_iff: "sync_barrier all h s s'"

inductive bar_reach :: "nat \<Rightarrow> bar_state \<Rightarrow> bool" for n where
  init: "bar_reach n \<lparr>counter = 0, bar_pcs = (\<lambda>_. B_arrive)\<rparr>"
| step: "bar_reach n s \<Longrightarrow> h < n \<Longrightarrow> sync_barrier (int n) h s s' \<Longrightarrow> bar_reach n s'"

definition arrived :: "nat \<Rightarrow> bar_state \<Rightarrow> nat set" where
  "arrived n s = {h. h < n \<and> bar_pcs s h \<noteq> B_arrive}"

definition bar_inv :: "nat \<Rightarrow> bar_state \<Rightarrow> bool" where
  "bar_inv n s \<longleftrightarrow> counter s = int (card (arrived n s)) \<and>
     (\<forall>h < n. bar_pcs s h = B_passed \<longrightarrow> counter s = int n)"

lemma arrived_bound: "card (arrived n s) \<le> n"
proof -
  have "arrived n s \<subseteq> {..<n}" by (auto simp: arrived_def)
  from card_mono [OF _ this] show ?thesis by simp
qed

lemma arrived_all: "card (arrived n s) = n \<Longrightarrow> arrived n s = {..<n}"
  by (rule card_subset_eq) (auto simp: arrived_def)

lemma finite_arrived [simp]: "finite (arrived n s)"
  by (simp add: arrived_def)

lemma bar_arrive_card:
  assumes "bar_pcs s h = B_arrive" "h < n" "pc \<noteq> B_arrive"
  shows "card (arrived n (s\<lparr>counter := c, bar_pcs := (bar_pcs s)(h := pc)\<rparr>)) =
    Suc (card (arrived n s))"
proof -
  have "arrived n (s\<lparr>counter := c, bar_pcs := (bar_pcs s)(h := pc)\<rparr>) = insert h (arrived n s)"
    and "h \<notin> arrived n s" using assms by (auto simp: arrived_def)
  then show ?thesis by simp
qed

lemma bar_step_inv:
  assumes "sync_barrier (int n) h s s'" and inv: "bar_inv n s" and h: "h < n"
  shows "bar_inv n s'"
  using assms(1)
proof cases
  case arrive_wait
  note c = bar_arrive_card [OF arrive_wait(2) h, of B_wait "counter s + 1"]
  have "\<not> (\<exists>k < n. bar_pcs s k = B_passed)" using inv arrive_wait(3) by (force simp: bar_inv_def)
  then show ?thesis using inv c by (auto simp: bar_inv_def arrive_wait)
next
  case arrive_pass
  note c = bar_arrive_card [OF arrive_pass(2) h, of B_passed "counter s + 1"]
  have "Suc (card (arrived n s)) \<le> n"
    using arrived_bound [of n s'] c by (simp add: arrive_pass)
  then show ?thesis using inv c arrive_pass(3) by (auto simp: bar_inv_def arrive_pass(1))
next
  case wait_again
  then show ?thesis using inv by simp
next
  case wait_done
  have a: "arrived n s' = arrived n s" using wait_done by (auto simp: arrived_def)
  have "counter s = int n"
    using inv wait_done(3) arrived_bound [of n s] by (auto simp: bar_inv_def)
  then show ?thesis using inv a by (auto simp: bar_inv_def wait_done(1))
qed

lemma bar_reach_inv: "bar_reach n s \<Longrightarrow> bar_inv n s"
proof (induction rule: bar_reach.induct)
  case init
  show ?case by (simp add: bar_inv_def arrived_def)
next
  case (step s h s')
  then show ?case by (blast intro: bar_step_inv)
qed

section \<open>The spinlock\<close>

datatype spin_pc =
    L_read            \<comment> \<open>\<^verbatim>\<open>while (atomic_read(&lock->lock))\<close>\<close>
  | T_read            \<comment> \<open>the \<^verbatim>\<open>atomic_read\<close> of \<^verbatim>\<open>atomic_swap\<close>\<close>
  | T_write int       \<comment> \<open>its \<^verbatim>\<open>atomic_set\<close>, with the value \<^verbatim>\<open>res\<close> read before\<close>
  | Locked            \<comment> \<open>returned from \<^verbatim>\<open>spinlock_lock\<close>\<close>
  | Unlocked          \<comment> \<open>returned from \<^verbatim>\<open>spinlock_unlock\<close>\<close>

record spin_state =
  lock :: int
  spin_pcs :: "nat \<Rightarrow> spin_pc"

inductive spin_step :: "nat \<Rightarrow> spin_state \<Rightarrow> spin_state \<Rightarrow> bool" for h where
  read_busy: "spin_pcs s h = L_read \<Longrightarrow> lock s \<noteq> 0 \<Longrightarrow> spin_step h s s"
| read_free: "spin_pcs s h = L_read \<Longrightarrow> lock s = 0 \<Longrightarrow>
    spin_step h s (s\<lparr>spin_pcs := (spin_pcs s)(h := T_read)\<rparr>)"
| try_read: "spin_pcs s h = T_read \<Longrightarrow>
    spin_step h s (s\<lparr>spin_pcs := (spin_pcs s)(h := T_write (lock s))\<rparr>)"
| try_write: "spin_pcs s h = T_write res \<Longrightarrow>
    spin_step h s (s\<lparr>lock := - 1,
      spin_pcs := (spin_pcs s)(h := (if res \<noteq> 0 then L_read else Locked))\<rparr>)"
| unlock: "spin_pcs s h = Locked \<Longrightarrow>
    spin_step h s (s\<lparr>lock := 0, spin_pcs := (spin_pcs s)(h := Unlocked)\<rparr>)"

inductive spin_reach :: "nat \<Rightarrow> spin_state \<Rightarrow> bool" for n where
  init: "spin_reach n \<lparr>lock = 0, spin_pcs = (\<lambda>_. L_read)\<rparr>"
| step: "spin_reach n s \<Longrightarrow> h < n \<Longrightarrow> spin_step h s s' \<Longrightarrow> spin_reach n s'"

inductive_simps spin_step_iff: "spin_step h s s'"

lemma spin_reach_one:
  "spin_reach 1 s \<Longrightarrow> (lock s = 0 \<longleftrightarrow> spin_pcs s 0 \<noteq> Locked) \<and>
     (\<forall>res. spin_pcs s 0 = T_write res \<longrightarrow> res = 0)"
  by (induction rule: spin_reach.induct) (auto simp: spin_step_iff)

section \<open>Properties\<close>


text \<open>C32: the barrier does not deadlock: in every reachable state in which some hart has not
  passed, some hart has a step that is not a mere turn of the waiting loop.\<close>

theorem sync_barrier_progress:
  assumes "bar_reach n s" and "h < n" and "bar_pcs s h \<noteq> B_passed"
  shows "\<exists>k < n. \<exists>s'. sync_barrier (int n) k s s' \<and> s' \<noteq> s"
proof (cases "\<exists>k < n. bar_pcs s k = B_arrive")
  case True
  then obtain k where k: "k < n" "bar_pcs s k = B_arrive" by blast
  let ?pc = "if counter s + 1 < int n then B_wait else B_passed"
  let ?s = "s\<lparr>counter := counter s + 1, bar_pcs := (bar_pcs s)(k := ?pc)\<rparr>"
  have "sync_barrier (int n) k s ?s" using k(2) by (auto simp: sync_barrier_iff)
  moreover have "counter ?s \<noteq> counter s" by simp
  ultimately show ?thesis using k(1) by metis
next
  case False
  then have "arrived n s = {..<n}" by (auto simp: arrived_def)
  then have c: "counter s = int n" using bar_reach_inv [OF assms(1)] by (simp add: bar_inv_def)
  have w: "bar_pcs s h = B_wait" using False assms(2,3) by (cases "bar_pcs s h") auto
  let ?s = "s\<lparr>bar_pcs := (bar_pcs s)(h := B_passed)\<rparr>"
  have "sync_barrier (int n) h s ?s" using w c by (simp add: sync_barrier_iff)
  moreover have "bar_pcs ?s h \<noteq> bar_pcs s h" using w by simp
  ultimately show ?thesis using assms(2) by metis
qed

text \<open>With the one hart the kernel is configured for, a semaphore initialised to 1 or more
  is never negative and always equals its initial value less the number of holders.\<close>

lemma sem_P_one_hart:
  assumes "sem_reach 1 v s" and "0 \<le> v"
  shows "0 \<le> semaphore s \<and> semaphore s + int (card (holders 1 s)) = v"
  using assms
proof (induction rule: sem_reach.induct)
  case (step s h s')
  then have h: "h = 0" by simp
  from step have "semaphore s' + int (card (holders 1 s')) = v"
    by (metis sem_step_conserves)
  moreover have "0 \<le> semaphore s'"
    using step sem_reach_one [OF step(1)] by (auto simp: sem_step_iff h)
  ultimately show ?case by simp
qed (simp add: holders_def)

text \<open>C33: \<^verbatim>\<open>sem_P\<close> is not a semaphore for two harts: the load and the decrement are separate
  instructions, so from a semaphore of value 1 both harts reach the critical section and the
  value becomes negative.\<close>

theorem sem_P_two_harts_race:
  "\<exists>s. sem_reach 2 1 s \<and> sem_pcs s 0 = Holding \<and> sem_pcs s 1 = Holding \<and> semaphore s = - 1"
proof -
  define a where "a = \<lparr>semaphore = 1, sem_pcs = (\<lambda>_ :: nat. P_load)\<rparr>"
  define b where "b = a\<lparr>sem_pcs := (sem_pcs a)(0 := P_dec)\<rparr>"
  define c where "c = b\<lparr>sem_pcs := (sem_pcs b)(1 := P_dec)\<rparr>"
  define d where "d = c\<lparr>semaphore := 0, sem_pcs := (sem_pcs c)(0 := Holding)\<rparr>"
  define e where "e = d\<lparr>semaphore := - 1, sem_pcs := (sem_pcs d)(1 := Holding)\<rparr>"
  have "sem_reach 2 1 a" unfolding a_def by (rule sem_reach.init)
  moreover have "sem_step 0 a b" "sem_step 1 b c" "sem_step 0 c d" "sem_step 1 d e"
    by (simp_all add: sem_step_iff a_def b_def c_def d_def e_def)
  moreover have "sem_reach 2 1 s'" if "sem_reach 2 1 s" "sem_step 0 s s' \<or> sem_step 1 s s'" for s s'
    using that by (auto intro: sem_reach.step [where h = 0] sem_reach.step [where h = 1])
  ultimately have "sem_reach 2 1 e" by meson
  then show ?thesis by (rule_tac x = e in exI) (simp add: a_def b_def c_def d_def e_def)
qed

text \<open>\<^verbatim>\<open>spinlock_lock\<close> does not exclude two harts: \<^verbatim>\<open>atomic_swap\<close> is a plain read followed by
  a plain write, so both harts can read the lock free and both enter.\<close>

lemma spinlock_two_harts_race:
  "\<exists>s. spin_reach 2 s \<and> spin_pcs s 0 = Locked \<and> spin_pcs s 1 = Locked"
proof -
  define a where "a = \<lparr>lock = 0, spin_pcs = (\<lambda>_ :: nat. L_read)\<rparr>"
  define b where "b = a\<lparr>spin_pcs := (spin_pcs a)(0 := T_read)\<rparr>"
  define c where "c = b\<lparr>spin_pcs := (spin_pcs b)(1 := T_read)\<rparr>"
  define d where "d = c\<lparr>spin_pcs := (spin_pcs c)(0 := T_write 0)\<rparr>"
  define e where "e = d\<lparr>spin_pcs := (spin_pcs d)(1 := T_write 0)\<rparr>"
  define f where "f = e\<lparr>lock := - 1, spin_pcs := (spin_pcs e)(0 := Locked)\<rparr>"
  define g where "g = f\<lparr>lock := - 1, spin_pcs := (spin_pcs f)(1 := Locked)\<rparr>"
  have "spin_reach 2 a" unfolding a_def by (rule spin_reach.init)
  moreover have "spin_step 0 a b" "spin_step 1 b c" "spin_step 0 c d" "spin_step 1 d e"
    "spin_step 0 e f" "spin_step 1 f g"
    by (simp_all add: spin_step_iff a_def b_def c_def d_def e_def f_def g_def)
  moreover have "spin_reach 2 s'" if "spin_reach 2 s" "spin_step 0 s s' \<or> spin_step 1 s s'" for s s'
    using that by (auto intro: spin_reach.step [where h = 0] spin_reach.step [where h = 1])
  ultimately have "spin_reach 2 g" by meson
  then show ?thesis by (rule_tac x = g in exI) (simp add: a_def b_def c_def d_def e_def f_def g_def)
qed

section \<open>Witnesses\<close>

lemma bar_one_passed:
  "bar_reach 1 \<lparr>counter = 1, bar_pcs = (\<lambda>_. B_arrive)(0 := B_passed)\<rparr>"
  by (rule bar_reach.step [OF bar_reach.init, of 0]) (simp_all add: sync_barrier_iff)


theorem sync_barrier_progress_witness:
  "\<exists>k < 3. \<exists>s'. sync_barrier 3 k \<lparr>counter = 0, bar_pcs = (\<lambda>_. B_arrive)\<rparr> s' \<and>
     s' \<noteq> \<lparr>counter = 0, bar_pcs = (\<lambda>_. B_arrive)\<rparr>"
  using sync_barrier_progress [OF bar_reach.init, of 0 3] by simp

lemma sem_P_one_hart_example:
  "0 \<le> semaphore \<lparr>semaphore = 1, sem_pcs = (\<lambda>_. P_load)\<rparr>"
  using sem_P_one_hart [OF sem_reach.init, of 1] by simp

end
