(* ===== verification/Pmm.thy ===== *)
theory Pmm
  imports KPrelude "HOL-Library.Multiset"
begin

text \<open>
  The physical memory manager (\<^verbatim>\<open>kernel/pmm.c\<close>).  Physical memory is one store of 64-bit
  words; the free list is threaded through the free pages themselves, as in the C code
  (\<^verbatim>\<open>list_node\<close> overlays the first word of a free page).  The second half shows that the
  manager implements a stack of pages (\<open>pmm_rel\<close>), states that contract as a locale and
  interprets it on the model.
\<close>

section \<open>State and memory accesses\<close>

record pmm =
  mem :: "u64 \<Rightarrow> u64"              \<comment> \<open>the word at each (8-byte aligned) physical address\<close>
  free_mem_start_addr :: u64
  free_mem_end_addr :: u64
  g_free_mem_list :: u64          \<comment> \<open>\<^verbatim>\<open>g_free_mem_list.next\<close>\<close>
  g_mem_size :: u64
  count_5 :: int                  \<comment> \<open>the semaphore of \<^verbatim>\<open>alloc_page\<close>\<close>

definition mem_ok :: "u64 \<Rightarrow> bool" where
  "mem_ok a \<longleftrightarrow> a mod 8 = 0 \<and> DRAM_BASE \<le> a \<and> a < PHYS_TOP"

definition load :: "u64 \<Rightarrow> 'z pmm_scheme \<Rightarrow> kerr + u64" where
  "load a s = (if mem_ok a then Inr (mem s a) else Inl (Fault ''load''))"

definition store :: "u64 \<Rightarrow> u64 \<Rightarrow> 'z pmm_scheme \<Rightarrow> kerr + 'z pmm_scheme" where
  "store a v s = (if mem_ok a then Inr (s\<lparr>mem := (mem s)(a := v)\<rparr>) else Inl (Fault ''store''))"

definition in_page :: "u64 \<Rightarrow> u64 \<Rightarrow> bool" where
  "in_page a p \<longleftrightarrow> p \<le> a \<and> a - p < PGSIZE"

definition zero_page :: "(u64 \<Rightarrow> u64) \<Rightarrow> u64 \<Rightarrow> u64 \<Rightarrow> u64" where
  "zero_page m p = (\<lambda>a. if in_page a p then 0 else m a)"

definition memset_page :: "u64 \<Rightarrow> 'z pmm_scheme \<Rightarrow> kerr + 'z pmm_scheme" where
  \<comment> \<open>\<^verbatim>\<open>memset(p, 0, PGSIZE)\<close> on the words of a page\<close>
  "memset_page p s =
     (if mem_ok p then Inr (s\<lparr>mem := zero_page (mem s) p\<rparr>)
      else Inl (Fault ''memset''))"

section \<open>The routines of pmm.c\<close>

definition sem_P_count_5 :: "'z pmm_scheme \<Rightarrow> kerr + 'z pmm_scheme" where
  \<comment> \<open>\<^verbatim>\<open>sem_P(&count_5)\<close> on the one hart there is: nobody else can release it\<close>
  "sem_P_count_5 s = (if count_5 s \<le> 0 then Inl Spin else Inr (s\<lparr>count_5 := count_5 s - 1\<rparr>))"

definition sem_V_count_5 :: "'z pmm_scheme \<Rightarrow> 'z pmm_scheme" where
  "sem_V_count_5 s = s\<lparr>count_5 := count_5 s + 1\<rparr>"

definition free_page :: "u64 \<Rightarrow> 'z pmm_scheme \<Rightarrow> kerr + 'z pmm_scheme" where
  "free_page pa s =
     (if pa < free_mem_start_addr s \<or> pa \<ge> free_mem_end_addr s then Inl (Panic ''free_page'')
      else kbind (store pa (g_free_mem_list s) s) (\<lambda>s. Inr (s\<lparr>g_free_mem_list := pa\<rparr>)))"

partial_function (option) free_range ::
  "u64 \<Rightarrow> u64 \<Rightarrow> 'z pmm_scheme \<Rightarrow> (kerr + 'z pmm_scheme) option" where
  \<comment> \<open>the loop of \<^verbatim>\<open>create_freepage_list\<close>, from page \<open>p\<close>\<close>
  "free_range p fin s =
     (if p + PGSIZE < fin
      then (case free_page p s of Inl e \<Rightarrow> Some (Inl e) | Inr s' \<Rightarrow> free_range (p + PGSIZE) fin s')
      else Some (Inr s))"

definition create_freepage_list :: "u64 \<Rightarrow> u64 \<Rightarrow> 'z pmm_scheme \<Rightarrow> kerr + 'z pmm_scheme" where
  "create_freepage_list start fin s =
     (case free_range (ROUNDUP start PGSIZE) fin (s\<lparr>g_free_mem_list := 0\<rparr>) of
        None \<Rightarrow> Inl Spin | Some r \<Rightarrow> r)"

definition alloc_page :: "'z pmm_scheme \<Rightarrow> kerr + (u64 \<times> 'z pmm_scheme)" where
  "alloc_page s =
     kbind (sem_P_count_5 s) (\<lambda>s.
       let n = g_free_mem_list s in
       kbind (if n \<noteq> 0 then kbind (load n s) (\<lambda>nx. Inr (s\<lparr>g_free_mem_list := nx\<rparr>)) else Inr s)
         (\<lambda>s. Inr (n, sem_V_count_5 s)))"

partial_function (option) find_two ::
  "(u64 \<Rightarrow> kerr + u64) \<Rightarrow> u64 \<Rightarrow> (kerr + u64) option" where
  \<comment> \<open>the search loop of \<^verbatim>\<open>alloc_two_page\<close>; \<open>rd\<close> reads the \<^verbatim>\<open>next\<close> field of a node.
     The result is the final \<open>n\<close>.\<close>
  "find_two rd n =
     (case rd n of Inl e \<Rightarrow> Some (Inl e) | Inr n1 \<Rightarrow>
       (case rd n1 of Inl e \<Rightarrow> Some (Inl e) | Inr n2 \<Rightarrow>
          if n2 \<noteq> 0 \<and> n1 - PGSIZE \<noteq> n2 then find_two rd n1 else Some (Inr n)))"

definition alloc_two_page :: "'z pmm_scheme \<Rightarrow> kerr + (u64 \<times> 'z pmm_scheme)" where
  "alloc_two_page s =
     kbind (sem_P_count_5 s) (\<lambda>s.
     case find_two (\<lambda>a. load a s) (g_free_mem_list s) of
       None \<Rightarrow> Inl Spin
     | Some r \<Rightarrow> kbind r (\<lambda>n. kbind (load n s) (\<lambda>n1. kbind (load n1 s) (\<lambda>n2.
         if n2 = 0 then Inl (Panic ''alloc two page fault!'')
         else kbind (load n2 s) (\<lambda>n3. kbind (store n n3 s) (\<lambda>s. Inr (n2, sem_V_count_5 s)))))))"

definition pmm_init :: "u64 \<Rightarrow> 'z pmm_scheme \<Rightarrow> kerr + 'z pmm_scheme" where
  \<comment> \<open>\<open>kend\<close> is the linker symbol \<^verbatim>\<open>_end\<close>\<close>
  "pmm_init kend s =
     (let pke_kernel_size = kend - KERN_BASE;
          s = s\<lparr>free_mem_start_addr := ROUNDUP kend PGSIZE,
                g_mem_size := (if PKE_MAX_ALLOWABLE_RAM < g_mem_size s
                               then PKE_MAX_ALLOWABLE_RAM else g_mem_size s)\<rparr>
      in if g_mem_size s < pke_kernel_size
         then Inl (Panic ''Error when recomputing physical memory size (g_mem_size).'')
         else let s = s\<lparr>free_mem_end_addr := g_mem_size s + DRAM_BASE\<rparr>
              in create_freepage_list (free_mem_start_addr s) (free_mem_end_addr s) s)"

section \<open>The free list as a list of pages\<close>

fun freelist :: "(u64 \<Rightarrow> u64) \<Rightarrow> u64 \<Rightarrow> u64 list \<Rightarrow> bool" where
  "freelist m h [] \<longleftrightarrow> h = 0"
| "freelist m h (x # xs) \<longleftrightarrow> h = x \<and> x \<noteq> 0 \<and> freelist m (m x) xs"

definition managed :: "'z pmm_scheme \<Rightarrow> u64 \<Rightarrow> bool" where
  "managed s p \<longleftrightarrow> ram_page p \<and> free_mem_start_addr s \<le> p \<and> p < free_mem_end_addr s"

definition pmm_rel :: "'z pmm_scheme \<Rightarrow> u64 list \<Rightarrow> bool" where
  \<comment> \<open>the state represents the stack of free pages \<open>xs\<close>\<close>
  "pmm_rel s xs \<longleftrightarrow> freelist (mem s) (g_free_mem_list s) xs \<and> distinct xs \<and>
     (\<forall>x \<in> set xs. managed s x) \<and> count_5 s = 1"

fun take_two :: "u64 list \<Rightarrow> (u64 \<times> u64 list) option" where
  \<comment> \<open>specification of \<^verbatim>\<open>alloc_two_page\<close>: after the head, the first two neighbours in the
     list that are adjacent pages\<close>
  "take_two (n # n1 # n2 # r) =
     (if n1 - PGSIZE = n2 then Some (n2, n # r)
      else map_option (\<lambda>(p, r'). (p, n # r')) (take_two (n1 # n2 # r)))"
| "take_two _ = None"

definition pages :: "u64 \<Rightarrow> nat \<Rightarrow> u64 list" where
  "pages p k = map (\<lambda>i. p + of_nat i * 4096) [0..<k]"

lemma mem_ok_ram_page [simp]: "ram_page p \<Longrightarrow> mem_ok p"
  by (auto simp: mem_ok_def ram_page_unat word_unat_eq_iff unat_mod_distrib word_le_nat_alt
      word_less_nat_alt)

lemma mem_ok_not_0 [simp]: "\<not> mem_ok 0"
  by (simp add: mem_ok_def layout_defs)

lemma load_ok [simp]: "mem_ok a \<Longrightarrow> load a s = Inr (mem s a)"
  by (simp add: load_def)

lemma load_0 [simp]: "load 0 s = Inl (Fault ''load'')"
  by (simp add: load_def)

lemma store_ok [simp]: "mem_ok a \<Longrightarrow> store a v s = Inr (s\<lparr>mem := (mem s)(a := v)\<rparr>)"
  by (simp add: store_def)

lemma managed_ram [dest]: "managed s p \<Longrightarrow> ram_page p"
  by (simp add: managed_def)

lemma pmm_upd_commute:
  "s\<lparr>g_free_mem_list := h, mem := m\<rparr> = s\<lparr>mem := m, g_free_mem_list := h\<rparr>"
  by simp

lemma freelist_upd: "p \<notin> set xs \<Longrightarrow> freelist (m(p := v)) h xs = freelist m h xs"
  by (induction xs arbitrary: h) auto

lemma freelist_cong: "(\<And>x. x \<in> set xs \<Longrightarrow> m x = m' x) \<Longrightarrow> freelist m h xs = freelist m' h xs"
  by (induction xs arbitrary: h) auto

lemma pmm_rel_more_cong:
  "pmm_rel s xs \<Longrightarrow> (\<And>x. x \<in> set xs \<Longrightarrow> m x = mem s x) \<Longrightarrow> pmm_rel (s\<lparr>mem := m\<rparr>) xs"
  using freelist_cong [of xs m "mem s"] by (auto simp: pmm_rel_def managed_def)

lemma alloc_page_Nil: "pmm_rel s [] \<Longrightarrow> alloc_page s = Inr (0, s)"
  by (simp add: alloc_page_def sem_P_count_5_def sem_V_count_5_def pmm_rel_def)

lemma alloc_page_Cons:
  assumes "pmm_rel s (x # xs)"
  shows "alloc_page s = Inr (x, s\<lparr>g_free_mem_list := mem s x\<rparr>)"
    and "pmm_rel (s\<lparr>g_free_mem_list := mem s x\<rparr>) xs"
  using assms
  by (auto simp: alloc_page_def sem_P_count_5_def sem_V_count_5_def pmm_rel_def managed_def Let_def)

lemma free_page_managed:
  assumes "pmm_rel s xs" and "managed s p" and "p \<notin> set xs"
  shows "free_page p s = Inr (s\<lparr>mem := (mem s)(p := g_free_mem_list s), g_free_mem_list := p\<rparr>)"
    and "pmm_rel (s\<lparr>mem := (mem s)(p := g_free_mem_list s), g_free_mem_list := p\<rparr>) (p # xs)"
  using assms by (auto simp: free_page_def pmm_rel_def managed_def freelist_upd)

lemma take_two_mset:
  "take_two xs = Some (p, ys) \<Longrightarrow> mset xs = add_mset (p + PGSIZE) (add_mset p (mset ys))"
proof (induction xs arbitrary: p ys rule: take_two.induct)
  case (1 n n1 n2 r)
  show ?case
  proof (cases "n1 - PGSIZE = n2")
    case True
    with "1.prems" show ?thesis by auto
  next
    case False
    with "1.prems" obtain r' where t: "take_two (n1 # n2 # r) = Some (p, r')" and ys: "ys = n # r'"
      by auto
    show ?thesis using "1.IH" [OF False t] by (simp add: ys)
  qed
qed simp_all

lemma take_two_prefix:
  "take_two xs = Some (p, ys) \<Longrightarrow>
     \<exists>pre n rest. xs = pre @ n # (p + PGSIZE) # p # rest \<and> ys = pre @ n # rest"
proof (induction xs arbitrary: p ys rule: take_two.induct)
  case (1 n n1 n2 r)
  show ?case
  proof (cases "n1 - PGSIZE = n2")
    case True
    with "1.prems" have "n # n1 # n2 # r = [] @ n # (p + PGSIZE) # p # r" and "ys = [] @ n # r"
      by auto
    then show ?thesis by blast
  next
    case False
    with "1.prems" obtain r' where t: "take_two (n1 # n2 # r) = Some (p, r')" and ys: "ys = n # r'"
      by auto
    from "1.IH" [OF False t] obtain pre m rest where
      "n1 # n2 # r = pre @ m # (p + PGSIZE) # p # rest" and "r' = pre @ m # rest" by blast
    then have "n # n1 # n2 # r = (n # pre) @ m # (p + PGSIZE) # p # rest"
      and "ys = (n # pre) @ m # rest" by (simp_all add: ys)
    then show ?thesis by blast
  qed
qed simp_all

lemma find_two_list:
  assumes "freelist (mem s) h xs" and "\<forall>x \<in> set xs. mem_ok x" and "2 \<le> length xs"
  shows "\<exists>pre n n1 rest. xs = pre @ n # n1 # rest \<and> find_two (\<lambda>a. load a s) h = Some (Inr n) \<and>
     take_two xs = (case rest of [] \<Rightarrow> None | n2 # r \<Rightarrow> Some (n2, pre @ n # r))"
  using assms
proof (induction xs arbitrary: h)
  case (Cons a xs)
  then obtain b ys where xs: "xs = b # ys" by (cases xs) auto
  with Cons.prems have h: "h = a" "mem s a = b" "mem_ok a" "mem_ok b"
    and fl: "freelist (mem s) b xs" "freelist (mem s) (mem s b) ys" by auto
  show ?case
  proof (cases "ys = [] \<or> b - PGSIZE = hd ys")
    case True
    then have "find_two (\<lambda>a. load a s) h = Some (Inr a)"
      using h fl by (subst find_two.simps) (cases ys; simp)
    moreover have "take_two (a # xs) = (case ys of [] \<Rightarrow> None | n2 # r \<Rightarrow> Some (n2, [] @ a # r))"
      using True by (cases ys) (auto simp: xs)
    ultimately show ?thesis using xs 
      by (intro exI [of _ "[]"] exI [of _ a] exI [of _ b] exI [of _ ys]) simp
  next
    case False
    then obtain c r where ys: "ys = c # r" and c: "b - PGSIZE \<noteq> c" by (cases ys) auto
    have st: "find_two (\<lambda>a. load a s) h = find_two (\<lambda>a. load a s) b"
      using h fl c by (subst find_two.simps) (simp add: ys)
    from Cons.IH [OF fl(1)] Cons.prems obtain pre n n1 rest where
      IH: "xs = pre @ n # n1 # rest" "find_two (\<lambda>a. load a s) b = Some (Inr n)"
        "take_two xs = (case rest of [] \<Rightarrow> None | n2 # r \<Rightarrow> Some (n2, pre @ n # r))"
      by (auto simp: xs ys)
    have "take_two (a # xs) = (case rest of [] \<Rightarrow> None | n2 # r \<Rightarrow> Some (n2, (a # pre) @ n # r))"
      using IH(3) c by (cases rest) (simp_all add: xs ys)
    with IH(1,2) st show ?thesis by (intro exI [of _ "a # pre"]) auto
  qed
qed simp

lemma freelist_split:
  "freelist m h (pre @ n # rest) \<Longrightarrow> n \<noteq> 0 \<and> freelist m n (n # rest)"
  by (induction pre arbitrary: h) auto

lemma freelist_cut:
  "freelist m h (pre @ n # mid @ rest) \<Longrightarrow> distinct (pre @ n # mid @ rest) \<Longrightarrow>
     freelist m k rest \<Longrightarrow> freelist (m(n := k)) h (pre @ n # rest)"
proof (induction pre arbitrary: h)
  case Nil
  then have "freelist (m(n := k)) k rest" by (subst freelist_upd) auto
  with Nil show ?case by (simp add: fun_upd_def)
next
  case (Cons a pre)
  then show ?case by auto
qed

lemma alloc_two_page_spec:
  assumes rel: "pmm_rel s xs" and len: "2 \<le> length xs"
  shows "case take_two xs of
      None \<Rightarrow> alloc_two_page s = Inl (Panic ''alloc two page fault!'')
    | Some (p, ys) \<Rightarrow> \<exists>s'. alloc_two_page s = Inr (p, s') \<and> pmm_rel s' ys"
proof -
  let ?s = "s\<lparr>count_5 := 0\<rparr>"
  from rel have fl: "freelist (mem s) (g_free_mem_list s) xs" and d: "distinct xs"
    and mg: "\<forall>x \<in> set xs. managed s x" and c: "count_5 s = 1" by (auto simp: pmm_rel_def)
  then have ok: "\<forall>x \<in> set xs. mem_ok x" by (auto simp: managed_def)
  from find_two_list [of ?s "g_free_mem_list s" xs] fl ok len obtain pre n n1 rest where
    xs: "xs = pre @ n # n1 # rest"
    and ft: "find_two (\<lambda>a. load a ?s) (g_free_mem_list s) = Some (Inr n)"
    and tt: "take_two xs = (case rest of [] \<Rightarrow> None | n2 # r \<Rightarrow> Some (n2, pre @ n # r))"
    by auto
  from fl have nxt: "mem s n = n1" "freelist (mem s) (mem s n1) rest"
    using freelist_split [of "mem s" _ pre n "n1 # rest"] by (auto simp: xs)
  from ok have okn: "mem_ok n" "mem_ok n1" by (auto simp: xs)
  note unf = alloc_two_page_def sem_P_count_5_def c ft
  show ?thesis
  proof (cases rest)
    case Nil
    then show ?thesis using nxt okn by (simp add: tt unf)
  next
    case (Cons n2 r)
    with nxt have r: "mem s n1 = n2" "n2 \<noteq> 0" "freelist (mem s) (mem s n2) r" by auto
    let ?t = "s\<lparr>mem := (mem s)(n := mem s n2)\<rparr>"
    have "mem_ok n2" using ok by (simp add: xs Cons)
    then have "alloc_two_page s = Inr (n2, ?t)"
      using nxt okn r c by (simp add: unf sem_V_count_5_def)
    moreover have "freelist ((mem s)(n := mem s n2)) (g_free_mem_list s) (pre @ n # r)"
      using freelist_cut [of "mem s" _ pre n "[n1, n2]" r] fl d r(3) by (simp add: xs Cons)
    then have "pmm_rel ?t (pre @ n # r)"
      using d mg c by (auto simp: pmm_rel_def managed_def xs Cons)
    ultimately show ?thesis by (simp add: tt Cons)
  qed
qed

section \<open>Building the free list\<close>

lemma pages_0 [simp]: "pages p 0 = []"
  by (simp add: pages_def)

lemma pages_Suc: "pages p (Suc k) = p # pages (p + 4096) k"
  by (simp add: pages_def map_upt_Suc algebra_simps del: upt_Suc)

lemma length_pages [simp]: "length (pages p k) = k"
  by (simp add: pages_def)

lemma set_pages_bound:
  "x \<in> set (pages p k) \<Longrightarrow> unat p + 4096 * k < 2 ^ 64 \<Longrightarrow>
     unat p \<le> unat x \<and> unat x + 4096 \<le> unat p + 4096 * k"
proof (induction k arbitrary: p)
  case (Suc k)
  have u: "unat (p + 4096) = unat p + 4096"
    using Suc.prems(2) by (subst unat_plus_small) simp_all
  show ?case
  proof (cases "x = p")
    case False
    with Suc.prems have "x \<in> set (pages (p + 4096) k)" by (simp add: pages_Suc)
    from Suc.IH [OF this] Suc.prems(2) u show ?thesis by simp
  qed simp
qed simp

definition page_count :: "u64 \<Rightarrow> u64 \<Rightarrow> nat" where
  \<comment> \<open>how many pages the loop of \<^verbatim>\<open>create_freepage_list\<close> frees from \<open>p\<close>\<close>
  "page_count p fin = (unat fin - unat p - 1) div 4096"

lemma free_range_pages:
  assumes "pmm_rel s xs" and "page_aligned p" and "DRAM_BASE \<le> p" and "p \<le> PHYS_TOP"
    and "free_mem_start_addr s \<le> p" and "free_mem_end_addr s = fin" and "fin \<le> PHYS_TOP"
    and "\<forall>x \<in> set xs. x < p" and "k = page_count p fin"
  shows "\<exists>s'. free_range p fin s = Some (Inr s') \<and> pmm_rel s' (rev (pages p k) @ xs) \<and>
     free_mem_start_addr s' = free_mem_start_addr s \<and> free_mem_end_addr s' = fin \<and>
     g_mem_size s' = g_mem_size s"
  using assms
proof (induction k arbitrary: p s xs)
  case 0
  have "unat (p + PGSIZE) = unat p + 4096"
    using "0.prems"(4) by (subst unat_plus_small) (simp_all add: word_le_nat_alt)
  moreover have "unat fin \<le> unat p + 4096"
    using "0.prems"(9) by (simp add: page_count_def div_eq_0_iff)
  ultimately have "\<not> p + PGSIZE < fin" by (simp add: word_less_nat_alt)
  then show ?case using "0.prems" by (subst free_range.simps) simp
next
  case (Suc k)
  have u: "unat (p + PGSIZE) = unat p + 4096"
    using Suc.prems(4) by (subst unat_plus_small) (simp_all add: word_le_nat_alt)
  have e: "unat p + 4096 < unat fin" and k: "k = page_count (p + PGSIZE) fin"
    using Suc.prems(9) by (simp_all add: page_count_def u)
  have le: "unat fin \<le> 2281701376" using Suc.prems(7) by (simp add: word_le_nat_alt)
  have mg: "managed s p"
    using Suc.prems(2,3,5,6) e le
    by (simp add: managed_def ram_page_def word_less_nat_alt)
  have np: "p \<notin> set xs" using Suc.prems(8) by auto
  let ?t = "s\<lparr>mem := (mem s)(p := g_free_mem_list s), g_free_mem_list := p\<rparr>"
  have st: "free_range p fin s = free_range (p + PGSIZE) fin ?t"
    using e u free_page_managed(1) [OF Suc.prems(1) mg np]
    by (subst free_range.simps) (simp add: word_less_nat_alt)
  have "\<exists>s'. free_range (p + PGSIZE) fin ?t = Some (Inr s') \<and>
      pmm_rel s' (rev (pages (p + PGSIZE) k) @ p # xs) \<and>
      free_mem_start_addr s' = free_mem_start_addr ?t \<and> free_mem_end_addr s' = fin \<and>
      g_mem_size s' = g_mem_size ?t"
  proof (rule Suc.IH [OF free_page_managed(2) [OF Suc.prems(1) mg np] _ _ _ _ _ Suc.prems(7) _ k])
    show "page_aligned (p + PGSIZE)"
      using Suc.prems(2) by (simp add: page_aligned_unat u)
    show "DRAM_BASE \<le> p + PGSIZE" "p + PGSIZE \<le> PHYS_TOP" "free_mem_start_addr ?t \<le> p + PGSIZE"
      using Suc.prems(3,5) e le by (simp_all add: word_le_nat_alt u)
    show "free_mem_end_addr ?t = fin" using Suc.prems(6) by simp
    show "\<forall>x \<in> set (p # xs). x < p + PGSIZE"
      using Suc.prems(8) u by (auto simp: word_less_nat_alt)
  qed
  then show ?case using st by (simp add: pages_Suc PGSIZE_def)
qed

lemma pmm_init_rel:
  assumes k: "KERN_BASE < kend" "kend \<le> PHYS_TOP" and c: "count_5 s = 1"
    and sz: "kend - KERN_BASE \<le> g_mem_size s"
    and S: "start = ROUNDUP kend PGSIZE"
    and E: "fin = (if PKE_MAX_ALLOWABLE_RAM < g_mem_size s then PKE_MAX_ALLOWABLE_RAM
                   else g_mem_size s) + DRAM_BASE"
  shows "\<exists>s'. pmm_init kend s = Inr s' \<and> pmm_rel s' (rev (pages start (page_count start fin))) \<and>
     free_mem_start_addr s' = start \<and> free_mem_end_addr s' = fin"
proof -
  let ?g = "if PKE_MAX_ALLOWABLE_RAM < g_mem_size s then PKE_MAX_ALLOWABLE_RAM else g_mem_size s"
  have kk: "2147483648 < unat kend" "unat kend \<le> 2281701376"
    using k by (simp_all add: word_le_nat_alt word_less_nat_alt KERN_BASE_def)
  have ks: "unat (kend - KERN_BASE) = unat kend - 2147483648"
    using kk by (simp add: unat_sub word_le_nat_alt KERN_BASE_def)
  have g: "kend - KERN_BASE \<le> ?g" "unat ?g \<le> 134217728"
    using sz kk ks by (auto simp: word_le_nat_alt word_less_nat_alt PKE_MAX_ALLOWABLE_RAM_def)
  have e: "fin \<le> PHYS_TOP"
    using g(2) unfolding E by (simp add: word_le_nat_alt unat_plus_small)
  have st: "unat start = ((unat kend - 1) div 4096 + 1) * 4096"
    unfolding S using kk by (subst unat_ROUNDUP) simp_all
  have s1: "page_aligned start" "DRAM_BASE \<le> start" "start \<le> PHYS_TOP"
    using kk by (auto simp: page_aligned_unat word_le_nat_alt st)
  define t where "t = s\<lparr>free_mem_start_addr := start, g_mem_size := ?g, free_mem_end_addr := fin,
    g_free_mem_list := 0\<rparr>"
  have "pmm_init kend s = create_freepage_list start fin (t\<lparr>g_free_mem_list := g_free_mem_list s\<rparr>)"
    using g(1) by (auto simp: pmm_init_def Let_def S E t_def not_less split: if_splits)
  moreover have "ROUNDUP start PGSIZE = start"
    using kk by (simp add: word_unat_eq_iff unat_ROUNDUP st)
  moreover have "\<exists>s'. free_range start fin t = Some (Inr s') \<and>
      pmm_rel s' (rev (pages start (page_count start fin)) @ []) \<and>
      free_mem_start_addr s' = free_mem_start_addr t \<and> free_mem_end_addr s' = fin \<and>
      g_mem_size s' = g_mem_size t"
    by (rule free_range_pages [OF _ s1]) (auto simp: pmm_rel_def t_def c e)
  ultimately show ?thesis
    by (auto simp: create_freepage_list_def t_def)
qed

section \<open>The contract of the allocator\<close>

primrec alloc_n :: "('s \<Rightarrow> kerr + (u64 \<times> 's)) \<Rightarrow> nat \<Rightarrow> 's \<Rightarrow> kerr + (u64 list \<times> 's)" where
  "alloc_n alloc 0 s = Inr ([], s)"
| "alloc_n alloc (Suc n) s =
     kbind (alloc s) (\<lambda>(p, s). kbind (alloc_n alloc n s) (\<lambda>(ps, s). Inr (p # ps, s)))"

locale page_stack =
  fixes alloc :: "'s \<Rightarrow> kerr + (u64 \<times> 's)"
    and free :: "u64 \<Rightarrow> 's \<Rightarrow> kerr + 's"
    and rel :: "'s \<Rightarrow> u64 list \<Rightarrow> bool"
    and own :: "'s \<Rightarrow> u64 \<Rightarrow> bool"
  assumes alloc_Nil: "rel s [] \<Longrightarrow> alloc s = Inr (0, s)"
    and alloc_Cons: "rel s (x # xs) \<Longrightarrow> \<exists>s'. alloc s = Inr (x, s') \<and> rel s' xs \<and> own s' = own s"
    and free_push: "rel s xs \<Longrightarrow> own s p \<Longrightarrow> p \<notin> set xs \<Longrightarrow>
      \<exists>s'. free p s = Inr s' \<and> rel s' (p # xs) \<and> own s' = own s"
    and rel_own: "rel s xs \<Longrightarrow> p \<in> set xs \<Longrightarrow> own s p"
    and rel_distinct: "rel s xs \<Longrightarrow> distinct xs"
    and own_nonzero: "own s p \<Longrightarrow> p \<noteq> 0"
begin

lemma alloc_cases:
  assumes "rel s xs"
  shows "case xs of [] \<Rightarrow> alloc s = Inr (0, s)
    | x # ys \<Rightarrow> \<exists>s'. alloc s = Inr (x, s') \<and> rel s' ys \<and> x \<noteq> 0 \<and> x \<notin> set ys"
proof (cases xs)
  case (Cons x ys)
  then have "x \<noteq> 0" "x \<notin> set ys"
    using assms rel_own [of s xs x] rel_distinct [of s xs] own_nonzero by auto
  with alloc_Cons [of s x ys] assms show ?thesis by (auto simp: Cons)
qed (use assms in \<open>simp add: alloc_Nil\<close>)

lemma alloc_n_take:
  "rel s (xs @ ys) \<Longrightarrow> \<exists>s'. alloc_n alloc (length xs) s = Inr (xs, s') \<and> rel s' ys"
proof (induction xs arbitrary: s)
  case (Cons x xs)
  then obtain t where "alloc s = Inr (x, t)" "rel t (xs @ ys)"
    using alloc_Cons [of s x "xs @ ys"] by auto
  with Cons.IH [of t] show ?case by auto
qed simp

lemma free_alloc:
  assumes "rel s xs" and "own s p" and "p \<notin> set xs"
  shows "\<exists>s1 s2. free p s = Inr s1 \<and> alloc s1 = Inr (p, s2) \<and> rel s2 xs"
proof -
  from free_push [OF assms] obtain s1 where "free p s = Inr s1" "rel s1 (p # xs)" by blast
  with alloc_Cons [of s1 p xs] show ?thesis by blast
qed

lemma alloc_free:
  assumes "rel s (x # xs)"
  shows "\<exists>s1 s2. alloc s = Inr (x, s1) \<and> free x s1 = Inr s2 \<and> rel s2 (x # xs)"
proof -
  from alloc_Cons [OF assms] obtain s1 where
    s1: "alloc s = Inr (x, s1)" "rel s1 xs" "own s1 = own s" by blast
  have "own s1 x" "x \<notin> set xs"
    using rel_own [OF assms] rel_distinct [OF assms] s1(3) by auto
  with free_push [OF s1(2)] s1(1) show ?thesis by blast
qed

end

interpretation pm: page_stack alloc_page free_page pmm_rel managed
proof (unfold_locales, goal_cases)
  case (1 s) then show ?case by (rule alloc_page_Nil)
next
  case (2 s x xs)
  then show ?case using alloc_page_Cons [of s x xs] by (auto simp: managed_def)
next
  case (3 s xs p)
  then show ?case using free_page_managed [of s xs p] by (auto simp: managed_def)
qed (auto simp: pmm_rel_def managed_def)

section \<open>Properties\<close>

text \<open>C22: \<^verbatim>\<open>alloc_page\<close> pops the stack of free pages: on an empty free list it returns NULL and
  changes nothing, otherwise it returns the first free page, which is not NULL, and the state
  then represents the remaining pages, none of which is the page handed out.\<close>

theorem alloc_page_pops:
  assumes "pmm_rel s xs"
  shows "case xs of [] \<Rightarrow> alloc_page s = Inr (0, s)
    | x # ys \<Rightarrow> \<exists>s'. alloc_page s = Inr (x, s') \<and> pmm_rel s' ys \<and> x \<noteq> 0 \<and> x \<notin> set ys"
  by (rule pm.alloc_cases [OF assms])

text \<open>\<^verbatim>\<open>free_page\<close> followed by \<^verbatim>\<open>alloc_page\<close> is a round trip: a managed page that is not
  already free is pushed, and the next allocation returns exactly that page and leaves the free
  list as it was.\<close>

lemma free_page_alloc_page:
  assumes "pmm_rel s xs" and "managed s p" and "p \<notin> set xs"
  shows "\<exists>s1 s2. free_page p s = Inr s1 \<and> alloc_page s1 = Inr (p, s2) \<and> pmm_rel s2 xs"
  by (rule pm.free_alloc [OF assms])

text \<open>\<^verbatim>\<open>alloc_two_page\<close> returns two physically adjacent free pages and takes exactly these
  two out of the free list, or panics when the list holds no such neighbours; it is specified
  by the list function \<open>take_two\<close>.\<close>

lemma alloc_two_page_adjacent:
  assumes "pmm_rel s xs" and "2 \<le> length xs"
  shows "case take_two xs of
      None \<Rightarrow> alloc_two_page s = Inl (Panic ''alloc two page fault!'')
    | Some (p, ys) \<Rightarrow> \<exists>s'. alloc_two_page s = Inr (p, s') \<and> pmm_rel s' ys \<and>
        mset xs = add_mset (p + PGSIZE) (add_mset p (mset ys))"
  using alloc_two_page_spec [OF assms] take_two_mset [of xs]
  by (auto split: option.splits)

text \<open>After \<^verbatim>\<open>pmm_init\<close> the free list holds the pages from the end of the kernel image
  upwards in descending order, so that any number of allocations in a row (as for the RAM disk)
  returns physically contiguous pages, each 4096 below the one before.\<close>

lemma pmm_init_contiguous:
  assumes "KERN_BASE < kend" and "kend \<le> PHYS_TOP" and "count_5 s = 1"
    and "kend - KERN_BASE \<le> g_mem_size s"
    and "fin = (if PKE_MAX_ALLOWABLE_RAM < g_mem_size s then PKE_MAX_ALLOWABLE_RAM
                else g_mem_size s) + DRAM_BASE"
    and "n \<le> page_count (ROUNDUP kend PGSIZE) fin"
  shows "\<exists>s1 s2 ps. pmm_init kend s = Inr s1 \<and> alloc_n alloc_page n s1 = Inr (ps, s2) \<and>
     length ps = n \<and> (\<forall>i. Suc i < n \<longrightarrow> ps ! i - ps ! Suc i = PGSIZE)"
proof -
  define k where "k = page_count (ROUNDUP kend PGSIZE) fin"
  define L where "L = rev (pages (ROUNDUP kend PGSIZE) k)"
  from pmm_init_rel [OF assms(1-4) refl assms(5)] obtain s1 where
    s1: "pmm_init kend s = Inr s1" "pmm_rel s1 (take n L @ drop n L)" by (auto simp: L_def k_def)
  from pm.alloc_n_take [OF s1(2)] assms(6) obtain s2 where
    s2: "alloc_n alloc_page n s1 = Inr (take n L, s2)" by (auto simp: L_def k_def)
  have "L ! i - L ! Suc i = PGSIZE" if "Suc i < n" for i
  proof -
    from that assms(6) have "Suc i < k" by (simp add: k_def)
    moreover from this have "k - Suc i = Suc (k - Suc (Suc i))" by simp
    ultimately show ?thesis by (simp add: L_def rev_nth pages_def PGSIZE_def algebra_simps)
  qed
  then have "\<forall>i. Suc i < n \<longrightarrow> take n L ! i - take n L ! Suc i = PGSIZE" by simp
  moreover have "length (take n L) = n" using assms(6) by (simp add: L_def k_def)
  ultimately show ?thesis using s1(1) s2 by blast
qed

section \<open>Witnesses\<close>

definition demo_pmm :: pmm where
  \<comment> \<open>a memory with three free pages\<close>
  "demo_pmm = \<lparr>mem = (\<lambda>a. if a = 0x80204000 then 0x80203000
                          else if a = 0x80203000 then 0x80202000 else 0),
     free_mem_start_addr = 0x80200000, free_mem_end_addr = 0x88000000,
     g_free_mem_list = 0x80204000, g_mem_size = 0x8000000, count_5 = 1\<rparr>"

lemma demo_pmm_rel: "pmm_rel demo_pmm [0x80204000, 0x80203000, 0x80202000]"
  by (simp add: demo_pmm_def pmm_rel_def managed_def ram_page_def page_aligned_def layout_defs)

theorem alloc_page_pops_witness:
  "\<exists>s'. alloc_page demo_pmm = Inr (0x80204000, s') \<and> pmm_rel s' [0x80203000, 0x80202000]"
  using alloc_page_pops [OF demo_pmm_rel] by auto

lemma free_page_alloc_page_example:
  "\<exists>s1 s2. free_page 0x80300000 demo_pmm = Inr s1 \<and> alloc_page s1 = Inr (0x80300000, s2)"
  using free_page_alloc_page [OF demo_pmm_rel, of "0x80300000"]
  by (auto simp: demo_pmm_def managed_def ram_page_def page_aligned_def layout_defs)

lemma alloc_two_page_adjacent_example:
  "\<exists>s'. alloc_two_page demo_pmm = Inr (0x80202000, s') \<and> pmm_rel s' [0x80204000]"
  using alloc_two_page_adjacent [OF demo_pmm_rel] by (simp add: PGSIZE_def)

lemma pmm_init_contiguous_example:
  "\<exists>s1 s2 ps. pmm_init 0x80200000 demo_pmm = Inr s1 \<and> alloc_n alloc_page 128 s1 = Inr (ps, s2) \<and>
     length ps = 128 \<and> (\<forall>i. Suc i < 128 \<longrightarrow> ps ! i - ps ! Suc i = PGSIZE)"
  by (rule pmm_init_contiguous [where fin = "0x88000000"])
    (simp_all add: demo_pmm_def layout_defs page_count_def ROUNDUP_def)

end
