(* ===== verification/Vmm.thy ===== *)
theory Vmm
  imports Pmm
begin

text \<open>
  Sv39 page tables (\<^verbatim>\<open>kernel/vmm.c\<close>, macros of \<^verbatim>\<open>kernel/riscv.h\<close>).  Page tables live in the
  physical memory of the manager below and their pages come from its free list; pointers to
  entries are physical addresses.  \<open>pte_of\<close> is the abstract address space (the leaf entry of
  every virtual address); the invariant \<open>pt_ok\<close> says that the tables form a tree of distinct
  RAM pages disjoint from the free list.
\<close>

record vmm = pmm +
  g_kernel_pagetable :: u64

section \<open>Macros\<close>

definition PTE_V :: u64 where "PTE_V = 1"
definition PTE_R :: u64 where "PTE_R = 2"
definition PTE_W :: u64 where "PTE_W = 4"
definition PTE_X :: u64 where "PTE_X = 8"
definition PTE_U :: u64 where "PTE_U = 16"
definition PTE_A :: u64 where "PTE_A = 64"
definition PTE_D :: u64 where "PTE_D = 128"
definition PTE_C :: u64 where "PTE_C = 256"

lemmas PTE_defs = PTE_V_def PTE_R_def PTE_W_def PTE_X_def PTE_U_def PTE_A_def PTE_D_def PTE_C_def

definition PA2PTE :: "u64 \<Rightarrow> u64" where "PA2PTE pa = push_bit 10 (drop_bit 12 pa)"
definition PTE2PA :: "u64 \<Rightarrow> u64" where "PTE2PA pte = push_bit 12 (drop_bit 10 pte)"
definition PXSHIFT :: "nat \<Rightarrow> nat" where "PXSHIFT level = 12 + 9 * level"
definition PX :: "nat \<Rightarrow> u64 \<Rightarrow> u64" where "PX level va = drop_bit (PXSHIFT level) va AND 0x1FF"
definition MAXVA :: u64 where "MAXVA = push_bit (9 + 9 + 9 + 12 - 1) 1"

definition PROT_READ :: u64 where "PROT_READ = 1"
definition PROT_WRITE :: u64 where "PROT_WRITE = 2"
definition PROT_EXEC :: u64 where "PROT_EXEC = 4"
definition PROT_COW :: u64 where "PROT_COW = 8"

lemmas PROT_defs = PROT_READ_def PROT_WRITE_def PROT_EXEC_def PROT_COW_def

section \<open>The routines of vmm.c\<close>

definition prot_to_type :: "u64 \<Rightarrow> bool \<Rightarrow> u64" where
  "prot_to_type prot user =
     (let perm = 0;
          perm = (if prot AND PROT_READ \<noteq> 0 then perm OR (PTE_R OR PTE_A) else perm);
          perm = (if prot AND PROT_WRITE \<noteq> 0 then perm OR (PTE_W OR PTE_D) else perm);
          perm = (if prot AND PROT_EXEC \<noteq> 0 then perm OR (PTE_X OR PTE_A) else perm);
          perm = (if perm = 0 then PTE_R else perm);
          perm = (if prot AND PROT_COW \<noteq> 0 then perm OR (PTE_C OR PTE_A) else perm)
      in if user then perm OR PTE_U else perm)"

definition walk_level ::
  "nat \<Rightarrow> u64 \<Rightarrow> bool \<Rightarrow> u64 \<Rightarrow> 'z pmm_scheme \<Rightarrow> kerr + (u64 option \<times> 'z pmm_scheme)" where
  \<comment> \<open>one turn of the loop of \<^verbatim>\<open>page_walk\<close>; \<open>None\<close> is its early \<^verbatim>\<open>return 0\<close>\<close>
  "walk_level level va alloc pt s =
     (let pte = pt + 8 * PX level va in
      kbind (load pte s) (\<lambda>v.
        if v AND PTE_V \<noteq> 0 then Inr (Some (PTE2PA v), s)
        else if alloc then
          kbind (alloc_page s) (\<lambda>(p, s).
            if p \<noteq> 0 then
              kbind (memset_page p s) (\<lambda>s.
              kbind (store pte (PA2PTE p OR PTE_V) s) (\<lambda>s. Inr (Some p, s)))
            else Inr (None, s))
        else Inr (None, s)))"

definition page_walk ::
  "u64 \<Rightarrow> u64 \<Rightarrow> bool \<Rightarrow> 'z pmm_scheme \<Rightarrow> kerr + (u64 \<times> 'z pmm_scheme)" where
  "page_walk page_dir va alloc s =
     (if va \<ge> MAXVA then Inl (Panic ''page_walk'')
      else kbind (walk_level 2 va alloc page_dir s) (\<lambda>(r, s).
        case r of None \<Rightarrow> Inr (0, s)
        | Some pt \<Rightarrow> kbind (walk_level 1 va alloc pt s) (\<lambda>(r, s).
            case r of None \<Rightarrow> Inr (0, s)
            | Some pt \<Rightarrow> Inr (pt + 8 * PX 0 va, s))))"

lemma page_walk_MAXVA: "page_walk pd va alloc s = Inr r \<Longrightarrow> va < MAXVA"
  by (simp add: page_walk_def split: if_splits)

lemma unat_MAXVA [simp]: "unat MAXVA = 2 ^ 38"
  by (simp add: MAXVA_def)

function map_pages_loop ::
  "u64 \<Rightarrow> u64 \<Rightarrow> u64 \<Rightarrow> u64 \<Rightarrow> u64 \<Rightarrow> 'z pmm_scheme \<Rightarrow> kerr + (int \<times> 'z pmm_scheme)" where
  \<comment> \<open>the two loops of \<^verbatim>\<open>map_pages\<close>, which differ in the bits they add to the entry\<close>
  "map_pages_loop page_dir first vlast pa bits s =
     (if first \<le> vlast then
        kbind (page_walk page_dir first True s) (\<lambda>(pte, s).
          if pte = 0 then Inr (- 1, s)
          else kbind (load pte s) (\<lambda>v.
            if v AND PTE_V \<noteq> 0 then Inl (Panic ''map_pages fails!'')
            else kbind (store pte (PA2PTE pa OR bits) s) (\<lambda>s.
              map_pages_loop page_dir (first + PGSIZE) vlast (pa + PGSIZE) bits s)))
      else Inr (0, s))"
  by pat_completeness auto
termination
proof (relation "measure (\<lambda>(pd, first, vlast, pa, bits, s). 2 ^ 38 - unat first)", goal_cases)
  case (2 page_dir first vlast pa bits s x pte s1 v s2)
  then have "first < MAXVA" by (auto dest: page_walk_MAXVA)
  then have "unat first < 2 ^ 38" by (simp add: word_less_nat_alt)
  moreover from this have "unat (first + PGSIZE) = unat first + 4096"
    by (subst unat_plus_small) simp_all
  ultimately show ?case by simp
qed simp

declare map_pages_loop.simps [simp del]

definition map_pages ::
  "u64 \<Rightarrow> u64 \<Rightarrow> u64 \<Rightarrow> u64 \<Rightarrow> u64 \<Rightarrow> 'z pmm_scheme \<Rightarrow> kerr + (int \<times> 'z pmm_scheme)" where
  "map_pages page_dir va sz pa perm s =
     kbind (page_walk page_dir va True s) (\<lambda>(pte, s).
     kbind (load pte s) (\<lambda>v.
       let first = ROUNDDOWN va PGSIZE; vlast = ROUNDDOWN (va + sz - 1) PGSIZE in
       if v = 0x100 then map_pages_loop page_dir first vlast pa (perm OR PTE_V OR 0x100) s
       else map_pages_loop page_dir first vlast pa (perm OR PTE_V) s))"

definition lookup_pa :: "u64 \<Rightarrow> u64 \<Rightarrow> 'z pmm_scheme \<Rightarrow> kerr + u64" where
  "lookup_pa pagetable va s =
     (if va \<ge> MAXVA then Inr 0
      else kbind (page_walk pagetable va False s) (\<lambda>(pte, s).
        if pte = 0 then Inr 0
        else kbind (load pte s) (\<lambda>v.
          if v AND PTE_V = 0 \<or> v AND PTE_R = 0 \<and> v AND PTE_W = 0 then Inr 0
          else Inr (PTE2PA v))))"

definition kern_vm_map ::
  "u64 \<Rightarrow> u64 \<Rightarrow> u64 \<Rightarrow> u64 \<Rightarrow> u64 \<Rightarrow> 'z pmm_scheme \<Rightarrow> kerr + 'z pmm_scheme" where
  "kern_vm_map page_dir va pa sz perm s =
     kbind (map_pages page_dir va sz pa perm s) (\<lambda>(r, s).
       if r \<noteq> 0 then Inl (Panic ''kern_vm_map'') else Inr s)"

definition kern_vm_init :: "u64 \<Rightarrow> 'z vmm_scheme \<Rightarrow> kerr + 'z vmm_scheme" where
  \<comment> \<open>\<open>etext\<close> is the linker symbol \<^verbatim>\<open>_etext\<close>; the two lookups of the source only print\<close>
  "kern_vm_init etext s =
     kbind (alloc_page s) (\<lambda>(t_page_dir, s).
     kbind (memset_page t_page_dir s) (\<lambda>s.
     kbind (kern_vm_map t_page_dir KERN_BASE DRAM_BASE (etext - KERN_BASE)
             (prot_to_type (PROT_READ OR PROT_EXEC) False) s) (\<lambda>s.
     kbind (lookup_pa t_page_dir KERN_BASE s) (\<lambda>_.
     kbind (kern_vm_map t_page_dir etext etext (PHYS_TOP - etext)
             (prot_to_type (PROT_READ OR PROT_WRITE) False) s) (\<lambda>s.
     kbind (lookup_pa t_page_dir etext s) (\<lambda>_.
       Inr (s\<lparr>g_kernel_pagetable := t_page_dir\<rparr>)))))))"

definition user_va_to_pa :: "u64 \<Rightarrow> u64 \<Rightarrow> 'z pmm_scheme \<Rightarrow> kerr + u64" where
  "user_va_to_pa page_dir va s =
     kbind (lookup_pa page_dir va s) (\<lambda>pa. Inr (pa + (va AND 0xfff)))"

definition user_vm_map ::
  "u64 \<Rightarrow> u64 \<Rightarrow> u64 \<Rightarrow> u64 \<Rightarrow> u64 \<Rightarrow> 'z pmm_scheme \<Rightarrow> kerr + 'z pmm_scheme" where
  "user_vm_map page_dir va sz pa perm s =
     kbind (map_pages page_dir va sz pa perm s) (\<lambda>(r, s).
       if r \<noteq> 0 then Inl (Panic ''fail to user_vm_map .'') else Inr s)"

definition user_vm_unmap ::
  "u64 \<Rightarrow> u64 \<Rightarrow> u64 \<Rightarrow> bool \<Rightarrow> 'z pmm_scheme \<Rightarrow> kerr + 'z pmm_scheme" where
  "user_vm_unmap page_dir va sz free s =
     (if free then
        kbind (page_walk page_dir va False s) (\<lambda>(pte, s).
        kbind (user_va_to_pa page_dir va s) (\<lambda>pa.
        kbind (free_page pa s) (\<lambda>s.
        kbind (load pte s) (\<lambda>v. store pte (v AND NOT PTE_V) s))))
      else Inr s)"

end
