(* ===== verification/CString.thy ===== *)
theory CString
  imports KPrelude
begin

text \<open>
  The string and memory routines of \<^verbatim>\<open>util/string.c\<close> over a byte memory.  Pointers are natural
  numbers: a pointer into one C object never wraps.  Loops that only end at a terminating NUL
  are \<open>partial_function (option)\<close>, so that not returning is a value; the theorems prove that
  they return on every terminated string.
\<close>

type_synonym bytes = "nat \<Rightarrow> u8"

section \<open>Words in memory\<close>

definition load_word :: "bytes \<Rightarrow> nat \<Rightarrow> u64" where
  \<comment> \<open>the little-endian \<^verbatim>\<open>uintptr_t\<close> at an address\<close>
  "load_word m p =
     ucast (m p) OR push_bit 8 (ucast (m (p + 1))) OR push_bit 16 (ucast (m (p + 2))) OR
     push_bit 24 (ucast (m (p + 3))) OR push_bit 32 (ucast (m (p + 4))) OR
     push_bit 40 (ucast (m (p + 5))) OR push_bit 48 (ucast (m (p + 6))) OR
     push_bit 56 (ucast (m (p + 7)))"

definition store_word :: "bytes \<Rightarrow> nat \<Rightarrow> u64 \<Rightarrow> bytes" where
  "store_word m p w =
     (\<lambda>a. if p \<le> a \<and> a < p + 8 then ucast (drop_bit (8 * (a - p)) w) else m a)"

section \<open>The routines of string.c\<close>

function copy_words :: "bytes \<Rightarrow> nat \<Rightarrow> nat \<Rightarrow> nat \<Rightarrow> bytes \<times> nat \<times> nat" where
  \<comment> \<open>the word loop of \<^verbatim>\<open>memcpy\<close>: runs while a whole word fits below \<open>fin = dest + len\<close>\<close>
  "copy_words m d s fin =
     (if d < fin - 7 then copy_words (store_word m d (load_word m s)) (d + 8) (s + 8) fin
      else (m, d, s))"
  by pat_completeness auto
termination by (relation "measure (\<lambda>(m, d, s, fin). fin - d)") auto

function copy_bytes :: "bytes \<Rightarrow> nat \<Rightarrow> nat \<Rightarrow> nat \<Rightarrow> bytes" where
  "copy_bytes m d s fin =
     (if d < fin then copy_bytes (m(d := m s)) (d + 1) (s + 1) fin else m)"
  by pat_completeness auto
termination by (relation "measure (\<lambda>(m, d, s, fin). fin - d)") auto

definition memcpy :: "bytes \<Rightarrow> nat \<Rightarrow> nat \<Rightarrow> nat \<Rightarrow> bytes" where
  "memcpy m dest src len =
     (if (dest OR src) AND 7 = 0
      then (let (m, d, s) = copy_words m dest src (dest + len) in copy_bytes m d s (dest + len))
      else copy_bytes m dest src (dest + len))"

function set_words :: "bytes \<Rightarrow> nat \<Rightarrow> nat \<Rightarrow> u64 \<Rightarrow> bytes" where
  "set_words m d fin w = (if d < fin then set_words (store_word m d w) (d + 8) fin w else m)"
  by pat_completeness auto
termination by (relation "measure (\<lambda>(m, d, fin, w). fin - d)") auto

function set_bytes :: "bytes \<Rightarrow> nat \<Rightarrow> nat \<Rightarrow> u8 \<Rightarrow> bytes" where
  "set_bytes m d fin b = (if d < fin then set_bytes (m(d := b)) (d + 1) fin b else m)"
  by pat_completeness auto
termination by (relation "measure (\<lambda>(m, d, fin, b). fin - d)") auto

definition memset :: "bytes \<Rightarrow> nat \<Rightarrow> u32 \<Rightarrow> nat \<Rightarrow> bytes" where
  "memset m dest byte len =
     (if (dest OR len) AND 7 = 0
      then let word = ucast (byte AND 0xFF) :: u64;
               word = word OR push_bit 8 word;
               word = word OR push_bit 16 word;
               word = word OR push_bit 16 (push_bit 16 word)
           in set_words m dest (dest + len) word
      else set_bytes m dest (dest + len) (ucast byte))"

partial_function (option) strlen_from :: "bytes \<Rightarrow> nat \<Rightarrow> nat \<Rightarrow> nat option" where
  "strlen_from m s p = (if m p \<noteq> 0 then strlen_from m s (p + 1) else Some (p - s))"

definition strlen :: "bytes \<Rightarrow> nat \<Rightarrow> nat option" where
  "strlen m s = strlen_from m s s"

partial_function (option) strcmp :: "bytes \<Rightarrow> nat \<Rightarrow> nat \<Rightarrow> int option" where
  "strcmp m s1 s2 =
     (let c1 = m s1; c2 = m s2 in
      if c1 \<noteq> 0 \<and> c1 = c2 then strcmp m (s1 + 1) (s2 + 1) else Some (uint c1 - uint c2))"

partial_function (option) strcpy :: "bytes \<Rightarrow> nat \<Rightarrow> nat \<Rightarrow> bytes option" where
  "strcpy m d s =
     (let c = m s; m = m(d := c) in if c \<noteq> 0 then strcpy m (d + 1) (s + 1) else Some m)"

partial_function (option) strchr :: "bytes \<Rightarrow> nat \<Rightarrow> u8 \<Rightarrow> nat option option" where
  \<comment> \<open>\<open>Some None\<close> is NULL\<close>
  "strchr m p c =
     (if m p = c then Some (Some p) else if m p = 0 then Some None else strchr m (p + 1) c)"

definition strcat :: "bytes \<Rightarrow> nat \<Rightarrow> nat \<Rightarrow> bytes option" where
  "strcat m dst src = Option.bind (strlen m dst) (\<lambda>n. strcpy m (dst + n) src)"

partial_function (option) skip_delims :: "bytes \<Rightarrow> nat \<Rightarrow> nat \<Rightarrow> nat option" where
  \<comment> \<open>\<^verbatim>\<open>while (*start != 0 && strchr(delim, *start) != NULL) start++\<close>\<close>
  "skip_delims m delim start =
     (if m start = 0 then Some start
      else case strchr m delim (m start) of
        None \<Rightarrow> None
      | Some None \<Rightarrow> Some start
      | Some (Some _) \<Rightarrow> skip_delims m delim (start + 1))"

partial_function (option) skip_token :: "bytes \<Rightarrow> nat \<Rightarrow> nat \<Rightarrow> nat option" where
  \<comment> \<open>\<^verbatim>\<open>while (*end != 0 && strchr(delim, *end) == NULL) end++\<close>\<close>
  "skip_token m delim fin =
     (if m fin = 0 then Some fin
      else case strchr m delim (m fin) of
        None \<Rightarrow> None
      | Some None \<Rightarrow> skip_token m delim (fin + 1)
      | Some (Some _) \<Rightarrow> Some fin)"

definition strtok ::
  "bytes \<Rightarrow> nat option \<Rightarrow> nat option \<Rightarrow> nat \<Rightarrow> (nat option \<times> bytes \<times> nat option) option" where
  \<comment> \<open>the second argument is the static \<^verbatim>\<open>current\<close>, the third the parameter \<^verbatim>\<open>str\<close>;
     returns the token pointer, the memory and the new \<^verbatim>\<open>current\<close>\<close>
  "strtok m current str delim =
     (let current = (if str \<noteq> None then str else current) in
      case current of
        None \<Rightarrow> Some (None, m, None)
      | Some c \<Rightarrow>
          Option.bind (skip_delims m delim c) (\<lambda>start.
          if m start = 0 then Some (None, m, None)
          else Option.bind (skip_token m delim start) (\<lambda>fin.
            if m fin \<noteq> 0 then Some (Some start, m(fin := 0), Some (fin + 1))
            else Some (Some start, m, None))))"

partial_function (option) atol_digits :: "bytes \<Rightarrow> nat \<Rightarrow> u64 \<Rightarrow> u64 option" where
  "atol_digits m p res =
     (if m p \<noteq> 0 then atol_digits m (p + 1) (res * 10 + (ucast (m p) - 48)) else Some res)"

partial_function (option) skip_spaces :: "bytes \<Rightarrow> nat \<Rightarrow> nat option" where
  "skip_spaces m p = (if m p = 32 then skip_spaces m (p + 1) else Some p)"

definition atol :: "bytes \<Rightarrow> nat \<Rightarrow> u64 option" where
  "atol m p =
     Option.bind (skip_spaces m p) (\<lambda>p.
       let sign = m p = 45; p = (if m p = 45 \<or> m p = 43 then p + 1 else p) in
       Option.bind (atol_digits m p 0) (\<lambda>res. Some (if sign then - res else res)))"

fun copy_up :: "bytes \<Rightarrow> nat \<Rightarrow> nat \<Rightarrow> nat \<Rightarrow> bytes" where
  "copy_up m d s 0 = m"
| "copy_up m d s (Suc n) = copy_up (m(d := m s)) (d + 1) (s + 1) n"

fun copy_down :: "bytes \<Rightarrow> nat \<Rightarrow> nat \<Rightarrow> nat \<Rightarrow> bytes" where
  \<comment> \<open>\<open>d\<close> and \<open>s\<close> point one past the last byte left to copy\<close>
  "copy_down m d s 0 = m"
| "copy_down m d s (Suc n) = copy_down (m(d - 1 := m (s - 1))) (d - 1) (s - 1) n"

definition memmove :: "bytes \<Rightarrow> nat \<Rightarrow> nat \<Rightarrow> nat \<Rightarrow> bytes" where
  "memmove m dst src n =
     (if src < dst \<and> src + n > dst then copy_down m (dst + n) (src + n) n
      else copy_up m dst src n)"

fun safestrcpy_loop :: "bytes \<Rightarrow> nat \<Rightarrow> nat \<Rightarrow> nat \<Rightarrow> bytes \<times> nat" where
  \<comment> \<open>\<open>k\<close> is the value of \<open>n\<close> after \<^verbatim>\<open>--n\<close>: the body runs while it is positive\<close>
  "safestrcpy_loop m s t 0 = (m, s)"
| "safestrcpy_loop m s t (Suc k) =
     (let c = m t; m = m(s := c) in
      if c \<noteq> 0 then safestrcpy_loop m (s + 1) (t + 1) k else (m, s + 1))"

definition safestrcpy :: "bytes \<Rightarrow> nat \<Rightarrow> nat \<Rightarrow> int \<Rightarrow> bytes" where
  "safestrcpy m s t n =
     (if n \<le> 0 then m
      else let (m, s) = safestrcpy_loop m s t (nat n - 1) in m(s := 0))"

declare copy_words.simps [simp del] copy_bytes.simps [simp del] set_words.simps [simp del]
  set_bytes.simps [simp del]

section \<open>Block copies and fills\<close>

definition blit :: "bytes \<Rightarrow> nat \<Rightarrow> nat \<Rightarrow> nat \<Rightarrow> bytes" where
  \<comment> \<open>the specification of a copy: every destination byte is the old source byte\<close>
  "blit m d s n = (\<lambda>a. if d \<le> a \<and> a < d + n then m (s + (a - d)) else m a)"

definition fill :: "bytes \<Rightarrow> nat \<Rightarrow> nat \<Rightarrow> u8 \<Rightarrow> bytes" where
  "fill m d n b = (\<lambda>a. if d \<le> a \<and> a < d + n then b else m a)"

lemma nat_less_8: "i < 8 \<longleftrightarrow> i \<in> {0, 1, 2, 3, 4, 5, 6, 7 :: nat}"
  by auto

lemma bit_u8_ge [simp]: "8 \<le> k \<Longrightarrow> \<not> bit (x :: u8) k"
  using bit_imp_le_length [of x k] by auto

lemma bit_u8_cast [simp]: "bit (ucast (x :: u8) :: u64) k \<longleftrightarrow> bit x k"
  using bit_imp_le_length [of x k] by (auto simp: bit_ucast_iff)

lemma bit_load_word:
  "i < 8 \<Longrightarrow> n < 8 \<Longrightarrow> bit (load_word m p) (8 * i + n) = bit (m (p + i)) n"
  unfolding nat_less_8 [of i] load_word_def
  by (elim insertE emptyE; simp add: bit_or_iff bit_push_bit_iff)

lemma byte_load_word: "i < 8 \<Longrightarrow> ucast (drop_bit (8 * i) (load_word m p)) = m (p + i)"
  by (rule bit_word_eqI) (simp add: bit_ucast_iff bit_drop_bit_eq bit_load_word)

lemma store_load_word: "store_word m d (load_word m s) = blit m d s 8"
  by (rule ext) (auto simp: store_word_def blit_def byte_load_word less_diff_conv2)

lemma blit_0 [simp]: "blit m d s 0 = m"
  by (auto simp: blit_def fun_eq_iff)

lemma blit_1 [simp]: "blit m d s (Suc 0) = m(d := m s)"
  by (auto simp: blit_def fun_eq_iff)

lemma fill_0 [simp]: "fill m d 0 b = m"
  by (auto simp: fill_def fun_eq_iff)

lemma blit_blit:
  assumes "d \<le> s \<or> s + (k + n) \<le> d"
  shows "blit (blit m d s k) (d + k) (s + k) n = blit m d s (k + n)"
proof (rule ext)
  fix a
  consider "a < d" | "d \<le> a" "a < d + k" | "d + k \<le> a" "a < d + (k + n)" | "d + (k + n) \<le> a" by linarith
  then show "blit (blit m d s k) (d + k) (s + k) n a = blit m d s (k + n) a"
    using assms by cases (auto simp: blit_def)
qed

lemma copy_bytes_blit: "d \<le> s \<or> s + n \<le> d \<Longrightarrow> copy_bytes m d s (d + n) = blit m d s n"
proof (induction n arbitrary: m d s)
  case 0
  then show ?case by (subst copy_bytes.simps) simp
next
  case (Suc n)
  have "copy_bytes m d s (d + Suc n) = copy_bytes (blit m d s 1) (d + 1) (s + 1) (d + 1 + n)"
    by (subst copy_bytes.simps) simp
  also have "\<dots> = blit (blit m d s 1) (d + 1) (s + 1) n" using Suc.prems by (intro Suc.IH) auto
  also have "\<dots> = blit m d s (Suc n)" using blit_blit [of d s 1 n m] Suc.prems by simp
  finally show ?case .
qed

lemma copy_words_blit:
  "d \<le> s \<or> s + n \<le> d \<Longrightarrow>
   copy_words m d s (d + n) = (blit m d s (8 * (n div 8)), d + 8 * (n div 8), s + 8 * (n div 8))"
proof (induction n arbitrary: m d s rule: less_induct)
  case (less n)
  show ?case
  proof (cases "n < 8")
    case True
    then show ?thesis by (subst copy_words.simps) (simp, linarith)
  next
    case False
    define k where "k = n - 8"
    with False have n: "n = k + 8" by simp
    have "copy_words m d s (d + n) = copy_words (blit m d s 8) (d + 8) (s + 8) (d + 8 + k)"
      by (subst copy_words.simps) (simp add: n store_load_word algebra_simps)
    also have "\<dots> = (blit (blit m d s 8) (d + 8) (s + 8) (8 * (k div 8)),
        d + 8 + 8 * (k div 8), s + 8 + 8 * (k div 8))"
      using less.prems by (intro less.IH) (auto simp: n)
    also have "\<dots> = (blit m d s (8 + 8 * (k div 8)), d + 8 + 8 * (k div 8), s + 8 + 8 * (k div 8))"
      using less.prems by (subst blit_blit) (auto simp: n)
    finally show ?thesis by (simp add: n div_add_self2)
  qed
qed

lemma memcpy_blit:
  assumes "d \<le> s \<or> s + n \<le> d"
  shows "memcpy m d s n = blit m d s n"
proof -
  let ?k = "8 * (n div 8)"
  have "copy_bytes (blit m d s ?k) (d + ?k) (s + ?k) (d + n) = blit m d s n"
  proof -
    have n: "d + n = d + ?k + n mod 8" by simp
    have "copy_bytes (blit m d s ?k) (d + ?k) (s + ?k) (d + ?k + n mod 8) =
        blit (blit m d s ?k) (d + ?k) (s + ?k) (n mod 8)"
      using assms n by (intro copy_bytes_blit) linarith
    also have "\<dots> = blit m d s (?k + n mod 8)" using assms by (intro blit_blit) simp
    finally show ?thesis by (simp add: n [symmetric])
  qed
  then show ?thesis
    using assms by (simp add: memcpy_def copy_words_blit copy_bytes_blit)
qed

lemma copy_up_blit: "d \<le> s \<or> s + n \<le> d \<Longrightarrow> copy_up m d s n = blit m d s n"
proof (induction n arbitrary: m d s)
  case (Suc n)
  have "copy_up m d s (Suc n) = copy_up (blit m d s 1) (d + 1) (s + 1) n"
    by simp
  also have "\<dots> = blit (blit m d s 1) (d + 1) (s + 1) n" using Suc.prems by (intro Suc.IH) auto
  also have "\<dots> = blit m d s (Suc n)" using blit_blit [of d s 1 n m] Suc.prems by simp
  finally show ?case .
qed simp

lemma copy_down_blit: "s \<le> d \<Longrightarrow> copy_down m (d + n) (s + n) n = blit m d s n"
proof (induction n arbitrary: m)
  case (Suc n)
  have "copy_down m (d + Suc n) (s + Suc n) (Suc n) = blit (m(d + n := m (s + n))) d s n"
    using Suc by simp
  also have "\<dots> = blit m d s (Suc n)" using Suc.prems by (auto simp: blit_def fun_eq_iff)
  finally show ?case .
qed simp

lemma set_bytes_fill: "set_bytes m d (d + n) b = fill m d n b"
proof (induction n arbitrary: m d)
  case 0
  then show ?case by (subst set_bytes.simps) simp
next
  case (Suc n)
  have "fill (m(d := b)) (Suc d) n b = fill m d (Suc n) b" by (auto simp: fill_def fun_eq_iff)
  then show ?case using Suc [of "m(d := b)" "Suc d"] by (subst set_bytes.simps) (simp add: fun_upd_def)
qed

lemma set_words_fill:
  assumes w: "\<And>i. i < 8 \<Longrightarrow> ucast (drop_bit (8 * i) w) = b"
  shows "set_words m d (d + 8 * n) w = fill m d (8 * n) b"
proof (induction n arbitrary: m d)
  case 0
  then show ?case by (subst set_words.simps) simp
next
  case (Suc n)
  have "store_word m d w = fill m d 8 b"
    using w by (auto simp: store_word_def fill_def fun_eq_iff)
  then have "set_words m d (d + 8 * Suc n) w = fill (fill m d 8 b) (d + 8) (8 * n) b"
    using Suc [of "fill m d 8 b" "d + 8"] by (subst set_words.simps) (simp add: algebra_simps)
  also have "\<dots> = fill m d (8 * Suc n) b" by (auto simp: fill_def fun_eq_iff)
  finally show ?case .
qed

definition spread :: "u32 \<Rightarrow> u64" where
  \<comment> \<open>the word \<^verbatim>\<open>memset\<close> builds from its byte\<close>
  "spread byte = (let word = ucast (byte AND 0xFF) :: u64;
               word = word OR push_bit 8 word;
               word = word OR push_bit 16 word
           in word OR push_bit 16 (push_bit 16 word))"

lemma bit_spread: "i < 8 \<Longrightarrow> n < 8 \<Longrightarrow> bit (spread b) (8 * i + n) = bit b n"
proof -
  have ff: "bit (ucast (byte AND 0xFF) :: u64) k \<longleftrightarrow> k < 8 \<and> bit byte k" for byte :: u32 and k
  proof -
    have "byte AND 0xFF = take_bit 8 byte" by (simp add: take_bit_eq_mask mask_eq_exp_minus_1)
    then show ?thesis using bit_imp_le_length [of byte k] by (auto simp: bit_ucast_iff bit_take_bit_iff)
  qed
  show "i < 8 \<Longrightarrow> n < 8 \<Longrightarrow> bit (spread b) (8 * i + n) = bit b n"
    unfolding nat_less_8 [of i] spread_def Let_def
    by (elim insertE emptyE; simp add: bit_or_iff bit_push_bit_iff ff)
qed

lemma byte_spread: "i < 8 \<Longrightarrow> ucast (drop_bit (8 * i) (spread b)) = (ucast b :: u8)"
  by (rule bit_word_eqI) (simp add: bit_ucast_iff bit_drop_bit_eq bit_spread)

lemma memset_fill: "memset m d b n = fill m d n (ucast b)"
proof (cases "(d OR n) AND 7 = 0")
  case True
  then have "take_bit 3 (d OR n) = 0" by (simp add: take_bit_eq_mask mask_eq_exp_minus_1)
  then have "take_bit 3 n = 0" by (simp add: or_eq_0_iff)
  then obtain k where k: "n = 8 * k" by (auto simp: take_bit_eq_mod)
  have "memset m d b n = set_words m d (d + n) (spread b)"
    using True by (simp add: memset_def spread_def Let_def)
  then show ?thesis using set_words_fill [OF byte_spread] by (simp add: k)
qed (auto simp: memset_def set_bytes_fill)

section \<open>Terminated strings\<close>

fun cstr :: "bytes \<Rightarrow> nat \<Rightarrow> u8 list \<Rightarrow> bool" where
  "cstr m p [] \<longleftrightarrow> m p = 0"
| "cstr m p (c # cs) \<longleftrightarrow> m p = c \<and> c \<noteq> 0 \<and> cstr m (p + 1) cs"

lemma cstr_cong: "(\<And>a. p \<le> a \<Longrightarrow> a \<le> p + length s \<Longrightarrow> m a = m' a) \<Longrightarrow> cstr m p s = cstr m' p s"
proof (induction s arbitrary: p)
  case (Cons c s)
  then have "cstr m (p + 1) s = cstr m' (p + 1) s" by (intro Cons.IH) auto
  with Cons.prems [of p] show ?case by simp
qed simp

lemma cstr_append: "cstr m p (s @ t) \<longleftrightarrow> (\<forall>i < length s. m (p + i) = s ! i \<and> s ! i \<noteq> 0) \<and> cstr m (p + length s) t"
  by (induction s arbitrary: p) (auto simp: All_less_Suc2)

lemma strlen_from_cstr: "cstr m p s \<Longrightarrow> q \<le> p \<Longrightarrow> strlen_from m q p = Some (p - q + length s)"
  by (induction s arbitrary: p) (subst strlen_from.simps, simp)+

lemma strlen_cstr: "cstr m p s \<Longrightarrow> strlen m p = Some (length s)"
  by (simp add: strlen_def strlen_from_cstr)

lemma u8_uint_pos [simp]: "c \<noteq> 0 \<Longrightarrow> 0 < uint (c :: u8)" "c \<noteq> 0 \<Longrightarrow> uint c \<noteq> 0"
  by (simp_all add: order_less_le uint_0_iff eq_commute [of 0])

lemma strcmp_cstr:
  "cstr m p s \<Longrightarrow> cstr m q t \<Longrightarrow>
   \<exists>d. strcmp m p q = Some d \<and> (d = 0 \<longleftrightarrow> s = t) \<and> (d < 0 \<longleftrightarrow> ord_class.lexordp s t)"
proof (induction s arbitrary: p q t)
  case Nil
  then show ?case
    by (cases t) (subst strcmp.simps, auto simp: word_less_def)+
next
  case (Cons c s)
  show ?case
  proof (cases t)
    case Nil
    then show ?thesis using Cons.prems by (subst strcmp.simps) (auto simp: word_less_def)
  next
    case (Cons c' t')
    then show ?thesis
      using Cons.prems Cons.IH [of "p + 1" "q + 1" t']
      by (cases "c = c'"; subst strcmp.simps) (auto simp: word_less_def word_uint_eq_iff)
  qed
qed

lemma strcpy_cstr:
  "cstr m q s \<Longrightarrow> d \<le> q \<or> q + length s < d \<Longrightarrow> strcpy m d q = Some (blit m d q (Suc (length s)))"
proof (induction s arbitrary: m d q)
  case Nil
  then show ?case by (subst strcpy.simps) simp
next
  case (Cons c s)
  have c: "m q = c" "c \<noteq> 0" using Cons.prems by auto
  have "cstr (m(d := m q)) (Suc q) s = cstr m (Suc q) s"
    by (rule cstr_cong) (use Cons.prems in auto)
  then have "cstr (m(d := m q)) (Suc q) s" using Cons.prems(1) by (metis Suc_eq_plus1 cstr.simps(2))
  then have "cstr (blit m d q 1) (q + 1) s" by simp
  then have "strcpy (blit m d q 1) (d + 1) (q + 1) =
      Some (blit (blit m d q 1) (d + 1) (q + 1) (Suc (length s)))"
    by (rule Cons.IH) (use Cons.prems(2) in auto)
  moreover have "strcpy m d q = strcpy (blit m d q 1) (d + 1) (q + 1)"
    using c by (subst strcpy.simps) simp
  moreover have "d \<le> q \<or> q + (1 + Suc (length s)) \<le> d" using Cons.prems(2) by auto
  ultimately show ?case using blit_blit [of d q 1 "Suc (length s)" m] by simp
qed

lemma cstr_blit: "cstr m q s \<Longrightarrow> cstr (blit m d q (Suc (length s))) d s"
proof -
  have "cstr (\<lambda>a. m (q + (a - d))) (d + k) s" if "cstr m (q + k) s" for k
    using that by (induction s arbitrary: k) (auto, metis add_Suc_right)
  moreover assume "cstr m q s"
  ultimately have "cstr (\<lambda>a. m (q + (a - d))) d s" by (metis add_0_right)
  then show ?thesis by (subst cstr_cong) (auto simp: blit_def)
qed

section \<open>Tokens\<close>

lemma strchr_cstr:
  "cstr m p s \<Longrightarrow> c \<noteq> 0 \<Longrightarrow> \<exists>r. strchr m p c = Some r \<and> (r \<noteq> None \<longleftrightarrow> c \<in> set s)"
proof (induction s arbitrary: p)
  case Nil
  then show ?case by (subst strchr.simps) simp
next
  case (Cons a s)
  then show ?case by (subst strchr.simps) (auto simp del: not_None_eq)
qed

lemma skip_delims_cstr:
  "cstr m p s \<Longrightarrow> cstr m delim ds \<Longrightarrow>
   skip_delims m delim p = Some (p + length (takeWhile (\<lambda>c. c \<in> set ds) s))"
proof (induction s arbitrary: p)
  case Nil
  then show ?case by (subst skip_delims.simps) simp
next
  case (Cons a s)
  then obtain r where "strchr m delim a = Some r" "r \<noteq> None \<longleftrightarrow> a \<in> set ds"
    using strchr_cstr [of m delim ds a] by auto
  with Cons show ?case by (subst skip_delims.simps) (auto split: option.splits)
qed

lemma skip_token_cstr:
  "cstr m p s \<Longrightarrow> cstr m delim ds \<Longrightarrow>
   skip_token m delim p = Some (p + length (takeWhile (\<lambda>c. c \<notin> set ds) s))"
proof (induction s arbitrary: p)
  case Nil
  then show ?case by (subst skip_token.simps) simp
next
  case (Cons a s)
  then obtain r where "strchr m delim a = Some r" "r \<noteq> None \<longleftrightarrow> a \<in> set ds"
    using strchr_cstr [of m delim ds a] by auto
  with Cons show ?case by (subst skip_token.simps) (auto split: option.splits)
qed

function tokens :: "u8 list \<Rightarrow> u8 list \<Rightarrow> u8 list list" where
  \<comment> \<open>the non-empty components of a string between delimiters\<close>
  "tokens ds s =
     (let s = dropWhile (\<lambda>c. c \<in> set ds) s in
      if s = [] then []
      else takeWhile (\<lambda>c. c \<notin> set ds) s # tokens ds (dropWhile (\<lambda>c. c \<notin> set ds) s))"
  by pat_completeness auto
termination
proof (relation "measure (\<lambda>(ds, s). length s)", goal_cases)
  case (2 ds s t)
  have "t \<noteq> []" using 2 by simp
  moreover have "hd t \<notin> set ds" using 2 hd_dropWhile [of "\<lambda>c. c \<in> set ds" s] by simp
  ultimately have "dropWhile (\<lambda>c. c \<notin> set ds) t = dropWhile (\<lambda>c. c \<notin> set ds) (tl t)"
    by (cases t) auto
  moreover have "length (dropWhile (\<lambda>c. c \<notin> set ds) (tl t)) \<le> length (tl t)"
    by (rule length_dropWhile_le)
  moreover have "length t \<le> length s" using 2 by (simp add: length_dropWhile_le)
  ultimately show ?case using \<open>t \<noteq> []\<close> by (cases t) auto
qed simp

declare tokens.simps [simp del]

lemma cstr_drop: "cstr m p (s @ t) \<Longrightarrow> cstr m (p + length s) t"
  by (simp add: cstr_append)

lemma cstr_cut:
  assumes "cstr m p (s @ t)"
  shows "cstr (m(p + length s := 0)) p s"
  using assms
proof (induction s arbitrary: p)
  case (Cons c s)
  have "cstr (m(p + 1 + length s := 0)) (p + 1) s" using Cons by (intro Cons.IH) simp
  with Cons.prems show ?case by (simp add: fun_upd_def)
qed simp

lemma strtok_call:
  assumes s: "cstr m c s" and d: "cstr m delim ds"
    and c: "str = Some c \<or> str = None \<and> current = Some c"
    and sep: "delim + length ds < c \<or> c + length s < delim"
  shows "case tokens ds s of
      [] \<Rightarrow> strtok m current str delim = Some (None, m, None)
    | t # ts \<Rightarrow> \<exists>p m' current'. strtok m current str delim = Some (Some p, m', current') \<and>
        cstr m' p t \<and> cstr m' delim ds \<and>
        (case current' of None \<Rightarrow> ts = []
         | Some c' \<Rightarrow> \<exists>s'. cstr m' c' s' \<and> tokens ds s' = ts \<and> length s' < length s \<and>
             (delim + length ds < c' \<or> c' + length s' < delim))"
proof -
  define pre s1 where "pre = takeWhile (\<lambda>c. c \<in> set ds) s" and "s1 = dropWhile (\<lambda>c. c \<in> set ds) s"
  define tok s2 where "tok = takeWhile (\<lambda>c. c \<notin> set ds) s1" and "s2 = dropWhile (\<lambda>c. c \<notin> set ds) s1"
  define st e where "st = c + length pre" and "e = c + length pre + length tok"
  have e_st: "e = st + length tok" by (simp add: st_def e_def)
  have spl: "s = pre @ s1" "s1 = tok @ s2" by (simp_all add: pre_def s1_def tok_def s2_def)
  have len: "length s = length pre + length tok + length s2" by (simp add: spl)
  have cs: "cstr m st s1" using s unfolding spl(1) st_def by (rule cstr_drop)
  have cs2: "cstr m e s2" using cs unfolding spl(2) e_st by (rule cstr_drop)
  have sk: "skip_delims m delim c = Some st" "skip_token m delim st = Some e"
    using skip_delims_cstr [OF s d] skip_token_cstr [OF cs d]
    by (simp_all add: st_def pre_def e_st tok_def)
  have tkd: "tokens ds s = (if s1 = [] then [] else tok # tokens ds s2)"
    by (subst tokens.simps) (simp only: Let_def s1_def [symmetric] tok_def s2_def)
  show ?thesis
  proof (cases "s1 = []")
    case True
    then have "m st = 0" using cs by simp
    with True c sk(1) show ?thesis unfolding tkd by (auto simp: strtok_def)
  next
    case False
    then have nz: "m st \<noteq> 0" using cs by (cases s1) auto
    have tk: "tokens ds s = tok # tokens ds s2" using False tkd by simp
    show ?thesis
    proof (cases s2)
      case Nil
      then have "m e = 0" using cs2 by simp
      then have "strtok m current str delim = Some (Some st, m, None)"
        using c sk nz by (auto simp: strtok_def)
      moreover have "cstr m st tok" using cs spl(2) Nil by simp
      moreover have "tokens ds [] = []" by (subst tokens.simps) simp
      ultimately show ?thesis using d unfolding tk by (simp add: Nil)
    next
      case (Cons x s')
      have x: "m e = x" "x \<noteq> 0" "cstr m (e + 1) s'" using cs2 by (simp_all add: Cons)
      have "x \<in> set ds" using Cons by (auto simp: s2_def dropWhile_eq_Cons_conv)
      then have "tokens ds s2 = tokens ds s'" by (subst (1 2) tokens.simps) (simp add: Cons)
      moreover have "strtok m current str delim = Some (Some st, m(e := 0), Some (e + 1))"
        using c sk nz x(1,2) by (auto simp: strtok_def)
      moreover have "cstr (m(e := 0)) st tok" using cstr_cut [of m st tok s2] cs by (simp add: spl(2) e_st)
      moreover have "cstr (m(e := 0)) delim ds = cstr m delim ds"
        by (rule cstr_cong) (use sep len Cons e_def in auto)
      moreover have "cstr (m(e := 0)) (e + 1) s' = cstr m (e + 1) s'"
        by (rule cstr_cong) auto
      moreover have "length s' < length s" using len by (simp add: Cons)
      moreover have "delim + length ds < e + 1 \<or> e + 1 + length s' < delim"
        using sep len Cons e_def by auto
      ultimately show ?thesis unfolding tk using x(3) d by (auto intro!: exI [of _ s'])
    qed
  qed
qed

partial_function (option) read_str :: "bytes \<Rightarrow> nat \<Rightarrow> u8 list option" where
  "read_str m p = (if m p = 0 then Some [] else Option.bind (read_str m (p + 1)) (\<lambda>t. Some (m p # t)))"

lemma read_str_cstr: "cstr m p s \<Longrightarrow> read_str m p = Some s"
  by (induction s arbitrary: p) (subst read_str.simps, simp)+

partial_function (option) strtok_all ::
  "bytes \<Rightarrow> nat option \<Rightarrow> nat option \<Rightarrow> nat \<Rightarrow> u8 list list option" where
  \<comment> \<open>the calling pattern \<^verbatim>\<open>t = strtok(s, d); while (t != NULL) { ... t = strtok(NULL, d); }\<close>:
     the tokens read in turn\<close>
  "strtok_all m current str delim =
     (case strtok m current str delim of
        None \<Rightarrow> None
      | Some (None, _, _) \<Rightarrow> Some []
      | Some (Some p, m', current') \<Rightarrow>
          Option.bind (read_str m' p) (\<lambda>t.
          Option.bind (strtok_all m' current' None delim) (\<lambda>ts. Some (t # ts))))"

lemma strtok_all_tokens:
  assumes "cstr m c s" and "cstr m delim ds" and "str = Some c \<or> str = None \<and> current = Some c"
    and "delim + length ds < c \<or> c + length s < delim"
  shows "strtok_all m current str delim = Some (tokens ds s)"
  using assms
proof (induction s arbitrary: m c str current rule: length_induct)
  case (1 s)
  note call = strtok_call [OF 1(2-5)]
  show ?case
  proof (cases "tokens ds s")
    case Nil
    with call show ?thesis by (subst strtok_all.simps) simp
  next
    case (Cons t ts)
    with call obtain p m' cur where st: "strtok m current str delim = Some (Some p, m', cur)"
      "cstr m' p t" "cstr m' delim ds" and
      nx: "case cur of None \<Rightarrow> ts = []
         | Some c' \<Rightarrow> \<exists>s'. cstr m' c' s' \<and> tokens ds s' = ts \<and> length s' < length s \<and>
             (delim + length ds < c' \<or> c' + length s' < delim)" by auto
    have "strtok_all m' cur None delim = Some ts"
    proof (cases cur)
      case None
      with nx show ?thesis by (subst strtok_all.simps) (simp add: strtok_def)
    next
      case (Some c')
      with nx obtain s' where "cstr m' c' s'" "tokens ds s' = ts" "length s' < length s"
        "delim + length ds < c' \<or> c' + length s' < delim" by auto
      with 1(1) st(3) Some show ?thesis by blast
    qed
    then show ?thesis using st(1) read_str_cstr [OF st(2)] Cons by (subst strtok_all.simps) simp
  qed
qed

section \<open>Decimal numbers\<close>

definition digits_value :: "u8 list \<Rightarrow> int" where
  "digits_value s = foldl (\<lambda>r c. r * 10 + (uint c - 48)) 0 s"

lemma atol_digits_cstr:
  "cstr m p s \<Longrightarrow>
   atol_digits m p (of_int r) = Some (of_int (foldl (\<lambda>r c. r * 10 + (uint c - 48)) r s))"
proof (induction s arbitrary: p r)
  case Nil
  then show ?case by (subst atol_digits.simps) simp
next
  case (Cons c s)
  have "of_int r * 10 + (ucast c - 48) = (of_int (r * 10 + (uint c - 48)) :: u64)"
    by simp
  moreover have "atol_digits m p (of_int r) = atol_digits m (p + 1) (of_int r * 10 + (ucast c - 48))"
    using Cons.prems by (subst atol_digits.simps) simp
  ultimately show ?case using Cons.IH [of "p + 1"] Cons.prems by (simp only: cstr.simps foldl.simps)
qed

section \<open>Properties\<close>

text \<open>\<^verbatim>\<open>memcpy\<close>, whose fast path moves eight bytes at a time, copies exactly the \<open>len\<close> source
  bytes and changes nothing else whenever the destination does not start inside the source after
  its beginning; alignment of the pointers makes no difference.\<close>

lemma memcpy_bytewise:
  assumes "dest \<le> src \<or> src + len \<le> dest"
  shows "memcpy m dest src len a =
    (if dest \<le> a \<and> a < dest + len then m (src + (a - dest)) else m a)"
  by (simp add: memcpy_blit [OF assms] blit_def)

text \<open>\<^verbatim>\<open>memmove\<close> is correct for every overlap of source and destination.\<close>

lemma memmove_overlap:
  "memmove m dst src n a = (if dst \<le> a \<and> a < dst + n then m (src + (a - dst)) else m a)"
proof (cases "src < dst \<and> src + n > dst")
  case True
  then show ?thesis using copy_down_blit [of src dst m n] by (simp add: memmove_def blit_def)
next
  case False
  then have "dst \<le> src \<or> src + n \<le> dst" by auto
  from copy_up_blit [OF this] have "memmove m dst src n = blit m dst src n"
    unfolding memmove_def if_not_P [OF False] .
  then show ?thesis by (simp add: blit_def)
qed

text \<open>\<^verbatim>\<open>memset\<close> stores the low byte of its argument in every byte of the range and nothing
  elsewhere, on the word-wise path as on the byte-wise one.\<close>

lemma memset_every_byte:
  "memset m dest byte len a = (if dest \<le> a \<and> a < dest + len then ucast byte else m a)"
  by (simp add: memset_fill fill_def)

text \<open>\<^verbatim>\<open>strcmp\<close> terminates on terminated strings, returns 0 exactly on equal strings and a
  negative number exactly when the first string is lexicographically smaller.\<close>

lemma strcmp_orders:
  assumes "cstr m s1 xs" and "cstr m s2 ys"
  shows "\<exists>d. strcmp m s1 s2 = Some d \<and> (d = 0 \<longleftrightarrow> xs = ys) \<and>
    (d < 0 \<longleftrightarrow> ord_class.lexordp xs ys)"
  by (rule strcmp_cstr [OF assms])

text \<open>\<^verbatim>\<open>strcat\<close> appends: when the source string does not overlap the extended destination,
  the destination afterwards holds the concatenation.\<close>

lemma strcat_appends:
  assumes "cstr m dst xs" and "cstr m src ys"
    and "dst + length xs + length ys < src \<or> src + length ys < dst"
  shows "\<exists>m'. strcat m dst src = Some m' \<and> cstr m' dst (xs @ ys)"
proof -
  let ?m = "blit m (dst + length xs) src (Suc (length ys))"
  have "strcat m dst src = Some ?m"
    using strcpy_cstr [OF assms(2), of "dst + length xs"] assms(3)
    by (auto simp: strcat_def strlen_cstr [OF assms(1)])
  moreover have "\<forall>i < length xs. ?m (dst + i) = xs ! i \<and> xs ! i \<noteq> 0"
    using assms(1) cstr_append [of m dst xs "[]"] by (simp add: blit_def)
  ultimately show ?thesis using cstr_blit [OF assms(2)] by (simp add: cstr_append)
qed

text \<open>C35: calling \<^verbatim>\<open>strtok\<close> on a string and then on NULL until it returns NULL yields exactly the
  non-empty components of the string between delimiters, in order.\<close>

theorem strtok_splits:
  assumes "cstr m str s" and "cstr m delim ds"
    and "delim + length ds < str \<or> str + length s < delim"
  shows "strtok_all m current (Some str) delim = Some (tokens ds s)"
  by (rule strtok_all_tokens [OF assms(1,2) _ assms(3)]) simp

text \<open>\<^verbatim>\<open>atol\<close> on an optionally signed string returns the (two's complement) value of its
  digits.\<close>

lemma atol_value:
  assumes "cstr m p (replicate k 32 @ sg @ s)" and "sg = [] \<or> sg = [45] \<or> sg = [43]"
    and "s \<noteq> []" and "\<forall>c \<in> set s. 48 \<le> c \<and> c \<le> 57"
  shows "atol m p = Some (of_int (if sg = [45] then - digits_value s else digits_value s))"
proof -
  have sp: "skip_spaces m p = Some (p + k)" if "cstr m p (replicate k 32 @ t)" "t = [] \<or> hd t \<noteq> 32" for p k t
    using that
  proof (induction k arbitrary: p)
    case 0
    then show ?case by (subst skip_spaces.simps) (cases t, auto)
  next
    case (Suc k)
    then show ?case by (subst skip_spaces.simps) simp
  qed
  obtain c s' where s: "s = c # s'" using assms(3) by (cases s) auto
  with assms(4) have c: "c \<noteq> 32" "c \<noteq> 45" "c \<noteq> 43" by auto
  have "skip_spaces m p = Some (p + k)" using assms(2) c by (intro sp [OF assms(1)]) (auto simp: s)
  moreover have rest: "cstr m (p + k) (sg @ s)" using cstr_drop [OF assms(1)] by simp
  moreover have "cstr m q s \<Longrightarrow> atol_digits m q 0 = Some (of_int (digits_value s))" for q
    using atol_digits_cstr [of m q s 0] by (simp add: digits_value_def)
  ultimately show ?thesis using assms(2) c by (auto simp: atol_def s)
qed

section \<open>Witnesses\<close>

definition demo_bytes :: bytes where
  \<comment> \<open>\<open>/ab//c\<close> at 100, the delimiter string \<open>/\<close> at 10, \<open> -12\<close> at 200\<close>
  "demo_bytes = (\<lambda>_. 0)(100 := 47, 101 := 97, 102 := 98, 103 := 47, 104 := 47, 105 := 99, 10 := 47,
     200 := 32, 201 := 45, 202 := 49, 203 := 50)"

lemma memcpy_bytewise_example: "memcpy demo_bytes 0 100 6 5 = 99"
  by (subst memcpy_bytewise) (simp_all add: demo_bytes_def)

lemma strcmp_orders_example:
  "\<exists>d. strcmp demo_bytes 101 105 = Some d \<and> d < 0"
  using strcmp_orders [of demo_bytes 101 "[97, 98, 47, 47, 99]" 105 "[99]"]
  by (auto simp: demo_bytes_def)

theorem strtok_splits_witness:
  "strtok_all demo_bytes None (Some 100) 10 = Some [[97, 98], [99]]"
proof -
  have "strtok_all demo_bytes None (Some 100) 10 = Some (tokens [47] [47, 97, 98, 47, 47, 99])"
    by (rule strtok_splits) (simp_all add: demo_bytes_def)
  then show ?thesis by (simp add: tokens.simps)
qed

lemma atol_value_example: "atol demo_bytes 200 = Some (- 12)"
  using atol_value [of demo_bytes 200 1 "[45]" "[49, 50]"]
  by (simp add: demo_bytes_def digits_value_def)

end
