(* ===== verification/HashTable.thy ===== *)
theory HashTable
  imports Pmm
begin

text \<open>
  The chained hash table of \<^verbatim>\<open>util/hash_table.c\<close>.  The table is an array of list heads; the nodes
  live in pages of the physical memory manager and are linked by address.  Keys are values of a
  type \<open>'k\<close> with a hash function and an equality supplied by the client, as the C table receives
  them as function pointers.  The locale \<open>dictionary\<close> is the contract (a finite map whose
  operations move pages to and from the free list); \<open>hash_fun\<close> is what a client owes, and the
  sublocale declaration shows that every such client gets a dictionary.
\<close>

section \<open>Nodes, tables and operations\<close>

definition HASH_TABLE_SIZE :: u64 where "HASH_TABLE_SIZE = 128"

record 'k hash_node =
  hn_next :: u64
  hn_key :: 'k
  hn_value :: u64

record 'k hash_table =
  ht_head :: "nat \<Rightarrow> u64"                  \<comment> \<open>\<^verbatim>\<open>head[i].next\<close>\<close>
  ht_node :: "u64 \<Rightarrow> 'k hash_node"        \<comment> \<open>the node in each page\<close>

definition hash_table_init :: "'k hash_table \<Rightarrow> 'k hash_table" where
  "hash_table_init t = t\<lparr>ht_head := (\<lambda>i. if i < 128 then 0 else ht_head t i)\<rparr>"

partial_function (option) get_loop ::
  "('k \<Rightarrow> 'k \<Rightarrow> bool) \<Rightarrow> 'k hash_table \<Rightarrow> 'k \<Rightarrow> u64 \<Rightarrow> u64 option" where
  "get_loop heq t k node =
     (if node \<noteq> 0 then
        (if heq (hn_key (ht_node t node)) k then Some (hn_value (ht_node t node))
         else get_loop heq t k (hn_next (ht_node t node)))
      else Some 0)"

definition default_get ::
  "('k \<Rightarrow> u64) \<Rightarrow> ('k \<Rightarrow> 'k \<Rightarrow> bool) \<Rightarrow> 'k hash_table \<Rightarrow> 'k \<Rightarrow> kerr + u64" where
  "default_get hfun heq t k =
     (case get_loop heq t k (ht_head t (unat (hfun k))) of None \<Rightarrow> Inl Spin | Some v \<Rightarrow> Inr v)"

definition default_put ::
  "('k \<Rightarrow> u64) \<Rightarrow> ('k \<Rightarrow> 'k \<Rightarrow> bool) \<Rightarrow> 'k \<Rightarrow> u64 \<Rightarrow> 'k hash_table \<times> 'z pmm_scheme \<Rightarrow>
     kerr + (int \<times> 'k hash_table \<times> 'z pmm_scheme)" where
  "default_put hfun heq k v ts =
     (let (t, s) = ts in
      kbind (alloc_page s) (\<lambda>(node, s).
      kbind (default_get hfun heq t k) (\<lambda>old.
        if old \<noteq> 0 then Inr (- 1, t, s)
        else if node = 0 then Inl (Fault ''hash_put'')
        else let i = unat (hfun k);
                 t = t\<lparr>ht_node := (ht_node t)(node :=
                        \<lparr>hn_next = ht_head t i, hn_key = k, hn_value = v\<rparr>)\<rparr>;
                 t = t\<lparr>ht_head := (ht_head t)(i := node)\<rparr>
             in Inr (0, t, s))))"

datatype link = Head nat | Node u64    \<comment> \<open>the values of the pointer \<^verbatim>\<open>head\<close> in \<^verbatim>\<open>default_erase\<close>\<close>

fun link_next :: "'k hash_table \<Rightarrow> link \<Rightarrow> u64" where
  "link_next t (Head i) = ht_head t i"
| "link_next t (Node n) = hn_next (ht_node t n)"

fun set_link_next :: "'k hash_table \<Rightarrow> link \<Rightarrow> u64 \<Rightarrow> 'k hash_table" where
  "set_link_next t (Head i) p = t\<lparr>ht_head := (ht_head t)(i := p)\<rparr>"
| "set_link_next t (Node n) p = t\<lparr>ht_node := (ht_node t)(n := (ht_node t n)\<lparr>hn_next := p\<rparr>)\<rparr>"

partial_function (option) erase_loop ::
  "('k \<Rightarrow> 'k \<Rightarrow> bool) \<Rightarrow> 'k hash_table \<Rightarrow> 'k \<Rightarrow> link \<Rightarrow> link option" where
  "erase_loop heq t k l =
     (let n = link_next t l in
      if n \<noteq> 0 \<and> \<not> heq (hn_key (ht_node t n)) k then erase_loop heq t k (Node n) else Some l)"

definition default_erase ::
  "('k \<Rightarrow> u64) \<Rightarrow> ('k \<Rightarrow> 'k \<Rightarrow> bool) \<Rightarrow> 'k \<Rightarrow> 'k hash_table \<times> 'z pmm_scheme \<Rightarrow>
     kerr + (int \<times> 'k hash_table \<times> 'z pmm_scheme)" where
  "default_erase hfun heq k ts =
     (let (t, s) = ts in
      case erase_loop heq t k (Head (unat (hfun k))) of
        None \<Rightarrow> Inl Spin
      | Some l \<Rightarrow>
          let n = link_next t l in
          if n \<noteq> 0 then
            let t = set_link_next t l (hn_next (ht_node t n)) in
            kbind (free_page n s) (\<lambda>s. Inr (0, t, s))
          else Inr (- 1, t, s))"

section \<open>Chains\<close>

fun chain :: "'k hash_table \<Rightarrow> u64 \<Rightarrow> u64 list \<Rightarrow> bool" where
  "chain t p [] \<longleftrightarrow> p = 0"
| "chain t p (n # ns) \<longleftrightarrow> p = n \<and> n \<noteq> 0 \<and> chain t (hn_next (ht_node t n)) ns"

definition binding :: "'k hash_table \<Rightarrow> u64 \<Rightarrow> 'k \<times> u64" where
  "binding t n = (hn_key (ht_node t n), hn_value (ht_node t n))"

definition key_of :: "'k hash_table \<Rightarrow> u64 \<Rightarrow> 'k" where
  "key_of t n = hn_key (ht_node t n)"

text \<open>\<open>ht_buckets\<close>: the table's chains are the lists \<open>B i\<close> of distinct managed pages, none of
  them free, each node in the bucket of its key, no key twice.\<close>

definition ht_buckets ::
  "('k \<Rightarrow> u64) \<Rightarrow> 'k hash_table \<Rightarrow> 'z pmm_scheme \<Rightarrow> u64 list \<Rightarrow> (nat \<Rightarrow> u64 list) \<Rightarrow> bool" where
  "ht_buckets hfun t s xs B \<longleftrightarrow>
     (\<forall>i < 128. chain t (ht_head t i) (B i)) \<and>
     (\<forall>i < 128. distinct (map (key_of t) (B i))) \<and>
     (\<forall>i < 128. \<forall>n \<in> set (B i). managed s n \<and> n \<notin> set xs \<and> unat (hfun (key_of t n)) = i \<and>
        hn_value (ht_node t n) \<noteq> 0)"

definition ht_map :: "('k \<Rightarrow> u64) \<Rightarrow> 'k hash_table \<Rightarrow> (nat \<Rightarrow> u64 list) \<Rightarrow> 'k \<rightharpoonup> u64" where
  "ht_map hfun t B k = map_of (map (binding t) (B (unat (hfun k)))) k"

definition ht_rel ::
  "('k \<Rightarrow> u64) \<Rightarrow> nat \<Rightarrow> 'k hash_table \<times> 'z pmm_scheme \<Rightarrow> ('k \<rightharpoonup> u64) \<Rightarrow> bool" where
  \<comment> \<open>the table and the memory manager represent the map \<open>M\<close> with \<open>n\<close> free pages left\<close>
  "ht_rel hfun n ts M \<longleftrightarrow> (\<exists>xs B. pmm_rel (snd ts) xs \<and> length xs = n \<and>
     ht_buckets hfun (fst ts) (snd ts) xs B \<and> ht_map hfun (fst ts) B = M)"

lemma chain_cong:
  "(\<And>n. n \<in> set ns \<Longrightarrow> hn_next (ht_node t n) = hn_next (ht_node t' n)) \<Longrightarrow>
   chain t p ns = chain t' p ns"
  by (induction ns arbitrary: p) auto

lemma chain_nz: "chain t p ns \<Longrightarrow> n \<in> set ns \<Longrightarrow> n \<noteq> 0"
  by (induction ns arbitrary: p) auto

lemma get_loop_chain:
  "chain t p ns \<Longrightarrow> get_loop (=) t k p =
     Some (case map_of (map (binding t) ns) k of None \<Rightarrow> 0 | Some v \<Rightarrow> v)"
  by (induction ns arbitrary: p) (subst get_loop.simps, auto simp: binding_def)+

lemma ht_rel_get:
  assumes "ht_rel hfun n (t, s) M" and "hfun k < 128"
  shows "default_get hfun (=) t k = Inr (case M k of None \<Rightarrow> 0 | Some v \<Rightarrow> v)"
proof -
  from assms(2) have i: "unat (hfun k) < 128" by (simp add: word_less_nat_alt)
  from assms(1) obtain xs B where "ht_buckets hfun t s xs B" "ht_map hfun t B = M"
    by (auto simp: ht_rel_def)
  with i have "chain t (ht_head t (unat (hfun k))) (B (unat (hfun k)))"
    "M k = map_of (map (binding t) (B (unat (hfun k)))) k"
    by (auto simp: ht_buckets_def ht_map_def)
  then show ?thesis by (simp add: default_get_def get_loop_chain)
qed

lemma ht_map_nz:
  assumes "ht_buckets hfun t s xs B" and "hfun k < 128" and "ht_map hfun t B k = Some v"
  shows "v \<noteq> 0"
proof -
  have i: "unat (hfun k) < 128" using assms(2) by (simp add: word_less_nat_alt)
  from map_of_SomeD [OF assms(3) [unfolded ht_map_def]]
  have "(k, v) \<in> set (map (binding t) (B (unat (hfun k))))" .
  then show ?thesis using assms(1) i by (auto simp: binding_def ht_buckets_def)
qed

lemma ht_rel_put_new:
  assumes rel: "ht_rel hfun (Suc n) (t, s) M" and k: "\<And>k. hfun k < 128" and v: "v \<noteq> 0" and new: "M k = None"
  shows "\<exists>ts'. default_put hfun (=) k v (t, s) = Inr (0, ts') \<and> ht_rel hfun n ts' (M(k \<mapsto> v))"
proof -
  from rel obtain xs B where r: "pmm_rel s xs" "length xs = Suc n" "ht_buckets hfun t s xs B"
    "ht_map hfun t B = M" by (auto simp: ht_rel_def)
  then obtain x ys where xs: "xs = x # ys" by (cases xs) auto
  define i where "i = unat (hfun k)"
  have i: "i < 128" using k by (simp add: i_def word_less_nat_alt)
  define s1 where "s1 = s\<lparr>g_free_mem_list := mem s x\<rparr>"
  define t1 where "t1 = t\<lparr>ht_node := (ht_node t)(x := \<lparr>hn_next = ht_head t i, hn_key = k, hn_value = v\<rparr>),
      ht_head := (ht_head t)(i := x)\<rparr>"
  define B1 where "B1 = B(i := x # B i)"
  have al: "alloc_page s = Inr (x, s1)" "pmm_rel s1 ys"
    using alloc_page_Cons [of s x ys] r(1) by (simp_all add: xs s1_def)
  have x: "managed s x" "x \<noteq> 0" "x \<notin> set ys" using r(1) by (auto simp: xs pmm_rel_def managed_def)
  have old: "default_get hfun (=) t k = Inr 0" using ht_rel_get [OF rel k] new by simp
  have xB: "m \<noteq> x" if "j < 128" "m \<in> set (B j)" for m j
    using r(3) that by (auto simp: ht_buckets_def xs)
  have same: "ht_node t1 m = ht_node t m" if "m \<noteq> x" for m using that by (simp add: t1_def)
  have ch: "chain t1 (ht_head t1 j) (B1 j)" if "j < 128" for j
  proof -
    have "chain t1 p (B j) = chain t p (B j)" for p
      using xB [OF that] same by (intro chain_cong) auto
    then show ?thesis using r(3) that x(2) by (auto simp: ht_buckets_def B1_def t1_def)
  qed
  have keys: "map (key_of t1) (B j) = map (key_of t) (B j)"
    and binds: "map (binding t1) (B j) = map (binding t) (B j)" if "j < 128" for j
    using xB [OF that] same by (auto simp: key_of_def binding_def)
  have kx: "key_of t1 x = k" "hn_value (ht_node t1 x) = v" by (simp_all add: key_of_def t1_def)
  have notin: "k \<notin> set (map (key_of t) (B i))"
    using new r(4) unfolding ht_map_def i_def [symmetric]
    by (auto simp: ht_map_def i_def map_of_eq_None_iff binding_def key_of_def image_image)
  have "ht_buckets hfun t1 s1 ys B1"
    unfolding ht_buckets_def
  proof (intro conjI allI impI ballI)
    fix j :: nat assume j: "j < 128"
    show "chain t1 (ht_head t1 j) (B1 j)" by (rule ch [OF j])
    have "distinct (map (key_of t1) (B j))" using r(3) j by (simp add: keys [OF j] ht_buckets_def)
    moreover have "k \<notin> set (map (key_of t1) (B i))" by (simp only: keys [OF i] notin not_False_eq_True)
    ultimately show "distinct (map (key_of t1) (B1 j))" using kx(1) by (auto simp: B1_def)
    fix m assume m: "m \<in> set (B1 j)"
    have "managed s m \<and> m \<notin> set ys \<and> unat (hfun (key_of t1 m)) = j \<and> hn_value (ht_node t1 m) \<noteq> 0"
    proof (cases "m = x")
      case True
      then have "j = i" using m xB [OF j] by (auto simp: B1_def split: if_splits)
      then show ?thesis using True x kx v by (simp add: i_def)
    next
      case False
      then have "m \<in> set (B j)" using m by (auto simp: B1_def split: if_splits)
      then show ?thesis using r(3) j same [OF False] by (auto simp: ht_buckets_def xs key_of_def)
    qed
    then show "managed s1 m" "m \<notin> set ys" "unat (hfun (key_of t1 m)) = j" "hn_value (ht_node t1 m) \<noteq> 0"
      by (auto simp: s1_def managed_def)
  qed
  moreover have "ht_map hfun t1 B1 = M(k \<mapsto> v)"
  proof
    fix k'
    show "ht_map hfun t1 B1 k' = (M(k \<mapsto> v)) k'"
    proof (cases "unat (hfun k') = i")
      case True
      have "map_of (map (binding t1) (B i)) = map_of (map (binding t) (B i))" by (simp only: binds [OF i])
      then show ?thesis using True r(4) kx
        by (auto simp: ht_map_def B1_def binding_def [of t1 x] key_of_def)
    next
      case False
      moreover from this have "k' \<noteq> k" by (auto simp: i_def)
      moreover have "unat (hfun k') < 128" using k [of k'] by (simp add: word_less_nat_alt)
      then have "map_of (map (binding t1) (B (unat (hfun k')))) = map_of (map (binding t) (B (unat (hfun k'))))"
        by (simp only: binds)
      ultimately show ?thesis using r(4) by (auto simp: ht_map_def B1_def)
    qed
  qed
  moreover have "default_put hfun (=) k v (t, s) = Inr (0, t1, s1)"
    using al(1) old x(2) by (simp add: default_put_def t1_def i_def Let_def)
  ultimately show ?thesis using al(2) r(2) by (auto simp: ht_rel_def xs)
qed

lemma erase_loop_chain:
  "chain t (link_next t l) ns \<Longrightarrow>
   \<exists>l'. erase_loop (=) t k l = Some l' \<and>
     (if k \<in> set (map (key_of t) ns)
      then \<exists>as m bs. ns = as @ m # bs \<and> k \<notin> set (map (key_of t) as) \<and> key_of t m = k \<and>
        link_next t l' = m \<and> l' = (if as = [] then l else Node (last as))
      else link_next t l' = 0)"
proof (induction ns arbitrary: l)
  case Nil
  then show ?case by (subst erase_loop.simps) simp
next
  case (Cons m ns)
  show ?case
  proof (cases "key_of t m = k")
    case True
    then show ?thesis using Cons.prems
      by (subst erase_loop.simps) (auto simp: key_of_def intro!: exI [of _ "[]"])
  next
    case False
    have "chain t (link_next t (Node m)) ns" using Cons.prems by simp
    from Cons.IH [OF this] obtain l' where l': "erase_loop (=) t k (Node m) = Some l'"
      "if k \<in> set (map (key_of t) ns)
      then \<exists>as m' bs. ns = as @ m' # bs \<and> k \<notin> set (map (key_of t) as) \<and> key_of t m' = k \<and>
        link_next t l' = m' \<and> l' = (if as = [] then Node m else Node (last as))
      else link_next t l' = 0" by blast
    have step: "erase_loop (=) t k l = Some l'"
      using l'(1) Cons.prems False by (subst erase_loop.simps) (auto simp: key_of_def)
    show ?thesis
    proof (cases "k \<in> set (map (key_of t) ns)")
      case True
      with l'(2) obtain as m' bs where "ns = as @ m' # bs" "k \<notin> set (map (key_of t) as)"
        "key_of t m' = k" "link_next t l' = m'" "l' = (if as = [] then Node m else Node (last as))"
        by auto
      then have "\<exists>as m' bs. m # ns = as @ m' # bs \<and> k \<notin> set (map (key_of t) as) \<and> key_of t m' = k \<and>
          link_next t l' = m' \<and> l' = (if as = [] then l else Node (last as))"
        using False by (intro exI [of _ "m # as"] exI [of _ m'] exI [of _ bs]) simp
      then show ?thesis using step True by simp
    next
      case nk: False
      then show ?thesis using l'(2) step False by simp
    qed
  qed
qed

lemma chain_delete:
  assumes "chain t p (as @ m # bs)" and "distinct (as @ m # bs)" and "as \<noteq> []"
  shows "chain (set_link_next t (Node (last as)) (hn_next (ht_node t m))) p (as @ bs)"
  using assms
proof (induction as arbitrary: p)
  case (Cons a as)
  let ?t = "set_link_next t (Node (last (a # as))) (hn_next (ht_node t m))"
  show ?case
  proof (cases "as = []")
    case True
    have "chain ?t q bs = chain t q bs" for q
      using Cons.prems(2) True by (intro chain_cong) auto
    then show ?thesis using Cons.prems(1) True by simp
  next
    case False
    then have "a \<noteq> last as" using Cons.prems(2) by auto
    moreover have "chain ?t (hn_next (ht_node t a)) (as @ bs)"
      using Cons.IH [of "hn_next (ht_node t a)"] Cons.prems False by simp
    ultimately show ?thesis using Cons.prems(1) False by simp
  qed
qed simp

lemma ht_buckets_distinct: "ht_buckets hfun t s xs B \<Longrightarrow> i < 128 \<Longrightarrow> distinct (B i)"
  unfolding ht_buckets_def by (simp add: distinct_map)

lemma ht_rel_erase_found:
  assumes rel: "ht_rel hfun n (t, s) M" and k: "\<And>k. hfun k < 128" and v: "M k = Some v"
  shows "\<exists>ts'. default_erase hfun (=) k (t, s) = Inr (0, ts') \<and> ht_rel hfun (Suc n) ts' (M(k := None))"
proof -
  from rel obtain xs B where r: "pmm_rel s xs" "length xs = n" "ht_buckets hfun t s xs B"
    "ht_map hfun t B = M" by (auto simp: ht_rel_def)
  define i where "i = unat (hfun k)"
  have i: "i < 128" using k [of k] by (simp add: i_def word_less_nat_alt)
  have ci: "chain t (link_next t (Head i)) (B i)" using r(3) i by (simp add: ht_buckets_def)
  have kin: "k \<in> set (map (key_of t) (B i))"
    using map_of_SomeD [of "map (binding t) (B i)" k v] v r(4)
    by (auto simp: ht_map_def i_def binding_def key_of_def)
  from erase_loop_chain [OF ci, of k] kin obtain l as m bs where
    e: "erase_loop (=) t k (Head i) = Some l" "B i = as @ m # bs" "k \<notin> set (map (key_of t) as)"
      "key_of t m = k" "link_next t l = m" "l = (if as = [] then Head i else Node (last as))"
    by auto
  have dB: "distinct (as @ m # bs)" using ht_buckets_distinct [OF r(3) i] e(2) by simp
  have mB: "managed s m" "m \<notin> set xs" "m \<noteq> 0" using r(3) i e(2) chain_nz [OF ci] by (auto simp: ht_buckets_def)
  define t1 where "t1 = set_link_next t l (hn_next (ht_node t m))"
  define s1 where "s1 = s\<lparr>mem := (mem s)(m := g_free_mem_list s), g_free_mem_list := m\<rparr>"
  have fr: "free_page m s = Inr s1" "pmm_rel s1 (m # xs)"
    using free_page_managed [OF r(1) mB(1,2)] by (simp_all add: s1_def)
  have kv: "key_of t1 = key_of t" "hn_value (ht_node t1 q) = hn_value (ht_node t q)" for q
    by (auto simp: t1_def key_of_def e(6) fun_eq_iff)
  then have bd: "binding t1 = binding t" by (auto simp: binding_def key_of_def fun_eq_iff)
  define B1 where "B1 = B(i := as @ bs)"
  have sub: "set (B1 j) \<subseteq> set (B j)" for j using e(2) by (auto simp: B1_def)
  have other: "m \<notin> set (B j)" "as \<noteq> [] \<Longrightarrow> last as \<notin> set (B j)" if "j < 128" "j \<noteq> i" for j
  proof -
    have "unat (hfun (key_of t q)) = i" if "q \<in> set (B i)" for q
      using r(3) i that by (auto simp: ht_buckets_def)
    moreover have "unat (hfun (key_of t q)) = j" if "q \<in> set (B j)" for q
      using r(3) \<open>j < 128\<close> that by (auto simp: ht_buckets_def)
    moreover have "m \<in> set (B i)" "as \<noteq> [] \<Longrightarrow> last as \<in> set (B i)" by (auto simp: e(2))
    ultimately show "m \<notin> set (B j)" "as \<noteq> [] \<Longrightarrow> last as \<notin> set (B j)" using \<open>j \<noteq> i\<close> by metis+
  qed
  have ch: "chain t1 (ht_head t1 j) (B1 j)" if j: "j < 128" for j
  proof (cases "j = i")
    case True
    show ?thesis
    proof (cases "as = []")
      case as: True
      have "chain t (hn_next (ht_node t m)) bs" using ci e(2) as by simp
      moreover have "chain t1 q bs = chain t q bs" for q
        by (rule chain_cong) (simp add: t1_def e(6) as)
      ultimately show ?thesis using True as by (simp add: B1_def t1_def e(6))
    next
      case as: False
      have "chain t (ht_head t i) (as @ m # bs)" using ci e(2) by simp
      from chain_delete [OF this dB as] True as show ?thesis by (simp add: B1_def t1_def e(6))
    qed
  next
    case False
    have "chain t1 q (B j) = chain t q (B j)" for q
      using other [OF j False] by (intro chain_cong) (auto simp: t1_def e(6))
    moreover have "ht_head t1 j = ht_head t j" using False by (simp add: t1_def e(6))
    ultimately show ?thesis using r(3) j False by (simp add: B1_def ht_buckets_def)
  qed
  have "ht_buckets hfun t1 s1 (m # xs) B1"
    unfolding ht_buckets_def
  proof (intro conjI allI impI ballI)
    fix j :: nat assume j: "j < 128"
    show "chain t1 (ht_head t1 j) (B1 j)" by (rule ch [OF j])
    have "distinct (map (key_of t) (B j))" using r(3) j by (simp add: ht_buckets_def)
    moreover have "distinct (map (key_of t) (as @ bs))" if "distinct (map (key_of t) (as @ m # bs))"
      using that by auto
    ultimately show "distinct (map (key_of t1) (B1 j))"
      by (cases "j = i") (simp_all only: kv B1_def e(2) fun_upd_apply if_True if_False simp_thms)
    fix q assume q: "q \<in> set (B1 j)"
    then have "q \<in> set (B j)" using sub by blast
    then have "managed s q \<and> q \<notin> set xs \<and> unat (hfun (key_of t q)) = j \<and> hn_value (ht_node t q) \<noteq> 0"
      using r(3) j by (auto simp: ht_buckets_def)
    moreover have "q \<noteq> m" using q dB other(1) [OF j] by (auto simp: B1_def split: if_splits)
    ultimately show "managed s1 q" "q \<notin> set (m # xs)" "unat (hfun (key_of t1 q)) = j"
      "hn_value (ht_node t1 q) \<noteq> 0" by (auto simp: s1_def managed_def kv)
  qed
  moreover have "ht_map hfun t1 B1 = M(k := None)"
  proof
    fix k'
    have "distinct (map (key_of t) (as @ m # bs))"
      using r(3) i unfolding ht_buckets_def e(2) [symmetric] by blast
    then have nb: "k \<notin> key_of t ` set bs" "k \<notin> key_of t ` set as" using e(3,4) by auto
    have fst: "fst \<circ> binding t = key_of t" by (auto simp: binding_def key_of_def fun_eq_iff)
    show "ht_map hfun t1 B1 k' = (M(k := None)) k'"
    proof (cases "k' = k")
      case True
      have "map_of (map (binding t) (as @ bs)) k = None"
        using nb by (simp add: map_of_eq_None_iff image_image [symmetric] fst image_comp)
      then show ?thesis using True by (simp add: ht_map_def B1_def i_def [symmetric] bd)
    next
      case False
      then have "map_of (map (binding t) (as @ m # bs)) k' = map_of (map (binding t) (as @ bs)) k'"
        using e(4) by (auto simp: map_add_def binding_def key_of_def split: option.splits)
      then show ?thesis using False r(4) e(2) by (auto simp: ht_map_def B1_def bd)
    qed
  qed
  moreover have "default_erase hfun (=) k (t, s) = Inr (0, t1, s1)"
    using e(1,5) mB(3) fr(1) by (simp add: default_erase_def i_def t1_def)
  ultimately show ?thesis using fr(2) r(2) by (auto simp: ht_rel_def intro!: exI [of _ "m # xs"])
qed

lemma ht_rel_put_dup:
  assumes rel: "ht_rel hfun (Suc n) (t, s) M" and k: "\<And>k. hfun k < 128" and v: "M k = Some v"
  shows "\<exists>ts'. default_put hfun (=) k w (t, s) = Inr (- 1, ts') \<and> ht_rel hfun n ts' M"
proof -
  from rel obtain xs B where r: "pmm_rel s xs" "length xs = Suc n" "ht_buckets hfun t s xs B"
    "ht_map hfun t B = M" by (auto simp: ht_rel_def)
  then obtain x ys where xs: "xs = x # ys" by (cases xs) auto
  let ?s = "s\<lparr>g_free_mem_list := mem s x\<rparr>"
  have al: "alloc_page s = Inr (x, ?s)" "pmm_rel ?s ys"
    using alloc_page_Cons [of s x ys] r(1) by (simp_all add: xs)
  have "v \<noteq> 0" using ht_map_nz [OF r(3) k] r(4) v by blast
  then have "default_put hfun (=) k w (t, s) = Inr (- 1, t, ?s)"
    using ht_rel_get [OF rel k, of k] v al(1) by (simp add: default_put_def)
  moreover have "ht_buckets hfun t ?s ys B" using r(3) by (auto simp: ht_buckets_def managed_def xs)
  ultimately show ?thesis using al(2) r(2,4) by (auto simp: ht_rel_def xs)
qed

lemma ht_rel_erase_none:
  assumes rel: "ht_rel hfun n (t, s) M" and k: "\<And>k. hfun k < 128" and v: "M k = None"
  shows "default_erase hfun (=) k (t, s) = Inr (- 1, t, s)"
proof -
  from rel obtain xs B where r: "ht_buckets hfun t s xs B" "ht_map hfun t B = M"
    by (auto simp: ht_rel_def)
  define i where "i = unat (hfun k)"
  have "i < 128" using k [of k] by (simp add: i_def word_less_nat_alt)
  then have ci: "chain t (link_next t (Head i)) (B i)" using r(1) by (simp add: ht_buckets_def)
  have "k \<notin> set (map (key_of t) (B i))"
    using v r(2) unfolding ht_map_def i_def
    by (auto simp: map_of_eq_None_iff binding_def key_of_def image_image)
  with erase_loop_chain [OF ci, of k] show ?thesis
    by (auto simp: default_erase_def i_def [symmetric])
qed

section \<open>The contract of a hash table\<close>

locale dictionary =
  fixes get :: "'t \<Rightarrow> 'k \<Rightarrow> kerr + u64"
    and put :: "'k \<Rightarrow> u64 \<Rightarrow> 't \<times> 's \<Rightarrow> kerr + (int \<times> 't \<times> 's)"
    and erase :: "'k \<Rightarrow> 't \<times> 's \<Rightarrow> kerr + (int \<times> 't \<times> 's)"
    and rel :: "nat \<Rightarrow> 't \<times> 's \<Rightarrow> ('k \<rightharpoonup> u64) \<Rightarrow> bool"
  assumes get_spec: "rel n (t, s) M \<Longrightarrow> get t k = Inr (case M k of None \<Rightarrow> 0 | Some v \<Rightarrow> v)"
    and put_new: "rel (Suc n) (t, s) M \<Longrightarrow> v \<noteq> 0 \<Longrightarrow> M k = None \<Longrightarrow>
      \<exists>ts'. put k v (t, s) = Inr (0, ts') \<and> rel n ts' (M(k \<mapsto> v))"
    and put_dup: "rel (Suc n) (t, s) M \<Longrightarrow> M k = Some v \<Longrightarrow>
      \<exists>ts'. put k w (t, s) = Inr (- 1, ts') \<and> rel n ts' M"
    and erase_found: "rel n (t, s) M \<Longrightarrow> M k = Some v \<Longrightarrow>
      \<exists>ts'. erase k (t, s) = Inr (0, ts') \<and> rel (Suc n) ts' (M(k := None))"
    and erase_none: "rel n (t, s) M \<Longrightarrow> M k = None \<Longrightarrow> erase k (t, s) = Inr (- 1, t, s)"
begin

lemma put_get:
  assumes "rel (Suc n) (t, s) M" and "v \<noteq> 0" and "M k = None"
  shows "\<exists>t' s'. put k v (t, s) = Inr (0, t', s') \<and> get t' k = Inr v \<and>
    (\<forall>k'. k' \<noteq> k \<longrightarrow> get t' k' = get t k')"
proof -
  from put_new [OF assms] obtain t' s' where
    p: "put k v (t, s) = Inr (0, t', s')" "rel n (t', s') (M(k \<mapsto> v))" by auto
  show ?thesis using p(1) get_spec [OF p(2)] get_spec [OF assms(1)] by auto
qed

lemma erase_get:
  assumes "rel n (t, s) M" and "M k = Some v"
  shows "\<exists>t' s'. erase k (t, s) = Inr (0, t', s') \<and> get t' k = Inr 0 \<and>
    (\<forall>k'. k' \<noteq> k \<longrightarrow> get t' k' = get t k')"
proof -
  from erase_found [OF assms] obtain t' s' where
    p: "erase k (t, s) = Inr (0, t', s')" "rel (Suc n) (t', s') (M(k := None))" by auto
  show ?thesis using p(1) get_spec [OF p(2)] get_spec [OF assms(1)] by auto
qed

lemma put_erase:
  assumes "rel (Suc n) (t, s) M" and "v \<noteq> 0" and "M k = None"
  shows "\<exists>ts1 ts2. put k v (t, s) = Inr (0, ts1) \<and> erase k ts1 = Inr (0, ts2) \<and> rel (Suc n) ts2 M"
proof -
  from put_new [OF assms] obtain t' s' where
    p: "put k v (t, s) = Inr (0, t', s')" "rel n (t', s') (M(k \<mapsto> v))" by auto
  have "(M(k \<mapsto> v))(k := None) = M" using assms(3) by auto
  then show ?thesis using erase_found [OF p(2), of k v] p(1) by auto
qed

end

locale hash_fun =
  fixes hfun :: "'k \<Rightarrow> u64" and heq :: "'k \<Rightarrow> 'k \<Rightarrow> bool"
  assumes hfun_bound: "hfun k < 128" and heq_eq: "heq k k' \<longleftrightarrow> k = k'"
begin

lemma heq_fun: "heq = (=)"
  by (auto simp: heq_eq fun_eq_iff)

end

sublocale hash_fun \<subseteq> dictionary "default_get hfun heq" "default_put hfun heq" "default_erase hfun heq"
  "ht_rel hfun"
  unfolding heq_fun
  by unfold_locales (auto simp del: split_paired_Ex intro: ht_rel_get ht_rel_put_new ht_rel_put_dup ht_rel_erase_found
      ht_rel_erase_none hfun_bound)

end
