(* ===== verification/FsState.thy ===== *)
theory FsState
  imports Vmm CString HashTable
begin

text \<open>
  The objects of the file layer (\<^verbatim>\<open>kernel/vfs.h\<close>, \<^verbatim>\<open>kernel/rfs.h\<close>, \<^verbatim>\<open>kernel/ramdev.h\<close>) and the
  part of \<^verbatim>\<open>kernel/vfs.c\<close> that creates, destroys and indexes them.  Every object lives in a page of
  its own taken from the physical memory manager; the state holds one typed store per kind of
  object, indexed by page address.  C strings in objects are lists of non-NUL bytes.
\<close>

section \<open>Objects\<close>

datatype fs_ops = Rfs_ops | Hostfs_ops      \<comment> \<open>\<^verbatim>\<open>rfs_i_ops\<close>, \<^verbatim>\<open>hostfs_i_ops\<close>\<close>

definition FILE_I :: int where "FILE_I = 0"
definition DIR_I :: int where "DIR_I = 1"
definition FD_NONE :: int where "FD_NONE = 0"
definition FD_OPENED :: int where "FD_OPENED = 1"
definition MAX_DENTRY_NAME_LEN :: nat where "MAX_DENTRY_NAME_LEN = 30"
definition MAX_PATH_LEN :: nat where "MAX_PATH_LEN = 30"

record dentry =
  d_name :: cstring
  d_ref :: int
  dentry_inode :: u64
  d_parent :: u64

record vfs_file =
  f_status :: int
  f_readable :: int
  f_writable :: int
  f_offset :: int
  f_dentry :: u64

record file_system_type =
  type_num :: int
  get_superblock :: fs_ops

record device =
  dev_name :: cstring
  dev_id :: int
  dev_fs_type :: file_system_type

record super_block =
  sb_magic :: int
  sb_size :: int
  sb_nblocks :: int
  sb_ninodes :: int
  s_root :: u64
  s_dev :: u64
  s_fs_info :: u64

record vinode =
  v_inum :: int
  v_ref :: int
  v_size :: int
  v_type :: int
  v_nlinks :: int
  v_blocks :: int
  v_addrs :: "int list"          \<comment> \<open>\<^verbatim>\<open>addrs[DIRECT_BLKNUM]\<close>, of length 10\<close>
  i_fs_info :: u64
  v_sb :: u64
  i_ops :: fs_ops

record rfs_device =
  d_address :: u64
  d_blocks :: int
  d_blocksize :: u64
  d_disk :: "int \<Rightarrow> bytes"        \<comment> \<open>the blocks of the RAM disk at \<^verbatim>\<open>d_address\<close>\<close>
  iobuffer :: bytes             \<comment> \<open>the page \<^verbatim>\<open>iobuffer\<close> points to\<close>

record rfs_dir_cache =
  block_count :: int
  dir_base_addr :: u64

type_synonym dentry_key = "u64 \<times> cstring"      \<comment> \<open>\<^verbatim>\<open>parent\<close>, \<^verbatim>\<open>name\<close>\<close>
type_synonym vinode_key = "nat \<times> u64"          \<comment> \<open>\<^verbatim>\<open>inum\<close> (checked not to be negative), \<^verbatim>\<open>sb\<close>\<close>

record fs = vmm +
  dentries :: "u64 \<Rightarrow> dentry"
  vinodes :: "u64 \<Rightarrow> vinode"
  files :: "u64 \<Rightarrow> vfs_file"
  devices :: "u64 \<Rightarrow> device"
  sbs :: "u64 \<Rightarrow> super_block"
  freemaps :: "u64 \<Rightarrow> int \<Rightarrow> int"               \<comment> \<open>the \<^verbatim>\<open>int\<close> array in a bitmap page\<close>
  dir_caches :: "u64 \<Rightarrow> rfs_dir_cache"
  page_bytes :: "u64 \<Rightarrow> bytes"                  \<comment> \<open>the bytes of a directory cache page\<close>
  rfs_device_list :: "int \<Rightarrow> rfs_device option"
  vfs_root_dentry :: u64
  vfs_sb_list :: "nat \<Rightarrow> u64"
  vfs_dev_list :: "nat \<Rightarrow> u64"
  fs_list :: "nat \<Rightarrow> file_system_type option"
  dentry_hash_table :: "dentry_key hash_table"
  vinode_hash_table :: "vinode_key hash_table"

definition alloc_obj :: "'z pmm_scheme \<Rightarrow> kerr + (u64 \<times> 'z pmm_scheme)" where
  \<comment> \<open>\<^verbatim>\<open>alloc_page()\<close> whose result is written through at once: NULL is a fault\<close>
  "alloc_obj s = kbind (alloc_page s) (\<lambda>(p, s).
     if p = 0 then Inl (Fault ''null'') else Inr (p, s))"

definition upd_dentry :: "u64 \<Rightarrow> (dentry \<Rightarrow> dentry) \<Rightarrow> 'z fs_scheme \<Rightarrow> 'z fs_scheme" where
  "upd_dentry p f s = s\<lparr>dentries := (dentries s)(p := f (dentries s p))\<rparr>"

definition upd_vinode :: "u64 \<Rightarrow> (vinode \<Rightarrow> vinode) \<Rightarrow> 'z fs_scheme \<Rightarrow> 'z fs_scheme" where
  "upd_vinode p f s = s\<lparr>vinodes := (vinodes s)(p := f (vinodes s p))\<rparr>"

definition upd_file :: "u64 \<Rightarrow> (vfs_file \<Rightarrow> vfs_file) \<Rightarrow> 'z fs_scheme \<Rightarrow> 'z fs_scheme" where
  "upd_file p f s = s\<lparr>files := (files s)(p := f (files s p))\<rparr>"

definition nonnull :: "u64 \<Rightarrow> kerr + unit" where
  \<comment> \<open>a pointer about to be dereferenced\<close>
  "nonnull p = (if p = 0 then Inl (Fault ''null'') else Inr ())"

section \<open>Constructors and destructors (vfs.c)\<close>

definition alloc_vfs_file ::
  "u64 \<Rightarrow> int \<Rightarrow> int \<Rightarrow> int \<Rightarrow> 'z fs_scheme \<Rightarrow> kerr + (u64 \<times> 'z fs_scheme)" where
  "alloc_vfs_file file_dentry readable writable offset s =
     kbind (alloc_obj s) (\<lambda>(f, s).
     kbind (nonnull file_dentry) (\<lambda>_.
       let s = upd_dentry file_dentry (\<lambda>d. d\<lparr>d_ref := d_ref d + 1\<rparr>) s;
           s = upd_file f (\<lambda>_. \<lparr>f_status = FD_OPENED, f_readable = readable,
                 f_writable = writable, f_offset = 0, f_dentry = file_dentry\<rparr>) s
       in Inr (f, s)))"

definition alloc_vfs_dentry ::
  "cstring \<Rightarrow> u64 \<Rightarrow> u64 \<Rightarrow> 'z fs_scheme \<Rightarrow> kerr + (u64 \<times> 'z fs_scheme)" where
  \<comment> \<open>a name that does not fit \<^verbatim>\<open>name[30]\<close> overruns the object\<close>
  "alloc_vfs_dentry name inode parent s =
     kbind (alloc_obj s) (\<lambda>(dentry, s).
       if length name \<ge> MAX_DENTRY_NAME_LEN then Inl (Fault ''strcpy'')
       else let s = (if inode \<noteq> 0 then upd_vinode inode (\<lambda>v. v\<lparr>v_ref := v_ref v + 1\<rparr>) s else s);
                s = upd_dentry dentry (\<lambda>_. \<lparr>d_name = name, d_ref = 0, dentry_inode = inode,
                      d_parent = parent\<rparr>) s
            in Inr (dentry, s))"

definition free_vfs_dentry :: "u64 \<Rightarrow> 'z fs_scheme \<Rightarrow> kerr + (int \<times> 'z fs_scheme)" where
  "free_vfs_dentry dentry s =
     (if d_ref (dentries s dentry) > 0 then Inr (- 1, s)
      else kbind (free_page dentry s) (\<lambda>s. Inr (0, s)))"

definition default_alloc_vinode :: "u64 \<Rightarrow> 'z fs_scheme \<Rightarrow> kerr + (u64 \<times> 'z fs_scheme)" where
  \<comment> \<open>the other fields keep what the page held before\<close>
  "default_alloc_vinode sb s =
     kbind (alloc_obj s) (\<lambda>(vinode, s).
       Inr (vinode, upd_vinode vinode (\<lambda>v. v\<lparr>v_blocks := 0, v_inum := 0, v_nlinks := 0,
              v_ref := 0, v_sb := sb, v_size := 0\<rparr>) s))"

section \<open>The two hash tables (vfs.c)\<close>

definition dentry_hash_equal :: "dentry_key \<Rightarrow> dentry_key \<Rightarrow> bool" where
  "dentry_hash_equal key1 key2 \<longleftrightarrow> snd key1 = snd key2 \<and> fst key1 = fst key2"

definition dentry_hash_func :: "dentry_key \<Rightarrow> u64" where
  "dentry_hash_func key =
     (let hash = foldl (\<lambda>hash c. push_bit 5 hash + hash + ucast c) 5381 (snd key);
          hash = push_bit 5 hash + hash + fst key
      in hash mod HASH_TABLE_SIZE)"

definition vinode_hash_equal :: "vinode_key \<Rightarrow> vinode_key \<Rightarrow> bool" where
  "vinode_hash_equal key1 key2 \<longleftrightarrow> fst key1 = fst key2 \<and> snd key1 = snd key2"

definition vinode_hash_func :: "vinode_key \<Rightarrow> u64" where
  "vinode_hash_func key = of_nat (fst key) mod HASH_TABLE_SIZE"

definition hash_get_dentry :: "u64 \<Rightarrow> cstring \<Rightarrow> 'z fs_scheme \<Rightarrow> kerr + u64" where
  "hash_get_dentry parent name s =
     default_get dentry_hash_func dentry_hash_equal (dentry_hash_table s) (parent, name)"

definition hash_put_dentry :: "u64 \<Rightarrow> 'z fs_scheme \<Rightarrow> kerr + (int \<times> 'z fs_scheme)" where
  "hash_put_dentry dentry s =
     kbind (alloc_obj s) (\<lambda>(key, s).
     kbind (default_put dentry_hash_func dentry_hash_equal
              (d_parent (dentries s dentry), d_name (dentries s dentry)) dentry
              (dentry_hash_table s, s)) (\<lambda>(ret, t, s).
       let s = s\<lparr>dentry_hash_table := t\<rparr> in
       if ret \<noteq> 0 then kbind (free_page key s) (\<lambda>s. Inr (ret, s)) else Inr (ret, s)))"

definition hash_erase_dentry :: "u64 \<Rightarrow> 'z fs_scheme \<Rightarrow> kerr + (int \<times> 'z fs_scheme)" where
  "hash_erase_dentry dentry s =
     kbind (default_erase dentry_hash_func dentry_hash_equal
              (d_parent (dentries s dentry), d_name (dentries s dentry))
              (dentry_hash_table s, s)) (\<lambda>(ret, t, s).
       Inr (ret, s\<lparr>dentry_hash_table := t\<rparr>))"

definition hash_get_vinode :: "u64 \<Rightarrow> int \<Rightarrow> 'z fs_scheme \<Rightarrow> kerr + u64" where
  "hash_get_vinode sb inum s =
     (if inum < 0 then Inr 0
      else default_get vinode_hash_func vinode_hash_equal (vinode_hash_table s) (nat inum, sb))"

definition hash_put_vinode :: "u64 \<Rightarrow> 'z fs_scheme \<Rightarrow> kerr + (int \<times> 'z fs_scheme)" where
  "hash_put_vinode vinode s =
     (if v_inum (vinodes s vinode) < 0 then Inr (- 1, s)
      else kbind (alloc_obj s) (\<lambda>(key, s).
        kbind (default_put vinode_hash_func vinode_hash_equal
                 (nat (v_inum (vinodes s vinode)), v_sb (vinodes s vinode)) vinode
                 (vinode_hash_table s, s)) (\<lambda>(ret, t, s).
          let s = s\<lparr>vinode_hash_table := t\<rparr> in
          if ret \<noteq> 0 then kbind (free_page key s) (\<lambda>s. Inr (ret, s)) else Inr (ret, s))))"

definition hash_erase_vinode :: "u64 \<Rightarrow> 'z fs_scheme \<Rightarrow> kerr + (int \<times> 'z fs_scheme)" where
  "hash_erase_vinode vinode s =
     (if v_inum (vinodes s vinode) < 0 then Inr (- 1, s)
      else kbind (default_erase vinode_hash_func vinode_hash_equal
             (nat (v_inum (vinodes s vinode)), v_sb (vinodes s vinode))
             (vinode_hash_table s, s)) (\<lambda>(ret, t, s).
        Inr (ret, s\<lparr>vinode_hash_table := t\<rparr>)))"

definition vfs_init :: "'z fs_scheme \<Rightarrow> int \<times> 'z fs_scheme" where
  "vfs_init s =
     (0, s\<lparr>dentry_hash_table := hash_table_init (dentry_hash_table s),
           vinode_hash_table := hash_table_init (vinode_hash_table s)\<rparr>)"

section \<open>The tables are dictionaries\<close>

lemma word_mod_128: "(w :: u64) mod 128 < 128"
  by (simp add: word_less_nat_alt unat_mod_distrib)

interpretation dht: hash_fun dentry_hash_func dentry_hash_equal
  by unfold_locales
    (auto simp: dentry_hash_func_def dentry_hash_equal_def HASH_TABLE_SIZE_def Let_def prod_eq_iff
      word_mod_128)

interpretation vht: hash_fun vinode_hash_func vinode_hash_equal
  by unfold_locales
    (auto simp: vinode_hash_func_def vinode_hash_equal_def HASH_TABLE_SIZE_def prod_eq_iff
      word_mod_128)

lemma hash_table_init_rel:
  assumes "pmm_rel s xs"
  shows "ht_rel hfun (length xs) (hash_table_init t, s) Map.empty"
proof -
  have "ht_buckets hfun (hash_table_init t) s xs (\<lambda>_. [])"
    by (simp add: ht_buckets_def hash_table_init_def)
  moreover have "ht_map hfun (hash_table_init t) (\<lambda>_. []) = Map.empty"
    by (auto simp: ht_map_def fun_eq_iff)
  ultimately show ?thesis using assms by (auto simp: ht_rel_def)
qed


text \<open>\<^verbatim>\<open>default_put\<close> allocates the node before it tests for a duplicate key, so inserting a key
  that is present returns -1, leaves the map unchanged and loses one free page.\<close>

lemma duplicate_put_leaks_page:
  assumes "ht_rel vinode_hash_func (Suc n) (t, s) M" and "M (inum, sb) = Some v"
  shows "\<exists>ts'. default_put vinode_hash_func vinode_hash_equal (inum, sb) w (t, s) = Inr (- 1, ts') \<and>
     ht_rel vinode_hash_func n ts' M"
  by (rule vht.put_dup [OF assms])

definition demo_table :: "'k \<Rightarrow> 'k hash_table" where
  "demo_table k = hash_table_init \<lparr>ht_head = (\<lambda>_. 7),
     ht_node = (\<lambda>_. \<lparr>hn_next = 0, hn_key = k, hn_value = 0\<rparr>)\<rparr>"

lemma demo_table_rel: "ht_rel hfun 3 (demo_table k, demo_pmm) Map.empty"
  using hash_table_init_rel [OF demo_pmm_rel] by (simp add: demo_table_def numeral_3_eq_3)


lemma duplicate_put_leaks_page_example:
  "\<exists>ts1 ts2. default_put vinode_hash_func vinode_hash_equal (5, 0x80300000) 0x80301000
       (demo_table (0, 0), demo_pmm) = Inr (0, ts1) \<and>
     default_put vinode_hash_func vinode_hash_equal (5, 0x80300000) 0x80302000 ts1 = Inr (- 1, ts2) \<and>
     ht_rel vinode_hash_func 1 ts2 [(5, 0x80300000) \<mapsto> 0x80301000]"
proof -
  have "ht_rel vinode_hash_func (Suc (Suc 1)) (demo_table (0, 0), demo_pmm) Map.empty"
    using demo_table_rel [of vinode_hash_func "(0, 0)"] by (simp add: numeral_3_eq_3)
  from vht.put_new [OF this, of "0x80301000" "(5, 0x80300000)"] obtain t1 s1 where
    p: "default_put vinode_hash_func vinode_hash_equal (5, 0x80300000) 0x80301000
       (demo_table (0, 0), demo_pmm) = Inr (0, t1, s1)"
    "ht_rel vinode_hash_func (Suc 1) (t1, s1) [(5, 0x80300000) \<mapsto> 0x80301000]"
    by auto
  from duplicate_put_leaks_page [OF p(2), of 5 "0x80300000" "0x80301000" "0x80302000"] p(1)
  show ?thesis by auto
qed

end
