(* ===== verification/Rfs.thy ===== *)
theory Rfs
  imports FsState
begin

text \<open>
  The RAM disk (\<^verbatim>\<open>kernel/ramdev.c\<close>) and the file system on it (\<^verbatim>\<open>kernel/rfs.c\<close>).  Disk blocks and
  the device's I/O buffer are byte arrays; disk inodes and directory entries are encoded in them
  byte by byte.  The pages that \<^verbatim>\<open>rfs_read_dinode\<close> hands out are words of physical memory, because
  \<^verbatim>\<open>rfs_create\<close> and \<^verbatim>\<open>rfs_mkdir\<close> may write to such a page after freeing it.
\<close>

section \<open>Encoding\<close>

definition rdw :: "bytes \<Rightarrow> nat \<Rightarrow> u32" where
  "rdw b p = ucast (b p) OR push_bit 8 (ucast (b (p + 1))) OR push_bit 16 (ucast (b (p + 2))) OR
     push_bit 24 (ucast (b (p + 3)))"

definition rd32 :: "bytes \<Rightarrow> nat \<Rightarrow> int" where
  "rd32 b p = sint (rdw b p)"

definition wr32 :: "bytes \<Rightarrow> nat \<Rightarrow> int \<Rightarrow> bytes" where
  "wr32 b p v = (let w = word_of_int v :: u32 in
     b(p := ucast w, p + 1 := ucast (drop_bit 8 w), p + 2 := ucast (drop_bit 16 w),
       p + 3 := ucast (drop_bit 24 w)))"

fun wr_ints :: "bytes \<Rightarrow> nat \<Rightarrow> int list \<Rightarrow> bytes" where
  "wr_ints b p [] = b"
| "wr_ints b p (v # vs) = wr_ints (wr32 b p v) (p + 4) vs"

definition rd_ints :: "bytes \<Rightarrow> nat \<Rightarrow> nat \<Rightarrow> int list" where
  "rd_ints b p n = map (\<lambda>i. rd32 b (p + 4 * i)) [0..<n]"

fun put_bytes :: "bytes \<Rightarrow> nat \<Rightarrow> u8 list \<Rightarrow> bytes" where
  "put_bytes b p [] = b"
| "put_bytes b p (c # cs) = put_bytes (b(p := c)) (p + 1) cs"

definition get_bytes :: "bytes \<Rightarrow> nat \<Rightarrow> nat \<Rightarrow> u8 list" where
  "get_bytes b p n = map (\<lambda>i. b (p + i)) [0..<n]"

definition put_str :: "bytes \<Rightarrow> nat \<Rightarrow> cstring \<Rightarrow> bytes" where
  \<comment> \<open>\<^verbatim>\<open>strcpy\<close> of a terminated string\<close>
  "put_str b p s = put_bytes b p (s @ [0])"

definition name_eq :: "bytes \<Rightarrow> nat \<Rightarrow> cstring \<Rightarrow> bool" where
  \<comment> \<open>\<^verbatim>\<open>strcmp(b + p, s) == 0\<close>\<close>
  "name_eq b p s \<longleftrightarrow> (\<forall>i < length s. b (p + i) = s ! i) \<and> b (p + length s) = 0"

record rfs_dinode =
  di_size :: int
  di_type :: int
  di_nlinks :: int
  di_blocks :: int
  di_addrs :: "int list"

definition dinode_ints :: "rfs_dinode \<Rightarrow> int list" where
  "dinode_ints d = [di_size d, di_type d, di_nlinks d, di_blocks d] @ di_addrs d"

definition dinode_of :: "int list \<Rightarrow> rfs_dinode" where
  "dinode_of xs = \<lparr>di_size = xs ! 0, di_type = xs ! 1, di_nlinks = xs ! 2, di_blocks = xs ! 3,
     di_addrs = drop 4 xs\<rparr>"

definition mem_int :: "(u64 \<Rightarrow> u64) \<Rightarrow> u64 \<Rightarrow> nat \<Rightarrow> int" where
  \<comment> \<open>the \<open>i\<close>-th \<^verbatim>\<open>int\<close> of an array at \<open>p\<close>\<close>
  "mem_int m p i =
     (let w = m (p + 8 * of_nat (i div 2)) in
      sint (ucast (if even i then w else drop_bit 32 w) :: u32))"

definition pack :: "int \<Rightarrow> int \<Rightarrow> u64" where
  "pack lo hi = ucast (word_of_int lo :: u32) OR push_bit 32 (ucast (word_of_int hi :: u32))"

fun store_ints :: "(u64 \<Rightarrow> u64) \<Rightarrow> u64 \<Rightarrow> int list \<Rightarrow> u64 \<Rightarrow> u64" where
  "store_ints m p (x # y # r) = store_ints (m(p := pack x y)) (p + 8) r"
| "store_ints m p _ = m"

definition load_dinode :: "(u64 \<Rightarrow> u64) \<Rightarrow> u64 \<Rightarrow> rfs_dinode" where
  "load_dinode m p = dinode_of (map (mem_int m p) [0..<14])"

definition store_dinode :: "(u64 \<Rightarrow> u64) \<Rightarrow> u64 \<Rightarrow> rfs_dinode \<Rightarrow> u64 \<Rightarrow> u64" where
  "store_dinode m p d = store_ints m p (dinode_ints d)"

definition upd_dinode :: "u64 \<Rightarrow> (rfs_dinode \<Rightarrow> rfs_dinode) \<Rightarrow> 'z pmm_scheme \<Rightarrow> 'z pmm_scheme" where
  \<comment> \<open>assignments to fields of the disk inode in the page \<open>p\<close>\<close>
  "upd_dinode p f s = s\<lparr>mem := store_dinode (mem s) p (f (load_dinode (mem s) p))\<rparr>"

section \<open>The RAM disk\<close>

definition RAMDISK_BLOCK_COUNT :: int where "RAMDISK_BLOCK_COUNT = 128"
definition RFS_TYPE :: int where "RFS_TYPE = 0"
definition RFS_MAGIC :: int where "RFS_MAGIC = 0xBEAF"
definition RFS_BLKSIZE :: int where "RFS_BLKSIZE = 4096"
definition RFS_INODESIZE :: int where "RFS_INODESIZE = 128"
definition RFS_MAX_INODE_BLKNUM :: int where "RFS_MAX_INODE_BLKNUM = 10"
definition RFS_DIRECT_BLKNUM :: int where "RFS_DIRECT_BLKNUM = 10"
definition RFS_BLK_OFFSET_SUPER :: int where "RFS_BLK_OFFSET_SUPER = 0"
definition RFS_BLK_OFFSET_INODE :: int where "RFS_BLK_OFFSET_INODE = 1"
definition RFS_BLK_OFFSET_BITMAP :: int where "RFS_BLK_OFFSET_BITMAP = 11"
definition RFS_BLK_OFFSET_FREE :: int where "RFS_BLK_OFFSET_FREE = 12"
definition R_FILE :: int where "R_FILE = 0"
definition R_DIR :: int where "R_DIR = 1"
definition R_FREE :: int where "R_FREE = 2"

lemmas RFS_defs = RAMDISK_BLOCK_COUNT_def RFS_TYPE_def RFS_MAGIC_def RFS_BLKSIZE_def
  RFS_INODESIZE_def RFS_MAX_INODE_BLKNUM_def RFS_DIRECT_BLKNUM_def RFS_BLK_OFFSET_SUPER_def
  RFS_BLK_OFFSET_INODE_def RFS_BLK_OFFSET_BITMAP_def RFS_BLK_OFFSET_FREE_def R_FILE_def R_DIR_def
  R_FREE_def FILE_I_def DIR_I_def

definition with_rdev ::
  "int \<Rightarrow> 'z fs_scheme \<Rightarrow> (rfs_device \<Rightarrow> kerr + 'a) \<Rightarrow> kerr + 'a" where
  \<comment> \<open>dereference \<^verbatim>\<open>rfs_device_list[dv]\<close>\<close>
  "with_rdev dv s f = (case rfs_device_list s dv of None \<Rightarrow> Inl (Fault ''rdev'') | Some d \<Rightarrow> f d)"

definition set_rdev :: "int \<Rightarrow> rfs_device \<Rightarrow> 'z fs_scheme \<Rightarrow> 'z fs_scheme" where
  "set_rdev dv d s = s\<lparr>rfs_device_list := (rfs_device_list s)(dv := Some d)\<rparr>"

definition ramdisk_write :: "int \<Rightarrow> int \<Rightarrow> 'z fs_scheme \<Rightarrow> kerr + 'z fs_scheme" where
  "ramdisk_write dv blkno s =
     (if blkno < 0 \<or> blkno \<ge> RAMDISK_BLOCK_COUNT
      then Inl (Panic ''ramdisk_write: write block No out of range!'')
      else with_rdev dv s (\<lambda>d. Inr (set_rdev dv (d\<lparr>d_disk := (d_disk d)(blkno := iobuffer d)\<rparr>) s)))"

definition ramdisk_read :: "int \<Rightarrow> int \<Rightarrow> 'z fs_scheme \<Rightarrow> kerr + 'z fs_scheme" where
  "ramdisk_read dv blkno s =
     (if blkno < 0 \<or> blkno \<ge> RAMDISK_BLOCK_COUNT
      then Inl (Panic ''ramdisk_read: read block No out of range!'')
      else with_rdev dv s (\<lambda>d. Inr (set_rdev dv (d\<lparr>iobuffer := d_disk d blkno\<rparr>) s)))"

definition iobuf :: "int \<Rightarrow> 'z fs_scheme \<Rightarrow> kerr + bytes" where
  "iobuf dv s = with_rdev dv s (\<lambda>d. Inr (iobuffer d))"

definition upd_iobuf :: "int \<Rightarrow> (bytes \<Rightarrow> bytes) \<Rightarrow> 'z fs_scheme \<Rightarrow> kerr + 'z fs_scheme" where
  "upd_iobuf dv f s = with_rdev dv s (\<lambda>d. Inr (set_rdev dv (d\<lparr>iobuffer := f (iobuffer d)\<rparr>) s))"

fun alloc_contiguous :: "nat \<Rightarrow> u64 \<Rightarrow> 'z pmm_scheme \<Rightarrow> kerr + (u64 \<times> 'z pmm_scheme)" where
  \<comment> \<open>the allocation loop of \<^verbatim>\<open>init_rfs_device\<close>; the second argument is \<^verbatim>\<open>curr_addr\<close>\<close>
  "alloc_contiguous 0 cur s = Inr (cur, s)"
| "alloc_contiguous (Suc n) cur s =
     kbind (alloc_page s) (\<lambda>(p, s).
       if cur \<noteq> 0 \<and> cur - p \<noteq> PGSIZE then Inl (Panic ''RAM Disk0: address is discontinuous!'')
       else alloc_contiguous n p s)"

definition init_rfs_device ::
  "cstring \<Rightarrow> (int \<Rightarrow> bytes) \<Rightarrow> bytes \<Rightarrow> 'z fs_scheme \<Rightarrow> kerr + (u64 \<times> 'z fs_scheme)" where
  \<comment> \<open>\<open>disk\<close> and \<open>buf\<close> are what the allocated pages hold\<close>
  "init_rfs_device name disk buf s =
     (case find (\<lambda>i. case fs_list s i of None \<Rightarrow> False | Some t \<Rightarrow> type_num t = RFS_TYPE) [0..<10] of
        None \<Rightarrow> Inl (Panic ''No RFS file system found!'')
      | Some fi \<Rightarrow>
          kbind (alloc_contiguous 128 0 s) (\<lambda>(ramdisk_addr, s).
          case find (\<lambda>i. rfs_device_list s (int i) = None) [0..<10] of
            None \<Rightarrow> Inl (Panic ''RAM Disk0: no free device!'')
          | Some di \<Rightarrow>
              kbind (alloc_obj s) (\<lambda>(_, s).
              kbind (alloc_page s) (\<lambda>(_, s).
              let s = set_rdev (int di) \<lparr>d_address = ramdisk_addr, d_blocks = RAMDISK_BLOCK_COUNT,
                        d_blocksize = PGSIZE, d_disk = disk, iobuffer = buf\<rparr> s in
              kbind (alloc_obj s) (\<lambda>(device, s).
                if length name \<ge> 30 then Inl (Fault ''strcpy'')
                else let s = s\<lparr>devices := (devices s)(device := \<lparr>dev_name = name, dev_id = int di,
                               dev_fs_type = the (fs_list s fi)\<rparr>)\<rparr>;
                         s = (case find (\<lambda>i. vfs_dev_list s i = 0) [0..<10] of
                                None \<Rightarrow> s
                              | Some i \<Rightarrow> s\<lparr>vfs_dev_list := (vfs_dev_list s)(i := device)\<rparr>)
                     in Inr (device, s))))))"

section \<open>Blocks and disk inodes\<close>

definition register_rfs :: "'z fs_scheme \<Rightarrow> kerr + (int \<times> 'z fs_scheme)" where
  "register_rfs s =
     kbind (alloc_obj s) (\<lambda>(_, s).
       case find (\<lambda>i. fs_list s i = None) [0..<10] of
         None \<Rightarrow> Inr (- 1, s)
       | Some i \<Rightarrow> Inr (0, s\<lparr>fs_list := (fs_list s)(i \<mapsto> \<lparr>type_num = RFS_TYPE,
                              get_superblock = Rfs_ops\<rparr>)\<rparr>))"

definition rfs_r1block :: "int \<Rightarrow> int \<Rightarrow> 'z fs_scheme \<Rightarrow> kerr + 'z fs_scheme" where
  "rfs_r1block dv n_block s = ramdisk_read dv n_block s"

definition rfs_w1block :: "int \<Rightarrow> int \<Rightarrow> 'z fs_scheme \<Rightarrow> kerr + 'z fs_scheme" where
  "rfs_w1block dv n_block s = ramdisk_write dv n_block s"

definition inode_block :: "int \<Rightarrow> int" where
  "inode_block n_inode = cdiv n_inode (RFS_BLKSIZE div RFS_INODESIZE) + RFS_BLK_OFFSET_INODE"

definition inode_offset :: "int \<Rightarrow> nat" where
  "inode_offset n_inode = nat (cmod n_inode (RFS_BLKSIZE div RFS_INODESIZE) * RFS_INODESIZE)"

definition rfs_read_dinode :: "int \<Rightarrow> int \<Rightarrow> 'z fs_scheme \<Rightarrow> kerr + (u64 \<times> 'z fs_scheme)" where
  "rfs_read_dinode dv n_inode s =
     kbind (ramdisk_read dv (inode_block n_inode) s) (\<lambda>s.
     kbind (alloc_obj s) (\<lambda>(p, s).
     kbind (iobuf dv s) (\<lambda>b.
       Inr (p, s\<lparr>mem := store_dinode (mem s) p (dinode_of (rd_ints b (inode_offset n_inode) 14))\<rparr>))))"

definition rfs_write_dinode ::
  "int \<Rightarrow> rfs_dinode \<Rightarrow> int \<Rightarrow> 'z fs_scheme \<Rightarrow> kerr + (int \<times> 'z fs_scheme)" where
  "rfs_write_dinode dv dinode n_inode s =
     kbind (ramdisk_read dv (inode_block n_inode) s) (\<lambda>s.
     kbind (upd_iobuf dv (\<lambda>b. wr_ints b (inode_offset n_inode) (dinode_ints dinode)) s) (\<lambda>s.
     kbind (ramdisk_write dv (inode_block n_inode) s) (\<lambda>s. Inr (0, s))))"

fun format_inodes :: "nat \<Rightarrow> nat \<Rightarrow> bytes \<Rightarrow> bytes" where
  \<comment> \<open>the loop that makes the inodes of a block free; \<open>p\<close> is \<^verbatim>\<open>p_dinode\<close>\<close>
  "format_inodes 0 p b = b"
| "format_inodes (Suc n) p b = format_inodes n (p + 128) (wr_ints b p [0, R_FREE, 0, 0])"

fun write_inode_blocks :: "int \<Rightarrow> nat \<Rightarrow> int \<Rightarrow> 'z fs_scheme \<Rightarrow> kerr + 'z fs_scheme" where
  "write_inode_blocks dv 0 i s = Inr s"
| "write_inode_blocks dv (Suc n) i s =
     kbind (rfs_w1block dv (RFS_BLK_OFFSET_INODE + i) s) (write_inode_blocks dv n (i + 1))"

definition rfs_format_dev :: "int \<Rightarrow> int list \<Rightarrow> 'z fs_scheme \<Rightarrow> kerr + (int \<times> 'z fs_scheme)" where
  \<comment> \<open>\<open>junk\<close> is what the uninitialised \<^verbatim>\<open>root_dinode.addrs[1..9]\<close> hold\<close>
  "rfs_format_dev dv junk s =
     kbind (upd_iobuf dv (\<lambda>b. wr_ints b 0 [RFS_MAGIC,
              1 + RFS_MAX_INODE_BLKNUM + 1 + RFS_MAX_INODE_BLKNUM * RFS_DIRECT_BLKNUM,
              RFS_MAX_INODE_BLKNUM * RFS_DIRECT_BLKNUM,
              RFS_BLKSIZE div RFS_INODESIZE * RFS_MAX_INODE_BLKNUM]) s) (\<lambda>s.
     kbind (rfs_w1block dv RFS_BLK_OFFSET_SUPER s) (\<lambda>s.
     kbind (upd_iobuf dv (format_inodes 32 0) s) (\<lambda>s.
     kbind (write_inode_blocks dv 10 0 s) (\<lambda>s.
     kbind (rfs_write_dinode dv \<lparr>di_size = 0, di_type = R_DIR, di_nlinks = 1, di_blocks = 1,
              di_addrs = RFS_BLK_OFFSET_FREE # junk\<rparr> 0 s) (\<lambda>(_, s).
     kbind (upd_iobuf dv (\<lambda>b. wr32 (memset b 0 0 4096) 0 1) s) (\<lambda>s.
     kbind (rfs_w1block dv RFS_BLK_OFFSET_BITMAP s) (\<lambda>s. Inr (0, s))))))))"

definition rfs_alloc_block :: "u64 \<Rightarrow> 'z fs_scheme \<Rightarrow> kerr + (int \<times> 'z fs_scheme)" where
  "rfs_alloc_block sb s =
     (let p = s_fs_info (sbs s sb); freemap = freemaps s p in
      case find (\<lambda>block. freemap block = 0) (map int [0..<nat (sb_nblocks (sbs s sb))]) of
        None \<Rightarrow> Inl (Panic ''rfs_alloc_block: no more free block!'')
      | Some block \<Rightarrow> Inr (RFS_BLK_OFFSET_FREE + block,
                          s\<lparr>freemaps := (freemaps s)(p := freemap(block := 1))\<rparr>))"

definition rfs_free_block :: "u64 \<Rightarrow> int \<Rightarrow> 'z fs_scheme \<Rightarrow> 'z fs_scheme" where
  "rfs_free_block sb block_num s =
     (let p = s_fs_info (sbs s sb) in
      s\<lparr>freemaps := (freemaps s)(p := (freemaps s p)(block_num - RFS_BLK_OFFSET_FREE := 0))\<rparr>)"

section \<open>Virtual inodes\<close>

definition vdev :: "u64 \<Rightarrow> 'z fs_scheme \<Rightarrow> int" where
  \<comment> \<open>\<^verbatim>\<open>vinode->sb->s_dev->dev_id\<close>\<close>
  "vdev v s = dev_id (devices s (s_dev (sbs s (v_sb (vinodes s v)))))"

definition vaddr :: "u64 \<Rightarrow> int \<Rightarrow> 'z fs_scheme \<Rightarrow> kerr + int" where
  \<comment> \<open>\<^verbatim>\<open>vinode->addrs[i]\<close>; an index outside the array is undefined behaviour\<close>
  "vaddr v i s =
     (if 0 \<le> i \<and> i < RFS_DIRECT_BLKNUM then Inr (v_addrs (vinodes s v) ! nat i)
      else Inl (Fault ''addrs''))"

definition rfs_alloc_vinode :: "u64 \<Rightarrow> 'z fs_scheme \<Rightarrow> kerr + (u64 \<times> 'z fs_scheme)" where
  "rfs_alloc_vinode sb s =
     kbind (default_alloc_vinode sb s) (\<lambda>(v, s). Inr (v, upd_vinode v (\<lambda>x. x\<lparr>i_ops := Rfs_ops\<rparr>) s))"

definition vinode_dinode :: "vinode \<Rightarrow> rfs_dinode" where
  "vinode_dinode v = \<lparr>di_size = v_size v, di_type = v_type v, di_nlinks = v_nlinks v,
     di_blocks = v_blocks v, di_addrs = v_addrs v\<rparr>"

definition rfs_write_back_vinode :: "u64 \<Rightarrow> 'z fs_scheme \<Rightarrow> kerr + (int \<times> 'z fs_scheme)" where
  "rfs_write_back_vinode v s =
     kbind (rfs_write_dinode (vdev v s) (vinode_dinode (vinodes s v)) (v_inum (vinodes s v)) s)
       (\<lambda>(r, s). if r \<noteq> 0 then Inr (- 1, s) else Inr (0, s))"

definition rfs_update_vinode :: "u64 \<Rightarrow> 'z fs_scheme \<Rightarrow> kerr + (int \<times> 'z fs_scheme)" where
  "rfs_update_vinode v s =
     kbind (rfs_read_dinode (vdev v s) (v_inum (vinodes s v)) s) (\<lambda>(p, s).
       if p = 0 then Inr (- 1, s)
       else let d = load_dinode (mem s) p;
                s = upd_vinode v (\<lambda>x. x\<lparr>v_size := di_size d, v_nlinks := di_nlinks d,
                      v_blocks := di_blocks d, v_type := di_type d, v_addrs := di_addrs d\<rparr>) s
            in kbind (free_page p s) (\<lambda>s. Inr (0, s)))"

definition rfs_add_direntry ::
  "u64 \<Rightarrow> cstring \<Rightarrow> int \<Rightarrow> 'z fs_scheme \<Rightarrow> kerr + (int \<times> 'z fs_scheme)" where
  "rfs_add_direntry dir name inum s =
     (let d = vinodes s dir in
      if v_type d \<noteq> DIR_I then Inr (- 1, s)
      else kbind (vaddr dir (cdiv (v_size d) RFS_BLKSIZE) s) (\<lambda>n_block.
        kbind (rfs_r1block (vdev dir s) n_block s) (\<lambda>s.
        let p = nat (cmod (v_size d) RFS_BLKSIZE) in
        kbind (upd_iobuf (vdev dir s) (\<lambda>b. put_str (wr32 b p inum) (p + 4) name) s) (\<lambda>s.
        kbind (rfs_w1block (vdev dir s) n_block s) (\<lambda>s.
        let s = upd_vinode dir (\<lambda>x. x\<lparr>v_size := v_size x + 32\<rparr>) s in
        kbind (rfs_write_back_vinode dir s) (\<lambda>(r, s).
          if r \<noteq> 0 then Inr (- 1, s) else Inr (0, s)))))))"

section \<open>Files\<close>

fun read_blocks ::
  "nat \<Rightarrow> u64 \<Rightarrow> int \<Rightarrow> 'z fs_scheme \<Rightarrow> kerr + (u8 list \<times> 'z fs_scheme)" where
  \<comment> \<open>the loop over complete blocks of \<^verbatim>\<open>rfs_read\<close>, from \<^verbatim>\<open>block_offset\<close>\<close>
  "read_blocks 0 v bo s = Inr ([], s)"
| "read_blocks (Suc n) v bo s =
     kbind (vaddr v bo s) (\<lambda>a.
     kbind (rfs_r1block (vdev v s) a s) (\<lambda>s.
     kbind (iobuf (vdev v s) s) (\<lambda>b.
     kbind (read_blocks n v (bo + 1) s) (\<lambda>(r, s). Inr (get_bytes b 0 4096 @ r, s)))))"

definition rfs_read_buffer ::
  "u64 \<Rightarrow> int \<Rightarrow> int \<Rightarrow> 'z fs_scheme \<Rightarrow> kerr + (u8 list \<times> 'z fs_scheme)" where
  \<comment> \<open>the local \<^verbatim>\<open>buffer\<close> after the reads (without its last byte), for a clamped \<open>len\<close>\<close>
  "rfs_read_buffer v len offset s =
     (let align = cmod offset RFS_BLKSIZE; block_offset = cdiv offset RFS_BLKSIZE;
          readtimes = cdiv (align + len) RFS_BLKSIZE; remain = cmod (align + len) RFS_BLKSIZE in
      kbind (vaddr v block_offset s) (\<lambda>a.
      kbind (rfs_r1block (vdev v s) a s) (\<lambda>s.
      kbind (iobuf (vdev v s) s) (\<lambda>b.
      let first_block_len = (if readtimes = 0 then len else RFS_BLKSIZE - align);
          buf1 = get_bytes b (nat align) (nat first_block_len) in
      if readtimes - 1 \<ge> 0 then
        kbind (read_blocks (nat (readtimes - 1)) v (block_offset + 1) s) (\<lambda>(buf2, s).
          if remain > 0 then
            kbind (vaddr v (block_offset + 1 + (readtimes - 1)) s) (\<lambda>a.
            kbind (rfs_r1block (vdev v s) a s) (\<lambda>s.
            kbind (iobuf (vdev v s) s) (\<lambda>b.
              Inr (buf1 @ buf2 @ get_bytes b 0 (nat remain), s))))
          else Inr (buf1 @ buf2, s))
      else Inr (buf1, s)))))"

definition rfs_read ::
  "u64 \<Rightarrow> int \<Rightarrow> int \<Rightarrow> 'z fs_scheme \<Rightarrow> kerr + (int \<times> u8 list \<times> int \<times> 'z fs_scheme)" where
  \<comment> \<open>returns the length, the bytes \<^verbatim>\<open>strcpy(r_buf, buffer)\<close> stores and the new offset\<close>
  "rfs_read f_inode len offset s =
     (let sz = v_size (vinodes s f_inode) in
      if sz < offset then Inl (Panic ''rfs_read:offset should less than file size!'')
      else let len = (if sz < offset + len then sz - offset else len) in
        kbind (rfs_read_buffer f_inode len offset s) (\<lambda>(buffer, s).
          Inr (len, takeWhile (\<lambda>c. c \<noteq> 0) buffer @ [0], offset + len, s)))"

definition ensure_block :: "u64 \<Rightarrow> int \<Rightarrow> 'z fs_scheme \<Rightarrow> kerr + 'z fs_scheme" where
  \<comment> \<open>\<^verbatim>\<open>if (block_offset == f_inode->blocks) { addrs[block_offset] = rfs_alloc_block(...); blocks++; }\<close>\<close>
  "ensure_block v bo s =
     (if bo = v_blocks (vinodes s v) then
        kbind (rfs_alloc_block (v_sb (vinodes s v)) s) (\<lambda>(b, s).
          if 0 \<le> bo \<and> bo < RFS_DIRECT_BLKNUM
          then Inr (upd_vinode v (\<lambda>x. x\<lparr>v_addrs := (v_addrs x)[nat bo := b],
                      v_blocks := v_blocks x + 1\<rparr>) s)
          else Inl (Fault ''addrs''))
      else Inr s)"

fun write_blocks ::
  "nat \<Rightarrow> u64 \<Rightarrow> int \<Rightarrow> u8 list \<Rightarrow> 'z fs_scheme \<Rightarrow> kerr + 'z fs_scheme" where
  \<comment> \<open>the loop over complete blocks of \<^verbatim>\<open>rfs_write\<close>; \<open>w\<close> is \<^verbatim>\<open>w_buf + buf_offset\<close>\<close>
  "write_blocks 0 v bo w s = Inr s"
| "write_blocks (Suc n) v bo w s =
     kbind (ensure_block v bo s) (\<lambda>s.
     kbind (upd_iobuf (vdev v s) (\<lambda>b. put_bytes b 0 (take 4096 w)) s) (\<lambda>s.
     kbind (vaddr v bo s) (\<lambda>a.
     kbind (rfs_w1block (vdev v s) a s) (\<lambda>s.
       write_blocks n v (bo + 1) (drop 4096 w) s))))"

definition rfs_write ::
  "u64 \<Rightarrow> u8 list \<Rightarrow> int \<Rightarrow> int \<Rightarrow> 'z fs_scheme \<Rightarrow> kerr + (int \<times> int \<times> 'z fs_scheme)" where
  \<comment> \<open>\<open>w\<close> is the memory at \<^verbatim>\<open>w_buf\<close>; returns the length and the new offset\<close>
  "rfs_write f_inode w len offset s =
     (if v_size (vinodes s f_inode) < offset
      then Inl (Panic ''rfs_write:offset should less than file size!'')
      else let align = cmod offset RFS_BLKSIZE;
               writetimes = cdiv (len + align) RFS_BLKSIZE; remain = cmod (len + align) RFS_BLKSIZE;
               block_offset = cdiv offset RFS_BLKSIZE;
               first_block_len = (if align = 0 then 0
                                  else if writetimes = 0 then len else RFS_BLKSIZE - align) in
        kbind (if align \<noteq> 0 then
                 kbind (vaddr f_inode block_offset s) (\<lambda>a.
                 kbind (rfs_r1block (vdev f_inode s) a s) (\<lambda>s.
                 kbind (upd_iobuf (vdev f_inode s)
                          (\<lambda>b. put_bytes b (nat align) (take (nat first_block_len) w)) s) (\<lambda>s.
                 rfs_w1block (vdev f_inode s) a s)))
               else Inr s) (\<lambda>s.
        let w' = drop (nat first_block_len) w;
            block_offset = (if align \<noteq> 0 then block_offset + 1 else block_offset);
            writetimes = (if align \<noteq> 0 then writetimes - 1 else writetimes) in
        kbind (if writetimes \<ge> 0 then
                 kbind (write_blocks (nat writetimes) f_inode block_offset w' s) (\<lambda>s.
                   if remain > 0 then
                     kbind (ensure_block f_inode (block_offset + writetimes) s) (\<lambda>s.
                     kbind (upd_iobuf (vdev f_inode s)
                              (\<lambda>b. put_bytes b 0 (take (nat remain) (drop (4096 * nat writetimes) w'))) s) (\<lambda>s.
                     kbind (vaddr f_inode (block_offset + writetimes) s) (\<lambda>a.
                     rfs_w1block (vdev f_inode s) a s)))
                   else Inr s)
               else Inr s) (\<lambda>s.
        let s = upd_vinode f_inode (\<lambda>x. x\<lparr>v_size :=
                  (if v_size x < offset + len then offset + len else v_size x)\<rparr>) s
        in Inr (len, offset + len, s))))"

definition rfs_lseek :: "u64 \<Rightarrow> int \<Rightarrow> int \<Rightarrow> int \<Rightarrow> 'z fs_scheme \<Rightarrow> int \<times> int" where
  \<comment> \<open>the result and the offset afterwards\<close>
  "rfs_lseek f_inode new_offset whence offset s =
     (let file_size = v_size (vinodes s f_inode) in
      if whence = 0 then
        (if new_offset < 0 \<or> new_offset > file_size then (- 1, offset) else (0, new_offset))
      else if whence = 1 then
        (if offset + new_offset < 0 \<or> offset + new_offset > file_size then (- 1, offset)
         else (0, offset + new_offset))
      else (- 1, offset))"

record istat =
  st_inum :: int
  st_size :: int
  st_type :: int
  st_nlinks :: int
  st_blocks :: int

definition rfs_disk_stat :: "u64 \<Rightarrow> 'z fs_scheme \<Rightarrow> kerr + (int \<times> istat option \<times> 'z fs_scheme)" where
  "rfs_disk_stat v s =
     kbind (rfs_read_dinode (vdev v s) (v_inum (vinodes s v)) s) (\<lambda>(p, s).
       if p = 0 then Inr (- 1, None, s)
       else let d = load_dinode (mem s) p in
         kbind (free_page p s) (\<lambda>s.
           Inr (0, Some \<lparr>st_inum = v_inum (vinodes s v), st_size = di_size d, st_type = di_type d,
                  st_nlinks = di_nlinks d, st_blocks = di_blocks d\<rparr>, s)))"

section \<open>Directories\<close>

fun lookup_loop ::
  "nat \<Rightarrow> int \<Rightarrow> u64 \<Rightarrow> cstring \<Rightarrow> 'z fs_scheme \<Rightarrow> kerr + (int option \<times> int \<times> 'z fs_scheme)" where
  \<comment> \<open>the search loops of \<^verbatim>\<open>rfs_lookup\<close> and \<^verbatim>\<open>rfs_unlink\<close> with \<open>n\<close> entries left, at entry \<open>i\<close>:
     the inode number of the entry found, and the index where the loop stopped\<close>
  "lookup_loop 0 i parent name s = Inr (None, i, s)"
| "lookup_loop (Suc n) i parent name s =
     kbind (if i mod 128 = 0 then
              kbind (vaddr parent (i div 128) s) (\<lambda>a. rfs_r1block (vdev parent s) a s)
            else Inr s) (\<lambda>s.
     kbind (iobuf (vdev parent s) s) (\<lambda>b.
       let p = nat (i mod 128) * 32 in
       if name_eq b (p + 4) name then Inr (Some (rd32 b p), i, s)
       else lookup_loop n (i + 1) parent name s))"

definition rfs_lookup :: "u64 \<Rightarrow> u64 \<Rightarrow> 'z fs_scheme \<Rightarrow> kerr + (u64 \<times> 'z fs_scheme)" where
  "rfs_lookup parent sub_dentry s =
     (let total_direntrys = v_size (vinodes s parent) div 32 in
      kbind (lookup_loop (nat total_direntrys) 0 parent (d_name (dentries s sub_dentry)) s)
        (\<lambda>(r, _, s). case r of
           None \<Rightarrow> Inr (0, s)
         | Some inum \<Rightarrow>
             kbind (rfs_alloc_vinode (v_sb (vinodes s parent)) s) (\<lambda>(child, s).
             let s = upd_vinode child (\<lambda>x. x\<lparr>v_inum := inum\<rparr>) s in
             kbind (rfs_update_vinode child s) (\<lambda>(e, s).
               if e \<noteq> 0 then Inl (Panic ''rfs_lookup: read inode failed!'') else Inr (child, s)))))"

fun find_dinode ::
  "nat \<Rightarrow> int \<Rightarrow> u64 \<Rightarrow> int \<Rightarrow> 'z fs_scheme \<Rightarrow> kerr + (u64 \<times> int \<times> 'z fs_scheme)" where
  \<comment> \<open>the search for a free disk inode: \<^verbatim>\<open>free_dinode\<close> (freed, when the loop runs out) and
     \<^verbatim>\<open>free_inum\<close>\<close>
  "find_dinode 0 i free_dinode dv s = Inr (free_dinode, 0, s)"
| "find_dinode (Suc n) i free_dinode dv s =
     kbind (rfs_read_dinode dv i s) (\<lambda>(p, s).
       if di_type (load_dinode (mem s) p) = R_FREE then Inr (p, i, s)
       else kbind (free_page p s) (find_dinode n (i + 1) p dv))"

definition new_dinode :: "int \<Rightarrow> int \<Rightarrow> int \<Rightarrow> u64 \<Rightarrow> int \<Rightarrow> 'z fs_scheme \<Rightarrow> kerr + (int \<times> 'z fs_scheme)" where
  \<comment> \<open>the part \<^verbatim>\<open>rfs_create\<close> and \<^verbatim>\<open>rfs_mkdir\<close> share: find a free disk inode, fill it in with the
     given type and block count, allocate its first block and write it to disk\<close>
  "new_dinode typ blocks fuel sb dv s =
     kbind (find_dinode (nat fuel) 0 0 dv s) (\<lambda>(p, free_inum, s).
       if p = 0 then Inl (Panic ''no more free disk inode'')
       else let s = upd_dinode p (\<lambda>d. d\<lparr>di_size := 0, di_type := typ, di_nlinks := 1,
                      di_blocks := blocks\<rparr>) s in
         kbind (rfs_alloc_block sb s) (\<lambda>(b, s).
         let s = upd_dinode p (\<lambda>d. d\<lparr>di_addrs := (di_addrs d)[0 := b]\<rparr>) s in
         kbind (rfs_write_dinode dv (load_dinode (mem s) p) free_inum s) (\<lambda>(_, s).
         kbind (free_page p s) (\<lambda>s. Inr (free_inum, s)))))"

definition rfs_create :: "u64 \<Rightarrow> u64 \<Rightarrow> 'z fs_scheme \<Rightarrow> kerr + (u64 \<times> 'z fs_scheme)" where
  "rfs_create parent sub_dentry s =
     (let sb = v_sb (vinodes s parent) in
      kbind (new_dinode R_FILE 0 (RFS_BLKSIZE div RFS_INODESIZE * RFS_MAX_INODE_BLKNUM) sb
               (vdev parent s) s) (\<lambda>(free_inum, s).
      kbind (rfs_alloc_vinode sb s) (\<lambda>(new_vinode, s).
      let s = upd_vinode new_vinode (\<lambda>x. x\<lparr>v_inum := free_inum\<rparr>) s in
      kbind (rfs_update_vinode new_vinode s) (\<lambda>(_, s).
      kbind (rfs_add_direntry parent (d_name (dentries s sub_dentry)) free_inum s) (\<lambda>(result, s).
        if result = - 1 then Inr (0, s) else Inr (new_vinode, s))))))"

definition rfs_mkdir :: "u64 \<Rightarrow> u64 \<Rightarrow> 'z fs_scheme \<Rightarrow> kerr + (u64 \<times> 'z fs_scheme)" where
  "rfs_mkdir parent sub_dentry s =
     (let sb = v_sb (vinodes s parent) in
      kbind (new_dinode R_DIR 1 (RFS_BLKSIZE div RFS_INODESIZE * RFS_MAX_INODE_BLKNUM) sb
               (vdev parent s) s) (\<lambda>(free_inum, s).
      kbind (rfs_add_direntry parent (d_name (dentries s sub_dentry)) free_inum s) (\<lambda>(result, s).
        if result = - 1 then Inr (0, s)
        else kbind (rfs_alloc_vinode sb s) (\<lambda>(sub_vinode, s).
          let s = upd_vinode sub_vinode (\<lambda>x. x\<lparr>v_inum := free_inum\<rparr>) s in
          kbind (rfs_update_vinode sub_vinode s) (\<lambda>(_, s). Inr (sub_vinode, s))))))"

definition rfs_link :: "u64 \<Rightarrow> u64 \<Rightarrow> u64 \<Rightarrow> 'z fs_scheme \<Rightarrow> kerr + (int \<times> 'z fs_scheme)" where
  "rfs_link parent sub_dentry link_node s =
     (let s = upd_vinode link_node (\<lambda>x. x\<lparr>v_nlinks := v_nlinks x + 1\<rparr>) s in
      kbind (rfs_add_direntry parent (d_name (dentries s sub_dentry)) (v_inum (vinodes s link_node)) s)
        (\<lambda>(_, s). kbind (rfs_write_back_vinode link_node s) (\<lambda>(_, s). Inr (0, s))))"

fun free_blocks :: "u64 \<Rightarrow> int list \<Rightarrow> 'z fs_scheme \<Rightarrow> 'z fs_scheme" where
  "free_blocks sb [] s = s"
| "free_blocks sb (a # as) s = free_blocks sb as (rfs_free_block sb a s)"

definition unlink_dinode ::
  "u64 \<Rightarrow> u64 \<Rightarrow> int \<Rightarrow> 'z fs_scheme \<Rightarrow> kerr + 'z fs_scheme" where
  \<comment> \<open>the part of \<^verbatim>\<open>rfs_unlink\<close> that updates the disk inode of the file\<close>
  "unlink_dinode parent unlink_vinode inum s =
     kbind (rfs_read_dinode (vdev parent s) inum s) (\<lambda>(p, s).
       if v_nlinks (vinodes s unlink_vinode) \<noteq> di_nlinks (load_dinode (mem s) p)
       then Inl (Panic ''assert'')
       else let s = upd_vinode unlink_vinode (\<lambda>x. x\<lparr>v_nlinks := v_nlinks x - 1\<rparr>) s;
                s = upd_dinode p (\<lambda>d. d\<lparr>di_nlinks := v_nlinks (vinodes s unlink_vinode)\<rparr>) s;
                d = load_dinode (mem s) p in
         kbind (if di_nlinks d = 0 then
                  (if di_blocks d > RFS_DIRECT_BLKNUM then Inl (Fault ''addrs'')
                   else Inr (upd_dinode p (\<lambda>d. d\<lparr>di_type := R_FREE\<rparr>)
                          (free_blocks (v_sb (vinodes s parent)) (take (nat (di_blocks d)) (di_addrs d)) s)))
                else Inr s) (\<lambda>s.
         kbind (rfs_write_dinode (vdev parent s) (load_dinode (mem s) p) inum s) (\<lambda>(_, s).
           free_page p s)))"

fun shift_loop ::
  "nat \<Rightarrow> int \<Rightarrow> u64 \<Rightarrow> u64 \<Rightarrow> bytes \<Rightarrow> 'z fs_scheme \<Rightarrow> kerr + (u64 \<times> bytes \<times> 'z fs_scheme)" where
  \<comment> \<open>the loop of \<^verbatim>\<open>rfs_unlink\<close> over the blocks after the one with the deleted entry;
     \<open>pp\<close> and \<open>prev\<close> are the page \<^verbatim>\<open>previous_block\<close> and its contents\<close>
  "shift_loop 0 i parent pp prev s = Inr (pp, prev, s)"
| "shift_loop (Suc n) i parent pp prev s =
     kbind (vaddr parent i s) (\<lambda>a.
     kbind (rfs_r1block (vdev parent s) a s) (\<lambda>s.
     kbind (alloc_obj s) (\<lambda>(tp, s).
     kbind (iobuf (vdev parent s) s) (\<lambda>this.
     let prev = put_bytes prev (127 * 32) (get_bytes this 0 32);
         this' = memmove this 0 32 (127 * 32) in
     kbind (upd_iobuf (vdev parent s) (\<lambda>_. prev) s) (\<lambda>s.
     kbind (vaddr parent (i - 1) s) (\<lambda>a'.
     kbind (rfs_w1block (vdev parent s) a' s) (\<lambda>s.
     kbind (free_page pp s) (\<lambda>s. shift_loop n (i + 1) parent tp this' s))))))))"

definition rfs_unlink :: "u64 \<Rightarrow> u64 \<Rightarrow> u64 \<Rightarrow> 'z fs_scheme \<Rightarrow> kerr + (int \<times> 'z fs_scheme)" where
  "rfs_unlink parent sub_dentry unlink_vinode s =
     (let total_direntrys = v_size (vinodes s parent) div 32 in
      kbind (lookup_loop (nat total_direntrys) 0 parent (d_name (dentries s sub_dentry)) s)
        (\<lambda>(r, delete_index, s).
      if nat total_direntrys = 0 then Inl (Fault ''null'')
      else case r of
        None \<Rightarrow> Inr (- 1, s)
      | Some inum \<Rightarrow>
          kbind (unlink_dinode parent unlink_vinode inum s) (\<lambda>s.
          let delete_block_index = delete_index div 128; offset = nat (delete_index mod 128) in
          kbind (vaddr parent delete_block_index s) (\<lambda>a.
          kbind (rfs_r1block (vdev parent s) a s) (\<lambda>s.
          kbind (upd_iobuf (vdev parent s)
                   (\<lambda>b. memmove b (offset * 32) ((offset + 1) * 32) ((128 - offset - 1) * 32)) s) (\<lambda>s.
          kbind (alloc_obj s) (\<lambda>(pp, s).
          kbind (iobuf (vdev parent s) s) (\<lambda>prev.
          kbind (shift_loop (nat (v_blocks (vinodes s parent) - (delete_block_index + 1)))
                   (delete_block_index + 1) parent pp prev s) (\<lambda>(pp, prev, s).
          kbind (upd_iobuf (vdev parent s) (\<lambda>_. prev) s) (\<lambda>s.
          kbind (vaddr parent (v_blocks (vinodes s parent) - 1) s) (\<lambda>la.
          kbind (rfs_w1block (vdev parent s) la s) (\<lambda>s.
          kbind (free_page pp s) (\<lambda>s.
          let s = (if (total_direntrys - 1) mod 128 = 0 \<and> v_blocks (vinodes s parent) > 1
                   then upd_vinode parent (\<lambda>x. x\<lparr>v_blocks := v_blocks x - 1\<rparr>)
                          (rfs_free_block (v_sb (vinodes s parent)) la s)
                   else s);
              s = upd_vinode parent (\<lambda>x. x\<lparr>v_size := v_size x - 32\<rparr>) s in
          kbind (rfs_write_back_vinode parent s) (\<lambda>(e, s).
            if e \<noteq> 0 then Inr (- 1, s) else Inr (0, s)))))))))))))))"

fun opendir_loop ::
  "nat \<Rightarrow> u64 \<Rightarrow> u64 \<Rightarrow> 'z fs_scheme \<Rightarrow> kerr + (u64 \<times> 'z fs_scheme)" where
  \<comment> \<open>from block \<open>n - 1\<close> down to 0; the third argument is \<^verbatim>\<open>pdire\<close>\<close>
  "opendir_loop 0 v pdire s = Inr (pdire, s)"
| "opendir_loop (Suc n) v previous s =
     kbind (alloc_page s) (\<lambda>(pdire, s).
       if previous \<noteq> 0 \<and> previous - pdire \<noteq> 4096
       then Inl (Panic ''rfs_hook_opendir: memory discontinuity'')
       else kbind (vaddr v (int n) s) (\<lambda>a.
         kbind (rfs_r1block (vdev v s) a s) (\<lambda>s.
         kbind (iobuf (vdev v s) s) (\<lambda>b.
         kbind (nonnull pdire) (\<lambda>_.
           opendir_loop n v pdire (s\<lparr>page_bytes := (page_bytes s)(pdire := b)\<rparr>))))))"

definition rfs_hook_opendir :: "u64 \<Rightarrow> 'z fs_scheme \<Rightarrow> kerr + (int \<times> 'z fs_scheme)" where
  "rfs_hook_opendir dir_vinode s =
     kbind (opendir_loop (nat (v_blocks (vinodes s dir_vinode))) dir_vinode 0 s) (\<lambda>(pdire, s).
     kbind (alloc_obj s) (\<lambda>(dir_cache, s).
       let s = s\<lparr>dir_caches := (dir_caches s)(dir_cache :=
                  \<lparr>block_count = v_blocks (vinodes s dir_vinode), dir_base_addr = pdire\<rparr>)\<rparr>;
           s = upd_vinode dir_vinode (\<lambda>x. x\<lparr>i_fs_info := dir_cache\<rparr>) s
       in Inr (0, s)))"

fun free_pages_from :: "nat \<Rightarrow> u64 \<Rightarrow> 'z pmm_scheme \<Rightarrow> kerr + 'z pmm_scheme" where
  "free_pages_from 0 p s = Inr s"
| "free_pages_from (Suc n) p s = kbind (free_page p s) (free_pages_from n (p + 4096))"

definition rfs_hook_closedir :: "u64 \<Rightarrow> 'z fs_scheme \<Rightarrow> kerr + (int \<times> 'z fs_scheme)" where
  "rfs_hook_closedir dir_vinode s =
     (let c = dir_caches s (i_fs_info (vinodes s dir_vinode)) in
      kbind (free_pages_from (nat (block_count c)) (dir_base_addr c) s) (\<lambda>s. Inr (0, s)))"

definition rfs_readdir ::
  "u64 \<Rightarrow> int \<Rightarrow> 'z fs_scheme \<Rightarrow> kerr + (int \<times> (cstring \<times> int) option \<times> int)" where
  \<comment> \<open>returns the result, \<^verbatim>\<open>dir->name\<close> and \<^verbatim>\<open>dir->inum\<close>, and the new offset\<close>
  "rfs_readdir dir_vinode offset s =
     (if offset \<ge> v_size (vinodes s dir_vinode) div 32 then Inr (- 1, None, offset)
      else let c = dir_caches s (i_fs_info (vinodes s dir_vinode));
               page = dir_base_addr c + 4096 * of_int (offset div 128);
               p = nat (offset mod 128) * 32; b = page_bytes s page in
        case read_str b (p + 4) of
          None \<Rightarrow> Inl (Fault ''strcpy'')
        | Some name \<Rightarrow> Inr (0, Some (name, rd32 b p), offset + 1))"

section \<open>The super block\<close>

definition rfs_get_superblock :: "u64 \<Rightarrow> 'z fs_scheme \<Rightarrow> kerr + (u64 \<times> 'z fs_scheme)" where
  "rfs_get_superblock dev s =
     (let dv = dev_id (devices s dev) in
      kbind (rfs_r1block dv RFS_BLK_OFFSET_SUPER s) (\<lambda>s.
      kbind (iobuf dv s) (\<lambda>b.
      let d_sb = rd_ints b 0 4 in
      kbind (alloc_obj s) (\<lambda>(sb, s).
      let s = s\<lparr>sbs := (sbs s)(sb := (sbs s sb)\<lparr>sb_magic := d_sb ! 0, sb_size := d_sb ! 1,
                sb_nblocks := d_sb ! 2, sb_ninodes := d_sb ! 3, s_dev := dev\<rparr>)\<rparr> in
      if d_sb ! 0 \<noteq> RFS_MAGIC then Inl (Panic ''rfs_get_superblock: wrong ramdisk device!'')
      else kbind (rfs_alloc_vinode sb s) (\<lambda>(root_inode, s).
        let s = upd_vinode root_inode (\<lambda>x. x\<lparr>v_inum := 0\<rparr>) s in
        kbind (rfs_update_vinode root_inode s) (\<lambda>(_, s).
        kbind (alloc_vfs_dentry [47] root_inode 0 s) (\<lambda>(root_dentry, s).
        let s = s\<lparr>sbs := (sbs s)(sb := (sbs s sb)\<lparr>s_root := root_dentry\<rparr>)\<rparr> in
        kbind (rfs_r1block dv RFS_BLK_OFFSET_BITMAP s) (\<lambda>s.
        kbind (iobuf dv s) (\<lambda>b.
        kbind (alloc_obj s) (\<lambda>(bitmap, s).
        let s = s\<lparr>freemaps := (freemaps s)(bitmap := (\<lambda>i. rd32 b (nat (4 * i))))\<rparr>;
            s = s\<lparr>sbs := (sbs s)(sb := (sbs s sb)\<lparr>s_fs_info := bitmap\<rparr>)\<rparr>
        in Inr (sb, s)))))))))))"

end
