(* ===== verification/SpikeFile.thy ===== *)
theory SpikeFile
  imports Rfs
begin

text \<open>
  Host files (\<^verbatim>\<open>spike_interface/spike_file.c\<close>).  The host itself is a parameter: a function \<open>fe\<close> that
  answers the system calls \<^verbatim>\<open>frontend_syscall\<close> sends through HTIF.  It gets the number of the call, its
  scalar arguments and the bytes of memory it reads, and gives the result, the bytes it stores and
  the new state of the host.  A pointer to a \<^verbatim>\<open>spike_file_t\<close> is the address of an entry of the array
  \<^verbatim>\<open>spike_files\<close> or, after \<^verbatim>\<open>ERR_PTR\<close>, a negative error code.  Console output is not modelled.
\<close>

section \<open>State\<close>

type_synonym 'h frontend = "int \<Rightarrow> int list \<Rightarrow> u8 list \<Rightarrow> 'h \<Rightarrow> int \<times> u8 list \<times> 'h"

record spike_file =
  kfd :: int
  refcnt :: u32

record 'h hfs = fs +
  spike_fds :: "int \<Rightarrow> u64"
  spike_files :: "nat \<Rightarrow> spike_file"
  spike_base :: u64                 \<comment> \<open>the address of the array \<^verbatim>\<open>spike_files\<close>\<close>
  hst :: 'h                         \<comment> \<open>the host\<close>

definition MAX_FDS :: int where "MAX_FDS = 128"
definition MAX_FILES :: nat where "MAX_FILES = 128"
definition INIT_FILE_REF :: u32 where "INIT_FILE_REF = 3"
definition ENOMEM :: int where "ENOMEM = 12"
definition AT_FDCWD :: int where "AT_FDCWD = - 100"
definition HTIFSYS_read :: int where "HTIFSYS_read = 63"
definition HTIFSYS_write :: int where "HTIFSYS_write = 64"
definition HTIFSYS_openat :: int where "HTIFSYS_openat = 56"
definition HTIFSYS_close :: int where "HTIFSYS_close = 57"
definition HTIFSYS_lseek :: int where "HTIFSYS_lseek = 62"
definition HTIFSYS_fstat :: int where "HTIFSYS_fstat = 80"
definition HTIFSYS_pread :: int where "HTIFSYS_pread = 67"

lemmas spike_defs = MAX_FDS_def MAX_FILES_def INIT_FILE_REF_def ENOMEM_def AT_FDCWD_def HTIFSYS_read_def
  HTIFSYS_write_def HTIFSYS_openat_def HTIFSYS_close_def HTIFSYS_lseek_def HTIFSYS_fstat_def HTIFSYS_pread_def

definition ERR_PTR :: "int \<Rightarrow> u64" where
  "ERR_PTR x = word_of_int x"

definition is_err :: "u64 \<Rightarrow> bool" where
  \<comment> \<open>\<^verbatim>\<open>(int64)p < 0\<close>\<close>
  "is_err p \<longleftrightarrow> sint p < 0"

definition file_ptr :: "('h, 'z) hfs_scheme \<Rightarrow> nat \<Rightarrow> u64" where
  "file_ptr s i = spike_base s + 8 * of_nat i"

definition file_index :: "u64 \<Rightarrow> ('h, 'z) hfs_scheme \<Rightarrow> kerr + nat" where
  \<comment> \<open>the entry a pointer about to be dereferenced points to\<close>
  "file_index p s =
     (let d = unat (p - spike_base s) in
      if d mod 8 = 0 \<and> d div 8 < MAX_FILES then Inr (d div 8) else Inl (Fault ''spike_file''))"

definition upd_spike :: "nat \<Rightarrow> (spike_file \<Rightarrow> spike_file) \<Rightarrow> ('h, 'z) hfs_scheme \<Rightarrow> ('h, 'z) hfs_scheme" where
  "upd_spike i f s = s\<lparr>spike_files := (spike_files s)(i := f (spike_files s i))\<rparr>"

definition frontend_syscall ::
  "'h frontend \<Rightarrow> int \<Rightarrow> int list \<Rightarrow> u8 list \<Rightarrow> ('h, 'z) hfs_scheme \<Rightarrow> int \<times> u8 list \<times> ('h, 'z) hfs_scheme" where
  "frontend_syscall fe n args w s = (let (ret, out, h) = fe n args w (hst s) in (ret, out, s\<lparr>hst := h\<rparr>))"

section \<open>Operations of spike_file.c\<close>

record fstat =
  stat_dev :: u64
  stat_ino :: u64
  stat_mode :: u32
  stat_nlink :: u32
  stat_uid :: u32
  stat_gid :: u32
  stat_rdev :: u64
  stat_size :: u64
  stat_blksize :: u32
  stat_blocks :: u64
  stat_atime :: u64
  stat_mtime :: u64
  stat_ctime :: u64

definition rdd :: "bytes \<Rightarrow> nat \<Rightarrow> u64" where
  "rdd b p = ucast (rdw b p) OR push_bit 32 (ucast (rdw b (p + 4)))"

definition copy_stat :: "bytes \<Rightarrow> fstat" where
  \<comment> \<open>from the bytes of a \<^verbatim>\<open>struct frontend_stat\<close>\<close>
  "copy_stat b = \<lparr>stat_dev = rdd b 0, stat_ino = rdd b 8, stat_mode = rdw b 16, stat_nlink = rdw b 20,
     stat_uid = rdw b 24, stat_gid = rdw b 28, stat_rdev = rdd b 32, stat_size = rdd b 48,
     stat_blksize = rdw b 56, stat_blocks = rdd b 64, stat_atime = rdd b 72, stat_mtime = rdd b 88,
     stat_ctime = rdd b 104\<rparr>"

definition spike_file_stat ::
  "'h frontend \<Rightarrow> u64 \<Rightarrow> ('h, 'z) hfs_scheme \<Rightarrow> kerr + (int \<times> fstat \<times> ('h, 'z) hfs_scheme)" where
  \<comment> \<open>bytes of \<^verbatim>\<open>buf\<close> the host does not store read as 0\<close>
  "spike_file_stat fe f s =
     kbind (file_index f s) (\<lambda>i.
       let (ret, out, s) = frontend_syscall fe HTIFSYS_fstat [kfd (spike_files s i)] [] s in
       Inr (ret, copy_stat (\<lambda>k. if k < length out then out ! k else 0), s))"

definition spike_file_decref :: "'h frontend \<Rightarrow> u64 \<Rightarrow> ('h, 'z) hfs_scheme \<Rightarrow> kerr + ('h, 'z) hfs_scheme" where
  "spike_file_decref fe f s =
     kbind (file_index f s) (\<lambda>i.
       let old = refcnt (spike_files s i);
           s = upd_spike i (\<lambda>x. x\<lparr>refcnt := old - 1\<rparr>) s in
       if old = 2 then
         let fd = kfd (spike_files s i);
             s = upd_spike i (\<lambda>x. x\<lparr>refcnt := 0\<rparr>) s;
             (_, _, s) = frontend_syscall fe HTIFSYS_close [fd] [] s
         in Inr s
       else Inr s)"

definition spike_file_incref :: "u64 \<Rightarrow> ('h, 'z) hfs_scheme \<Rightarrow> kerr + ('h, 'z) hfs_scheme" where
  "spike_file_incref f s =
     kbind (file_index f s) (\<lambda>i.
       let prev = refcnt (spike_files s i); s = upd_spike i (\<lambda>x. x\<lparr>refcnt := prev + 1\<rparr>) s in
       kbind (kassert (prev > 0) ''prev > 0'') (\<lambda>_. Inr s))"

definition spike_file_close ::
  "'h frontend \<Rightarrow> u64 \<Rightarrow> ('h, 'z) hfs_scheme \<Rightarrow> kerr + (int \<times> ('h, 'z) hfs_scheme)" where
  "spike_file_close fe f s =
     (if f = 0 then Inr (- 1, s)
      else kbind (file_index f s) (\<lambda>i.
        let fd = kfd (spike_files s i) in
        if fd < 0 \<or> fd \<ge> MAX_FDS then Inl (Fault ''spike_fds'')
        else let old = spike_fds s fd;
                 s = (if old = f then s\<lparr>spike_fds := (spike_fds s)(fd := 0)\<rparr> else s) in
          kbind (spike_file_decref fe f s) (\<lambda>s.
            if old \<noteq> f then Inr (- 1, s)
            else kbind (spike_file_decref fe f s) (\<lambda>s. Inr (0, s)))))"

definition spike_file_write ::
  "'h frontend \<Rightarrow> u64 \<Rightarrow> u8 list \<Rightarrow> int \<Rightarrow> ('h, 'z) hfs_scheme \<Rightarrow> kerr + (int \<times> ('h, 'z) hfs_scheme)" where
  "spike_file_write fe f buf sz s =
     kbind (file_index f s) (\<lambda>i.
       let (ret, _, s) = frontend_syscall fe HTIFSYS_write [kfd (spike_files s i), sz] buf s in Inr (ret, s))"

definition spike_file_get_free :: "('h, 'z) hfs_scheme \<Rightarrow> u64 \<times> ('h, 'z) hfs_scheme" where
  "spike_file_get_free s =
     (case find (\<lambda>i. refcnt (spike_files s i) = 0) [0..<MAX_FILES] of
        None \<Rightarrow> (0, s)
      | Some i \<Rightarrow> (file_ptr s i, upd_spike i (\<lambda>x. x\<lparr>refcnt := INIT_FILE_REF\<rparr>) s))"

definition spike_file_dup :: "u64 \<Rightarrow> ('h, 'z) hfs_scheme \<Rightarrow> kerr + (int \<times> ('h, 'z) hfs_scheme)" where
  "spike_file_dup f s =
     (case find (\<lambda>i. spike_fds s i = 0) (map int [0..<nat MAX_FDS]) of
        None \<Rightarrow> Inr (- 1, s)
      | Some i \<Rightarrow> kbind (spike_file_incref f (s\<lparr>spike_fds := (spike_fds s)(i := f)\<rparr>)) (\<lambda>s. Inr (i, s)))"

fun init_std :: "nat list \<Rightarrow> ('h, 'z) hfs_scheme \<Rightarrow> kerr + ('h, 'z) hfs_scheme" where
  \<comment> \<open>the loop of \<^verbatim>\<open>spike_file_init\<close>\<close>
  "init_std [] s = Inr s"
| "init_std (i # is) s =
     (let (f, s) = spike_file_get_free s in
      kbind (file_index f s) (\<lambda>k.
      kbind (spike_file_dup f (upd_spike k (\<lambda>x. x\<lparr>kfd := int i\<rparr>) s)) (\<lambda>(_, s). init_std is s)))"

definition spike_file_init :: "('h, 'z) hfs_scheme \<Rightarrow> kerr + ('h, 'z) hfs_scheme" where
  "spike_file_init s = init_std [0, 1, 2] s"

definition spike_file_openat ::
  "'h frontend \<Rightarrow> int \<Rightarrow> cstring \<Rightarrow> int \<Rightarrow> int \<Rightarrow> ('h, 'z) hfs_scheme \<Rightarrow> kerr + (u64 \<times> ('h, 'z) hfs_scheme)" where
  "spike_file_openat fe dirfd fn flags mode s =
     (let (f, s) = spike_file_get_free s in
      if f = 0 then Inr (ERR_PTR (- ENOMEM), s)
      else let (ret, _, s) = frontend_syscall fe HTIFSYS_openat
                 [dirfd, int (length fn) + 1, flags, mode] (fn @ [0]) s in
        if ret \<ge> 0 then kbind (file_index f s) (\<lambda>i. Inr (f, upd_spike i (\<lambda>x. x\<lparr>kfd := ret\<rparr>) s))
        else kbind (spike_file_decref fe f s) (\<lambda>s. Inr (ERR_PTR ret, s)))"

definition spike_file_open ::
  "'h frontend \<Rightarrow> cstring \<Rightarrow> int \<Rightarrow> int \<Rightarrow> ('h, 'z) hfs_scheme \<Rightarrow> kerr + (u64 \<times> ('h, 'z) hfs_scheme)" where
  "spike_file_open fe fn flags mode s = spike_file_openat fe AT_FDCWD fn flags mode s"

definition spike_file_pread ::
  "'h frontend \<Rightarrow> u64 \<Rightarrow> int \<Rightarrow> int \<Rightarrow> ('h, 'z) hfs_scheme \<Rightarrow> kerr + (int \<times> u8 list \<times> ('h, 'z) hfs_scheme)" where
  "spike_file_pread fe f sz offset s =
     kbind (file_index f s) (\<lambda>i.
       Inr (frontend_syscall fe HTIFSYS_pread [kfd (spike_files s i), sz, offset] [] s))"

definition spike_file_read ::
  "'h frontend \<Rightarrow> u64 \<Rightarrow> int \<Rightarrow> ('h, 'z) hfs_scheme \<Rightarrow> kerr + (int \<times> u8 list \<times> ('h, 'z) hfs_scheme)" where
  "spike_file_read fe f sz s =
     kbind (file_index f s) (\<lambda>i. Inr (frontend_syscall fe HTIFSYS_read [kfd (spike_files s i), sz] [] s))"

definition spike_file_lseek ::
  "'h frontend \<Rightarrow> u64 \<Rightarrow> int \<Rightarrow> int \<Rightarrow> ('h, 'z) hfs_scheme \<Rightarrow> kerr + (int \<times> ('h, 'z) hfs_scheme)" where
  "spike_file_lseek fe f ptr dir s =
     kbind (file_index f s) (\<lambda>i.
       let (ret, _, s) = frontend_syscall fe HTIFSYS_lseek [kfd (spike_files s i), ptr, dir] [] s in Inr (ret, s))"

definition spike_file_get :: "int \<Rightarrow> ('h, 'z) hfs_scheme \<Rightarrow> kerr + (u64 \<times> ('h, 'z) hfs_scheme)" where
  "spike_file_get fd s =
     (if fd < 0 \<or> fd \<ge> MAX_FDS \<or> spike_fds s fd = 0 then Inr (0, s)
      else let f = spike_fds s fd in
        kbind (file_index f s) (\<lambda>i.
          let old_cnt = refcnt (spike_files s i) in
          if old_cnt = 0 then Inr (0, s)
          else Inr (f, upd_spike i (\<lambda>x. x\<lparr>refcnt := old_cnt + 1\<rparr>) s)))"

definition vgetc :: "'h frontend \<Rightarrow> u64 \<Rightarrow> ('h, 'z) hfs_scheme \<Rightarrow> kerr + (u8 \<times> ('h, 'z) hfs_scheme)" where
  \<comment> \<open>the byte of a failed read is \<^verbatim>\<open>(char)-1\<close>\<close>
  "vgetc fe f s =
     kbind (spike_file_read fe f 1 s) (\<lambda>(ret, out, s).
       Inr (if ret = 1 \<and> out \<noteq> [] then hd out else 255, s))"

end
