(* ===== verification/Hostfs.thy ===== *)
theory Hostfs
  imports SpikeFile
begin

text \<open>
  The host file system (\<^verbatim>\<open>kernel/hostfs.c\<close>): virtual inodes whose \<^verbatim>\<open>i_fs_info\<close> is an open host file.
  Paths are built from the names of a dentry and its ancestors; a path that does not fit the 30-byte
  array of its caller overruns the stack.
\<close>

section \<open>Registration\<close>

definition HOSTFS_TYPE :: int where "HOSTFS_TYPE = 1"
definition H_FILE :: int where "H_FILE = 0"
definition H_DIR :: int where "H_DIR = 1"
definition O_RDONLY :: int where "O_RDONLY = 0"
definition O_WRONLY :: int where "O_WRONLY = 1"
definition O_RDWR :: int where "O_RDWR = 2"
definition O_CREAT :: int where "O_CREAT = 64"

definition H_ROOT_DIR :: cstring where
  \<comment> \<open>\<^verbatim>\<open>"./hostfs_root"\<close>\<close>
  "H_ROOT_DIR = [46, 47, 104, 111, 115, 116, 102, 115, 95, 114, 111, 111, 116]"

definition register_hostfs :: "'z fs_scheme \<Rightarrow> kerr + (int \<times> 'z fs_scheme)" where
  "register_hostfs s =
     kbind (alloc_obj s) (\<lambda>(_, s).
       case find (\<lambda>i. fs_list s i = None) [0..<10] of
         None \<Rightarrow> Inr (- 1, s)
       | Some i \<Rightarrow> Inr (0, s\<lparr>fs_list := (fs_list s)(i \<mapsto> \<lparr>type_num = HOSTFS_TYPE,
                              get_superblock = Hostfs_ops\<rparr>)\<rparr>))"

definition init_host_device :: "cstring \<Rightarrow> 'z fs_scheme \<Rightarrow> kerr + (u64 \<times> 'z fs_scheme)" where
  "init_host_device name s =
     (case find (\<lambda>i. case fs_list s i of None \<Rightarrow> False | Some t \<Rightarrow> type_num t = HOSTFS_TYPE) [0..<10] of
        None \<Rightarrow> Inl (Panic ''init_host_device: No HOSTFS file system found!'')
      | Some fi \<Rightarrow>
          kbind (alloc_obj s) (\<lambda>(device, s).
            if length name \<ge> 30 then Inl (Fault ''strcpy'')
            else let s = s\<lparr>devices := (devices s)(device := \<lparr>dev_name = name, dev_id = 0,
                           dev_fs_type = the (fs_list s fi)\<rparr>)\<rparr>;
                     s = (case find (\<lambda>i. vfs_dev_list s i = 0) [0..<10] of
                            None \<Rightarrow> s
                          | Some i \<Rightarrow> s\<lparr>vfs_dev_list := (vfs_dev_list s)(i := device)\<rparr>)
                 in Inr (device, s)))"

section \<open>Paths\<close>

partial_function (option) path_backtrack :: "(u64 \<Rightarrow> dentry) \<Rightarrow> cstring \<Rightarrow> u64 \<Rightarrow> cstring option" where
  \<comment> \<open>the string at \<^verbatim>\<open>path\<close> after the call; no value when the chain of parents is a cycle\<close>
  "path_backtrack D path dentry =
     (if d_parent (D dentry) = 0 then Some path
      else Option.bind (path_backtrack D path (d_parent (D dentry)))
             (\<lambda>path. Some (path @ [47] @ d_name (D dentry))))"

definition get_path_string :: "u64 \<Rightarrow> 'z fs_scheme \<Rightarrow> kerr + cstring" where
  \<comment> \<open>into an array of \<^verbatim>\<open>MAX_PATH_LEN\<close> bytes, which all callers pass\<close>
  "get_path_string dentry s =
     (case path_backtrack (dentries s) H_ROOT_DIR dentry of
        None \<Rightarrow> Inl Spin
      | Some path \<Rightarrow> if length path \<ge> MAX_PATH_LEN then Inl (Fault ''strcat'') else Inr path)"

section \<open>Virtual inodes\<close>

definition hostfs_alloc_vinode :: "u64 \<Rightarrow> 'z fs_scheme \<Rightarrow> kerr + (u64 \<times> 'z fs_scheme)" where
  "hostfs_alloc_vinode sb s =
     kbind (default_alloc_vinode sb s) (\<lambda>(v, s).
       Inr (v, upd_vinode v (\<lambda>x. x\<lparr>v_inum := - 1, i_fs_info := 0, i_ops := Hostfs_ops\<rparr>) s))"

definition hostfs_write_back_vinode :: "u64 \<Rightarrow> 'z fs_scheme \<Rightarrow> kerr + (int \<times> 'z fs_scheme)" where
  "hostfs_write_back_vinode v s = Inr (0, s)"

definition to_int :: "u64 \<Rightarrow> int" where
  \<comment> \<open>conversion of a 64-bit value to \<^verbatim>\<open>int\<close>\<close>
  "to_int w = sint (ucast w :: u32)"

definition hostfs_update_vinode ::
  "'h frontend \<Rightarrow> u64 \<Rightarrow> ('h, 'z) hfs_scheme \<Rightarrow> kerr + (int \<times> ('h, 'z) hfs_scheme)" where
  "hostfs_update_vinode fe v s =
     (let f = i_fs_info (vinodes s v) in
      if is_err f then Inr (- 1, upd_vinode v (\<lambda>x. x\<lparr>v_type := H_DIR\<rparr>) s)
      else kbind (spike_file_stat fe f s) (\<lambda>(_, st, s).
        let s = upd_vinode v (\<lambda>x. x\<lparr>v_inum := to_int (stat_ino st), v_size := to_int (stat_size st),
                  v_nlinks := sint (stat_nlink st), v_blocks := to_int (stat_blocks st)\<rparr>) s in
        if stat_mode st AND 0xF000 = 0x4000 then Inr (0, upd_vinode v (\<lambda>x. x\<lparr>v_type := H_DIR\<rparr>) s)
        else if stat_mode st AND 0xF000 = 0x8000 then Inr (0, upd_vinode v (\<lambda>x. x\<lparr>v_type := H_FILE\<rparr>) s)
        else Inr (- 1, s)))"

section \<open>Operations\<close>

definition hostfs_read ::
  "'h frontend \<Rightarrow> u64 \<Rightarrow> int \<Rightarrow> ('h, 'z) hfs_scheme \<Rightarrow> kerr + (int \<times> u8 list \<times> int \<times> ('h, 'z) hfs_scheme)" where
  \<comment> \<open>the result, the bytes stored and the new offset; the test \<^verbatim>\<open>pf < 0\<close> on a pointer never holds\<close>
  "hostfs_read fe f_inode len s =
     (let pf = i_fs_info (vinodes s f_inode) in
      kbind (spike_file_read fe pf len s) (\<lambda>(read_len, out, s).
      kbind (spike_file_lseek fe pf 0 1 s) (\<lambda>(offset, s). Inr (read_len, out, offset, s))))"

definition hostfs_write ::
  "'h frontend \<Rightarrow> u64 \<Rightarrow> u8 list \<Rightarrow> int \<Rightarrow> ('h, 'z) hfs_scheme \<Rightarrow> kerr + (int \<times> int \<times> ('h, 'z) hfs_scheme)" where
  "hostfs_write fe f_inode w len s =
     (let pf = i_fs_info (vinodes s f_inode) in
      kbind (spike_file_write fe pf w len s) (\<lambda>(write_len, s).
      kbind (spike_file_lseek fe pf 0 1 s) (\<lambda>(offset, s). Inr (write_len, offset, s))))"

definition hostfs_lookup ::
  "'h frontend \<Rightarrow> u64 \<Rightarrow> u64 \<Rightarrow> ('h, 'z) hfs_scheme \<Rightarrow> kerr + (u64 \<times> ('h, 'z) hfs_scheme)" where
  "hostfs_lookup fe parent sub_dentry s =
     kbind (get_path_string sub_dentry s) (\<lambda>path.
     kbind (spike_file_open fe path O_RDWR 0 s) (\<lambda>(f, s).
     kbind (hostfs_alloc_vinode (v_sb (vinodes s parent)) s) (\<lambda>(child_inode, s).
     kbind (hostfs_update_vinode fe child_inode
              (upd_vinode child_inode (\<lambda>x. x\<lparr>i_fs_info := f\<rparr>) s)) (\<lambda>(_, s).
       Inr (child_inode, upd_vinode child_inode (\<lambda>x. x\<lparr>v_ref := 0\<rparr>) s)))))"

definition hostfs_create ::
  "'h frontend \<Rightarrow> u64 \<Rightarrow> u64 \<Rightarrow> ('h, 'z) hfs_scheme \<Rightarrow> kerr + (u64 \<times> ('h, 'z) hfs_scheme)" where
  \<comment> \<open>the mode is \<^verbatim>\<open>S_IRUSR | S_IWUSR\<close>\<close>
  "hostfs_create fe parent sub_dentry s =
     kbind (get_path_string sub_dentry s) (\<lambda>path.
     kbind (spike_file_open fe path (O_RDWR + O_CREAT) 0x180 s) (\<lambda>(f, s).
       if is_err f then Inr (0, s)
       else kbind (hostfs_alloc_vinode (v_sb (vinodes s parent)) s) (\<lambda>(new_inode, s).
         kbind (hostfs_update_vinode fe new_inode
                  (upd_vinode new_inode (\<lambda>x. x\<lparr>i_fs_info := f\<rparr>) s)) (\<lambda>(r, s).
           if r \<noteq> 0 then Inr (0, s)
           else Inr (new_inode, upd_vinode new_inode (\<lambda>x. x\<lparr>v_ref := 0\<rparr>) s)))))"

definition hostfs_lseek ::
  "'h frontend \<Rightarrow> u64 \<Rightarrow> int \<Rightarrow> int \<Rightarrow> ('h, 'z) hfs_scheme \<Rightarrow> kerr + (int \<times> int \<times> ('h, 'z) hfs_scheme)" where
  \<comment> \<open>the result and the new offset\<close>
  "hostfs_lseek fe f_inode new_offset whence s =
     kbind (spike_file_lseek fe (i_fs_info (vinodes s f_inode)) new_offset whence s) (\<lambda>(offset, s).
       Inr (if offset \<ge> 0 then 0 else - 1, offset, s))"

definition hostfs_link :: "kerr + 'a" where
  "hostfs_link = Inl (Panic ''hostfs_link not implemented!'')"

definition hostfs_unlink :: "kerr + 'a" where
  "hostfs_unlink = Inl (Panic ''hostfs_unlink not implemented!'')"

definition hostfs_readdir :: "kerr + 'a" where
  "hostfs_readdir = Inl (Panic ''hostfs_readdir not implemented!'')"

definition hostfs_mkdir :: "kerr + 'a" where
  "hostfs_mkdir = Inl (Panic ''hostfs_mkdir not implemented!'')"

definition hostfs_hook_open ::
  "'h frontend \<Rightarrow> u64 \<Rightarrow> u64 \<Rightarrow> ('h, 'z) hfs_scheme \<Rightarrow> kerr + (int \<times> ('h, 'z) hfs_scheme)" where
  "hostfs_hook_open fe f_inode dentry s =
     (if i_fs_info (vinodes s f_inode) \<noteq> 0 then Inr (0, s)
      else kbind (get_path_string dentry s) (\<lambda>path.
        kbind (spike_file_open fe path O_RDWR 0 s) (\<lambda>(f, s).
          if is_err f then Inr (- 1, s)
          else Inr (0, upd_vinode f_inode (\<lambda>x. x\<lparr>i_fs_info := f\<rparr>) s))))"

definition hostfs_hook_close ::
  "'h frontend \<Rightarrow> u64 \<Rightarrow> ('h, 'z) hfs_scheme \<Rightarrow> kerr + (int \<times> ('h, 'z) hfs_scheme)" where
  "hostfs_hook_close fe f_inode s =
     kbind (spike_file_close fe (i_fs_info (vinodes s f_inode)) s) (\<lambda>(_, s). Inr (0, s))"

definition hostfs_get_superblock :: "u64 \<Rightarrow> 'z fs_scheme \<Rightarrow> kerr + (u64 \<times> 'z fs_scheme)" where
  \<comment> \<open>the other fields of the super block keep what the page held\<close>
  "hostfs_get_superblock dev s =
     kbind (alloc_obj s) (\<lambda>(sb, s).
     let s = s\<lparr>sbs := (sbs s)(sb := (sbs s sb)\<lparr>s_dev := dev\<rparr>)\<rparr> in
     kbind (hostfs_alloc_vinode sb s) (\<lambda>(root_inode, s).
     let s = upd_vinode root_inode (\<lambda>x. x\<lparr>v_type := H_DIR\<rparr>) s in
     kbind (alloc_vfs_dentry [47] root_inode 0 s) (\<lambda>(root_dentry, s).
       Inr (sb, s\<lparr>sbs := (sbs s)(sb := (sbs s sb)\<lparr>s_root := root_dentry\<rparr>)\<rparr>))))"

section \<open>Properties of the host file layer\<close>

lemma find_upt_least:
  assumes "find P [0..<n] = Some i"
  shows "i < n" "P i" "\<And>j. j < i \<Longrightarrow> \<not> P j"
  using assms by (auto simp: find_Some_iff)

lemma file_index_ptr:
  assumes "i < 128"
  shows "file_index (file_ptr s i) s = Inr i"
proof -
  have "unat (8 * of_nat i :: u64) = 8 * i"
    using assms by (subst unat_mult_small) (simp_all add: unat_of_nat)
  then show ?thesis using assms by (simp add: file_index_def file_ptr_def MAX_FILES_def)
qed

lemma spike_upd_simps [simp]:
  "spike_files (upd_spike i f s) = (spike_files s)(i := f (spike_files s i))"
  "spike_fds (upd_spike i f s) = spike_fds s" "hst (upd_spike i f s) = hst s"
  "spike_base (upd_spike i f s) = spike_base s" "file_ptr (upd_spike i f s) = file_ptr s"
  "file_index p (upd_spike i f s) = file_index p s"
  by (simp_all add: upd_spike_def file_ptr_def file_index_def fun_eq_iff)

lemma spike_host_simps [simp]:
  "file_ptr (s\<lparr>hst := h\<rparr>) = file_ptr s" "file_index p (s\<lparr>hst := h\<rparr>) = file_index p s"
  by (simp_all add: file_ptr_def file_index_def fun_eq_iff)

text \<open>Opening a host file and closing it again leaks its slot: \<^verbatim>\<open>spike_file_openat\<close> creates the
  entry with three references but enters it in no descriptor table, so \<^verbatim>\<open>spike_file_close\<close> drops one
  reference, returns -1 and never asks the host to close the file.\<close>

lemma spike_open_close_leaks:
  assumes free: "find (\<lambda>i. refcnt (spike_files s i) = 0) [0..<MAX_FILES] = Some i"
    and ptr: "\<And>j. j < MAX_FILES \<Longrightarrow> file_ptr s j \<noteq> 0"
    and host: "fe HTIFSYS_openat [AT_FDCWD, int (length fn) + 1, flags, mode] (fn @ [0]) (hst s) = (fd, out, h)"
    and fd: "0 \<le> fd" "fd < MAX_FDS" "spike_fds s fd \<noteq> file_ptr s i"
  shows "\<exists>s1 s2. spike_file_open fe fn flags mode s = Inr (file_ptr s i, s1) \<and>
     spike_file_close fe (file_ptr s i) s1 = Inr (- 1, s2) \<and>
     refcnt (spike_files s2 i) = 2 \<and> hst s2 = h"
proof -
  have i: "i < 128" "i < MAX_FILES" using find_upt_least(1) [OF free] by (simp_all add: MAX_FILES_def)
  define s1 where "s1 = upd_spike i (\<lambda>x. x\<lparr>kfd := fd\<rparr>) (upd_spike i (\<lambda>x. x\<lparr>refcnt := INIT_FILE_REF\<rparr>) s\<lparr>hst := h\<rparr>)"
  have o: "spike_file_open fe fn flags mode s = Inr (file_ptr s i, s1)"
    using free host ptr [OF i(2)] fd(1) file_index_ptr [OF i(1), of s]
    by (simp add: spike_file_open_def spike_file_openat_def spike_file_get_free_def frontend_syscall_def s1_def)
  have f1: "spike_files s1 i = \<lparr>kfd = fd, refcnt = 3\<rparr>" "spike_fds s1 = spike_fds s" "hst s1 = h"
    "file_index (file_ptr s i) s1 = Inr i"
    using file_index_ptr [OF i(1), of s] by (simp_all add: s1_def INIT_FILE_REF_def)
  have "spike_file_close fe (file_ptr s i) s1 = Inr (- 1, upd_spike i (\<lambda>x. x\<lparr>refcnt := 2\<rparr>) s1)"
    using f1 fd ptr [OF i(2)] by (simp add: spike_file_close_def spike_file_decref_def)
  then show ?thesis using o f1 by auto
qed

text \<open>\<^verbatim>\<open>hostfs_lookup\<close> never reports that a file is missing: when the host cannot open the path it
  returns a new virtual inode that says it is a directory.\<close>

lemma hostfs_lookup_missing:
  assumes path: "get_path_string sub s = Inr p"
    and host: "spike_file_open fe p O_RDWR 0 s = Inr (ERR_PTR e, s1)" and e: "- 4096 \<le> e" "e < 0"
    and mem: "pmm_rel s1 (x # xs)"
  shows "\<exists>s2. hostfs_lookup fe parent sub s = Inr (x, s2) \<and> v_type (vinodes s2 x) = DIR_I \<and>
     v_inum (vinodes s2 x) = - 1 \<and> v_ref (vinodes s2 x) = 0"
proof -
  have "sint (word_of_int e :: u64) = e" using e by (simp add: signed_take_bit_int_eq_self sint_sbintrunc')
  then have err: "is_err (ERR_PTR e)" using e by (simp add: is_err_def ERR_PTR_def)
  have "alloc_obj s1 = Inr (x, s1\<lparr>g_free_mem_list := mem s1 x\<rparr>)"
    using alloc_page_Cons [OF mem] mem by (auto simp: alloc_obj_def pmm_rel_def)
  then show ?thesis
    using path host err
    by (simp add: hostfs_lookup_def hostfs_alloc_vinode_def default_alloc_vinode_def hostfs_update_vinode_def)
      (simp add: upd_vinode_def H_DIR_def DIR_I_def)
qed

end
