(* ===== verification/Vfs.thy ===== *)
theory Vfs
  imports Hostfs
begin

text \<open>
  The virtual file system (\<^verbatim>\<open>kernel/vfs.c\<close>).  Virtual inode operations are dispatched on the file
  system an inode belongs to (\<^verbatim>\<open>i_ops\<close>).  A path is a string; its components are the tokens that the
  calls of \<^verbatim>\<open>strtok(..., "/")\<close> return.  Path arrays have 30 bytes, so a longer path overruns the stack.
\<close>

section \<open>Dispatch of inode operations (vfs.h, rfs.c, hostfs.c)\<close>

definition viop_read ::
  "'h frontend \<Rightarrow> u64 \<Rightarrow> int \<Rightarrow> int \<Rightarrow> ('h, 'z) hfs_scheme \<Rightarrow>
     kerr + (int \<times> u8 list \<times> int \<times> ('h, 'z) hfs_scheme)" where
  "viop_read fe v len offset s = (case i_ops (vinodes s v) of
     Rfs_ops \<Rightarrow> rfs_read v len offset s | Hostfs_ops \<Rightarrow> hostfs_read fe v len s)"

definition viop_write ::
  "'h frontend \<Rightarrow> u64 \<Rightarrow> u8 list \<Rightarrow> int \<Rightarrow> int \<Rightarrow> ('h, 'z) hfs_scheme \<Rightarrow>
     kerr + (int \<times> int \<times> ('h, 'z) hfs_scheme)" where
  "viop_write fe v w len offset s = (case i_ops (vinodes s v) of
     Rfs_ops \<Rightarrow> rfs_write v w len offset s | Hostfs_ops \<Rightarrow> hostfs_write fe v w len s)"

definition viop_create ::
  "'h frontend \<Rightarrow> u64 \<Rightarrow> u64 \<Rightarrow> ('h, 'z) hfs_scheme \<Rightarrow> kerr + (u64 \<times> ('h, 'z) hfs_scheme)" where
  "viop_create fe v sub s = (case i_ops (vinodes s v) of
     Rfs_ops \<Rightarrow> rfs_create v sub s | Hostfs_ops \<Rightarrow> hostfs_create fe v sub s)"

definition viop_lseek ::
  "'h frontend \<Rightarrow> u64 \<Rightarrow> int \<Rightarrow> int \<Rightarrow> int \<Rightarrow> ('h, 'z) hfs_scheme \<Rightarrow> kerr + (int \<times> int \<times> ('h, 'z) hfs_scheme)" where
  "viop_lseek fe v new_off whence offset s = (case i_ops (vinodes s v) of
     Rfs_ops \<Rightarrow> (let (r, offset') = rfs_lseek v new_off whence offset s in Inr (r, offset', s))
   | Hostfs_ops \<Rightarrow> hostfs_lseek fe v new_off whence s)"

definition viop_disk_stat :: "u64 \<Rightarrow> 'z fs_scheme \<Rightarrow> kerr + (int \<times> istat option \<times> 'z fs_scheme)" where
  \<comment> \<open>\<^verbatim>\<open>hostfs_i_ops\<close> has no such operation\<close>
  "viop_disk_stat v s = (case i_ops (vinodes s v) of
     Rfs_ops \<Rightarrow> rfs_disk_stat v s | Hostfs_ops \<Rightarrow> Inl (Fault ''null''))"

definition viop_link :: "u64 \<Rightarrow> u64 \<Rightarrow> u64 \<Rightarrow> 'z fs_scheme \<Rightarrow> kerr + (int \<times> 'z fs_scheme)" where
  "viop_link v sub link_node s = (case i_ops (vinodes s v) of
     Rfs_ops \<Rightarrow> rfs_link v sub link_node s | Hostfs_ops \<Rightarrow> hostfs_link)"

definition viop_unlink :: "u64 \<Rightarrow> u64 \<Rightarrow> u64 \<Rightarrow> 'z fs_scheme \<Rightarrow> kerr + (int \<times> 'z fs_scheme)" where
  "viop_unlink v sub unlink_node s = (case i_ops (vinodes s v) of
     Rfs_ops \<Rightarrow> rfs_unlink v sub unlink_node s | Hostfs_ops \<Rightarrow> hostfs_unlink)"

definition viop_lookup ::
  "'h frontend \<Rightarrow> u64 \<Rightarrow> u64 \<Rightarrow> ('h, 'z) hfs_scheme \<Rightarrow> kerr + (u64 \<times> ('h, 'z) hfs_scheme)" where
  "viop_lookup fe v sub s = (case i_ops (vinodes s v) of
     Rfs_ops \<Rightarrow> rfs_lookup v sub s | Hostfs_ops \<Rightarrow> hostfs_lookup fe v sub s)"

definition viop_readdir ::
  "u64 \<Rightarrow> int \<Rightarrow> 'z fs_scheme \<Rightarrow> kerr + (int \<times> (cstring \<times> int) option \<times> int)" where
  "viop_readdir v offset s = (case i_ops (vinodes s v) of
     Rfs_ops \<Rightarrow> rfs_readdir v offset s | Hostfs_ops \<Rightarrow> hostfs_readdir)"

definition viop_mkdir :: "u64 \<Rightarrow> u64 \<Rightarrow> 'z fs_scheme \<Rightarrow> kerr + (u64 \<times> 'z fs_scheme)" where
  "viop_mkdir v sub s = (case i_ops (vinodes s v) of
     Rfs_ops \<Rightarrow> rfs_mkdir v sub s | Hostfs_ops \<Rightarrow> hostfs_mkdir)"

definition viop_write_back_vinode :: "u64 \<Rightarrow> 'z fs_scheme \<Rightarrow> kerr + (int \<times> 'z fs_scheme)" where
  "viop_write_back_vinode v s = (case i_ops (vinodes s v) of
     Rfs_ops \<Rightarrow> rfs_write_back_vinode v s | Hostfs_ops \<Rightarrow> hostfs_write_back_vinode v s)"

definition viop_hook_open ::
  "'h frontend \<Rightarrow> u64 \<Rightarrow> u64 \<Rightarrow> ('h, 'z) hfs_scheme \<Rightarrow> kerr + ('h, 'z) hfs_scheme" where
  \<comment> \<open>called when defined; the result only selects a message\<close>
  "viop_hook_open fe v dentry s = (case i_ops (vinodes s v) of
     Rfs_ops \<Rightarrow> Inr s | Hostfs_ops \<Rightarrow> kbind (hostfs_hook_open fe v dentry s) (\<lambda>(_, s). Inr s))"

definition viop_hook_close ::
  "'h frontend \<Rightarrow> u64 \<Rightarrow> ('h, 'z) hfs_scheme \<Rightarrow> kerr + ('h, 'z) hfs_scheme" where
  "viop_hook_close fe v s = (case i_ops (vinodes s v) of
     Rfs_ops \<Rightarrow> Inr s | Hostfs_ops \<Rightarrow> kbind (hostfs_hook_close fe v s) (\<lambda>(_, s). Inr s))"

definition viop_hook_opendir :: "u64 \<Rightarrow> 'z fs_scheme \<Rightarrow> kerr + 'z fs_scheme" where
  "viop_hook_opendir v s = (case i_ops (vinodes s v) of
     Rfs_ops \<Rightarrow> kbind (rfs_hook_opendir v s) (\<lambda>(_, s). Inr s) | Hostfs_ops \<Rightarrow> Inr s)"

definition viop_hook_closedir :: "u64 \<Rightarrow> 'z fs_scheme \<Rightarrow> kerr + 'z fs_scheme" where
  "viop_hook_closedir v s = (case i_ops (vinodes s v) of
     Rfs_ops \<Rightarrow> kbind (rfs_hook_closedir v s) (\<lambda>(_, s). Inr s) | Hostfs_ops \<Rightarrow> Inr s)"

section \<open>Path lookup\<close>

definition inode_of :: "u64 \<Rightarrow> 'z fs_scheme \<Rightarrow> kerr + u64" where
  \<comment> \<open>\<^verbatim>\<open>dentry->dentry_inode\<close>, about to be dereferenced\<close>
  "inode_of dentry s =
     kbind (nonnull dentry) (\<lambda>_.
     kbind (nonnull (dentry_inode (dentries s dentry))) (\<lambda>_. Inr (dentry_inode (dentries s dentry))))"

definition path_tokens :: "cstring \<Rightarrow> kerr + cstring list" where
  \<comment> \<open>the tokens of the copy of the path in \<^verbatim>\<open>path_copy[MAX_PATH_LEN]\<close>\<close>
  "path_tokens path =
     (if length path \<ge> MAX_PATH_LEN then Inl (Fault ''strcpy'') else Inr (tokens [47] path))"

definition lookup_new ::
  "'h frontend \<Rightarrow> u64 \<Rightarrow> cstring \<Rightarrow> ('h, 'z) hfs_scheme \<Rightarrow> kerr + (u64 \<times> ('h, 'z) hfs_scheme)" where
  \<comment> \<open>the branch of \<^verbatim>\<open>lookup_final_dentry\<close> for a component that is not in the hash table;
     0 when it is not in the directory either\<close>
  "lookup_new fe parent token s =
     kbind (alloc_vfs_dentry token 0 parent s) (\<lambda>(this, s).
     kbind (inode_of parent s) (\<lambda>pv.
     kbind (viop_lookup fe pv this s) (\<lambda>(found_vinode, s).
       if found_vinode = 0 then kbind (free_page this s) (\<lambda>s. Inr (0, s))
       else
         kbind (hash_get_vinode (v_sb (vinodes s found_vinode)) (v_inum (vinodes s found_vinode)) s)
           (\<lambda>same_inode.
         kbind (if same_inode \<noteq> 0 then
                  let s = upd_dentry this (\<lambda>d. d\<lparr>dentry_inode := same_inode\<rparr>) s;
                      s = upd_vinode same_inode (\<lambda>v. v\<lparr>v_ref := v_ref v + 1\<rparr>) s
                  in free_page found_vinode s
                else
                  let s = upd_dentry this (\<lambda>d. d\<lparr>dentry_inode := found_vinode\<rparr>) s;
                      s = upd_vinode found_vinode (\<lambda>v. v\<lparr>v_ref := v_ref v + 1\<rparr>) s
                  in kbind (hash_put_vinode found_vinode s) (\<lambda>(_, s). Inr s)) (\<lambda>s.
         kbind (hash_put_dentry this s) (\<lambda>(_, s). Inr (this, s)))))))"

fun lookup_tokens ::
  "'h frontend \<Rightarrow> cstring list \<Rightarrow> u64 \<Rightarrow> u64 \<Rightarrow> ('h, 'z) hfs_scheme \<Rightarrow>
     kerr + (u64 \<times> u64 \<times> cstring \<times> ('h, 'z) hfs_scheme)" where
  \<comment> \<open>the loop: the dentry found (0 for NULL), \<^verbatim>\<open>*parent\<close> and \<^verbatim>\<open>miss_name\<close>\<close>
  "lookup_tokens fe [] parent this s = Inr (this, parent, [], s)"
| "lookup_tokens fe (token # ts) _ parent s =
     kbind (hash_get_dentry parent token s) (\<lambda>this.
       if this \<noteq> 0 then lookup_tokens fe ts parent this s
       else kbind (lookup_new fe parent token s) (\<lambda>(this, s).
         if this = 0 then Inr (0, parent, token, s) else lookup_tokens fe ts parent this s))"

definition lookup_final_dentry ::
  "'h frontend \<Rightarrow> cstring \<Rightarrow> u64 \<Rightarrow> ('h, 'z) hfs_scheme \<Rightarrow>
     kerr + (u64 \<times> u64 \<times> cstring \<times> ('h, 'z) hfs_scheme)" where
  "lookup_final_dentry fe path parent s =
     kbind (path_tokens path) (\<lambda>ts. lookup_tokens fe ts parent parent s)"

definition get_base_name :: "cstring \<Rightarrow> kerr + cstring" where
  "get_base_name path =
     kbind (path_tokens path) (\<lambda>ts. if ts = [] then Inl (Fault ''null'') else Inr (last ts))"

section \<open>Mounting\<close>

definition MOUNT_DEFAULT :: int where "MOUNT_DEFAULT = 0"
definition MOUNT_AS_ROOT :: int where "MOUNT_AS_ROOT = 1"

definition vfs_mount :: "cstring \<Rightarrow> int \<Rightarrow> 'z fs_scheme \<Rightarrow> kerr + (u64 \<times> 'z fs_scheme)" where
  \<comment> \<open>when no device has the name, \<^verbatim>\<open>p_device\<close> is left at the last entry of the list\<close>
  "vfs_mount name mnt_type s =
     (let p_device = (case find (\<lambda>i. vfs_dev_list s i \<noteq> 0 \<and> dev_name (devices s (vfs_dev_list s i)) = name) [0..<10]
                      of Some i \<Rightarrow> vfs_dev_list s i | None \<Rightarrow> vfs_dev_list s 9) in
      if p_device = 0 then Inl (Panic ''vfs_mount: cannot find the device entry!'')
      else
        kbind (case get_superblock (dev_fs_type (devices s p_device)) of
                 Rfs_ops \<Rightarrow> rfs_get_superblock p_device s
               | Hostfs_ops \<Rightarrow> hostfs_get_superblock p_device s) (\<lambda>(sb, s).
        kbind (hash_put_vinode (dentry_inode (dentries s (s_root (sbs s sb)))) s) (\<lambda>(_, s).
        case find (\<lambda>i. vfs_sb_list s i = 0) [0..<10] of
          None \<Rightarrow> Inl (Panic ''vfs_mount: too many mounts!'')
        | Some i \<Rightarrow>
            let s = s\<lparr>vfs_sb_list := (vfs_sb_list s)(i := sb)\<rparr>; mnt_point = s_root (sbs s sb) in
            if mnt_type = MOUNT_AS_ROOT then
              kbind (hash_put_dentry mnt_point (s\<lparr>vfs_root_dentry := mnt_point\<rparr>)) (\<lambda>(_, s). Inr (sb, s))
            else if mnt_type = MOUNT_DEFAULT then
              (if vfs_root_dentry s = 0
               then Inl (Panic ''vfs_mount: root dentry not found, please mount the root device first!'')
               else kbind (hash_put_dentry mnt_point
                      (upd_dentry mnt_point (\<lambda>d. d\<lparr>d_name := dev_name (devices s p_device),
                         d_parent := vfs_root_dentry s\<rparr>) s)) (\<lambda>(_, s). Inr (sb, s)))
            else Inl (Panic ''vfs_mount: unknown mount type!''))))"

section \<open>Files\<close>

definition MASK_FILEMODE :: int where "MASK_FILEMODE = 3"

definition vfs_create ::
  "'h frontend \<Rightarrow> cstring \<Rightarrow> u64 \<Rightarrow> ('h, 'z) hfs_scheme \<Rightarrow> kerr + (u64 \<times> ('h, 'z) hfs_scheme)" where
  \<comment> \<open>the part of \<^verbatim>\<open>vfs_open\<close> that creates the file\<close>
  "vfs_create fe basename parent s =
     kbind (alloc_vfs_dentry basename 0 parent s) (\<lambda>(file_dentry, s).
     kbind (inode_of parent s) (\<lambda>pv.
     kbind (viop_create fe pv file_dentry s) (\<lambda>(new_inode, s).
       if new_inode = 0 then Inl (Panic ''vfs_open: cannot create file!'')
       else let s = upd_dentry file_dentry (\<lambda>d. d\<lparr>dentry_inode := new_inode\<rparr>) s;
                s = upd_vinode new_inode (\<lambda>v. v\<lparr>v_ref := v_ref v + 1\<rparr>) s in
         kbind (hash_put_dentry file_dentry s) (\<lambda>(_, s).
         kbind (hash_put_vinode new_inode s) (\<lambda>(_, s). Inr (file_dentry, s))))))"

definition vfs_open ::
  "'h frontend \<Rightarrow> cstring \<Rightarrow> int \<Rightarrow> ('h, 'z) hfs_scheme \<Rightarrow> kerr + (u64 \<times> ('h, 'z) hfs_scheme)" where
  "vfs_open fe path flags s =
     kbind (lookup_final_dentry fe path (vfs_root_dentry s) s) (\<lambda>(file_dentry, parent, miss_name, s).
     kbind (if file_dentry \<noteq> 0 then Inr (file_dentry, s)
            else if flags AND O_CREAT \<noteq> 0 then
              kbind (get_base_name path) (\<lambda>basename.
                if miss_name \<noteq> basename then Inr (0, s) else vfs_create fe basename parent s)
            else Inr (0, s)) (\<lambda>(file_dentry, s).
       if file_dentry = 0 then Inr (0, s)
       else kbind (inode_of file_dentry s) (\<lambda>v.
         if v_type (vinodes s v) \<noteq> FILE_I then Inr (0, s)
         else let mode = flags AND MASK_FILEMODE in
           if mode \<noteq> O_RDONLY \<and> mode \<noteq> O_WRONLY \<and> mode \<noteq> O_RDWR
           then Inl (Panic ''fs_open: invalid open flags!'')
           else kbind (alloc_vfs_file file_dentry (if mode = O_WRONLY then 0 else 1)
                         (if mode = O_RDONLY then 0 else 1) 0 s) (\<lambda>(file, s).
             kbind (viop_hook_open fe v file_dentry s) (\<lambda>s. Inr (file, s))))))"

definition vfs_read ::
  "'h frontend \<Rightarrow> u64 \<Rightarrow> int \<Rightarrow> ('h, 'z) hfs_scheme \<Rightarrow> kerr + (int \<times> u8 list \<times> ('h, 'z) hfs_scheme)" where
  \<comment> \<open>the result and the bytes stored in the buffer\<close>
  "vfs_read fe file cnt s =
     (if f_readable (files s file) = 0 then Inr (- 1, [], s)
      else kbind (inode_of (f_dentry (files s file)) s) (\<lambda>v.
        if v_type (vinodes s v) \<noteq> FILE_I then Inr (- 1, [], s)
        else kbind (viop_read fe v cnt (f_offset (files s file)) s) (\<lambda>(r, out, offset, s).
          Inr (r, out, upd_file file (\<lambda>f. f\<lparr>f_offset := offset\<rparr>) s))))"

definition vfs_write ::
  "'h frontend \<Rightarrow> u64 \<Rightarrow> u8 list \<Rightarrow> int \<Rightarrow> ('h, 'z) hfs_scheme \<Rightarrow> kerr + (int \<times> ('h, 'z) hfs_scheme)" where
  "vfs_write fe file w cnt s =
     (if f_writable (files s file) = 0 then Inr (- 1, s)
      else kbind (inode_of (f_dentry (files s file)) s) (\<lambda>v.
        if v_type (vinodes s v) \<noteq> FILE_I then Inr (- 1, s)
        else kbind (viop_write fe v w cnt (f_offset (files s file)) s) (\<lambda>(r, offset, s).
          Inr (r, upd_file file (\<lambda>f. f\<lparr>f_offset := offset\<rparr>) s))))"

definition vfs_lseek ::
  "'h frontend \<Rightarrow> u64 \<Rightarrow> int \<Rightarrow> int \<Rightarrow> ('h, 'z) hfs_scheme \<Rightarrow> kerr + (int \<times> ('h, 'z) hfs_scheme)" where
  "vfs_lseek fe file offset whence s =
     kbind (inode_of (f_dentry (files s file)) s) (\<lambda>v.
       if v_type (vinodes s v) \<noteq> FILE_I then Inr (- 1, s)
       else kbind (viop_lseek fe v offset whence (f_offset (files s file)) s) (\<lambda>(r, offset', s).
         let s = upd_file file (\<lambda>f. f\<lparr>f_offset := offset'\<rparr>) s in
         if r \<noteq> 0 then Inr (- 1, s) else Inr (f_offset (files s file), s)))"

definition vfs_stat :: "u64 \<Rightarrow> 'z fs_scheme \<Rightarrow> kerr + (int \<times> istat)" where
  "vfs_stat file s =
     kbind (inode_of (f_dentry (files s file)) s) (\<lambda>v.
       let x = vinodes s v in
       Inr (0, \<lparr>st_inum = v_inum x, st_size = v_size x, st_type = v_type x, st_nlinks = v_nlinks x,
                st_blocks = v_blocks x\<rparr>))"

definition vfs_disk_stat :: "u64 \<Rightarrow> 'z fs_scheme \<Rightarrow> kerr + (int \<times> istat option \<times> 'z fs_scheme)" where
  "vfs_disk_stat file s = kbind (inode_of (f_dentry (files s file)) s) (\<lambda>v. viop_disk_stat v s)"

definition vfs_link ::
  "'h frontend \<Rightarrow> cstring \<Rightarrow> cstring \<Rightarrow> ('h, 'z) hfs_scheme \<Rightarrow> kerr + (int \<times> ('h, 'z) hfs_scheme)" where
  "vfs_link fe oldpath newpath s =
     kbind (lookup_final_dentry fe oldpath (vfs_root_dentry s) s) (\<lambda>(old_file_dentry, _, _, s).
       if old_file_dentry = 0 then Inr (- 1, s)
       else kbind (inode_of old_file_dentry s) (\<lambda>ov.
         if v_type (vinodes s ov) \<noteq> FILE_I then Inr (- 1, s)
         else kbind (lookup_final_dentry fe newpath (vfs_root_dentry s) s)
           (\<lambda>(new_file_dentry, parent, miss_name, s).
           if new_file_dentry \<noteq> 0 then Inr (- 1, s)
           else kbind (get_base_name newpath) (\<lambda>basename.
             if miss_name \<noteq> basename then Inr (- 1, s)
             else kbind (alloc_vfs_dentry basename (dentry_inode (dentries s old_file_dentry)) parent s)
               (\<lambda>(new_file_dentry, s).
               kbind (inode_of parent s) (\<lambda>pv.
               kbind (viop_link pv new_file_dentry (dentry_inode (dentries s old_file_dentry)) s)
                 (\<lambda>(err, s).
                 if err \<noteq> 0 then Inr (- 1, s)
                 else kbind (hash_put_dentry new_file_dentry s) (\<lambda>(_, s). Inr (0, s)))))))))"

definition vfs_unlink ::
  "'h frontend \<Rightarrow> cstring \<Rightarrow> ('h, 'z) hfs_scheme \<Rightarrow> kerr + (int \<times> ('h, 'z) hfs_scheme)" where
  "vfs_unlink fe path s =
     kbind (lookup_final_dentry fe path (vfs_root_dentry s) s) (\<lambda>(file_dentry, parent, _, s).
       if file_dentry = 0 then Inr (- 1, s)
       else kbind (inode_of file_dentry s) (\<lambda>v.
         if v_type (vinodes s v) \<noteq> FILE_I then Inr (- 1, s)
         else if d_ref (dentries s file_dentry) > 0 then Inr (- 1, s)
         else kbind (inode_of parent s) (\<lambda>pv.
           kbind (viop_unlink pv file_dentry v s) (\<lambda>(err, s).
             if err \<noteq> 0 then Inr (- 1, s)
             else kbind (hash_erase_dentry file_dentry s) (\<lambda>(_, s).
               kbind (free_vfs_dentry file_dentry s) (\<lambda>(_, s).
               let s = upd_vinode v (\<lambda>x. x\<lparr>v_ref := v_ref x - 1\<rparr>) s in
               if v_nlinks (vinodes s v) = 0 then
                 kbind (kassert (v_ref (vinodes s v) = 0) ''unlinked_vinode->ref == 0'') (\<lambda>_.
                 kbind (hash_erase_vinode v s) (\<lambda>(_, s).
                 kbind (free_page v s) (\<lambda>s. Inr (0, s))))
               else Inr (0, s)))))))"

definition vfs_close ::
  "'h frontend \<Rightarrow> u64 \<Rightarrow> ('h, 'z) hfs_scheme \<Rightarrow> kerr + (int \<times> ('h, 'z) hfs_scheme)" where
  "vfs_close fe file s =
     (let dentry = f_dentry (files s file) in
      kbind (inode_of dentry s) (\<lambda>inode.
        if v_type (vinodes s inode) \<noteq> FILE_I then Inr (- 1, s)
        else kbind (viop_hook_close fe inode s) (\<lambda>s.
          let s = upd_dentry dentry (\<lambda>d. d\<lparr>d_ref := d_ref d - 1\<rparr>) s in
          kbind (if d_ref (dentries s dentry) = 0 then
                   kbind (hash_erase_dentry dentry s) (\<lambda>(_, s).
                   kbind (free_vfs_dentry dentry s) (\<lambda>(_, s).
                   let s = upd_vinode inode (\<lambda>x. x\<lparr>v_ref := v_ref x - 1\<rparr>) s in
                   if v_ref (vinodes s inode) = 0 then
                     kbind (viop_write_back_vinode inode s) (\<lambda>(r, s).
                       if r \<noteq> 0 then Inl (Panic ''vfs_close: free inode failed!'')
                       else kbind (hash_erase_vinode inode s) (\<lambda>(_, s). free_page inode s))
                   else Inr s))
                 else Inr s) (\<lambda>s.
          Inr (0, upd_file file (\<lambda>f. f\<lparr>f_status := FD_NONE\<rparr>) s)))))"

section \<open>Directories\<close>

definition vfs_opendir ::
  "'h frontend \<Rightarrow> cstring \<Rightarrow> ('h, 'z) hfs_scheme \<Rightarrow> kerr + (u64 \<times> ('h, 'z) hfs_scheme)" where
  "vfs_opendir fe path s =
     kbind (lookup_final_dentry fe path (vfs_root_dentry s) s) (\<lambda>(file_dentry, _, _, s).
       if file_dentry = 0 then Inr (0, s)
       else kbind (inode_of file_dentry s) (\<lambda>v.
         if v_type (vinodes s v) \<noteq> DIR_I then Inr (0, s)
         else kbind (alloc_vfs_file file_dentry 1 0 0 s) (\<lambda>(file, s).
           kbind (viop_hook_opendir v s) (\<lambda>s. Inr (file, s)))))"

definition vfs_readdir ::
  "u64 \<Rightarrow> 'z fs_scheme \<Rightarrow> kerr + (int \<times> (cstring \<times> int) option \<times> 'z fs_scheme)" where
  "vfs_readdir file s =
     kbind (inode_of (f_dentry (files s file)) s) (\<lambda>v.
       if v_type (vinodes s v) \<noteq> DIR_I then Inr (- 1, None, s)
       else kbind (viop_readdir v (f_offset (files s file)) s) (\<lambda>(r, dir, offset).
         Inr (r, dir, upd_file file (\<lambda>f. f\<lparr>f_offset := offset\<rparr>) s)))"

definition vfs_mkdir ::
  "'h frontend \<Rightarrow> cstring \<Rightarrow> ('h, 'z) hfs_scheme \<Rightarrow> kerr + (int \<times> ('h, 'z) hfs_scheme)" where
  "vfs_mkdir fe path s =
     kbind (lookup_final_dentry fe path (vfs_root_dentry s) s) (\<lambda>(file_dentry, parent, miss_name, s).
       if file_dentry \<noteq> 0 then Inr (- 1, s)
       else kbind (get_base_name path) (\<lambda>basename.
         if miss_name \<noteq> basename then Inr (- 1, s)
         else kbind (alloc_vfs_dentry basename 0 parent s) (\<lambda>(new_dentry, s).
           kbind (inode_of parent s) (\<lambda>pv.
           kbind (viop_mkdir pv new_dentry s) (\<lambda>(new_dir_inode, s).
             if new_dir_inode = 0 then kbind (free_page new_dentry s) (\<lambda>s. Inr (- 1, s))
             else let s = upd_dentry new_dentry (\<lambda>d. d\<lparr>dentry_inode := new_dir_inode\<rparr>) s;
                      s = upd_vinode new_dir_inode (\<lambda>v. v\<lparr>v_ref := v_ref v + 1\<rparr>) s in
               kbind (hash_put_dentry new_dentry s) (\<lambda>(_, s).
               kbind (hash_put_vinode new_dir_inode s) (\<lambda>(_, s). Inr (0, s))))))))"

definition vfs_closedir :: "u64 \<Rightarrow> 'z fs_scheme \<Rightarrow> kerr + (int \<times> 'z fs_scheme)" where
  "vfs_closedir file s =
     (let dentry = f_dentry (files s file) in
      kbind (inode_of dentry s) (\<lambda>v.
        if v_type (vinodes s v) \<noteq> DIR_I then Inr (- 1, s)
        else let s = upd_dentry dentry (\<lambda>d. d\<lparr>d_ref := d_ref d - 1\<rparr>) s;
                 s = upd_file file (\<lambda>f. f\<lparr>f_status := FD_NONE\<rparr>) s in
          kbind (viop_hook_closedir v s) (\<lambda>s. Inr (0, s))))"

end
