(* ===== verification/Sched.thy ===== *)
theory Sched
  imports Vfs
begin

text \<open>
  Processes and the scheduler (\<^verbatim>\<open>kernel/process.h\<close>, \<^verbatim>\<open>kernel/sched.c\<close>, \<^verbatim>\<open>switch_to\<close> of \<^verbatim>\<open>kernel/process.c\<close>).
  Process structures are the entries of \<^verbatim>\<open>procs\<close> and the local copies \<^verbatim>\<open>t\<close> that \<^verbatim>\<open>schedule\<close> makes on the
  kernel stack of the process that exits; both kinds are reached by pointers.  The model runs the kernel
  code of one hart at a time; \<open>cpu\<close> is the hart (\<^verbatim>\<open>read_tp()\<close>).  \<^verbatim>\<open>switch_to\<close> does not return: a
  routine that calls it ends with the state in which the hart enters user mode.
\<close>

section \<open>State\<close>

datatype proc_status = FREE | READY | RUNNING | BLOCKED | ZOMBIE | USED

datatype pref =                       \<comment> \<open>values of type \<^verbatim>\<open>process*\<close>\<close>
    Null
  | Proc nat                          \<comment> \<open>\<^verbatim>\<open>&procs[i]\<close>\<close>
  | Local u64                         \<comment> \<open>\<^verbatim>\<open>&t\<close> in the frame of \<^verbatim>\<open>schedule\<close> on the kernel stack with this top\<close>

definition NPROC :: nat where "NPROC = 32"
definition MAX_HEAP_PAGES :: nat where "MAX_HEAP_PAGES = 32"
definition NCPU :: nat where "NCPU = 1"

record process_heap_manager =
  heap_top :: u64
  heap_bottom :: u64
  free_pages_address :: "nat \<Rightarrow> u64"
  free_pages_count :: u32

record process =
  kstack :: u64
  pagetable :: u64
  trapframe :: u64
  mapped_info :: u64
  total_mapped_region :: int
  user_heap :: process_heap_manager
  pid :: u64
  status :: proc_status
  parent :: pref
  queue_next :: pref
  tick_count :: int
  sem :: int
  pfiles :: u64
  debugline :: u64
  p_dir :: u64
  p_file :: u64
  p_line :: u64
  line_ind :: int

record 'h kernel = "'h hfs" +
  pcb :: "pref \<Rightarrow> process"
  current :: "nat \<Rightarrow> pref"
  ready_queue_head :: pref
  wait_queue_head :: pref
  count_3 :: int                      \<comment> \<open>the semaphore of \<^verbatim>\<open>alloc_process\<close>\<close>
  sem_l :: "int \<Rightarrow> int"               \<comment> \<open>\<^verbatim>\<open>l[100]\<close>, the user semaphores\<close>
  sem_len :: int                      \<comment> \<open>\<^verbatim>\<open>len\<close>\<close>
  sem_s :: int
  g_ticks :: u64
  pf_cwd :: "u64 \<Rightarrow> u64"               \<comment> \<open>\<^verbatim>\<open>cwd\<close> and \<^verbatim>\<open>nfiles\<close> of the \<^verbatim>\<open>proc_file_management\<close> in each page\<close>
  pf_nfiles :: "u64 \<Rightarrow> int"
  csr_satp :: "nat \<Rightarrow> u64"             \<comment> \<open>supervisor registers of each hart\<close>
  csr_sstatus :: "nat \<Rightarrow> u64"
  csr_sepc :: "nat \<Rightarrow> u64"
  csr_stvec :: "nat \<Rightarrow> u64"
  csr_sip :: "nat \<Rightarrow> u64"
  user_satp :: "nat \<Rightarrow> u64"            \<comment> \<open>the page table the hart enters user mode with\<close>
  smode_trap_vector :: u64            \<comment> \<open>linker symbols\<close>
  smode_trap_entry :: u64
  trap_sec_start :: u64

definition upd_proc :: "pref \<Rightarrow> (process \<Rightarrow> process) \<Rightarrow> ('h, 'z) kernel_scheme \<Rightarrow> ('h, 'z) kernel_scheme" where
  "upd_proc p f s = s\<lparr>pcb := (pcb s)(p := f (pcb s p))\<rparr>"

definition nonnull_proc :: "pref \<Rightarrow> kerr + unit" where
  "nonnull_proc p = (if p = Null then Inl (Fault ''null'') else Inr ())"

abbreviation cur :: "nat \<Rightarrow> ('h, 'z) kernel_scheme \<Rightarrow> process" where
  \<comment> \<open>\<^verbatim>\<open>*current[cpu]\<close>\<close>
  "cur cpu s \<equiv> pcb s (current s cpu)"

abbreviation upd_cur :: "nat \<Rightarrow> (process \<Rightarrow> process) \<Rightarrow> ('h, 'z) kernel_scheme \<Rightarrow> ('h, 'z) kernel_scheme" where
  "upd_cur cpu f s \<equiv> upd_proc (current s cpu) f s"

section \<open>Entering user mode (process.c)\<close>

definition TF_sp :: u64 where "TF_sp = 8"           \<comment> \<open>offsets in \<^verbatim>\<open>struct trapframe_t\<close>\<close>
definition TF_a0 :: u64 where "TF_a0 = 72"
definition TF_a1 :: u64 where "TF_a1 = 80"
definition TF_kernel_sp :: u64 where "TF_kernel_sp = 248"
definition TF_kernel_trap :: u64 where "TF_kernel_trap = 256"
definition TF_epc :: u64 where "TF_epc = 264"
definition TF_kernel_satp :: u64 where "TF_kernel_satp = 272"

lemmas TF_defs = TF_sp_def TF_a0_def TF_a1_def TF_kernel_sp_def TF_kernel_trap_def TF_epc_def TF_kernel_satp_def

definition SSTATUS_SPP :: u64 where "SSTATUS_SPP = push_bit 8 1"
definition SSTATUS_SPIE :: u64 where "SSTATUS_SPIE = push_bit 5 1"

definition MAKE_SATP :: "u64 \<Rightarrow> u64" where
  "MAKE_SATP pt = push_bit 60 8 OR drop_bit 12 pt"

definition switch_to :: "nat \<Rightarrow> pref \<Rightarrow> ('h, 'z) kernel_scheme \<Rightarrow> kerr + ('h, 'z) kernel_scheme" where
  "switch_to cpu proc s =
     kbind (kassert (proc \<noteq> Null) ''proc'') (\<lambda>_.
     let s = s\<lparr>current := (current s)(cpu := proc), csr_stvec := (csr_stvec s)(cpu := smode_trap_vector s)\<rparr>;
         tf = trapframe (pcb s proc) in
     kbind (store (tf + TF_kernel_sp) (kstack (pcb s proc)) s) (\<lambda>s.
     kbind (store (tf + TF_kernel_satp) (csr_satp s cpu) s) (\<lambda>s.
     kbind (store (tf + TF_kernel_trap) (smode_trap_entry s) s) (\<lambda>s.
     kbind (load (tf + TF_epc) s) (\<lambda>epc.
       Inr (s\<lparr>csr_sstatus := (csr_sstatus s)(cpu := csr_sstatus s cpu AND NOT SSTATUS_SPP OR SSTATUS_SPIE),
              csr_sepc := (csr_sepc s)(cpu := epc),
              user_satp := (user_satp s)(cpu := MAKE_SATP (pagetable (pcb s proc)))\<rparr>))))))"

section \<open>Queues (sched.c)\<close>

partial_function (option) queue_last :: "(pref \<Rightarrow> pref) \<Rightarrow> pref \<Rightarrow> pref \<Rightarrow> pref option" where
  \<comment> \<open>the loop that looks for \<open>proc\<close> in the queue from \<open>p\<close> on: the last element, or \<open>Null\<close> when \<open>proc\<close> is in the queue\<close>
  "queue_last nxt proc p =
     (if nxt p \<noteq> Null then (if p = proc then Some Null else queue_last nxt proc (nxt p))
      else Some (if p = proc then Null else p))"

definition insert_to_ready_queue :: "pref \<Rightarrow> ('h, 'z) kernel_scheme \<Rightarrow> kerr + ('h, 'z) kernel_scheme" where
  "insert_to_ready_queue proc s =
     (if ready_queue_head s = Null then
        Inr ((upd_proc proc (\<lambda>p. p\<lparr>status := READY, queue_next := Null\<rparr>) s)\<lparr>ready_queue_head := proc\<rparr>)
      else case queue_last (\<lambda>p. queue_next (pcb s p)) proc (ready_queue_head s) of
        None \<Rightarrow> Inl Spin
      | Some p \<Rightarrow> if p = Null then Inr s
          else Inr (upd_proc proc (\<lambda>p. p\<lparr>status := READY, queue_next := Null\<rparr>)
                 (upd_proc p (\<lambda>p. p\<lparr>queue_next := proc\<rparr>) s)))"

definition insert_to_ready_queue_head :: "pref \<Rightarrow> ('h, 'z) kernel_scheme \<Rightarrow> ('h, 'z) kernel_scheme" where
  "insert_to_ready_queue_head proc s =
     (if ready_queue_head s = Null then
        (upd_proc proc (\<lambda>p. p\<lparr>status := READY, queue_next := Null\<rparr>) s)\<lparr>ready_queue_head := proc\<rparr>
      else (upd_proc proc (\<lambda>p. p\<lparr>status := READY, queue_next := ready_queue_head s\<rparr>) s)\<lparr>ready_queue_head := proc\<rparr>)"

definition insert_to_wait_queue :: "pref \<Rightarrow> ('h, 'z) kernel_scheme \<Rightarrow> kerr + ('h, 'z) kernel_scheme" where
  "insert_to_wait_queue proc s =
     (if wait_queue_head s = Null then
        Inr ((upd_proc proc (\<lambda>p. p\<lparr>status := BLOCKED, queue_next := Null\<rparr>) s)\<lparr>wait_queue_head := proc\<rparr>)
      else case queue_last (\<lambda>p. queue_next (pcb s p)) proc (wait_queue_head s) of
        None \<Rightarrow> Inl Spin
      | Some p \<Rightarrow> if p = Null then Inr s
          else Inr (upd_proc proc (\<lambda>p. p\<lparr>status := BLOCKED, queue_next := Null\<rparr>)
                 (upd_proc p (\<lambda>p. p\<lparr>queue_next := proc\<rparr>) s)))"

partial_function (option) find_waiter :: "(pref \<Rightarrow> process) \<Rightarrow> (process \<Rightarrow> bool) \<Rightarrow> pref \<Rightarrow> pref \<Rightarrow> (pref \<times> pref) option" where
  \<comment> \<open>the first element from \<open>p\<close> on that satisfies \<open>P\<close>, and the element before it (\<open>front\<close> at first);
     \<open>Null\<close> when there is none\<close>
  "find_waiter ps P front p =
     (if p = Null then Some (Null, front)
      else if P (ps p) then Some (p, front)
      else find_waiter ps P p (queue_next (ps p)))"

definition unlink_waiter :: "pref \<Rightarrow> pref \<Rightarrow> ('h, 'z) kernel_scheme \<Rightarrow> ('h, 'z) kernel_scheme" where
  \<comment> \<open>take \<open>p\<close> out of the wait queue; \<open>front\<close> is the element before it, \<open>Null\<close> for the head\<close>
  "unlink_waiter p front s =
     (if front = Null then s\<lparr>wait_queue_head := queue_next (pcb s p)\<rparr>
      else upd_proc front (\<lambda>q. q\<lparr>queue_next := queue_next (pcb s p)\<rparr>) s)"

definition wake_wait_queue :: "int \<Rightarrow> ('h, 'z) kernel_scheme \<Rightarrow> kerr + ('h, 'z) kernel_scheme" where
  "wake_wait_queue a1 s =
     (if a1 < 0 \<or> a1 \<ge> 100 then Inl (Fault ''l'')
      else if sem_l s a1 \<ge> 0 then
        (case find_waiter (pcb s) (\<lambda>p. sem p = a1) Null (wait_queue_head s) of
           None \<Rightarrow> Inl Spin
         | Some (p, front) \<Rightarrow>
             if p = Null then Inr s
             else Inr (insert_to_ready_queue_head p (unlink_waiter p front s)))
      else Inr s)"

section \<open>The scheduler\<close>

definition dispatch :: "nat \<Rightarrow> ('h, 'z) kernel_scheme \<Rightarrow> kerr + ('h, 'z) kernel_scheme" where
  \<comment> \<open>the last part of \<^verbatim>\<open>schedule\<close>: run the head of the ready queue\<close>
  "dispatch cpu s =
     (let s = s\<lparr>current := (current s)(cpu := ready_queue_head s)\<rparr>; p = current s cpu in
      kbind (nonnull_proc p) (\<lambda>_.
      kbind (kassert (status (pcb s p) = READY) ''current[cpu]->status == READY'') (\<lambda>_.
      let s = s\<lparr>ready_queue_head := queue_next (pcb s p)\<rparr>;
          s = upd_proc p (\<lambda>q. q\<lparr>status := RUNNING\<rparr>) s
      in switch_to cpu p s)))"

definition all_done :: "('h, 'z) kernel_scheme \<Rightarrow> bool" where
  "all_done s \<longleftrightarrow> list_all (\<lambda>i. status (pcb s (Proc i)) = FREE \<or> status (pcb s (Proc i)) = ZOMBIE) [0..<NPROC]"

definition schedule :: "int \<Rightarrow> nat \<Rightarrow> ('h, 'z) kernel_scheme \<Rightarrow> kerr + ('h, 'z) kernel_scheme" where
  "schedule typ cpu s =
     (if wait_queue_head s \<noteq> Null \<and> typ = 1 then
        (if parent (cur cpu s) = Null then dispatch cpu s
         else case find_waiter (pcb s) (\<lambda>p. pid p = pid (pcb s (parent (cur cpu s)))) Null (wait_queue_head s) of
           None \<Rightarrow> Inl Spin
         | Some (w, front) \<Rightarrow>
             if w = Null then dispatch cpu s
             else let t = Local (kstack (cur cpu s));
                      s = upd_proc t (\<lambda>_. pcb s w) (unlink_waiter w front s) in
               if ready_queue_head s \<noteq> Null then kbind (insert_to_ready_queue t s) (dispatch cpu)
               else let s = s\<lparr>current := (current s)(cpu := t)\<rparr>;
                        s = upd_proc t (\<lambda>p. p\<lparr>status := RUNNING\<rparr>) s
                    in switch_to cpu t s)
      else if ready_queue_head s = Null then
        (if all_done s then Inl (Halt 0)
         else Inl (Panic ''Not handled: we should let system wait for unfinished processes.''))
      else dispatch cpu s)"

end
