(* ===== verification/ProcFile.thy ===== *)
theory ProcFile
  imports Sched
begin

text \<open>
  Open files of processes (\<^verbatim>\<open>kernel/proc_file.c\<close>).  The structure \<^verbatim>\<open>proc_file_management\<close> of a process lives in
  the page \<^verbatim>\<open>pfiles\<close>: \<^verbatim>\<open>cwd\<close> and \<^verbatim>\<open>nfiles\<close> are the values of \<open>pf_cwd\<close> and \<open>pf_nfiles\<close> at the page, the entries of
  \<^verbatim>\<open>opened_files\<close> are files at their addresses in the page.
\<close>

section \<open>Initialisation\<close>

definition fs_init ::
  "(int \<Rightarrow> bytes) \<Rightarrow> bytes \<Rightarrow> int list \<Rightarrow> 'z fs_scheme \<Rightarrow> kerr + 'z fs_scheme" where
  \<comment> \<open>\<open>disk\<close>, \<open>buf\<close> and \<open>junk\<close> are what the pages of the RAM disk, its buffer and the uninitialised part of
     the root inode hold\<close>
  "fs_init disk buf junk s =
     (let (_, s) = vfs_init s in
      kbind (register_hostfs s) (\<lambda>(r, s).
      if r < 0 then Inl (Panic ''fs_init: cannot register hostfs.'') else
      kbind (init_host_device [72, 79, 83, 84, 68, 69, 86] s) (\<lambda>(_, s).
      kbind (vfs_mount [72, 79, 83, 84, 68, 69, 86] MOUNT_AS_ROOT s) (\<lambda>(_, s).
      kbind (register_rfs s) (\<lambda>(r, s).
      if r < 0 then Inl (Panic ''fs_init: cannot register rfs.'') else
      kbind (init_rfs_device [82, 65, 77, 68, 73, 83, 75, 48] disk buf s) (\<lambda>(ramdisk0, s).
      kbind (rfs_format_dev (dev_id (devices s ramdisk0)) junk s) (\<lambda>(_, s).
      kbind (vfs_mount [82, 65, 77, 68, 73, 83, 75, 48] MOUNT_DEFAULT s) (\<lambda>(_, s). Inr s))))))))"

definition opened_file :: "u64 \<Rightarrow> nat \<Rightarrow> u64" where
  \<comment> \<open>\<^verbatim>\<open>&pfiles->opened_files[fd]\<close>\<close>
  "opened_file pf fd = pf + 8 + 24 * of_nat fd"

definition upd_pfiles ::
  "u64 \<Rightarrow> (u64 \<Rightarrow> vfs_file \<Rightarrow> vfs_file) \<Rightarrow> ('h, 'z) kernel_scheme \<Rightarrow> ('h, 'z) kernel_scheme" where
  \<comment> \<open>update every entry of \<^verbatim>\<open>opened_files\<close>\<close>
  "upd_pfiles pf f s = foldl (\<lambda>s fd. upd_file (opened_file pf fd) (f (opened_file pf fd)) s) s [0..<MAX_FILES]"

definition init_proc_file_management :: "('h, 'z) kernel_scheme \<Rightarrow> kerr + (u64 \<times> ('h, 'z) kernel_scheme)" where
  "init_proc_file_management s =
     kbind (alloc_obj s) (\<lambda>(pf, s).
       let s = s\<lparr>pf_cwd := (pf_cwd s)(pf := vfs_root_dentry s), pf_nfiles := (pf_nfiles s)(pf := 0)\<rparr>
       in Inr (pf, upd_pfiles pf (\<lambda>_ f. f\<lparr>f_status := FD_NONE\<rparr>) s))"

definition reclaim_proc_file_management :: "u64 \<Rightarrow> ('h, 'z) kernel_scheme \<Rightarrow> kerr + ('h, 'z) kernel_scheme" where
  "reclaim_proc_file_management pf s = free_page pf s"

section \<open>File operations\<close>

definition get_opened_file :: "nat \<Rightarrow> int \<Rightarrow> ('h, 'z) kernel_scheme \<Rightarrow> u64" where
  \<comment> \<open>the loop ends at the last entry when no index is \<open>fd\<close>\<close>
  "get_opened_file cpu fd s =
     (let pf = pfiles (cur cpu s) in
      case find (\<lambda>i. int i = fd) [0..<MAX_FILES] of
        Some i \<Rightarrow> opened_file pf i | None \<Rightarrow> opened_file pf (MAX_FILES - 1))"

definition free_entry :: "u64 \<Rightarrow> ('h, 'z) kernel_scheme \<Rightarrow> nat \<times> u64" where
  \<comment> \<open>the loop of \<^verbatim>\<open>do_open\<close> and \<^verbatim>\<open>do_opendir\<close>: \<^verbatim>\<open>fd\<close> and \<^verbatim>\<open>pfile\<close> after it\<close>
  "free_entry pf s =
     (case find (\<lambda>i. f_status (files s (opened_file pf i)) = FD_NONE) [0..<MAX_FILES] of
        Some i \<Rightarrow> (i, opened_file pf i) | None \<Rightarrow> (MAX_FILES, opened_file pf (MAX_FILES - 1)))"

definition fill_entry :: "u64 \<Rightarrow> u64 \<Rightarrow> u64 \<Rightarrow> ('h, 'z) kernel_scheme \<Rightarrow> ('h, 'z) kernel_scheme" where
  \<comment> \<open>\<^verbatim>\<open>memcpy(pfile, opened_file, sizeof(struct file)); ++current[tp]->pfiles->nfiles\<close>\<close>
  "fill_entry pf pfile f s =
     (let s = upd_file pfile (\<lambda>_. files s f) s in s\<lparr>pf_nfiles := (pf_nfiles s)(pf := pf_nfiles s pf + 1)\<rparr>)"

definition do_open ::
  "'h frontend \<Rightarrow> nat \<Rightarrow> cstring \<Rightarrow> int \<Rightarrow> ('h, 'z) kernel_scheme \<Rightarrow> kerr + (int \<times> ('h, 'z) kernel_scheme)" where
  "do_open fe cpu pathname flags s =
     kbind (vfs_open fe pathname flags s) (\<lambda>(f, s).
       if f = 0 then Inr (- 1, s)
       else let pf = pfiles (cur cpu s) in
         if pf_nfiles s pf \<ge> int MAX_FILES
         then Inl (Panic ''do_open: no file entry for current process!'')
         else let (fd, pfile) = free_entry pf s in Inr (int fd, fill_entry pf pfile f s))"

definition do_read ::
  "'h frontend \<Rightarrow> nat \<Rightarrow> bytes \<Rightarrow> int \<Rightarrow> nat \<Rightarrow> ('h, 'z) kernel_scheme \<Rightarrow>
     kerr + (int \<times> u8 list \<times> ('h, 'z) kernel_scheme)" where
  \<comment> \<open>the result and the bytes stored at \<^verbatim>\<open>buf\<close>; \<open>stk\<close> is what the local array holds before\<close>
  "do_read fe cpu stk fd cnt s =
     (let pfile = get_opened_file cpu fd s in
      if f_readable (files s pfile) = 0 then Inl (Panic ''do_read: no readable file!'')
      else kbind (vfs_read fe pfile (int cnt) s) (\<lambda>(len, out, s).
        if length out > cnt + 1 then Inl (Fault ''buffer'')
        else let buffer = (\<lambda>i. if i = cnt then 0 else if i < length out then out ! i else stk i)
          in Inr (len, takeWhile (\<lambda>c. c \<noteq> 0) (map buffer [0..<cnt]) @ [0], s)))"

definition do_write ::
  "'h frontend \<Rightarrow> nat \<Rightarrow> int \<Rightarrow> u8 list \<Rightarrow> ('h, 'z) kernel_scheme \<Rightarrow> kerr + (int \<times> ('h, 'z) kernel_scheme)" where
  \<comment> \<open>\<open>w\<close> is the \<^verbatim>\<open>count\<close> bytes at \<^verbatim>\<open>buf\<close>\<close>
  "do_write fe cpu fd w s =
     (let pfile = get_opened_file cpu fd s in
      if f_writable (files s pfile) = 0 then Inl (Panic ''do_write: cannot write file!'')
      else vfs_write fe pfile w (int (length w)) s)"

definition do_lseek ::
  "'h frontend \<Rightarrow> nat \<Rightarrow> int \<Rightarrow> int \<Rightarrow> int \<Rightarrow> ('h, 'z) kernel_scheme \<Rightarrow> kerr + (int \<times> ('h, 'z) kernel_scheme)" where
  "do_lseek fe cpu fd offset whence s = vfs_lseek fe (get_opened_file cpu fd s) offset whence s"

definition do_stat :: "nat \<Rightarrow> int \<Rightarrow> ('h, 'z) kernel_scheme \<Rightarrow> kerr + (int \<times> istat)" where
  "do_stat cpu fd s = vfs_stat (get_opened_file cpu fd s) s"

definition do_disk_stat ::
  "nat \<Rightarrow> int \<Rightarrow> ('h, 'z) kernel_scheme \<Rightarrow> kerr + (int \<times> istat option \<times> ('h, 'z) kernel_scheme)" where
  "do_disk_stat cpu fd s = vfs_disk_stat (get_opened_file cpu fd s) s"

definition do_close ::
  "'h frontend \<Rightarrow> nat \<Rightarrow> int \<Rightarrow> ('h, 'z) kernel_scheme \<Rightarrow> kerr + (int \<times> ('h, 'z) kernel_scheme)" where
  "do_close fe cpu fd s = vfs_close fe (get_opened_file cpu fd s) s"

section \<open>Directories\<close>

definition do_opendir ::
  "'h frontend \<Rightarrow> nat \<Rightarrow> cstring \<Rightarrow> ('h, 'z) kernel_scheme \<Rightarrow> kerr + (int \<times> ('h, 'z) kernel_scheme)" where
  "do_opendir fe cpu pathname s =
     kbind (vfs_opendir fe pathname s) (\<lambda>(f, s).
       if f = 0 then Inr (- 1, s)
       else let pf = pfiles (cur cpu s); (fd, pfile) = free_entry pf s in
         if f_status (files s pfile) \<noteq> FD_NONE
         then Inl (Panic ''do_opendir: no file entry for current process!'')
         else Inr (int fd, fill_entry pf pfile f s))"

definition do_readdir ::
  "nat \<Rightarrow> int \<Rightarrow> ('h, 'z) kernel_scheme \<Rightarrow> kerr + (int \<times> (cstring \<times> int) option \<times> ('h, 'z) kernel_scheme)" where
  "do_readdir cpu fd s = vfs_readdir (get_opened_file cpu fd s) s"

definition do_mkdir ::
  "'h frontend \<Rightarrow> cstring \<Rightarrow> ('h, 'z) kernel_scheme \<Rightarrow> kerr + (int \<times> ('h, 'z) kernel_scheme)" where
  "do_mkdir fe pathname s = vfs_mkdir fe pathname s"

definition do_closedir :: "nat \<Rightarrow> int \<Rightarrow> ('h, 'z) kernel_scheme \<Rightarrow> kerr + (int \<times> ('h, 'z) kernel_scheme)" where
  "do_closedir cpu fd s = vfs_closedir (get_opened_file cpu fd s) s"

definition do_link ::
  "'h frontend \<Rightarrow> cstring \<Rightarrow> cstring \<Rightarrow> ('h, 'z) kernel_scheme \<Rightarrow> kerr + (int \<times> ('h, 'z) kernel_scheme)" where
  "do_link fe oldpath newpath s = vfs_link fe oldpath newpath s"

definition do_unlink ::
  "'h frontend \<Rightarrow> cstring \<Rightarrow> ('h, 'z) kernel_scheme \<Rightarrow> kerr + (int \<times> ('h, 'z) kernel_scheme)" where
  "do_unlink fe path s = vfs_unlink fe path s"

section \<open>Relative paths\<close>

definition char_at :: "cstring \<Rightarrow> nat \<Rightarrow> u8" where
  \<comment> \<open>a byte of a C string, whose terminating byte is 0\<close>
  "char_at p i = (if i < length p then p ! i else 0)"

definition no_slash :: "cstring \<Rightarrow> cstring" where
  \<comment> \<open>\<^verbatim>\<open>if (!strcmp(resultpath, "/")) *resultpath = 0\<close>\<close>
  "no_slash p = (if p = [47] then [] else p)"

definition c_d :: "nat \<Rightarrow> cstring \<Rightarrow> ('h, 'z) kernel_scheme \<Rightarrow> kerr + cstring" where
  \<comment> \<open>what is stored at \<^verbatim>\<open>resultpath\<close>\<close>
  "c_d cpu pathpa s =
     (let cwd = pf_cwd s (pfiles (cur cpu s)); c0 = char_at pathpa 0; c1 = char_at pathpa 1 in
      if c0 \<noteq> 46 \<and> c0 \<noteq> 47 then
        kbind (nonnull cwd) (\<lambda>_. Inr (no_slash (d_name (dentries s cwd)) @ [47] @ pathpa))
      else if c0 = 46 \<and> c1 \<noteq> 46 then
        kbind (nonnull cwd) (\<lambda>_. Inr (no_slash (d_name (dentries s cwd)) @ tl pathpa))
      else if c0 = 46 \<and> c1 = 46 then
        kbind (nonnull cwd) (\<lambda>_.
          if d_parent (dentries s cwd) \<noteq> 0
          then Inr (no_slash (d_name (dentries s (d_parent (dentries s cwd)))) @ pathpa)
          else Inr [47])
      else Inr pathpa)"

end
