(* ===== verification/Process.thy ===== *)
theory Process
  imports ProcFile
begin

text \<open>
  Process management (\<^verbatim>\<open>kernel/process.c\<close>): the pool, creation, fork and wait.  Trapframes and the page of mapped
  regions are words of physical memory at the addresses the process structure holds.
  A routine that ends in \<^verbatim>\<open>schedule\<close> or \<^verbatim>\<open>switch_to\<close> does not return; its result is \<open>None\<close> and the state
  is the one in which the hart enters user mode.
\<close>

section \<open>Segments and memory blocks\<close>

definition STACK_SEGMENT :: u32 where "STACK_SEGMENT = 0"
definition CONTEXT_SEGMENT :: u32 where "CONTEXT_SEGMENT = 1"
definition SYSTEM_SEGMENT :: u32 where "SYSTEM_SEGMENT = 2"
definition HEAP_SEGMENT :: u32 where "HEAP_SEGMENT = 3"
definition CODE_SEGMENT :: u32 where "CODE_SEGMENT = 4"
definition DATA_SEGMENT :: u32 where "DATA_SEGMENT = 5"

lemmas segment_defs = STACK_SEGMENT_def CONTEXT_SEGMENT_def SYSTEM_SEGMENT_def HEAP_SEGMENT_def CODE_SEGMENT_def
  DATA_SEGMENT_def

record mapped_region =
  mr_va :: u64
  mr_npages :: u32
  mr_seg_type :: u32

definition region_addr :: "u64 \<Rightarrow> nat \<Rightarrow> u64" where
  "region_addr info i = info + 16 * of_nat i"

definition get_region :: "u64 \<Rightarrow> nat \<Rightarrow> 'z pmm_scheme \<Rightarrow> kerr + mapped_region" where
  "get_region info i s =
     kbind (load (region_addr info i) s) (\<lambda>va.
     kbind (load (region_addr info i + 8) s) (\<lambda>w.
       Inr \<lparr>mr_va = va, mr_npages = ucast w, mr_seg_type = ucast (drop_bit 32 w)\<rparr>))"

definition set_region :: "u64 \<Rightarrow> nat \<Rightarrow> mapped_region \<Rightarrow> 'z pmm_scheme \<Rightarrow> kerr + 'z pmm_scheme" where
  "set_region info i r s =
     kbind (store (region_addr info i) (mr_va r) s) (\<lambda>s.
       store (region_addr info i + 8) (ucast (mr_npages r) OR push_bit 32 (ucast (mr_seg_type r))) s)"

definition set_npages :: "u64 \<Rightarrow> nat \<Rightarrow> u32 \<Rightarrow> 'z pmm_scheme \<Rightarrow> kerr + 'z pmm_scheme" where
  "set_npages info i n s = kbind (get_region info i s) (\<lambda>r. set_region info i (r\<lparr>mr_npages := n\<rparr>) s)"

definition zero_words :: "u64 \<Rightarrow> nat \<Rightarrow> 'z pmm_scheme \<Rightarrow> kerr + 'z pmm_scheme" where
  \<comment> \<open>\<^verbatim>\<open>memset(p, 0, 8 * n)\<close> inside a page\<close>
  "zero_words p n s =
     (if mem_ok p then Inr (s\<lparr>mem := (\<lambda>a. if p \<le> a \<and> unat (a - p) < 8 * n then 0 else mem s a)\<rparr>)
      else Inl (Fault ''memset''))"

definition copy_block :: "u64 \<Rightarrow> u64 \<Rightarrow> nat \<Rightarrow> 'z pmm_scheme \<Rightarrow> kerr + 'z pmm_scheme" where
  \<comment> \<open>\<^verbatim>\<open>memcpy(dst, src, 8 * n)\<close> between two pages\<close>
  "copy_block dst src n s =
     (if mem_ok dst \<and> mem_ok src
      then Inr (s\<lparr>mem := (\<lambda>a. if dst \<le> a \<and> unat (a - dst) < 8 * n then mem s (src + (a - dst)) else mem s a)\<rparr>)
      else Inl (Fault ''memcpy''))"

section \<open>The pool\<close>

definition init_proc_pool :: "('h, 'z) kernel_scheme \<Rightarrow> ('h, 'z) kernel_scheme" where
  "init_proc_pool s = s\<lparr>pcb := (\<lambda>p. case p of
     Proc i \<Rightarrow> if i < NPROC then
        \<lparr>kstack = 0, pagetable = 0, trapframe = 0, mapped_info = 0, total_mapped_region = 0,
         user_heap = \<lparr>heap_top = 0, heap_bottom = 0, free_pages_address = (\<lambda>_. 0), free_pages_count = 0\<rparr>,
         pid = of_nat i, status = FREE, parent = Null, queue_next = Null, tick_count = 0, sem = 0,
         pfiles = 0, debugline = 0, p_dir = 0, p_file = 0, p_line = 0, line_ind = 0\<rparr>
        else pcb s p
     | _ \<Rightarrow> pcb s p)\<rparr>"

definition map_segments :: "u64 \<Rightarrow> u64 \<Rightarrow> u64 \<Rightarrow> u64 \<Rightarrow> u64 \<Rightarrow> 'z pmm_scheme \<Rightarrow> kerr + 'z pmm_scheme" where
  \<comment> \<open>the part of \<^verbatim>\<open>alloc_process\<close> that maps and records the stack, the trapframe and the trap vector\<close>
  "map_segments pt tf user_stack info trap_start s =
     kbind (user_vm_map pt (USER_STACK_TOP - PGSIZE) PGSIZE user_stack
              (prot_to_type (PROT_WRITE OR PROT_READ) True) s) (\<lambda>s.
     kbind (set_region info 0 \<lparr>mr_va = USER_STACK_TOP - PGSIZE, mr_npages = 1, mr_seg_type = STACK_SEGMENT\<rparr> s) (\<lambda>s.
     kbind (user_vm_map pt tf PGSIZE tf (prot_to_type (PROT_WRITE OR PROT_READ) False) s) (\<lambda>s.
     kbind (set_region info 1 \<lparr>mr_va = tf, mr_npages = 1, mr_seg_type = CONTEXT_SEGMENT\<rparr> s) (\<lambda>s.
     kbind (user_vm_map pt trap_start PGSIZE trap_start (prot_to_type (PROT_READ OR PROT_EXEC) False) s) (\<lambda>s.
     set_region info 2 \<lparr>mr_va = trap_start, mr_npages = 1, mr_seg_type = SYSTEM_SEGMENT\<rparr> s)))))"

definition alloc_process :: "('h, 'z) kernel_scheme \<Rightarrow> kerr + (nat \<times> ('h, 'z) kernel_scheme)" where
  \<comment> \<open>the index of the entry of \<^verbatim>\<open>procs\<close>\<close>
  "alloc_process s =
     (if count_3 s \<le> 0 then Inl Spin else
      let s = s\<lparr>count_3 := count_3 s - 1\<rparr> in
      case find (\<lambda>i. status (pcb s (Proc i)) = FREE) [0..<NPROC] of
        None \<Rightarrow> Inl (Panic ''cannot find any free process structure.'')
      | Some i \<Rightarrow>
          kbind (alloc_page s) (\<lambda>(tf, s).
          kbind (zero_words tf 35 s) (\<lambda>s.
          kbind (alloc_page s) (\<lambda>(pt, s).
          kbind (memset_page pt s) (\<lambda>s.
          kbind (alloc_page s) (\<lambda>(ks, s).
          kbind (alloc_page s) (\<lambda>(user_stack, s).
          kbind (store (tf + TF_sp) USER_STACK_TOP s) (\<lambda>s.
          kbind (alloc_page s) (\<lambda>(info, s).
          kbind (memset_page info s) (\<lambda>s.
          kbind (map_segments pt tf user_stack info (trap_sec_start s) s) (\<lambda>s.
          kbind (set_region info 3 \<lparr>mr_va = USER_FREE_ADDRESS_START, mr_npages = 0, mr_seg_type = HEAP_SEGMENT\<rparr> s) (\<lambda>s.
          kbind (init_proc_file_management s) (\<lambda>(pf, s).
          let s = upd_proc (Proc i) (\<lambda>p. p\<lparr>trapframe := tf, pagetable := pt, kstack := ks + PGSIZE, mapped_info := info,
                    user_heap := (user_heap p)\<lparr>heap_top := USER_FREE_ADDRESS_START,
                      heap_bottom := USER_FREE_ADDRESS_START, free_pages_count := 0\<rparr>,
                    total_mapped_region := 4, pfiles := pf, status := USED\<rparr>) s
          in Inr (i, s\<lparr>count_3 := count_3 s + 1\<rparr>))))))))))))))"

definition zombify :: "u64 \<Rightarrow> ('h, 'z) kernel_scheme \<Rightarrow> ('h, 'z) kernel_scheme" where
  \<comment> \<open>the loop of \<^verbatim>\<open>free_process\<close> and \<^verbatim>\<open>free_p\<close>\<close>
  "zombify n s = foldl (\<lambda>s i. if pid (pcb s (Proc i)) = n then upd_proc (Proc i) (\<lambda>p. p\<lparr>status := ZOMBIE\<rparr>) s else s) s [0..<NPROC]"

definition free_process :: "pref \<Rightarrow> ('h, 'z) kernel_scheme \<Rightarrow> int \<times> ('h, 'z) kernel_scheme" where
  "free_process proc s = (0, upd_proc proc (\<lambda>p. p\<lparr>status := ZOMBIE\<rparr>) (zombify (pid (pcb s proc)) s))"

definition free_p :: "pref \<Rightarrow> ('h, 'z) kernel_scheme \<Rightarrow> int \<times> ('h, 'z) kernel_scheme" where
  "free_p proc s = (0, zombify (pid (pcb s proc)) s)"

section \<open>Fork\<close>

definition fork_filter :: "(nat \<Rightarrow> int) \<Rightarrow> process_heap_manager \<Rightarrow> kerr + (nat \<Rightarrow> int)" where
  \<comment> \<open>\<^verbatim>\<open>free_block_filter\<close>: \<^verbatim>\<open>memset\<close> clears \<^verbatim>\<open>MAX_HEAP_PAGES\<close> bytes, the first 8 of the 32 entries; \<open>junk\<close> is
     what the array holds before\<close>
  "fork_filter junk h =
     (let ixs = map (\<lambda>i. unat ((free_pages_address h i - heap_bottom h) div PGSIZE)) [0..<unat (free_pages_count h)] in
      if list_all (\<lambda>i. i < MAX_HEAP_PAGES) ixs
      then Inr (\<lambda>i. if i \<in> set ixs then 1 else if i < MAX_HEAP_PAGES div 4 then 0 else junk i)
      else Inl (Fault ''free_block_filter''))"

fun fork_heap ::
  "nat \<Rightarrow> u64 \<Rightarrow> u64 \<Rightarrow> u64 \<Rightarrow> u64 \<Rightarrow> (nat \<Rightarrow> int) \<Rightarrow> 'z pmm_scheme \<Rightarrow> kerr + 'z pmm_scheme" where
  \<comment> \<open>the loop over the next \<open>n\<close> heap blocks from \<^verbatim>\<open>heap_block\<close> on\<close>
  "fork_heap 0 cpt ppt hb bottom flt s = Inr s"
| "fork_heap (Suc n) cpt ppt hb bottom flt s =
     (let i = unat ((hb - bottom) div PGSIZE) in
      if i \<ge> MAX_HEAP_PAGES then Inl (Fault ''free_block_filter'')
      else if flt i \<noteq> 0 then fork_heap n cpt ppt (hb + PGSIZE) bottom flt s
      else
        kbind (page_walk cpt hb True s) (\<lambda>(pte, s).
        kbind (store pte 0x100 s) (\<lambda>s.
        kbind (lookup_pa ppt hb s) (\<lambda>child_pa.
        kbind (user_vm_map cpt hb PGSIZE child_pa (prot_to_type (PROT_READ OR PROT_COW) True) s) (\<lambda>s.
          fork_heap n cpt ppt (hb + PGSIZE) bottom flt s)))))"

definition heap_blocks :: "process_heap_manager \<Rightarrow> nat" where
  \<comment> \<open>how often the loop runs\<close>
  "heap_blocks h = (unat (heap_top h) - unat (heap_bottom h) + 4095) div 4096"

fun fork_data :: "nat \<Rightarrow> u64 \<Rightarrow> u64 \<Rightarrow> u64 \<Rightarrow> 'z pmm_scheme \<Rightarrow> kerr + 'z pmm_scheme" where
  \<comment> \<open>copy and map the next \<open>n\<close> pages of a data segment\<close>
  "fork_data 0 cpt ppt va s = Inr s"
| "fork_data (Suc n) cpt ppt va s =
     kbind (lookup_pa ppt va s) (\<lambda>addr.
     kbind (alloc_page s) (\<lambda>(newaddr, s).
     kbind (copy_block newaddr addr 512 s) (\<lambda>s.
     kbind (map_pages cpt va PGSIZE newaddr (prot_to_type (PROT_WRITE OR PROT_READ) True) s) (\<lambda>(_, s).
       fork_data n cpt ppt (va + PGSIZE) s))))"

definition add_region :: "nat \<Rightarrow> mapped_region \<Rightarrow> ('h, 'z) kernel_scheme \<Rightarrow> kerr + ('h, 'z) kernel_scheme" where
  \<comment> \<open>\<^verbatim>\<open>child->mapped_info[child->total_mapped_region] = r; child->total_mapped_region++\<close>\<close>
  "add_region c r s =
     kbind (set_region (mapped_info (pcb s (Proc c))) (nat (total_mapped_region (pcb s (Proc c)))) r s) (\<lambda>s.
       Inr (upd_proc (Proc c) (\<lambda>p. p\<lparr>total_mapped_region := total_mapped_region p + 1\<rparr>) s))"

definition fork_segment ::
  "nat \<Rightarrow> (nat \<Rightarrow> int) \<Rightarrow> pref \<Rightarrow> nat \<Rightarrow> nat \<Rightarrow> ('h, 'z) kernel_scheme \<Rightarrow> kerr + ('h, 'z) kernel_scheme" where
  \<comment> \<open>one turn of the loop of \<^verbatim>\<open>do_fork\<close>; \<open>c\<close> is the child, \<open>i\<close> the region of the parent\<close>
  "fork_segment cpu junk par c i s =
     kbind (get_region (mapped_info (pcb s par)) i s) (\<lambda>r.
     let cpt = pagetable (pcb s (Proc c)); ppt = pagetable (pcb s par) in
     if mr_seg_type r = CONTEXT_SEGMENT then
       copy_block (trapframe (pcb s (Proc c))) (trapframe (pcb s par)) 35 s
     else if mr_seg_type r = STACK_SEGMENT then
       kbind (get_region (mapped_info (pcb s (Proc c))) 0 s) (\<lambda>cr.
       kbind (lookup_pa cpt (mr_va cr) s) (\<lambda>dst.
       kbind (lookup_pa ppt (mr_va r) s) (\<lambda>src. copy_block dst src 512 s)))
     else if mr_seg_type r = HEAP_SEGMENT then
       kbind (fork_filter junk (user_heap (pcb s par))) (\<lambda>flt.
       kbind (fork_heap (heap_blocks (user_heap (cur cpu s))) cpt ppt (heap_bottom (user_heap (cur cpu s)))
                (heap_bottom (user_heap (pcb s par))) flt s) (\<lambda>s.
       kbind (get_region (mapped_info (pcb s par)) 3 s) (\<lambda>hr.
       kbind (set_npages (mapped_info (pcb s (Proc c))) 3 (mr_npages hr) s) (\<lambda>s.
         Inr (upd_proc (Proc c) (\<lambda>p. p\<lparr>user_heap := user_heap (pcb s par)\<rparr>) s)))))
     else if mr_seg_type r = CODE_SEGMENT then
       kbind (lookup_pa ppt (mr_va r) s) (\<lambda>pa.
       kbind (map_pages cpt (mr_va r) (ucast (mr_npages r * 4096)) pa
                (prot_to_type (PROT_EXEC OR PROT_READ) True) s) (\<lambda>(_, s).
         add_region c (r\<lparr>mr_seg_type := CODE_SEGMENT\<rparr>) s))
     else if mr_seg_type r = DATA_SEGMENT then
       kbind (fork_data (unat (mr_npages r)) cpt ppt (mr_va r) s) (\<lambda>s.
         add_region c (r\<lparr>mr_seg_type := DATA_SEGMENT\<rparr>) s)
     else Inr s)"

fun fork_segments ::
  "nat \<Rightarrow> nat \<Rightarrow> nat \<Rightarrow> (nat \<Rightarrow> int) \<Rightarrow> pref \<Rightarrow> nat \<Rightarrow> ('h, 'z) kernel_scheme \<Rightarrow> kerr + ('h, 'z) kernel_scheme" where
  \<comment> \<open>the turns from region \<open>i\<close> on\<close>
  "fork_segments 0 i cpu junk par c s = Inr s"
| "fork_segments (Suc n) i cpu junk par c s =
     kbind (fork_segment cpu junk par c i s) (\<lambda>s. fork_segments n (Suc i) cpu junk par c s)"

definition do_fork ::
  "nat \<Rightarrow> (nat \<Rightarrow> int) \<Rightarrow> pref \<Rightarrow> ('h, 'z) kernel_scheme \<Rightarrow> kerr + (int \<times> ('h, 'z) kernel_scheme)" where
  "do_fork cpu junk par s =
     kbind (alloc_process s) (\<lambda>(c, s).
     kbind (fork_segments (nat (total_mapped_region (pcb s par))) 0 cpu junk par c s) (\<lambda>s.
     let s = upd_proc (Proc c) (\<lambda>p. p\<lparr>status := READY\<rparr>) s in
     kbind (store (trapframe (pcb s (Proc c)) + TF_a0) 0 s) (\<lambda>s.
     let s = upd_proc (Proc c) (\<lambda>p. p\<lparr>parent := par\<rparr>) s in
     kbind (insert_to_ready_queue (Proc c) s) (\<lambda>s.
       Inr (uint (pid (pcb s (Proc c))), s)))))"

section \<open>Wait\<close>

definition block_current :: "nat \<Rightarrow> ('h, 'z) kernel_scheme \<Rightarrow> kerr + (int option \<times> ('h, 'z) kernel_scheme)" where
  \<comment> \<open>\<^verbatim>\<open>insert_to_wait_queue(current[tp]); schedule(0)\<close>\<close>
  "block_current cpu s =
     kbind (insert_to_wait_queue (current s cpu) s) (\<lambda>s.
     kbind (schedule 0 cpu s) (\<lambda>s. Inr (None, s)))"

definition process_wait ::
  "nat \<Rightarrow> int \<Rightarrow> ('h, 'z) kernel_scheme \<Rightarrow> kerr + (int option \<times> ('h, 'z) kernel_scheme)" where
  \<comment> \<open>\<^verbatim>\<open>procs[i].status==FREE;\<close> is a comparison without effect\<close>
  "process_wait cpu n s =
     (if n = - 1 then
        (case find (\<lambda>i. parent (pcb s (Proc i)) \<noteq> Null \<and> parent (pcb s (Proc i)) = current s cpu) [0..<NPROC] of
           None \<Rightarrow> Inr (Some (- 1), s)
         | Some i \<Rightarrow>
             if status (pcb s (Proc i)) = ZOMBIE then Inr (Some (uint (pid (pcb s (Proc i)))), s)
             else block_current cpu s)
      else if n > 0 then
        (case find (\<lambda>i. parent (pcb s (Proc i)) \<noteq> Null \<and>
                       pid (pcb s (parent (pcb s (Proc i)))) = pid (cur cpu s) \<and>
                       pid (pcb s (Proc i)) = word_of_int n) [0..<NPROC] of
           None \<Rightarrow> Inr (Some (- 1), s)
         | Some i \<Rightarrow>
             if status (pcb s (Proc i)) = ZOMBIE then Inr (Some n, s) else block_current cpu s)
      else Inr (Some (- 1), s))"

end
