(* ===== verification/PageTable.thy ===== *)
theory PageTable
  imports Vmm
begin

text \<open>
  Correctness of the page-table code of \<open>Vmm\<close>.  \<open>tab m pd p\<close> is the table reached from the
  directory \<open>pd\<close> along the index path \<open>p\<close>; \<open>pte_of\<close> is the abstract address space; \<open>pt_ok\<close> is
  the invariant.  The lemmas show what a walk, the installation of a table and a leaf store do
  to the abstract address space; the properties lift this to \<^verbatim>\<open>map_pages\<close>, \<^verbatim>\<open>lookup_pa\<close>,
  \<^verbatim>\<open>user_vm_map\<close>, \<^verbatim>\<open>user_va_to_pa\<close> and \<^verbatim>\<open>user_vm_unmap\<close>.
\<close>

section \<open>Word arithmetic of Sv39\<close>

abbreviation entry :: "u64 \<Rightarrow> u64 \<Rightarrow> u64" where
  "entry t i \<equiv> t + 8 * i"

lemma unat_PX: "unat (PX l va) = unat va div 2 ^ (12 + 9 * l) mod 512"
proof -
  have "PX l va = take_bit 9 (drop_bit (12 + 9 * l) va)"
    by (simp add: PX_def PXSHIFT_def take_bit_eq_mask mask_eq_exp_minus_1)
  then have "unat (PX l va) = take_bit 9 (drop_bit (12 + 9 * l) (unat va))"
    using take_bit_nat_eq_self [OF unsigned_less [of va, where 'a = nat]]
    by (simp only: unsigned_take_bit_eq unsigned_drop_bit_eq)
  then show ?thesis by (simp add: take_bit_eq_mod drop_bit_eq_div)
qed

lemma PX_less [simp]: "PX l va < 512"
  by (simp add: word_less_nat_alt unat_PX)

lemma same_page_PX:
  assumes "va < MAXVA" and "va' < MAXVA"
  shows "PX 2 va = PX 2 va' \<and> PX 1 va = PX 1 va' \<and> PX 0 va = PX 0 va' \<longleftrightarrow>
    va div PGSIZE = va' div PGSIZE"
proof -
  have split: "v div 4096 = v div 1073741824 mod 512 * 262144 + v div 2097152 mod 512 * 512 +
      v div 4096 mod 512" if "v < 2 ^ 38" for v :: nat
  proof -
    define a where "a = v div 4096"
    have d: "v div 2097152 = a div 512" "v div 1073741824 = a div 512 div 512"
      by (simp_all add: a_def div_mult2_eq [symmetric])
    have "a div 512 div 512 < 512"
      using that by (simp add: a_def div_mult2_eq [symmetric] less_mult_imp_div_less)
    moreover have "(a div 512 div 512 * 512 + a div 512 mod 512) * 512 + a mod 512 = a"
      by (simp only: div_mult_mod_eq)
    moreover have "(c * 512 + q) * 512 + r = a \<Longrightarrow> c < 512 \<Longrightarrow> a = c mod 512 * 262144 + q * 512 + r"
      for c q r :: nat by simp
    ultimately show ?thesis unfolding d a_def [symmetric] by blast
  qed
  let ?v = "unat va" and ?w = "unat va'"
  have "?v < 2 ^ 38" "?w < 2 ^ 38" using assms by (simp_all add: word_less_nat_alt)
  note vw = split [OF this(1)] split [OF this(2)]
  have coarse: "v div 2097152 = v div 4096 div 512" "v div 1073741824 = v div 4096 div 262144"
    for v :: nat by (simp_all add: div_mult2_eq [symmetric])
  have "(?v div 1073741824 mod 512 = ?w div 1073741824 mod 512 \<and>
      ?v div 2097152 mod 512 = ?w div 2097152 mod 512 \<and>
      ?v div 4096 mod 512 = ?w div 4096 mod 512) \<longleftrightarrow> ?v div 4096 = ?w div 4096" (is "?L \<longleftrightarrow> ?R")
  proof
    assume ?L
    then show ?R by (subst vw(1), subst vw(2)) (simp only:)
  next
    assume ?R
    then show ?L by (simp only: coarse)
  qed
  then show ?thesis
    by (simp add: word_unat_eq_iff unat_PX unat_div_distrib)
qed

lemma bit_beyond: "bits < 1024 \<Longrightarrow> 10 \<le> n \<Longrightarrow> \<not> bit (bits :: u64) n"
proof
  assume lt: "bits < 1024" and n: "10 \<le> n" and b: "bit bits n"
  have "bits = take_bit 10 bits"
    using lt by (simp add: word_unat_eq_iff unsigned_take_bit_eq take_bit_eq_mod word_less_nat_alt unat_mod_distrib)
  with b have "bit (take_bit 10 bits) n" by simp
  with n show False by (simp add: bit_take_bit_iff)
qed

lemma bit_aligned: "page_aligned pa \<Longrightarrow> n < 12 \<Longrightarrow> \<not> bit pa n"
proof
  assume al: "page_aligned pa" and n: "n < 12" and b: "bit pa n"
  have "take_bit 12 pa = 0"
    using al by (simp add: word_unat_eq_iff unsigned_take_bit_eq take_bit_eq_mod page_aligned_unat unat_mod_distrib)
  then have "\<not> bit (take_bit 12 pa) n" by simp
  with n b show False by (simp add: bit_take_bit_iff)
qed

lemma PTE2PA_PA2PTE [simp]:
  assumes "page_aligned pa" and "bits < 1024"
  shows "PTE2PA (PA2PTE pa OR bits) = pa"
proof (rule bit_word_eqI)
  fix n assume "n < LENGTH(64)"
  then show "bit (PTE2PA (PA2PTE pa OR bits)) n = bit pa n"
    using bit_aligned [OF assms(1), of n] bit_beyond [OF assms(2), of "n - 2"]
    by (cases "n < 12")
      (auto simp: PTE2PA_def PA2PTE_def bit_push_bit_iff bit_drop_bit_eq bit_or_iff)
qed

lemma and_PTE_V: "v AND PTE_V \<noteq> 0 \<longleftrightarrow> bit v 0"
  by (simp add: PTE_V_def and_one_eq bit_0 odd_iff_mod_2_eq_one)

lemma bit_PA2PTE [simp]: "n < 10 \<Longrightarrow> \<not> bit (PA2PTE pa) n"
  by (simp add: PA2PTE_def bit_push_bit_iff)

lemma unat_entry: "ram_page t \<Longrightarrow> i < 512 \<Longrightarrow> unat (entry t i) = unat t + 8 * unat i"
  by (subst unat_plus_small) (auto simp: ram_page_unat word_less_nat_alt unat_mult_small)

lemma entry_inj:
  assumes "ram_page t" "ram_page t'" "i < 512" "i' < 512"
  shows "entry t i = entry t' i' \<longleftrightarrow> t = t' \<and> i = i'"
proof
  assume eq: "entry t i = entry t' i'"
  have un: "unat t + 8 * unat i = unat t' + 8 * unat i'"
    using arg_cong [OF eq, of unat] assms by (simp add: unat_entry)
  obtain k k' where k: "unat t = 4096 * k" "unat t' = 4096 * k'"
    using assms(1,2) by (auto simp: ram_page_unat mod_eq_0_iff_dvd dvd_def)
  have "unat i < 512" "unat i' < 512" using assms(3,4) by (simp_all add: word_less_nat_alt)
  with un k have "k = k'" by linarith
  with un k show "t = t' \<and> i = i'" by (simp add: word_unat_eq_iff)
qed simp

lemma mem_ok_entry [simp]: "ram_page t \<Longrightarrow> i < 512 \<Longrightarrow> mem_ok (entry t i)"
proof -
  assume t: "ram_page t" and i: "i < 512"
  then have u: "unat (entry t i) = unat t + 8 * unat i" by (rule unat_entry)
  obtain k where k: "unat t = 4096 * k" using t by (auto simp: ram_page_unat)
  have "unat (entry t i) mod 8 = 0" by (simp add: u k mod_eq_0_iff_dvd)
  moreover have "unat t \<le> 2281697280"
    using t k by (auto simp: ram_page_unat)
  ultimately show ?thesis
    using t i u
    by (simp add: mem_ok_def word_unat_eq_iff unat_mod_distrib word_le_nat_alt word_less_nat_alt
        ram_page_unat)
qed

lemma in_page_unat:
  "ram_page p \<Longrightarrow> in_page a p \<longleftrightarrow> unat p \<le> unat a \<and> unat a < unat p + 4096"
  unfolding in_page_def by (auto simp: word_le_nat_alt word_less_nat_alt unat_sub)

lemma in_page_entry [simp]:
  assumes "ram_page t" "ram_page p" "i < 512"
  shows "in_page (entry t i) p \<longleftrightarrow> t = p"
proof -
  obtain k k' where k: "unat t = 4096 * k" "unat p = 4096 * k'"
    using assms(1,2) by (auto simp: ram_page_unat mod_eq_0_iff_dvd dvd_def)
  have i: "unat i < 512" using assms(3) by (simp add: word_less_nat_alt)
  have "in_page (entry t i) p \<longleftrightarrow> k = k'"
    using i unfolding in_page_unat [OF assms(2)] unat_entry [OF assms(1,3)] k by linarith
  also have "\<dots> \<longleftrightarrow> t = p" by (simp add: word_unat_eq_iff k)
  finally show ?thesis .
qed

lemma in_page_self [simp]: "ram_page p \<Longrightarrow> ram_page q \<Longrightarrow> in_page q p \<longleftrightarrow> q = p"
  using in_page_entry [of q p 0] by simp

section \<open>The tree of tables and the abstract address space\<close>

definition next_table :: "(u64 \<Rightarrow> u64) \<Rightarrow> u64 \<Rightarrow> u64 \<Rightarrow> u64 option" where
  "next_table m t i =
     (if m (entry t i) AND PTE_V \<noteq> 0 then Some (PTE2PA (m (entry t i))) else None)"

fun tab :: "(u64 \<Rightarrow> u64) \<Rightarrow> u64 \<Rightarrow> u64 list \<Rightarrow> u64 option" where
  "tab m t [] = Some t"
| "tab m t (i # p) = (case next_table m t i of None \<Rightarrow> None | Some t' \<Rightarrow> tab m t' p)"

definition path :: "u64 list \<Rightarrow> bool" where
  "path p \<longleftrightarrow> length p \<le> 2 \<and> (\<forall>i \<in> set p. i < 512)"

definition tables :: "(u64 \<Rightarrow> u64) \<Rightarrow> u64 \<Rightarrow> u64 set" where
  "tables m pd = {t. \<exists>p. path p \<and> tab m pd p = Some t}"

definition pte_of :: "(u64 \<Rightarrow> u64) \<Rightarrow> u64 \<Rightarrow> u64 \<Rightarrow> u64" where
  "pte_of m pd va =
     (case tab m pd [PX 2 va, PX 1 va] of None \<Rightarrow> 0 | Some t \<Rightarrow> m (entry t (PX 0 va)))"

definition pt_ok :: "(u64 \<Rightarrow> u64) \<Rightarrow> u64 \<Rightarrow> u64 list \<Rightarrow> bool" where
  "pt_ok m pd xs \<longleftrightarrow>
     (\<forall>p q t. path p \<and> path q \<and> tab m pd p = Some t \<and> tab m pd q = Some t \<longrightarrow> p = q) \<and>
     (\<forall>t \<in> tables m pd. ram_page t \<and> t \<notin> set xs)"

lemma tab_append: "tab m t (p @ q) = (case tab m t p of None \<Rightarrow> None | Some u \<Rightarrow> tab m u q)"
  by (induction p arbitrary: t) (auto split: option.splits)

lemma tab_frame:
  assumes "\<And>r i r' t. q = r @ i # r' \<Longrightarrow> tab m pd r = Some t \<Longrightarrow> m' (entry t i) = m (entry t i)"
  shows "tab m' pd q = tab m pd q"
  using assms
proof (induction q arbitrary: pd)
  case (Cons i q)
  have "m' (entry pd i) = m (entry pd i)" using Cons.prems [of "[]" i q pd] by simp
  then have n: "next_table m' pd i = next_table m pd i" by (simp add: next_table_def)
  show ?case
  proof (cases "next_table m pd i")
    case (Some t)
    have "tab m' t q = tab m t q"
    proof (rule Cons.IH)
      fix r j r' u assume "q = r @ j # r'" and "tab m t r = Some u"
      then show "m' (entry u j) = m (entry u j)"
        using Cons.prems [of "i # r" j r' u] Some by simp
    qed
    with n Some show ?thesis by simp
  qed (simp add: n)
qed simp

lemma path_prefix: "path (r @ r') \<Longrightarrow> path r"
  by (auto simp: path_def)

lemma pt_okD:
  assumes "pt_ok m pd xs" "path p" "tab m pd p = Some t"
  shows "ram_page t" "t \<notin> set xs" "path q \<Longrightarrow> tab m pd q = Some t \<Longrightarrow> q = p"
  using assms unfolding pt_ok_def tables_def by blast+

lemma pt_ok_subset: "pt_ok m pd xs \<Longrightarrow> set ys \<subseteq> set xs \<Longrightarrow> pt_ok m pd ys"
  unfolding pt_ok_def by blast

text \<open>Installing a fresh, zeroed table \<open>x\<close> at index \<open>i\<close> of the table reached by \<open>p\<close>.\<close>

definition install :: "(u64 \<Rightarrow> u64) \<Rightarrow> u64 \<Rightarrow> u64 \<Rightarrow> u64 \<Rightarrow> u64 \<Rightarrow> u64" where
  "install m t i x = (zero_page m x)(entry t i := PA2PTE x OR PTE_V)"

lemma install_tab:
  assumes ok: "pt_ok m pd (x # ys)" and x: "ram_page x"
    and p: "path (p @ [i])" and t: "tab m pd p = Some t" and none: "next_table m t i = None"
    and q: "path q"
  shows "tab (install m t i x) pd q = (if q = p @ [i] then Some x else tab m pd q)"
proof -
  let ?m = "install m t i x"
  have pp: "path p" and i: "i < 512" using p by (auto simp: path_def)
  have rt: "ram_page t" and tx: "t \<noteq> x" using pt_okD [OF ok pp t] by auto
  have frame: "tab ?m pd q = tab m pd q" if "path q" "\<nexists>q'. q = p @ i # q'" for q
  proof (rule tab_frame)
    fix r k r' u assume qr: "q = r @ k # r'" and u: "tab m pd r = Some u"
    have pr: "path r" "k < 512" using that(1) qr by (auto simp: path_def)
    have ru: "ram_page u" "u \<noteq> x" using pt_okD [OF ok pr(1) u] by auto
    have "entry u k \<noteq> entry t i"
    proof
      assume "entry u k = entry t i"
      then have "u = t" "k = i" using entry_inj [OF ru(1) rt pr(2) i] by auto
      with u pt_okD(3) [OF ok pp t pr(1)] qr that(2) show False by auto
    qed
    then show "?m (entry u k) = m (entry u k)" using ru x pr(2) by (simp add: install_def zero_page_def)
  qed
  have nx: "next_table ?m t i = Some x"
    using x by (simp add: next_table_def install_def zero_page_def and_PTE_V bit_or_iff ram_page_def)
      (simp add: PTE_V_def)
  show ?thesis
  proof (cases "\<exists>q'. q = p @ i # q'")
    case True
    then obtain q' where q': "q = p @ i # q'" by blast
    have "tab ?m pd p = Some t" using frame [OF pp] t by simp
    then have a: "tab ?m pd q = tab ?m x q'" by (simp add: q' tab_append nx)
    have b: "tab m pd q = None" by (simp add: q' tab_append t none)
    show ?thesis
    proof (cases q')
      case (Cons j r)
      then have "j < 512" using q by (auto simp: path_def q')
      then have "entry x j \<noteq> entry t i" using entry_inj [OF x rt _ i, of j] tx by auto
      then have "next_table ?m x j = None"
        using x \<open>j < 512\<close> by (simp add: next_table_def install_def zero_page_def)
      then show ?thesis using a b by (simp add: Cons q')
    qed (use a in \<open>simp add: q'\<close>)
  next
    case False
    then show ?thesis using frame [OF q] by auto
  qed
qed

lemma install_tables:
  assumes "pt_ok m pd (x # ys)" and "ram_page x" and "path (p @ [i])"
    and "tab m pd p = Some t" and "next_table m t i = None"
  shows "tables (install m t i x) pd = insert x (tables m pd)"
proof -
  have "tab m pd (p @ [i]) = None" using assms(4,5) by (simp add: tab_append)
  with install_tab [OF assms] assms(3) show ?thesis
    unfolding tables_def by (auto split: if_splits) (metis option.distinct(1))
qed

lemma install_pt_ok:
  assumes ok: "pt_ok m pd (x # ys)" and x: "ram_page x" "x \<notin> set ys" and p: "path (p @ [i])"
    and t: "tab m pd p = Some t" and none: "next_table m t i = None"
  shows "pt_ok (install m t i x) pd ys"
proof -
  note T = install_tab [OF ok x(1) p t none]
  have xnew: "tab m pd q \<noteq> Some x" if "path q" for q
    using pt_okD(2) [OF ok that, of x] by auto
  have "q = r" if "path q" "path r" "tab (install m t i x) pd q = Some u"
    "tab (install m t i x) pd r = Some u" for q r u
    using that T xnew pt_okD(3) [OF ok, of r u q] by (auto split: if_splits)
  then show ?thesis
    using x ok install_tables [OF ok x(1) p t none] unfolding pt_ok_def by auto
qed

lemma install_pte_of:
  assumes ok: "pt_ok m pd (x # ys)" and x: "ram_page x" and p: "path (p @ [i])"
    and t: "tab m pd p = Some t" and none: "next_table m t i = None"
  shows "pte_of (install m t i x) pd va = pte_of m pd va"
proof -
  let ?q = "[PX 2 va, PX 1 va]"
  have q: "path ?q" by (simp add: path_def)
  have i: "i < 512" "path p" "length p \<le> 1" using p by (auto simp: path_def)
  have rt: "ram_page t" "t \<noteq> x" using pt_okD [OF ok i(2) t] by auto
  note T = install_tab [OF ok x p t none q]
  show ?thesis
  proof (cases "?q = p @ [i]")
    case True
    have "entry x (PX 0 va) \<noteq> entry t i" using entry_inj [OF x rt(1) _ i(1)] rt(2) by auto
    moreover have "tab m pd (p @ [i]) = None" by (simp add: tab_append t none)
    ultimately show ?thesis
      using T x by (simp only: pte_of_def True if_True) (simp add: install_def zero_page_def)
  next
    case False
    show ?thesis
    proof (cases "tab m pd ?q")
      case (Some u)
      have u: "ram_page u" "u \<noteq> x" using pt_okD [OF ok q Some] by auto
      have "u \<noteq> t" using pt_okD(3) [OF ok q Some i(2)] t i(3) by auto
      then have "entry u (PX 0 va) \<noteq> entry t i" using entry_inj [OF u(1) rt(1) _ i(1)] by auto
      moreover have "tab (install m t i x) pd ?q = Some u" using T False Some by (simp only: if_False)
      ultimately show ?thesis
        using Some u x by (simp only: pte_of_def option.case) (simp add: install_def zero_page_def)
    next
      case None
      moreover have "tab (install m t i x) pd ?q = None" using T False None by (simp only: if_False)
      ultimately show ?thesis by (simp only: pte_of_def option.case)
    qed
  qed
qed

lemma leaf_tab:
  assumes ok: "pt_ok m pd xs" and p: "path [i, j]" and t: "tab m pd [i, j] = Some t"
    and k: "k < 512" and q: "path q"
  shows "tab (m(entry t k := v)) pd q = tab m pd q"
proof (rule tab_frame)
  fix r l r' u assume qr: "q = r @ l # r'" and u: "tab m pd r = Some u"
  have pr: "path r" "l < 512" "length r \<le> 1" using q qr by (auto simp: path_def)
  have "u \<noteq> t" using pt_okD(3) [OF ok pr(1) u p] t pr(3) by auto
  then show "(m(entry t k := v)) (entry u l) = m (entry u l)"
    using entry_inj [OF pt_okD(1) [OF ok pr(1) u] pt_okD(1) [OF ok p t] pr(2) k] by auto
qed

lemma leaf_pte_of:
  assumes ok: "pt_ok m pd xs" and t: "tab m pd [PX 2 va, PX 1 va] = Some t"
  shows "pte_of (m(entry t (PX 0 va) := v)) pd va' =
    (if PX 2 va = PX 2 va' \<and> PX 1 va = PX 1 va' \<and> PX 0 va = PX 0 va' then v else pte_of m pd va')"
proof -
  have p: "path [PX 2 va, PX 1 va]" "path [PX 2 va', PX 1 va']" by (simp_all add: path_def)
  note T = leaf_tab [OF ok p(1) t PX_less p(2)]
  show ?thesis
  proof (cases "tab m pd [PX 2 va', PX 1 va']")
    case (Some u)
    have "u = t \<longleftrightarrow> PX 2 va = PX 2 va' \<and> PX 1 va = PX 1 va'"
      using pt_okD(3) [OF ok p(1) t p(2)] Some t by (auto simp del: tab.simps)
    moreover have "entry u (PX 0 va') = entry t (PX 0 va) \<longleftrightarrow> u = t \<and> PX 0 va' = PX 0 va"
      by (rule entry_inj [OF pt_okD(1) [OF ok p(2) Some] pt_okD(1) [OF ok p(1) t] PX_less PX_less])
    ultimately show ?thesis using T Some by (auto simp: pte_of_def simp del: tab.simps)
  qed (use T t in \<open>auto simp: pte_of_def simp del: tab.simps\<close>)
qed

lemma leaf_pt_ok:
  assumes "pt_ok m pd xs" and "tab m pd [i, j] = Some t" and "path [i, j]" and "k < 512"
  shows "pt_ok (m(entry t k := v)) pd xs" and "tables (m(entry t k := v)) pd = tables m pd"
proof -
  note T = leaf_tab [OF assms(1,3,2,4)]
  show tb: "tables (m(entry t k := v)) pd = tables m pd"
    unfolding tables_def using T by auto
  show "pt_ok (m(entry t k := v)) pd xs"
    using assms(1) T unfolding pt_ok_def tb by metis
qed

section \<open>What a walk does\<close>

text \<open>\<open>vframe s s' pd xs ys\<close>: the state \<open>s'\<close> differs from \<open>s\<close> only in tables of \<open>pd\<close> and
  in pages taken from the front of the free list \<open>xs\<close>, of which \<open>ys\<close> is left; \<open>grown\<close>: tables may
  have been installed, but the address space is the same.\<close>

definition vframe :: "'z pmm_scheme \<Rightarrow> 'z pmm_scheme \<Rightarrow> u64 \<Rightarrow> u64 list \<Rightarrow> u64 list \<Rightarrow> bool" where
  "vframe s s' pd xs ys \<longleftrightarrow>
     pmm_rel s' ys \<and> pt_ok (mem s') pd ys \<and> (\<exists>zs. xs = zs @ ys) \<and>
     tables (mem s') pd \<subseteq> tables (mem s) pd \<union> set xs \<and>
     (\<forall>a. mem s' a \<noteq> mem s a \<longrightarrow> (\<exists>t \<in> tables (mem s) pd \<union> set xs. in_page a t)) \<and>
     (\<exists>m h. s' = s\<lparr>mem := m, g_free_mem_list := h\<rparr>)"

definition grown :: "'z pmm_scheme \<Rightarrow> 'z pmm_scheme \<Rightarrow> u64 \<Rightarrow> u64 list \<Rightarrow> u64 list \<Rightarrow> bool" where
  "grown s s' pd xs ys \<longleftrightarrow> vframe s s' pd xs ys \<and>
     (\<forall>va. pte_of (mem s') pd va = pte_of (mem s) pd va)"

lemma vframe_refl:
  assumes "pmm_rel s xs" and "pt_ok (mem s) pd xs"
  shows "vframe s s pd xs xs"
proof -
  have "s = s\<lparr>mem := mem s, g_free_mem_list := g_free_mem_list s\<rparr>" by simp
  with assms show ?thesis unfolding vframe_def by blast
qed

lemma vframe_trans:
  assumes g1: "vframe s s1 pd xs ys" and g2: "vframe s1 s2 pd ys zs"
  shows "vframe s s2 pd xs zs"
  unfolding vframe_def
proof (intro conjI allI impI)
  show "pmm_rel s2 zs" "pt_ok (mem s2) pd zs" using g2 by (simp_all add: vframe_def)
  obtain us vs where xs: "xs = us @ ys" "ys = vs @ zs" using g1 g2 by (auto simp: vframe_def)
  then show "\<exists>ws. xs = ws @ zs" by simp
  have t1: "tables (mem s1) pd \<subseteq> tables (mem s) pd \<union> set xs"
    and t2: "tables (mem s2) pd \<subseteq> tables (mem s1) pd \<union> set ys"
    using g1 g2 by (simp_all add: vframe_def)
  then show "tables (mem s2) pd \<subseteq> tables (mem s) pd \<union> set xs" using xs(1) by auto
  show "\<exists>t \<in> tables (mem s) pd \<union> set xs. in_page a t" if "mem s2 a \<noteq> mem s a" for a
  proof (cases "mem s1 a = mem s a")
    case True
    have "\<forall>a. mem s2 a \<noteq> mem s1 a \<longrightarrow> (\<exists>t \<in> tables (mem s1) pd \<union> set ys. in_page a t)"
      using g2 by (simp add: vframe_def)
    with that True obtain t where "t \<in> tables (mem s1) pd \<union> set ys" "in_page a t"
      by metis
    then show ?thesis using t1 xs(1) by auto
  next
    case False
    then show ?thesis using g1 by (simp add: vframe_def)
  qed
  obtain m1 h1 m2 h2 where "s1 = s\<lparr>mem := m1, g_free_mem_list := h1\<rparr>"
    "s2 = s1\<lparr>mem := m2, g_free_mem_list := h2\<rparr>" using g1 g2 by (auto simp: vframe_def)
  then have "s2 = s\<lparr>mem := m2, g_free_mem_list := h2\<rparr>" by simp
  then show "\<exists>m h. s2 = s\<lparr>mem := m, g_free_mem_list := h\<rparr>" by blast
qed

lemma vframe_other:
  assumes v: "vframe s s' pd xs ys" and rel: "pmm_rel s xs" and ok: "pt_ok (mem s) pd xs"
    and ok': "pt_ok (mem s) pd' xs" and disj: "tables (mem s) pd \<inter> tables (mem s) pd' = {}"
  shows "pte_of (mem s') pd' va = pte_of (mem s) pd' va"
    and "pt_ok (mem s') pd' ys" and "tables (mem s') pd \<inter> tables (mem s') pd' = {}"
proof -
  have same: "mem s' (entry u k) = mem s (entry u k)" if "u \<in> tables (mem s) pd'" "k < 512" for u k
  proof (rule ccontr)
    assume "mem s' (entry u k) \<noteq> mem s (entry u k)"
    then obtain t where t: "t \<in> tables (mem s) pd \<union> set xs" "in_page (entry u k) t"
      using v unfolding vframe_def by blast
    have "ram_page t" using t(1) ok rel by (auto simp: pt_ok_def pmm_rel_def managed_def)
    moreover have u: "ram_page u" "u \<notin> set xs" using that(1) ok' by (auto simp: pt_ok_def)
    ultimately have "u = t" using t(2) that(2) by simp
    with t(1) u(2) that(1) disj show False by auto
  qed
  have T: "tab (mem s') pd' q = tab (mem s) pd' q" if "path q" for q
  proof (rule tab_frame)
    fix r i r' t assume "q = r @ i # r'" and "tab (mem s) pd' r = Some t"
    with that show "mem s' (entry t i) = mem s (entry t i)"
      by (intro same) (auto simp: tables_def path_def intro!: exI [of _ r])
  qed
  then have tb: "tables (mem s') pd' = tables (mem s) pd'" by (auto simp: tables_def)
  have q: "path [PX 2 va, PX 1 va]" by (simp add: path_def)
  show "pte_of (mem s') pd' va = pte_of (mem s) pd' va"
  proof (cases "tab (mem s) pd' [PX 2 va, PX 1 va]")
    case (Some u)
    then have "u \<in> tables (mem s) pd'" using q by (auto simp: tables_def)
    then show ?thesis using T [OF q] Some same by (simp only: pte_of_def option.case) simp
  qed (use T [OF q] in \<open>simp only: pte_of_def option.case\<close>)
  have sub: "set ys \<subseteq> set xs" using v by (auto simp: vframe_def)
  show "pt_ok (mem s') pd' ys"
    using pt_ok_subset [OF ok' sub] T unfolding pt_ok_def tb by metis
  show "tables (mem s') pd \<inter> tables (mem s') pd' = {}"
    using v disj ok' unfolding tb by (auto simp: vframe_def pt_ok_def)
qed

lemma grown_refl: "pmm_rel s xs \<Longrightarrow> pt_ok (mem s) pd xs \<Longrightarrow> grown s s pd xs xs"
  by (simp add: grown_def vframe_refl)

lemma grown_trans: "grown s s1 pd xs ys \<Longrightarrow> grown s1 s2 pd ys zs \<Longrightarrow> grown s s2 pd xs zs"
  using vframe_trans [of s s1 pd xs ys s2 zs] by (simp add: grown_def)

lemma grownD: "grown s s' pd xs ys \<Longrightarrow> pmm_rel s' ys \<and> pt_ok (mem s') pd ys"
  by (simp add: grown_def vframe_def)

lemma walk_level_valid:
  assumes "ram_page t" and "next_table (mem s) t (PX l va) = Some t'"
  shows "walk_level l va alloc t s = Inr (Some t', s)"
  using assms by (auto simp: walk_level_def next_table_def split: if_splits)

lemma walk_level_noalloc:
  assumes "ram_page t" and "next_table (mem s) t (PX l va) = None"
  shows "walk_level l va False t s = Inr (None, s)"
  using assms by (auto simp: walk_level_def next_table_def split: if_splits)

lemma walk_level_install:
  assumes rel: "pmm_rel s (x # ys)" and ok: "pt_ok (mem s) pd (x # ys)"
    and p: "path (p @ [PX l va])" and t: "tab (mem s) pd p = Some t"
    and none: "next_table (mem s) t (PX l va) = None"
  shows "\<exists>s'. walk_level l va True t s = Inr (Some x, s') \<and> grown s s' pd (x # ys) ys \<and>
     tab (mem s') pd (p @ [PX l va]) = Some x"
proof -
  let ?m = "install (mem s) t (PX l va) x"
  let ?s = "s\<lparr>mem := ?m, g_free_mem_list := mem s x\<rparr>"
  have pp: "path p" using p by (auto simp: path_def)
  have rt: "ram_page t" "t \<noteq> x" "t \<notin> set ys" using pt_okD [OF ok pp t] by auto
  have x: "ram_page x" "x \<notin> set ys" and ry: "\<And>y. y \<in> set ys \<Longrightarrow> ram_page y"
    using rel by (auto simp: pmm_rel_def managed_def)
  have eq: "walk_level l va True t s = Inr (Some x, ?s)"
    using none alloc_page_Cons(1) [OF rel] x(1) rt(1)
    by (auto simp: walk_level_def next_table_def memset_page_def install_def
        split: if_splits)
  have "?m y = mem s y" if "y \<in> set ys" for y
  proof -
    have "y \<noteq> x" "ram_page y" "y \<noteq> t" using that x(2) ry rt(3) by auto
    then have "y \<noteq> entry t (PX l va)"
      using entry_inj [of y t 0 "PX l va"] rt(1) by auto
    then show ?thesis using \<open>ram_page y\<close> \<open>y \<noteq> x\<close> x(1) by (simp add: install_def zero_page_def)
  qed
  then have rel': "pmm_rel ?s ys"
    using pmm_rel_more_cong [OF alloc_page_Cons(2) [OF rel], of ?m]
    by (simp add: pmm_upd_commute)
  have tb: "tables ?m pd = insert x (tables (mem s) pd)"
    by (rule install_tables [OF ok x(1) p t none])
  have chg: "\<exists>u \<in> tables (mem s) pd \<union> set (x # ys). in_page a u" if "?m a \<noteq> mem s a" for a
  proof (cases "a = entry t (PX l va)")
    case True
    then have "in_page a t" using rt(1) by simp
    moreover have "t \<in> tables (mem s) pd" using t pp by (auto simp: tables_def)
    ultimately show ?thesis by blast
  next
    case False
    with that have "in_page a x" by (auto simp: install_def zero_page_def split: if_splits)
    then show ?thesis by auto
  qed
  have "grown s ?s pd (x # ys) ys"
    unfolding grown_def vframe_def
  proof (intro conjI allI impI)
    show "pmm_rel ?s ys" by (rule rel')
    show "pt_ok (mem ?s) pd ys" using install_pt_ok [OF ok x p t none] by simp
    show "\<exists>zs. x # ys = zs @ ys" by (rule exI [of _ "[x]"]) simp
    show "pte_of (mem ?s) pd va' = pte_of (mem s) pd va'" for va'
      using install_pte_of [OF ok x(1) p t none] by simp
    show "tables (mem ?s) pd \<subseteq> tables (mem s) pd \<union> set (x # ys)" using tb by auto
    show "\<exists>u \<in> tables (mem s) pd \<union> set (x # ys). in_page a u" if "mem ?s a \<noteq> mem s a" for a
      using chg that by simp
    show "\<exists>m h. ?s = s\<lparr>mem := m, g_free_mem_list := h\<rparr>" by blast
  qed
  moreover have "tab ?m pd (p @ [PX l va]) = Some x"
    using install_tab [OF ok x(1) p t none p] by simp
  ultimately show ?thesis using eq by auto
qed

lemma walk_level_alloc:
  assumes rel: "pmm_rel s xs" and ok: "pt_ok (mem s) pd xs" and "xs \<noteq> []"
    and p: "path (p @ [PX l va])" and t: "tab (mem s) pd p = Some t"
  shows "\<exists>s' t' ys. walk_level l va True t s = Inr (Some t', s') \<and> grown s s' pd xs ys \<and>
     tab (mem s') pd (p @ [PX l va]) = Some t' \<and> length xs \<le> Suc (length ys)"
proof (cases "next_table (mem s) t (PX l va)")
  case None
  from \<open>xs \<noteq> []\<close> obtain x ys where "xs = x # ys" by (cases xs) auto
  with walk_level_install [OF _ _ p t None] rel ok show ?thesis by fastforce
next
  case (Some t')
  have "ram_page t" using pt_okD(1) [OF ok _ t] p by (auto simp: path_def)
  from walk_level_valid [OF this Some] grown_refl [OF rel ok] show ?thesis
    by (auto simp: tab_append t Some)
qed

lemma page_walk_alloc:
  assumes rel: "pmm_rel s xs" and ok: "pt_ok (mem s) pd xs" and len: "2 \<le> length xs"
    and va: "va < MAXVA"
  shows "\<exists>s' t ys. page_walk pd va True s = Inr (entry t (PX 0 va), s') \<and> grown s s' pd xs ys \<and>
     tab (mem s') pd [PX 2 va, PX 1 va] = Some t \<and> length xs \<le> length ys + 2"
proof -
  have p: "path ([] @ [PX 2 va])" "path ([PX 2 va] @ [PX 1 va])" by (simp_all add: path_def)
  have "xs \<noteq> []" using len by auto
  from walk_level_alloc [OF rel ok this p(1)] obtain s1 t1 ys where
    w1: "walk_level 2 va True pd s = Inr (Some t1, s1)" "grown s s1 pd xs ys"
      "tab (mem s1) pd [PX 2 va] = Some t1" "length xs \<le> Suc (length ys)" by auto
  then have "pmm_rel s1 ys" "pt_ok (mem s1) pd ys" "ys \<noteq> []" using len grownD [OF w1(2)] by auto
  from walk_level_alloc [OF this p(2) w1(3)] obtain s2 t2 zs where
    w2: "walk_level 1 va True t1 s1 = Inr (Some t2, s2)" "grown s1 s2 pd ys zs"
      "tab (mem s2) pd [PX 2 va, PX 1 va] = Some t2" "length ys \<le> Suc (length zs)" by auto
  have "page_walk pd va True s = Inr (entry t2 (PX 0 va), s2)"
    using va w1(1) w2(1) by (simp add: page_walk_def not_le)
  moreover have "length xs \<le> length zs + 2" using w1(4) w2(4) by simp
  ultimately show ?thesis using grown_trans [OF w1(2) w2(2)] w2(3) by blast
qed

definition missing :: "(u64 \<Rightarrow> u64) \<Rightarrow> u64 \<Rightarrow> u64 \<Rightarrow> nat" where
  \<comment> \<open>how many tables a walk to \<open>va\<close> may have to install\<close>
  "missing m pd va = (if tab m pd [PX 2 va, PX 1 va] = None then 2 else 0)"

lemma page_walk_alloc_missing:
  assumes rel: "pmm_rel s xs" and ok: "pt_ok (mem s) pd xs" and len: "missing (mem s) pd va \<le> length xs"
    and va: "va < MAXVA"
  shows "\<exists>s' t ys. page_walk pd va True s = Inr (entry t (PX 0 va), s') \<and> grown s s' pd xs ys \<and>
     tab (mem s') pd [PX 2 va, PX 1 va] = Some t \<and> length xs \<le> length ys + missing (mem s) pd va"
proof (cases "tab (mem s) pd [PX 2 va, PX 1 va]")
  case None
  then have m: "missing (mem s) pd va = 2" by (simp only: missing_def if_True simp_thms)
  show ?thesis unfolding m using page_walk_alloc [OF rel ok _ va] len m by simp
next
  case (Some t)
  then obtain t1 where t1: "next_table (mem s) pd (PX 2 va) = Some t1" "next_table (mem s) t1 (PX 1 va) = Some t"
    by (auto split: option.splits)
  have "ram_page pd" "ram_page t1"
    using pt_okD(1) [OF ok, of "[]" pd] pt_okD(1) [OF ok, of "[PX 2 va]" t1] t1(1) by (simp_all add: path_def)
  then have "page_walk pd va True s = Inr (entry t (PX 0 va), s)"
    using va walk_level_valid [of pd s 2 va t1 True] walk_level_valid [of t1 s 1 va t True] t1
    by (simp add: page_walk_def not_le)
  then show ?thesis using grown_refl [OF rel ok] Some by auto
qed

lemma page_walk_lookup:
  assumes ok: "pt_ok (mem s) pd xs" and va: "va < MAXVA"
  shows "page_walk pd va False s =
    Inr (case tab (mem s) pd [PX 2 va, PX 1 va] of None \<Rightarrow> 0 | Some t \<Rightarrow> entry t (PX 0 va), s)"
proof -
  have pd: "ram_page pd" using pt_okD(1) [OF ok, of "[]" pd] by (simp add: path_def)
  show ?thesis
  proof (cases "next_table (mem s) pd (PX 2 va)")
    case None
    then show ?thesis
      using va walk_level_noalloc [OF pd None] by (simp add: page_walk_def not_le)
  next
    case (Some t1)
    have t1: "ram_page t1" using pt_okD(1) [OF ok, of "[PX 2 va]" t1] Some by (simp add: path_def)
    note w = walk_level_valid [OF pd Some, of False]
    show ?thesis
    proof (cases "next_table (mem s) t1 (PX 1 va)")
      case None
      then show ?thesis
        using va w Some walk_level_noalloc [OF t1 None] by (simp add: page_walk_def not_le)
    next
      case (Some t2)
      then show ?thesis
        using va w \<open>next_table (mem s) pd (PX 2 va) = Some t1\<close> walk_level_valid [OF t1 Some, of False]
        by (simp add: page_walk_def not_le)
    qed
  qed
qed

lemma fresh_directory:
  assumes "\<And>i. i < 512 \<Longrightarrow> m (entry pd i) AND PTE_V = 0" and "ram_page pd" and "pd \<notin> set xs"
  shows "pt_ok m pd xs" and "tables m pd = {pd}" and "pte_of m pd va = 0"
proof -
  have T: "tab m pd q = Some t \<longleftrightarrow> q = [] \<and> t = pd" if "path q" for q t
    using that assms(1) by (cases q) (auto simp: next_table_def path_def)
  have P: "path []" by (simp add: path_def)
  show tb: "tables m pd = {pd}" unfolding tables_def using T P by auto
  show "pt_ok m pd xs" unfolding pt_ok_def tb using T assms(2,3) by auto
  show "pte_of m pd va = 0" using assms(1) [OF PX_less] by (simp add: pte_of_def next_table_def)
qed

section \<open>What the mapping routines do\<close>

lemma mem_leaf: "tab m pd [PX 2 va, PX 1 va] = Some t \<Longrightarrow> m (entry t (PX 0 va)) = pte_of m pd va"
  by (simp only: pte_of_def option.case)

lemma leaf_store_vframe:
  assumes rel: "pmm_rel s xs" and ok: "pt_ok (mem s) pd xs"
    and t: "tab (mem s) pd [PX 2 va, PX 1 va] = Some t"
  shows "vframe s (s\<lparr>mem := (mem s)(entry t (PX 0 va) := v)\<rparr>) pd xs xs"
proof -
  have p: "path [PX 2 va, PX 1 va]" by (simp add: path_def)
  note lp = leaf_pt_ok [OF ok t p PX_less, of 0 va v]
  have rt: "ram_page t" "t \<notin> set xs" "t \<in> tables (mem s) pd"
    using pt_okD [OF ok p t] t p by (auto simp: tables_def simp del: tab.simps)
  have "pmm_rel (s\<lparr>mem := (mem s)(entry t (PX 0 va) := v)\<rparr>) xs"
  proof (rule pmm_rel_more_cong [OF rel])
    fix x assume "x \<in> set xs"
    then have "ram_page x" "x \<noteq> t" using rel rt by (auto simp: pmm_rel_def managed_def)
    then have "x \<noteq> entry t (PX 0 va)" using entry_inj [of x t 0 "PX 0 va"] rt(1) by auto
    then show "((mem s)(entry t (PX 0 va) := v)) x = mem s x" by simp
  qed
  moreover have "\<exists>m h. s\<lparr>mem := (mem s)(entry t (PX 0 va) := v)\<rparr> = s\<lparr>mem := m, g_free_mem_list := h\<rparr>"
    by (rule exI [of _ "(mem s)(entry t (PX 0 va) := v)"], rule exI [of _ "g_free_mem_list s"]) simp
  ultimately show ?thesis
    unfolding vframe_def using lp rt by (auto intro!: bexI [of _ t])
qed

lemma aligned_same_page:
  assumes "page_aligned a" and "unat (a + PGSIZE) = unat a + 4096"
  shows "va div PGSIZE = a div PGSIZE \<longleftrightarrow> a \<le> va \<and> \<not> a + PGSIZE \<le> va"
proof -
  obtain k where k: "unat a = 4096 * k" using assms(1) by (auto simp: page_aligned_unat)
  have "unat va div 4096 = k \<longleftrightarrow> 4096 * k \<le> unat va \<and> \<not> 4096 * k + 4096 \<le> unat va" by linarith
  then show ?thesis by (simp add: word_unat_eq_iff word_le_nat_alt unat_div_distrib assms(2) k)
qed

lemma ROUNDDOWN_same_page:
  assumes "page_aligned a" and "va div PGSIZE = a div PGSIZE"
  shows "ROUNDDOWN va PGSIZE = a"
  using assms by (metis ROUNDDOWN_def ROUNDDOWN_id)

definition need :: "(u64 \<Rightarrow> u64) \<Rightarrow> u64 \<Rightarrow> u64 \<Rightarrow> u64 \<Rightarrow> nat \<Rightarrow> nat" where
  \<comment> \<open>how many tables the mapping of the \<open>n\<close> pages from \<open>first\<close> to \<open>vlast\<close> may have to install: two at the
     first page, unless they are there, and two whenever a new region of 2 MB begins\<close>
  "need m pd first vlast n = (if n = 0 then 0
     else missing m pd first + 2 * (unat vlast div 2097152 - unat first div 2097152))"

lemma PX_region: "unat va div 2097152 = unat va' div 2097152 \<Longrightarrow> PX 2 va = PX 2 va' \<and> PX 1 va = PX 1 va'"
proof -
  have d: "n div 1073741824 = n div 2097152 div 512" for n :: nat by (simp add: div_mult2_eq [symmetric])
  assume "unat va div 2097152 = unat va' div 2097152"
  then show ?thesis by (simp add: word_unat_eq_iff unat_PX d)
qed

lemma need_step:
  assumes "unat vlast = unat first + 4096 * n" and "unat (first + PGSIZE) = unat first + 4096"
    and "tab m' pd [PX 2 first, PX 1 first] = Some t"
  shows "missing m pd first + need m' pd (first + PGSIZE) vlast n \<le> need m pd first vlast (Suc n)"
proof (cases n)
  case (Suc k)
  let ?a = "unat first div 2097152" and ?b = "unat (first + PGSIZE) div 2097152" and ?c = "unat vlast div 2097152"
  have b: "?b \<le> ?c" using assms(1,2) Suc by (intro div_le_mono) simp
  have a: "?a \<le> ?b" using assms(2) by (intro div_le_mono) simp
  show ?thesis
  proof (cases "?a = ?b")
    case True
    then have "missing m' pd (first + PGSIZE) = 0"
      using PX_region [OF True] assms(3) by (simp only: missing_def) simp
    then show ?thesis using True by (simp add: need_def)
  next
    case False
    define x y z where "x = ?a" and "y = ?b" and "z = ?c"
    have "x < y" "y \<le> z" "missing m' pd (first + PGSIZE) \<le> 2"
      using False a b by (simp_all add: x_def y_def z_def missing_def)
    then have "missing m' pd (first + PGSIZE) + 2 * (z - y) \<le> 2 * (z - x)" by simp
    then show ?thesis unfolding need_def x_def y_def z_def by simp
  qed
qed (simp add: need_def)

lemma map_pages_loop_spec:
  assumes "pmm_rel s xs" and "pt_ok (mem s) pd xs" and "need (mem s) pd first vlast n \<le> length xs"
    and "page_aligned first" and "page_aligned vlast" and "unat vlast + 4096 = unat first + 4096 * n"
    and "vlast < MAXVA" and "bits < 1024" and "bit bits 0"
    and "\<And>va. va < MAXVA \<Longrightarrow> first \<le> va \<Longrightarrow> va div PGSIZE \<le> vlast div PGSIZE \<Longrightarrow>
           \<not> bit (pte_of (mem s) pd va) 0"
  shows "\<exists>s' ys. map_pages_loop pd first vlast pa bits s = Inr (0, s') \<and> vframe s s' pd xs ys \<and>
     length xs \<le> length ys + need (mem s) pd first vlast n \<and> (\<forall>va < MAXVA. pte_of (mem s') pd va =
        (if first \<le> va \<and> va div PGSIZE \<le> vlast div PGSIZE
         then PA2PTE (pa + (ROUNDDOWN va PGSIZE - first)) OR bits else pte_of (mem s) pd va))"
  using assms
proof (induction n arbitrary: first pa s xs)
  case 0
  have lt: "vlast < first" using "0.prems"(6) by (simp add: word_less_nat_alt)
  have out: "\<not> (first \<le> va \<and> va div PGSIZE \<le> vlast div PGSIZE)" for va
    using "0.prems"(6) by (simp add: word_le_nat_alt unat_div_distrib) linarith
  show ?case
    using lt out vframe_refl [OF "0.prems"(1,2)] by (subst map_pages_loop.simps) auto
next
  case (Suc n)
  have fl: "unat vlast = unat first + 4096 * n" using Suc.prems(6) by simp
  have fM: "unat first < 2 ^ 38" using fl Suc.prems(7) by (simp add: word_less_nat_alt)
  then have first: "first < MAXVA" "first \<le> vlast" using fl by (simp_all add: word_less_nat_alt word_le_nat_alt)
  have u: "unat (first + PGSIZE) = unat first + 4096" using fM by (subst unat_plus_small) simp_all
  note same = aligned_same_page [OF Suc.prems(4) u]
  have "missing (mem s) pd first \<le> length xs" using Suc.prems(3) by (simp add: need_def)
  from page_walk_alloc_missing [OF Suc.prems(1,2) this first(1)] obtain s1 t ys where
    w: "page_walk pd first True s = Inr (entry t (PX 0 first), s1)" "grown s s1 pd xs ys"
      "tab (mem s1) pd [PX 2 first, PX 1 first] = Some t" "length xs \<le> length ys + missing (mem s) pd first" by blast
  note g = grownD [OF w(2)]
  have rt: "ram_page t" using pt_okD(1) [OF _ _ w(3)] g by (auto simp: path_def)
  have v: "mem s1 (entry t (PX 0 first)) = pte_of (mem s) pd first"
    using mem_leaf [OF w(3)] w(2) by (simp add: grown_def)
  have le: "first div PGSIZE \<le> vlast div PGSIZE"
    using fl by (simp add: word_le_nat_alt unat_div_distrib div_le_mono)
  have nv: "pte_of (mem s) pd first AND PTE_V = 0"
    using Suc.prems(10) [OF first(1) order_refl le] and_PTE_V by blast
  define s2 where "s2 = s1\<lparr>mem := (mem s1)(entry t (PX 0 first) := PA2PTE pa OR bits)\<rparr>"
  have vf: "vframe s1 s2 pd ys ys" unfolding s2_def using leaf_store_vframe g w(3) by blast
  have nz: "entry t (PX 0 first) \<noteq> 0"
    using mem_ok_entry [OF rt PX_less, of 0 first] mem_ok_not_0 by metis
  have step: "map_pages_loop pd first vlast pa bits s =
      map_pages_loop pd (first + PGSIZE) vlast (pa + PGSIZE) bits s2"
    using rt first(2) w(1) v nv nz mem_ok_entry [OF rt PX_less, of 0 first]
    by (subst map_pages_loop.simps) (auto simp: s2_def)
  have p2: "pte_of (mem s2) pd va = (if va div PGSIZE = first div PGSIZE then PA2PTE pa OR bits
      else pte_of (mem s) pd va)" if "va < MAXVA" for va
    using leaf_pte_of [of "mem s1" pd ys first t "PA2PTE pa OR bits" va] g w(2,3)
      same_page_PX [OF first(1) that]
    by (auto simp: s2_def grown_def eq_commute simp del: tab.simps)
  have "tab (mem s2) pd [PX 2 first, PX 1 first] = Some t"
    using leaf_tab [OF _ _ w(3) PX_less, of ys "[PX 2 first, PX 1 first]" 0 first] g w(3)
    by (simp add: s2_def path_def del: tab.simps)
  note nd = need_step [OF fl u this, of "mem s"]
  have "\<exists>s' zs. map_pages_loop pd (first + PGSIZE) vlast (pa + PGSIZE) bits s2 = Inr (0, s') \<and>
     vframe s2 s' pd ys zs \<and> length ys \<le> length zs + need (mem s2) pd (first + PGSIZE) vlast n \<and> (\<forall>va < MAXVA. pte_of (mem s') pd va =
        (if first + PGSIZE \<le> va \<and> va div PGSIZE \<le> vlast div PGSIZE
         then PA2PTE (pa + PGSIZE + (ROUNDDOWN va PGSIZE - (first + PGSIZE))) OR bits
         else pte_of (mem s2) pd va))"
  proof (rule Suc.IH)
    show "pmm_rel s2 ys" "pt_ok (mem s2) pd ys" using vf by (simp_all add: vframe_def)
    show "need (mem s2) pd (first + PGSIZE) vlast n \<le> length ys" using Suc.prems(3) w(4) nd by simp
    show "page_aligned (first + PGSIZE)" using Suc.prems(4) by (simp add: page_aligned_unat u)
    show "unat vlast + 4096 = unat (first + PGSIZE) + 4096 * n" by (simp add: fl u)
    show "\<not> bit (pte_of (mem s2) pd va) 0"
      if "va < MAXVA" "first + PGSIZE \<le> va" "va div PGSIZE \<le> vlast div PGSIZE" for va
    proof -
      have "first \<le> va" using that(2) by (simp add: word_le_nat_alt u)
      then show ?thesis using p2 [OF that(1)] same [of va] that Suc.prems(10) [of va] by simp
    qed
  qed (use Suc.prems in auto)
  then obtain s' zs where IH: "map_pages_loop pd (first + PGSIZE) vlast (pa + PGSIZE) bits s2 = Inr (0, s')"
    "vframe s2 s' pd ys zs" "length ys \<le> length zs + need (mem s2) pd (first + PGSIZE) vlast n" and P: "\<And>va. va < MAXVA \<Longrightarrow> pte_of (mem s') pd va =
        (if first + PGSIZE \<le> va \<and> va div PGSIZE \<le> vlast div PGSIZE
         then PA2PTE (pa + PGSIZE + (ROUNDDOWN va PGSIZE - (first + PGSIZE))) OR bits
         else pte_of (mem s2) pd va)" by blast
  have "vframe s s' pd xs zs"
    using vframe_trans [OF _ vframe_trans [OF vf IH(2)]] w(2) by (simp add: grown_def)
  moreover have "length xs \<le> length zs + need (mem s) pd first vlast (Suc n)" using w(4) IH(3) nd by simp
  moreover have "pte_of (mem s') pd va = (if first \<le> va \<and> va div PGSIZE \<le> vlast div PGSIZE
      then PA2PTE (pa + (ROUNDDOWN va PGSIZE - first)) OR bits else pte_of (mem s) pd va)"
    if "va < MAXVA" for va
  proof (cases "va div PGSIZE = first div PGSIZE")
    case True
    then have "first \<le> va" "\<not> first + PGSIZE \<le> va" using same [of va] by auto
    then show ?thesis
      using P [OF that] p2 [OF that] True le ROUNDDOWN_same_page [OF Suc.prems(4) True] by simp
  next
    case False
    then have "first \<le> va \<longleftrightarrow> first + PGSIZE \<le> va"
      using same [of va] by (auto simp: word_le_nat_alt u)
    then show ?thesis using P [OF that] p2 [OF that] False by (simp add: algebra_simps)
  qed
  ultimately show ?case using step IH(1) by auto
qed

lemma range_pages:
  assumes n: "unat va mod 4096 + unat sz = 4096 * n" "0 < n" and va: "unat va + unat sz \<le> 2 ^ 38"
  defines "vlast \<equiv> ROUNDDOWN (va + sz - 1) PGSIZE"
  shows "unat vlast + 4096 = unat (ROUNDDOWN va PGSIZE) + 4096 * n"
    and "vlast < MAXVA" and "va < MAXVA"
    and "v div PGSIZE \<le> vlast div PGSIZE \<longleftrightarrow> unat v < unat va + unat sz"
    and "unat (va + sz - 1) = unat va + unat sz - 1"
proof -
  define k where "k = unat va div 4096"
  have k: "unat va = 4096 * k + unat va mod 4096" by (simp add: k_def)
  have tot: "unat va + unat sz = 4096 * (k + n)" using k n(1) by simp
  have pos: "0 < unat va + unat sz" using tot n(2) by simp
  show u: "unat (va + sz - 1) = unat va + unat sz - 1"
  proof -
    have p: "unat (va + sz) = unat va + unat sz" using va by (subst unat_plus_small) simp_all
    then show ?thesis using pos by (metis unat_gt_0 unat_minus_one)
  qed
  have "(4096 * (k + n) - 1) div 4096 = k + n - 1"
  proof -
    have "4096 * (k + n) - 1 = 4096 * (k + n - 1) + 4095" using n(2) by (simp add: algebra_simps)
    then show ?thesis by (simp del: mult_Suc_right)
  qed
  then have vl: "unat vlast = 4096 * (k + n - 1)" "unat vlast div 4096 = k + n - 1"
    by (simp_all add: vlast_def unat_ROUNDDOWN u tot)
  show "unat vlast + 4096 = unat (ROUNDDOWN va PGSIZE) + 4096 * n"
    using vl(1) n(2) by (simp add: unat_ROUNDDOWN k_def algebra_simps)
  show "vlast < MAXVA" using vl(1) va tot n(2) by (simp add: word_less_nat_alt)
  have "unat sz \<noteq> 0"
  proof
    assume "unat sz = 0"
    then have "unat va mod 4096 = 4096 * n" using n(1) by simp
    moreover have "unat va mod 4096 < 4096" by simp
    ultimately show False using n(2) by simp
  qed
  then show "va < MAXVA" using va by (simp add: word_less_nat_alt)
  have "unat v div 4096 < k + n \<longleftrightarrow> unat v < 4096 * (k + n)"
    by (simp add: div_less_iff_less_mult mult.commute)
  then have "unat v div 4096 \<le> k + n - 1 \<longleftrightarrow> unat v < 4096 * (k + n)" using n(2) by linarith
  then show "v div PGSIZE \<le> vlast div PGSIZE \<longleftrightarrow> unat v < unat va + unat sz"
    by (simp add: word_le_nat_alt unat_div_distrib vl(2) tot)
qed

lemma or_lt_1024: "(a :: u64) < 1024 \<Longrightarrow> b < 1024 \<Longrightarrow> a OR b < 1024"
proof -
  have lt: "c < 1024 \<longleftrightarrow> take_bit 10 c = c" for c :: u64
  proof -
    have "take_bit 10 c = c \<longleftrightarrow> unat c mod 1024 = unat c"
      by (simp add: word_unat_eq_iff take_bit_eq_mod unat_mod_distrib)
    also have "\<dots> \<longleftrightarrow> unat c < 1024" using mod_less_divisor [of 1024 "unat c"] by (auto simp del: mod_less_divisor)
    finally show ?thesis by (simp add: word_less_nat_alt)
  qed
  show "a < 1024 \<Longrightarrow> b < 1024 \<Longrightarrow> a OR b < 1024" by (simp only: lt take_bit_or)
qed

definition regions :: "u64 \<Rightarrow> u64 \<Rightarrow> nat" where
  \<comment> \<open>how many boundaries of 2 MB regions the range crosses\<close>
  "regions va sz = (unat va + unat sz - 1) div 2097152 - unat va div 2097152"

lemma region_page: "unat x div 4096 * 4096 div 2097152 = unat x div 2097152"
proof -
  have "n div 2097152 = n div 4096 div 512" for n :: nat by (simp add: div_mult2_eq [symmetric])
  then show ?thesis by simp
qed

lemma map_pages_regions:
  assumes rel: "pmm_rel s xs" and ok: "pt_ok (mem s) pd xs"
    and n: "unat va mod 4096 + unat sz = 4096 * n" "0 < n" "2 + 2 * regions va sz \<le> length xs"
    and va: "unat va + unat sz \<le> 2 ^ 38" and perm: "perm < 1024"
    and un: "\<And>v. v < MAXVA \<Longrightarrow> ROUNDDOWN va PGSIZE \<le> v \<Longrightarrow> unat v < unat va + unat sz \<Longrightarrow>
           \<not> bit (pte_of (mem s) pd v) 0"
  shows "\<exists>s' ys. map_pages pd va sz pa perm s = Inr (0, s') \<and> vframe s s' pd xs ys \<and>
     length xs \<le> length ys + 2 + 2 * regions va sz \<and> (\<forall>v < MAXVA. pte_of (mem s') pd v =
        (if ROUNDDOWN va PGSIZE \<le> v \<and> unat v < unat va + unat sz
         then PA2PTE (pa + (ROUNDDOWN v PGSIZE - ROUNDDOWN va PGSIZE)) OR
              (perm OR PTE_V OR (if pte_of (mem s) pd va = 0x100 then 0x100 else 0))
         else pte_of (mem s) pd v))"
proof -
  let ?first = "ROUNDDOWN va PGSIZE" and ?vlast = "ROUNDDOWN (va + sz - 1) PGSIZE"
  define bits where "bits = perm OR PTE_V OR (if pte_of (mem s) pd va = 0x100 then 0x100 else 0)"
  note R = range_pages [OF n(1,2) va]
  have "2 \<le> length xs" using n(3) by simp
  from page_walk_alloc [OF rel ok this R(3)] obtain s1 t ys where
    w: "page_walk pd va True s = Inr (entry t (PX 0 va), s1)" "grown s s1 pd xs ys"
      "tab (mem s1) pd [PX 2 va, PX 1 va] = Some t" "length xs \<le> length ys + 2" by blast
  note g = grownD [OF w(2)]
  have same: "pte_of (mem s1) pd v = pte_of (mem s) pd v" for v
    using w(2) by (simp add: grown_def)
  have rt: "ram_page t" using pt_okD(1) [OF _ _ w(3)] g by (auto simp: path_def)
  have bits: "bits < 1024" "bit bits 0"
    using or_lt_1024 [OF or_lt_1024 [OF perm, of PTE_V], of "0x100"] or_lt_1024 [OF perm, of PTE_V]
    by (auto simp: bits_def PTE_V_def or.assoc bit_or_iff)
  have eq: "map_pages pd va sz pa perm s = map_pages_loop pd ?first ?vlast pa bits s1"
    using w(1) mem_ok_entry [OF rt PX_less, of 0 va] mem_leaf [OF w(3)] same
    by (simp add: map_pages_def bits_def or.assoc Let_def)
  have "unat (ROUNDDOWN va PGSIZE) div 2097152 = unat va div 2097152" "unat (va + sz - 1) = unat va + unat sz - 1"
    using R(5) by (simp_all add: unat_ROUNDDOWN region_page)
  then have nd: "need (mem s1) pd ?first ?vlast n = 2 * regions va sz"
    using PX_region [of ?first va] w(3) n(2)
    by (simp only: need_def missing_def regions_def unat_ROUNDDOWN region_page) (simp add: div_mult2_eq [symmetric])
  have "\<exists>s' zs. map_pages_loop pd ?first ?vlast pa bits s1 = Inr (0, s') \<and> vframe s1 s' pd ys zs \<and>
     length ys \<le> length zs + need (mem s1) pd ?first ?vlast n \<and> (\<forall>v < MAXVA. pte_of (mem s') pd v =
        (if ?first \<le> v \<and> v div PGSIZE \<le> ?vlast div PGSIZE
         then PA2PTE (pa + (ROUNDDOWN v PGSIZE - ?first)) OR bits else pte_of (mem s1) pd v))"
    using g R(1,2) w(4) n(3) nd bits un same R(4)
    by (intro map_pages_loop_spec [where n = n]) auto
  then obtain s' zs where "map_pages_loop pd ?first ?vlast pa bits s1 = Inr (0, s')"
    "vframe s1 s' pd ys zs" "length ys \<le> length zs + 2 * regions va sz" and "\<forall>v < MAXVA. pte_of (mem s') pd v =
        (if ?first \<le> v \<and> v div PGSIZE \<le> ?vlast div PGSIZE
         then PA2PTE (pa + (ROUNDDOWN v PGSIZE - ?first)) OR bits else pte_of (mem s1) pd v)"
    unfolding nd by blast
  moreover from this have "vframe s s' pd xs zs" "length xs \<le> length zs + 2 + 2 * regions va sz"
    using vframe_trans w(2,4) by (auto simp: grown_def)
  ultimately show ?thesis
    unfolding eq bits_def [symmetric] using R(4) same by auto
qed

lemma map_pages_spec:
  assumes rel: "pmm_rel s xs" and ok: "pt_ok (mem s) pd xs"
    and n: "unat va mod 4096 + unat sz = 4096 * n" "0 < n" "2 * n + 2 \<le> length xs"
    and va: "unat va + unat sz \<le> 2 ^ 38" and perm: "perm < 1024"
    and un: "\<And>v. v < MAXVA \<Longrightarrow> ROUNDDOWN va PGSIZE \<le> v \<Longrightarrow> unat v < unat va + unat sz \<Longrightarrow>
           \<not> bit (pte_of (mem s) pd v) 0"
  shows "\<exists>s' ys. map_pages pd va sz pa perm s = Inr (0, s') \<and> vframe s s' pd xs ys \<and>
     (\<forall>v < MAXVA. pte_of (mem s') pd v =
        (if ROUNDDOWN va PGSIZE \<le> v \<and> unat v < unat va + unat sz
         then PA2PTE (pa + (ROUNDDOWN v PGSIZE - ROUNDDOWN va PGSIZE)) OR
              (perm OR PTE_V OR (if pte_of (mem s) pd va = 0x100 then 0x100 else 0))
         else pte_of (mem s) pd v))"
proof -
  define k where "k = unat va div 4096"
  have k: "unat va = 4096 * k + unat va mod 4096" by (simp add: k_def)
  have "unat va + unat sz - 1 = 4096 * (k + n - 1) + 4095" using k n(1,2) by (simp add: algebra_simps)
  then have e: "(unat va + unat sz - 1) div 4096 = k + n - 1" by simp
  have d: "x div 2097152 = x div 4096 div 512" for x :: nat by (simp add: div_mult2_eq [symmetric])
  have "(unat va + unat sz - 1) div 2097152 = (k + n - 1) div 512" unfolding d e ..
  moreover have "unat va div 2097152 = k div 512" unfolding d k_def ..
  moreover have "(k + n - 1) div 512 - k div 512 \<le> n"
  proof -
    have "(k + n - 1) div 512 \<le> (k + 512 * n) div 512" by (rule div_le_mono) simp
    also have "\<dots> = k div 512 + n" by simp
    finally show ?thesis by simp
  qed
  ultimately have "2 + 2 * regions va sz \<le> length xs" using n(3) by (simp add: regions_def)
  from map_pages_regions [OF rel ok n(1,2) this va perm un] show ?thesis by blast
qed

lemma lookup_pa_spec:
  assumes ok: "pt_ok (mem s) pd xs"
  shows "lookup_pa pd va s = Inr (if MAXVA \<le> va then 0
     else let v = pte_of (mem s) pd va in
       if v AND PTE_V = 0 \<or> v AND PTE_R = 0 \<and> v AND PTE_W = 0 then 0 else PTE2PA v)"
proof (cases "MAXVA \<le> va")
  case False
  then have va: "va < MAXVA" by simp
  note w = page_walk_lookup [OF ok va]
  show ?thesis
  proof (cases "tab (mem s) pd [PX 2 va, PX 1 va]")
    case None
    then have "pte_of (mem s) pd va = 0" by (simp only: pte_of_def option.case)
    with False w show ?thesis unfolding lookup_pa_def None by simp
  next
    case (Some t)
    have "ram_page t" using pt_okD(1) [OF ok _ Some] by (simp add: path_def)
    then have "mem_ok (entry t (PX 0 va))" by simp
    moreover from this have "entry t (PX 0 va) \<noteq> 0" by (metis mem_ok_not_0)
    ultimately show ?thesis
      using False w mem_leaf [OF Some] unfolding lookup_pa_def Some by (simp add: Let_def)
  qed
qed (simp add: lookup_pa_def)

lemma page_aligned_take_bit: "page_aligned a \<longleftrightarrow> take_bit 12 a = 0"
  by (simp add: page_aligned_def take_bit_eq_mod)

lemma page_aligned_uint: "page_aligned a \<longleftrightarrow> uint a mod 4096 = 0"
  by (simp add: page_aligned_def word_uint_eq_iff uint_mod_distrib)

lemma page_aligned_plus: "page_aligned a \<Longrightarrow> page_aligned b \<Longrightarrow> page_aligned (a + b)"
  by (simp add: page_aligned_uint uint_word_ariths mod_mod_cancel mod_eq_0_iff_dvd)

lemma page_aligned_minus: "page_aligned a \<Longrightarrow> page_aligned b \<Longrightarrow> page_aligned (a - b)"
  by (simp add: page_aligned_uint uint_word_ariths mod_mod_cancel mod_eq_0_iff_dvd)

lemma page_aligned_offset: "page_aligned a \<Longrightarrow> a AND 0xfff = 0"
  using take_bit_eq_mask [of 12 a] by (simp add: page_aligned_take_bit mask_eq_exp_minus_1)

lemma pt_agree:
  assumes eq: "\<forall>u \<in> tables m pd. \<forall>k < 512. m' (entry u k) = m (entry u k)"
  shows "path q \<Longrightarrow> tab m' pd q = tab m pd q" and "tables m' pd = tables m pd"
    and "pte_of m' pd va = pte_of m pd va" and "pt_ok m pd xs \<Longrightarrow> pt_ok m' pd xs"
proof -
  have T: "tab m' pd q = tab m pd q" if "path q" for q
  proof (rule tab_frame)
    fix r i r' t assume "q = r @ i # r'" and "tab m pd r = Some t"
    with that show "m' (entry t i) = m (entry t i)"
      by (intro eq [rule_format]) (auto simp: tables_def path_def intro!: exI [of _ r])
  qed
  show "path q \<Longrightarrow> tab m' pd q = tab m pd q" by (rule T)
  show tb: "tables m' pd = tables m pd" unfolding tables_def using T by auto
  show "pt_ok m pd xs \<Longrightarrow> pt_ok m' pd xs" using T unfolding pt_ok_def tb by metis
  have p: "path [PX 2 va, PX 1 va]" by (simp add: path_def)
  show "pte_of m' pd va = pte_of m pd va"
  proof (cases "tab m pd [PX 2 va, PX 1 va]")
    case (Some t)
    then have "t \<in> tables m pd" using p by (auto simp: tables_def simp del: tab.simps)
    then show ?thesis using T [OF p] Some eq [rule_format, of t "PX 0 va"]
      by (simp only: pte_of_def option.case PX_less)
  qed (use T [OF p] in \<open>simp add: pte_of_def del: tab.simps\<close>)
qed

lemma or_and_ne_0: "(a :: u64) AND c \<noteq> 0 \<Longrightarrow> (b OR a) AND c \<noteq> 0"
  by (metis and.commute bit.conj_disj_distrib or_eq_0_iff)

definition accessible :: "u64 \<Rightarrow> bool" where
  \<comment> \<open>what \<^verbatim>\<open>lookup_pa\<close> asks of an entry besides validity: readable or writable\<close>
  "accessible perm \<longleftrightarrow> perm AND PTE_R \<noteq> 0 \<or> perm AND PTE_W \<noteq> 0"

lemma lookup_valid_page:
  \<comment> \<open>the translation of every address of a mapped page\<close>
  assumes ok: "pt_ok (mem s) pd xs" and va: "va < MAXVA" "v < MAXVA" "v div PGSIZE = va div PGSIZE"
    and pte: "pte_of (mem s) pd va = PA2PTE pa OR bits" "bits < 1024" "bit bits 0" "accessible bits" and pa: "page_aligned pa"
  shows "user_va_to_pa pd v s = Inr (pa + (v AND 0xfff))"
proof -
  have "PX 2 v = PX 2 va" "PX 1 v = PX 1 va" "PX 0 v = PX 0 va" using same_page_PX [OF va(2,1)] va(3) by blast+
  then have "pte_of (mem s) pd v = PA2PTE pa OR bits" using pte(1) by (simp only: pte_of_def)
  moreover have "(PA2PTE pa OR bits) AND PTE_V \<noteq> 0" using pte(3) by (simp add: and_PTE_V bit_or_iff)
  moreover have "(PA2PTE pa OR bits) AND PTE_R \<noteq> 0 \<or> (PA2PTE pa OR bits) AND PTE_W \<noteq> 0"
    using pte(4) or_and_ne_0 unfolding accessible_def by blast
  ultimately show ?thesis
    using va(2) PTE2PA_PA2PTE [OF pa pte(2)] by (auto simp: user_va_to_pa_def lookup_pa_spec [OF ok] Let_def not_le)
qed

lemma user_vm_map_spec:
  assumes rel: "pmm_rel s xs" and ok: "pt_ok (mem s) pd xs"
    and n: "unat va mod 4096 + unat sz = 4096 * n" "0 < n" "2 * n + 2 \<le> length xs"
    and va: "unat va + unat sz \<le> 2 ^ 38" and perm: "perm < 1024" "accessible perm"
    and pa: "page_aligned pa"
    and un: "\<And>v. v < MAXVA \<Longrightarrow> ROUNDDOWN va PGSIZE \<le> v \<Longrightarrow> unat v < unat va + unat sz \<Longrightarrow>
           \<not> bit (pte_of (mem s) pd v) 0"
  shows "\<exists>s' ys. user_vm_map pd va sz pa perm s = Inr s' \<and> vframe s s' pd xs ys \<and>
     (\<forall>v < MAXVA. user_va_to_pa pd v s' =
        (if ROUNDDOWN va PGSIZE \<le> v \<and> unat v < unat va + unat sz
         then Inr (pa + (ROUNDDOWN v PGSIZE - ROUNDDOWN va PGSIZE) + (v AND 0xfff))
         else user_va_to_pa pd v s))"
proof -
  let ?bits = "perm OR PTE_V OR (if pte_of (mem s) pd va = 0x100 then 0x100 else 0)"
  from map_pages_spec [OF rel ok n va perm(1) un, of pa] obtain s' ys where
    m: "map_pages pd va sz pa perm s = Inr (0, s')" "vframe s s' pd xs ys" and
    p: "\<forall>v < MAXVA. pte_of (mem s') pd v =
        (if ROUNDDOWN va PGSIZE \<le> v \<and> unat v < unat va + unat sz
         then PA2PTE (pa + (ROUNDDOWN v PGSIZE - ROUNDDOWN va PGSIZE)) OR ?bits
         else pte_of (mem s) pd v)" by blast
  have ok': "pt_ok (mem s') pd ys" using m(2) by (simp add: vframe_def)
  have b: "?bits < 1024"
    using or_lt_1024 [OF or_lt_1024 [OF perm(1), of PTE_V], of "0x100"] or_lt_1024 [OF perm(1), of PTE_V]
    by (simp add: PTE_V_def or.assoc)
  have acc: "(w OR ?bits) AND PTE_V \<noteq> 0"
      "(w OR ?bits) AND PTE_R \<noteq> 0 \<or> (w OR ?bits) AND PTE_W \<noteq> 0" for w
  proof -
    show "(w OR ?bits) AND PTE_V \<noteq> 0" by (simp add: and_PTE_V bit_or_iff) (simp add: PTE_V_def)
    have "w OR ?bits = (w OR PTE_V OR (if pte_of (mem s) pd va = 0x100 then 0x100 else 0)) OR perm"
      by (simp add: or.assoc or.left_commute or.commute)
    then show "(w OR ?bits) AND PTE_R \<noteq> 0 \<or> (w OR ?bits) AND PTE_W \<noteq> 0"
      using perm(2) or_and_ne_0 unfolding accessible_def by metis
  qed
  have al: "page_aligned (pa + (ROUNDDOWN v PGSIZE - ROUNDDOWN va PGSIZE))"
    for v using pa by (intro page_aligned_plus page_aligned_minus) simp_all
  have "user_va_to_pa pd v s' = (if ROUNDDOWN va PGSIZE \<le> v \<and> unat v < unat va + unat sz
         then Inr (pa + (ROUNDDOWN v PGSIZE - ROUNDDOWN va PGSIZE) + (v AND 0xfff))
         else user_va_to_pa pd v s)" if "v < MAXVA" for v
  proof (cases "ROUNDDOWN va PGSIZE \<le> v \<and> unat v < unat va + unat sz")
    case True
    define w where "w = PA2PTE (pa + (ROUNDDOWN v PGSIZE - ROUNDDOWN va PGSIZE)) OR ?bits"
    have "pte_of (mem s') pd v = w" using p that True by (simp add: w_def)
    moreover have "w AND PTE_V \<noteq> 0" "w AND PTE_R \<noteq> 0 \<or> w AND PTE_W \<noteq> 0"
      using acc unfolding w_def by blast+
    moreover have "PTE2PA w = pa + (ROUNDDOWN v PGSIZE - ROUNDDOWN va PGSIZE)"
      unfolding w_def using al True b by (intro PTE2PA_PA2PTE) auto
    ultimately show ?thesis
      using True that by (auto simp: user_va_to_pa_def lookup_pa_spec [OF ok'] Let_def not_le)
  next
    case False
    then have "pte_of (mem s') pd v = pte_of (mem s) pd v"
      by (subst p [rule_format, OF that]) (simp only: if_False)
    with False show ?thesis
      by (simp only: user_va_to_pa_def lookup_pa_spec [OF ok'] lookup_pa_spec [OF ok] if_False)
  qed
  then show ?thesis using m by (auto simp: user_vm_map_def)
qed

lemma user_vm_unmap_spec:
  assumes rel: "pmm_rel s xs" and ok: "pt_ok (mem s) pd xs"
    and va: "va < MAXVA" "page_aligned va"
    and v: "pte_of (mem s) pd va = PA2PTE pa OR bits" "bits < 1024" "bit bits 0" "accessible bits"
    and pa: "managed s pa" "pa \<notin> set xs" "pa \<notin> tables (mem s) pd"
  shows "\<exists>s'. user_vm_unmap pd va sz True s = Inr s' \<and> pmm_rel s' (pa # xs) \<and>
     pt_ok (mem s') pd (pa # xs) \<and>
     (\<forall>v < MAXVA. pte_of (mem s') pd v = (if v div PGSIZE = va div PGSIZE
        then (PA2PTE pa OR bits) AND NOT PTE_V else pte_of (mem s) pd v)) \<and>
     (\<exists>m h. s' = s\<lparr>mem := m, g_free_mem_list := h\<rparr>)"
proof -
  let ?v = "PA2PTE pa OR bits"
  have "bit (pte_of (mem s) pd va) 0" using v(3) by (simp add: v(1) bit_or_iff)
  then have "tab (mem s) pd [PX 2 va, PX 1 va] \<noteq> None"
    by (auto simp: pte_of_def simp del: tab.simps split: option.splits)
  then obtain t where t: "tab (mem s) pd [PX 2 va, PX 1 va] = Some t" by blast
  let ?e = "entry t (PX 0 va)"
  have p: "path [PX 2 va, PX 1 va]" by (simp add: path_def)
  have rt: "ram_page t" "t \<in> tables (mem s) pd"
    using pt_okD [OF ok p t] t p by (auto simp: tables_def simp del: tab.simps)
  have rpa: "ram_page pa" using pa(1) by auto
  have npa: "entry u k \<noteq> pa" if "u \<in> tables (mem s) pd" "k < 512" for u k
    using entry_inj [of u pa k 0] that ok rpa pa(3) by (auto simp: pt_ok_def)
  define s1 where "s1 = s\<lparr>mem := (mem s)(pa := g_free_mem_list s), g_free_mem_list := pa\<rparr>"
  have fr: "free_page pa s = Inr s1" "pmm_rel s1 (pa # xs)"
    using free_page_managed [OF rel pa(1,2)] by (simp_all add: s1_def)
  have m1: "mem s1 = (mem s)(pa := g_free_mem_list s)" by (simp add: s1_def)
  have agree: "mem s1 (entry u k) = mem s (entry u k)" if "u \<in> tables (mem s) pd" "k < 512" for u k
    using npa [OF that] by (simp add: m1)
  then have "\<forall>u \<in> tables (mem s) pd. \<forall>k < 512. mem s1 (entry u k) = mem s (entry u k)" by blast
  note A = pt_agree [OF this]
  have ok1: "pt_ok (mem s1) pd (pa # xs)" using A(4) [OF ok] pa(3) A(2) by (auto simp: pt_ok_def)
  have t1: "tab (mem s1) pd [PX 2 va, PX 1 va] = Some t" using A(1) [OF p] t by simp
  have V: "?v AND PTE_V \<noteq> 0" using v(3) by (simp add: and_PTE_V bit_or_iff)
  have RW: "?v AND PTE_R \<noteq> 0 \<or> ?v AND PTE_W \<noteq> 0"
    using v(4) or_and_ne_0 unfolding accessible_def by blast
  have pta: "PTE2PA ?v = pa" using v(2) rpa by (simp add: ram_page_def)
  have ua: "user_va_to_pa pd va s = Inr pa"
    using V RW va(1) pta page_aligned_offset [OF va(2)]
    by (auto simp: user_va_to_pa_def lookup_pa_spec [OF ok] v(1) Let_def not_le)
  define s2 where "s2 = s1\<lparr>mem := (mem s1)(?e := ?v AND NOT PTE_V)\<rparr>"
  have un: "user_vm_unmap pd va sz True s = Inr s2"
    using page_walk_lookup [OF ok va(1)] t ua fr(1) rt agree [OF rt(2) PX_less] mem_leaf [OF t] v(1)
    by (simp add: user_vm_unmap_def s2_def del: tab.simps)
  have vf: "vframe s1 s2 pd (pa # xs) (pa # xs)"
    unfolding s2_def by (rule leaf_store_vframe [OF fr(2) ok1 t1])
  have "pte_of (mem s2) pd w = (if w div PGSIZE = va div PGSIZE
      then ?v AND NOT PTE_V else pte_of (mem s) pd w)" if "w < MAXVA" for w
    using leaf_pte_of [OF ok1 t1, of "?v AND NOT PTE_V" w] same_page_PX [OF va(1) that] A(3)
    by (auto simp: s2_def eq_commute)
  moreover have "s2 = s\<lparr>mem := mem s2, g_free_mem_list := pa\<rparr>" by (simp add: s2_def s1_def)
  ultimately show ?thesis using un vf unfolding vframe_def by blast
qed

section \<open>Properties\<close>

text \<open>C1: \<^verbatim>\<open>user_vm_map\<close> and \<^verbatim>\<open>user_va_to_pa\<close> agree: mapping a range whose pages are not yet
  mapped succeeds when the free list can serve the tables, keeps the tree of tables and the free
  list well-formed, and afterwards every address of the range translates to the corresponding
  physical address while every other address below MAXVA translates as before.\<close>

theorem user_vm_map_translates:
  assumes "pmm_rel s xs" and "pt_ok (mem s) pd xs"
    and "unat va mod 4096 + unat sz = 4096 * n" and "0 < n" and "2 * n + 2 \<le> length xs"
    and "unat va + unat sz \<le> 2 ^ 38" and "perm < 1024" and "accessible perm"
    and "page_aligned pa"
    and "\<And>v. v < MAXVA \<Longrightarrow> ROUNDDOWN va PGSIZE \<le> v \<Longrightarrow> unat v < unat va + unat sz \<Longrightarrow>
           \<not> bit (pte_of (mem s) pd v) 0"
  shows "\<exists>s' ys. user_vm_map pd va sz pa perm s = Inr s' \<and> pmm_rel s' ys \<and> pt_ok (mem s') pd ys \<and>
     (\<forall>v < MAXVA. user_va_to_pa pd v s' =
        (if ROUNDDOWN va PGSIZE \<le> v \<and> unat v < unat va + unat sz
         then Inr (pa + (ROUNDDOWN v PGSIZE - ROUNDDOWN va PGSIZE) + (v AND 0xfff))
         else user_va_to_pa pd v s))"
  using user_vm_map_spec [OF assms] by (auto simp: vframe_def)

text \<open>C11: isolation of address spaces: mapping into one page directory changes no translation
  of another directory whose tables are disjoint from it, and the two stay disjoint and
  well-formed.\<close>

theorem user_vm_map_isolated:
  assumes "pmm_rel s xs" and "pt_ok (mem s) pd xs"
    and "unat va mod 4096 + unat sz = 4096 * n" and "0 < n" and "2 * n + 2 \<le> length xs"
    and "unat va + unat sz \<le> 2 ^ 38" and "perm < 1024" and "accessible perm"
    and "page_aligned pa"
    and "\<And>v. v < MAXVA \<Longrightarrow> ROUNDDOWN va PGSIZE \<le> v \<Longrightarrow> unat v < unat va + unat sz \<Longrightarrow>
           \<not> bit (pte_of (mem s) pd v) 0"
    and other: "pt_ok (mem s) pd' xs" "tables (mem s) pd \<inter> tables (mem s) pd' = {}"
  shows "\<exists>s' ys. user_vm_map pd va sz pa perm s = Inr s' \<and> pmm_rel s' ys \<and>
     pt_ok (mem s') pd' ys \<and> tables (mem s') pd \<inter> tables (mem s') pd' = {} \<and>
     (\<forall>v. user_va_to_pa pd' v s' = user_va_to_pa pd' v s)"
proof -
  from user_vm_map_spec [OF assms(1-10)] obtain s' ys where
    m: "user_vm_map pd va sz pa perm s = Inr s'" "vframe s s' pd xs ys" by blast
  note o = vframe_other [OF m(2) assms(1,2) other]
  have "user_va_to_pa pd' v s' = user_va_to_pa pd' v s" for v
    by (simp add: user_va_to_pa_def lookup_pa_spec [OF other(1)] lookup_pa_spec [OF o(2)] o(1))
  moreover have "pmm_rel s' ys" using m(2) by (simp add: vframe_def)
  ultimately show ?thesis using m(1) o(2,3) by blast
qed


text \<open>The translation of an address without a usable mapping is not the null pointer: it is
  the offset of the address within its page, so the caller's null test only catches page-aligned
  addresses.\<close>

lemma user_va_to_pa_unmapped:
  assumes "pt_ok (mem s) pd xs" and "va < MAXVA" and "pte_of (mem s) pd va AND PTE_V = 0"
  shows "user_va_to_pa pd va s = Inr (va AND 0xfff)"
  using assms(2,3) by (simp add: user_va_to_pa_def lookup_pa_spec [OF assms(1)] Let_def not_le)

section \<open>Witnesses\<close>

definition demo_vm :: pmm where
  \<comment> \<open>seven free pages; the pages at \<open>0x80300000\<close> and \<open>0x80301000\<close> are empty directories\<close>
  "demo_vm = \<lparr>mem = (\<lambda>a. if a = 0x80206000 then 0x80205000 else if a = 0x80205000 then 0x80204000
       else if a = 0x80204000 then 0x80203000 else if a = 0x80203000 then 0x80202000
       else if a = 0x80202000 then 0x80201000
       else if a = 0x80201000 then 0x80208000 else 0),
     free_mem_start_addr = 0x80200000, free_mem_end_addr = 0x88000000,
     g_free_mem_list = 0x80206000, g_mem_size = 0x8000000, count_5 = 1\<rparr>"

definition demo_free :: "u64 list" where
  "demo_free = [0x80206000, 0x80205000, 0x80204000, 0x80203000, 0x80202000, 0x80201000, 0x80208000]"

lemma demo_vm_rel: "pmm_rel demo_vm demo_free"
  by (simp add: demo_vm_def demo_free_def pmm_rel_def managed_def ram_page_def page_aligned_def
      layout_defs)

lemma demo_vm_dir:
  assumes "pd = 0x80300000 \<or> pd = 0x80301000"
  shows "pt_ok (mem demo_vm) pd demo_free" and "tables (mem demo_vm) pd = {pd}"
    and "pte_of (mem demo_vm) pd va = 0"
proof -
  have r: "ram_page pd" using assms by (auto simp: ram_page_def page_aligned_def layout_defs)
  have d: "pd \<notin> set demo_free" using assms by (auto simp: demo_free_def)
  have "mem demo_vm (entry pd i) = 0" if "i < 512" for i
  proof -
    have "in_page (entry pd i) p \<longleftrightarrow> pd = p" if "ram_page p" for p
      using in_page_entry [OF r that \<open>i < 512\<close>] .
    then have "entry pd i \<noteq> p" if "ram_page p" "p \<noteq> pd" for p
      using that in_page_self by metis
    moreover have "ram_page x \<and> x \<noteq> pd" if "x \<in> set demo_free" for x
      using demo_vm_rel d that by (auto simp: pmm_rel_def managed_def)
    ultimately have "entry pd i \<notin> set demo_free" by blast
    then show ?thesis by (simp add: demo_vm_def demo_free_def)
  qed
  then have "mem demo_vm (entry pd i) AND PTE_V = 0" if "i < 512" for i using that by simp
  from fresh_directory [of "mem demo_vm" pd, OF this r d]
  show "pt_ok (mem demo_vm) pd demo_free" and "tables (mem demo_vm) pd = {pd}"
    and "pte_of (mem demo_vm) pd va = 0" by auto
qed

definition demo_perm :: u64 where
  "demo_perm = prot_to_type (PROT_READ OR PROT_WRITE) True"

lemma demo_perm_eq: "demo_perm = 0xd6"
  by (simp add: demo_perm_def prot_to_type_def PROT_defs PTE_defs)

lemma demo_perm_ok: "demo_perm < 1024" "accessible demo_perm"
  by (simp_all add: demo_perm_eq accessible_def PTE_defs)

lemmas demo_map_hyps = demo_vm_rel demo_vm_dir(1) [of "0x80300000"] demo_perm_ok

theorem user_vm_map_translates_witness:
  "\<exists>s. user_vm_map 0x80300000 0x400000 4096 0x80500000 demo_perm demo_vm = Inr s \<and>
     user_va_to_pa 0x80300000 0x400123 s = Inr 0x80500123 \<and>
     user_va_to_pa 0x80300000 0x401123 s = user_va_to_pa 0x80300000 0x401123 demo_vm"
proof -
  have "\<exists>s' ys. user_vm_map 0x80300000 0x400000 4096 0x80500000 demo_perm demo_vm = Inr s' \<and>
     pmm_rel s' ys \<and> pt_ok (mem s') 0x80300000 ys \<and>
     (\<forall>v < MAXVA. user_va_to_pa 0x80300000 v s' =
        (if ROUNDDOWN 0x400000 PGSIZE \<le> v \<and> unat v < unat (0x400000 :: u64) + unat (4096 :: u64)
         then Inr (0x80500000 + (ROUNDDOWN v PGSIZE - ROUNDDOWN 0x400000 PGSIZE) + (v AND 0xfff))
         else user_va_to_pa 0x80300000 v demo_vm))"
    by (rule user_vm_map_translates [where n = 1 and xs = demo_free])
      (use demo_map_hyps in \<open>simp_all add: demo_vm_dir(3) page_aligned_def demo_free_def\<close>)
  then obtain s' where "user_vm_map 0x80300000 0x400000 4096 0x80500000 demo_perm demo_vm = Inr s'"
    and *: "\<forall>v < MAXVA. user_va_to_pa 0x80300000 v s' =
        (if ROUNDDOWN 0x400000 PGSIZE \<le> v \<and> unat v < unat (0x400000 :: u64) + unat (4096 :: u64)
         then Inr (0x80500000 + (ROUNDDOWN v PGSIZE - ROUNDDOWN 0x400000 PGSIZE) + (v AND 0xfff))
         else user_va_to_pa 0x80300000 v demo_vm)" by blast
  then show ?thesis
    using * [rule_format, of "0x400123"] * [rule_format, of "0x401123"]
    by (simp add: MAXVA_def ROUNDDOWN_def PGSIZE_def)
qed

theorem user_vm_map_isolated_witness:
  "\<exists>s. user_vm_map 0x80300000 0x400000 4096 0x80500000 demo_perm demo_vm = Inr s \<and>
     user_va_to_pa 0x80301000 0x400123 s = user_va_to_pa 0x80301000 0x400123 demo_vm"
proof -
  have "\<exists>s' ys. user_vm_map 0x80300000 0x400000 4096 0x80500000 demo_perm demo_vm = Inr s' \<and>
     pmm_rel s' ys \<and> pt_ok (mem s') 0x80301000 ys \<and>
     tables (mem s') 0x80300000 \<inter> tables (mem s') 0x80301000 = {} \<and>
     (\<forall>v. user_va_to_pa 0x80301000 v s' = user_va_to_pa 0x80301000 v demo_vm)"
    by (rule user_vm_map_isolated [where n = 1 and xs = demo_free])
      (use demo_map_hyps in \<open>simp_all add: demo_vm_dir page_aligned_def demo_free_def [symmetric]\<close>,
       simp add: demo_free_def)
  then show ?thesis by blast
qed


lemma user_va_to_pa_unmapped_example:
  "user_va_to_pa 0x80300000 0x400123 demo_vm = Inr 0x123"
  using user_va_to_pa_unmapped [OF demo_vm_dir(1), of "0x80300000" "0x400123"]
  by (simp add: demo_vm_dir(3) MAXVA_def)

end
