(* ===== verification/UserMem.thy ===== *)
theory UserMem
  imports PageTable CString
begin

text \<open>
  Byte accesses of the kernel to physical memory: strings and buffers of user programs, reached through
  \<^verbatim>\<open>user_va_to_pa\<close>.  A byte is the part of the word that holds it, in little-endian order.
\<close>

section \<open>Bytes in words\<close>

definition word_addr :: "u64 \<Rightarrow> u64" where
  "word_addr a = a - a mod 8"

definition byte_shift :: "u64 \<Rightarrow> nat" where
  "byte_shift a = 8 * unat (a mod 8)"

definition load_byte :: "u64 \<Rightarrow> 'z pmm_scheme \<Rightarrow> kerr + u8" where
  "load_byte a s = kbind (load (word_addr a) s) (\<lambda>w. Inr (ucast (drop_bit (byte_shift a) w)))"

definition set_byte :: "u64 \<Rightarrow> nat \<Rightarrow> u8 \<Rightarrow> u64" where
  "set_byte w k b = w AND NOT (push_bit k (mask 8)) OR push_bit k (ucast b)"

definition store_byte :: "u64 \<Rightarrow> u8 \<Rightarrow> 'z pmm_scheme \<Rightarrow> kerr + 'z pmm_scheme" where
  "store_byte a b s =
     kbind (load (word_addr a) s) (\<lambda>w. store (word_addr a) (set_byte w (byte_shift a) b) s)"

section \<open>Buffers and strings\<close>

fun read_bytes :: "nat \<Rightarrow> u64 \<Rightarrow> 'z pmm_scheme \<Rightarrow> kerr + u8 list" where
  "read_bytes 0 a s = Inr []"
| "read_bytes (Suc n) a s = kbind (load_byte a s) (\<lambda>b. kbind (read_bytes n (a + 1) s) (\<lambda>bs. Inr (b # bs)))"

fun write_bytes :: "u64 \<Rightarrow> u8 list \<Rightarrow> 'z pmm_scheme \<Rightarrow> kerr + 'z pmm_scheme" where
  "write_bytes a [] s = Inr s"
| "write_bytes a (b # bs) s = kbind (store_byte a b s) (\<lambda>s. write_bytes (a + 1) bs s)"

lemma unat_mod8: "unat (a mod 8) = unat a mod 8" for a :: u64
  by (simp add: unat_mod_distrib)

lemma unat_word_addr: "unat (word_addr a) = unat a div 8 * 8"
proof -
  have "unat a mod 8 \<le> unat a" by simp
  then have "unat (word_addr a) = unat a - unat a mod 8"
    unfolding word_addr_def by (subst unat_sub) (simp_all add: word_le_nat_alt unat_mod8)
  then show ?thesis by (simp add: minus_mod_eq_div_mult)
qed

lemma word_addr_eqI: "word_addr a = word_addr b \<Longrightarrow> byte_shift a = byte_shift b \<Longrightarrow> a = b"
proof -
  assume "word_addr a = word_addr b" "byte_shift a = byte_shift b"
  then have "unat a div 8 * 8 = unat b div 8 * 8" and "unat a mod 8 = unat b mod 8"
    by (metis unat_word_addr, simp add: byte_shift_def unat_mod8)
  then show ?thesis by (metis div_mult_mod_eq word_unat_eq_iff)
qed

lemma byte_shift_less: "byte_shift a < 64" "byte_shift a = byte_shift b \<or> byte_shift a + 8 \<le> byte_shift b \<or> byte_shift b + 8 \<le> byte_shift a"
proof -
  define x y where "x = unat a mod 8" and "y = unat b mod 8"
  have "x < 8" "8 * x = 8 * y \<or> 8 * x + 8 \<le> 8 * y \<or> 8 * y + 8 \<le> 8 * x" by (simp add: x_def) arith
  then show "byte_shift a < 64" "byte_shift a = byte_shift b \<or> byte_shift a + 8 \<le> byte_shift b \<or> byte_shift b + 8 \<le> byte_shift a"
    by (simp_all add: byte_shift_def unat_mod8 x_def y_def)
qed

lemma load_byte_bound: "load_byte a s = Inr b \<Longrightarrow> unat a < 2281701376 + 8"
proof -
  assume "load_byte a s = Inr b"
  then have "word_addr a < PHYS_TOP" by (auto simp: load_byte_def load_def mem_ok_def kbind_eq_Inr split: if_splits)
  then have "unat a div 8 * 8 < 2281701376" by (simp add: word_less_nat_alt unat_word_addr)
  moreover have "unat a = unat a div 8 * 8 + unat a mod 8" "unat a mod 8 < 8" by simp_all
  ultimately show ?thesis by linarith
qed

function read_cstring :: "u64 \<Rightarrow> 'z pmm_scheme \<Rightarrow> kerr + u8 list" where
  \<comment> \<open>the bytes up to the first NUL\<close>
  "read_cstring a s =
     kbind (load_byte a s) (\<lambda>c. if c = 0 then Inr [] else kbind (read_cstring (a + 1) s) (\<lambda>cs. Inr (c # cs)))"
  by pat_completeness auto
termination
proof (relation "measure (\<lambda>(a, s). 2281701376 + 8 - unat a)", goal_cases)
  case (2 a s c)
  from load_byte_bound [OF this(1)] have "unat a < 2281701376 + 8" .
  moreover from this have "unat (a + 1) = unat a + 1" by (subst unat_plus_small) simp_all
  ultimately show ?case by simp
qed simp

declare read_cstring.simps [simp del]

section \<open>Memory as bytes\<close>

definition byte_at :: "(u64 \<Rightarrow> u64) \<Rightarrow> u64 \<Rightarrow> u8" where
  "byte_at m a = ucast (drop_bit (byte_shift a) (m (word_addr a)))"

definition byte_ok :: "u64 \<Rightarrow> bool" where
  "byte_ok a \<longleftrightarrow> mem_ok (word_addr a)"

lemma load_byte_eq: "load_byte a s = (if byte_ok a then Inr (byte_at (mem s) a) else Inl (Fault ''load''))"
  by (simp add: load_byte_def load_def byte_ok_def byte_at_def)

lemma ucast_drop_set_byte:
  assumes "k \<le> 56"
  shows "ucast (drop_bit k (set_byte w k b)) = b"
    and "k + 8 \<le> j \<or> j + 8 \<le> k \<Longrightarrow> (ucast (drop_bit j (set_byte w k b)) :: u8) = ucast (drop_bit j w)"
proof -
  show "ucast (drop_bit k (set_byte w k b)) = b"
    using assms by (intro bit_word_eqI) (auto simp: set_byte_def bit_simps)
  show "(ucast (drop_bit j (set_byte w k b)) :: u8) = ucast (drop_bit j w)" if "k + 8 \<le> j \<or> j + 8 \<le> k"
    using that by (intro bit_word_eqI) (auto simp: set_byte_def bit_simps dest: bit_imp_le_length)
qed

lemma store_byte_spec:
  assumes "byte_ok a"
  shows "\<exists>m. store_byte a b s = Inr (s\<lparr>mem := m\<rparr>) \<and> byte_at m = (byte_at (mem s))(a := b) \<and>
           (\<forall>x. x \<noteq> word_addr a \<longrightarrow> m x = mem s x)"
proof -
  let ?m = "(mem s)(word_addr a := set_byte (mem s (word_addr a)) (byte_shift a) b)"
  have k: "byte_shift a \<le> 56" using byte_shift_less(1) [of a] by (simp add: byte_shift_def)
  have "byte_at ?m x = ((byte_at (mem s))(a := b)) x" for x
  proof (cases "word_addr x = word_addr a")
    case True
    then show ?thesis
      using ucast_drop_set_byte [OF k] byte_shift_less(2) [of a x] word_addr_eqI [of x a]
      by (cases "x = a") (auto simp: byte_at_def)
  qed (auto simp: byte_at_def)
  then show ?thesis
    using assms by (auto simp: store_byte_def load_def store_def byte_ok_def fun_eq_iff)
qed

end
