(* ===== verification/Elf.thy ===== *)
theory Elf
  imports Process UserMem
begin

text \<open>
  The ELF loader (\<^verbatim>\<open>kernel/elf.c\<close>): headers, segments, the symbol table of the backtrace system call and the
  decoder of the line number program in \<^verbatim>\<open>.debug_line\<close>.  The arrays \<^verbatim>\<open>sh\<close>, \<^verbatim>\<open>id\<close> and \<^verbatim>\<open>debug\<close> are state.  The
  pointers \<^verbatim>\<open>dir\<close>, \<^verbatim>\<open>file\<close> and \<^verbatim>\<open>line\<close> of a process point into \<^verbatim>\<open>debug\<close>; the tables there are kept as lists
  of their entries, with string pointers as offsets in \<^verbatim>\<open>debug\<close>.
\<close>

section \<open>State\<close>

record symbol =
  sy_nm :: cstring
  sy_offset :: u64

record addr_line =
  al_addr :: u64
  al_line :: u64
  al_file :: u64

record line_table =
  lt_dir :: "nat list"                \<comment> \<open>\<^verbatim>\<open>p->dir\<close>\<close>
  lt_file :: "(u64 \<times> nat) list"       \<comment> \<open>\<^verbatim>\<open>p->file\<close>: directory index and name\<close>
  lt_line :: "addr_line list"         \<comment> \<open>\<^verbatim>\<open>p->line[0..line_ind-1]\<close>\<close>

record 'h elfk = "'h kernel" +
  sh_tab :: "nat \<Rightarrow> symbol"            \<comment> \<open>\<^verbatim>\<open>sh[64]\<close>\<close>
  id_tab :: "nat \<Rightarrow> u64"               \<comment> \<open>\<^verbatim>\<open>id[64]\<close>\<close>
  debug_buf :: bytes                  \<comment> \<open>\<^verbatim>\<open>debug[30000]\<close>\<close>
  debug_addr :: u64                   \<comment> \<open>the address of \<^verbatim>\<open>debug\<close>\<close>
  debug_length :: u64
  debug_tab :: line_table             \<comment> \<open>the tables in \<^verbatim>\<open>debug\<close> behind the section\<close>

datatype elf_status = EL_OK | EL_EIO | EL_ENOMEM | EL_NOTELF | EL_ERR

definition ELF_MAGIC :: u32 where "ELF_MAGIC = 0x464C457F"
definition ELF_PROG_LOAD :: u32 where "ELF_PROG_LOAD = 1"
definition SEGMENT_READABLE :: u32 where "SEGMENT_READABLE = 4"
definition SEGMENT_EXECUTABLE :: u32 where "SEGMENT_EXECUTABLE = 1"
definition SEGMENT_WRITABLE :: u32 where "SEGMENT_WRITABLE = 2"
definition FUNC :: u8 where "FUNC = 0x12"
definition DEBUG_SIZE :: nat where "DEBUG_SIZE = 30000"

record elf_header =
  eh_magic :: u32
  eh_entry :: u64
  eh_phoff :: u64
  eh_shoff :: u64
  eh_phnum :: u16
  eh_shentsize :: u16
  eh_shnum :: u16
  eh_shstrndx :: u16

record elf_prog_header =
  ph_type :: u32
  ph_flags :: u32
  ph_off :: u64
  ph_vaddr :: u64
  ph_filesz :: u64
  ph_memsz :: u64

record elf_sect_header =
  sect_name :: u32
  sect_offset :: u64
  sect_size :: u64

record elf_sym =
  sym_name :: u32
  sym_info :: u8
  sym_value :: u64

definition rdh :: "bytes \<Rightarrow> nat \<Rightarrow> u16" where
  "rdh b p = ucast (b p) OR push_bit 8 (ucast (b (p + 1)))"

definition from_list :: "u8 list \<Rightarrow> bytes" where
  \<comment> \<open>a local buffer after a read; bytes that were not stored read as 0\<close>
  "from_list l = (\<lambda>k. if k < length l then l ! k else 0)"

definition to_elf_header :: "bytes \<Rightarrow> elf_header" where
  "to_elf_header b = \<lparr>eh_magic = rdw b 0, eh_entry = rdd b 24, eh_phoff = rdd b 32, eh_shoff = rdd b 40,
     eh_phnum = rdh b 56, eh_shentsize = rdh b 58, eh_shnum = rdh b 60, eh_shstrndx = rdh b 62\<rparr>"

definition to_prog_header :: "bytes \<Rightarrow> elf_prog_header" where
  "to_prog_header b = \<lparr>ph_type = rdw b 0, ph_flags = rdw b 4, ph_off = rdd b 8, ph_vaddr = rdd b 16,
     ph_filesz = rdd b 32, ph_memsz = rdd b 40\<rparr>"

definition to_sect_header :: "bytes \<Rightarrow> elf_sect_header" where
  "to_sect_header b = \<lparr>sect_name = rdw b 0, sect_offset = rdd b 24, sect_size = rdd b 32\<rparr>"

definition to_elf_sym :: "bytes \<Rightarrow> elf_sym" where
  "to_elf_sym b = \<lparr>sym_name = rdw b 0, sym_info = b 4, sym_value = rdd b 8\<rparr>"

section \<open>Reading and loading segments\<close>

definition elf_alloc_mb :: "u64 \<Rightarrow> u64 \<Rightarrow> u64 \<Rightarrow> 'z pmm_scheme \<Rightarrow> kerr + (u64 \<times> 'z pmm_scheme)" where
  \<comment> \<open>\<open>pt\<close> is the page table of the process\<close>
  "elf_alloc_mb pt elf_va sz s =
     kbind (kassert (sz < 2 * PGSIZE) ''size < 2 * PGSIZE'') (\<lambda>_.
     kbind (page_walk pt elf_va True s) (\<lambda>(pte, s).
     kbind (load pte s) (\<lambda>v.
     kbind (if v AND PTE_V \<noteq> 0 then user_vm_unmap pt elf_va PGSIZE True s else Inr s) (\<lambda>s.
     if sz < PGSIZE then
       kbind (alloc_page s) (\<lambda>(pa, s).
         if pa = 0 then Inl (Panic ''uvmalloc mem alloc falied'')
         else kbind (memset_page pa s) (\<lambda>s.
              kbind (user_vm_map pt elf_va PGSIZE pa
                       (prot_to_type (PROT_WRITE OR PROT_READ OR PROT_EXEC) True) s) (\<lambda>s. Inr (pa, s))))
     else
       kbind (alloc_two_page s) (\<lambda>(pa, s).
         if pa = 0 then Inl (Panic ''uvmalloc mem alloc falied'')
         else kbind (memset_page pa s) (\<lambda>s.
              kbind (memset_page (pa + PGSIZE) s) (\<lambda>s.
              kbind (user_vm_map pt elf_va (2 * PGSIZE) pa
                       (prot_to_type (PROT_WRITE OR PROT_READ OR PROT_EXEC) True) s) (\<lambda>s. Inr (pa, s)))))))))"

definition elf_fpread ::
  "'h frontend \<Rightarrow> u64 \<Rightarrow> u64 \<Rightarrow> u64 \<Rightarrow> ('h, 'z) hfs_scheme \<Rightarrow> kerr + (u64 \<times> u8 list \<times> ('h, 'z) hfs_scheme)" where
  \<comment> \<open>\<open>f\<close> is \<^verbatim>\<open>msg->f\<close>; the result and the bytes stored at \<^verbatim>\<open>dest\<close>\<close>
  "elf_fpread fe f nb offset s =
     kbind (nonnull f) (\<lambda>_.
     kbind (vfs_lseek fe f (sint offset) 0 s) (\<lambda>(_, s).
     kbind (vfs_read fe f (sint nb) s) (\<lambda>(r, out, s). Inr (word_of_int r, out, s))))"

definition elf_init ::
  "'h frontend \<Rightarrow> u64 \<Rightarrow> ('h, 'z) hfs_scheme \<Rightarrow> kerr + (elf_status \<times> elf_header \<times> ('h, 'z) hfs_scheme)" where
  "elf_init fe f s =
     kbind (elf_fpread fe f 64 0 s) (\<lambda>(r, out, s).
       let ehdr = to_elf_header (from_list out) in
       if r \<noteq> 64 then Inr (EL_EIO, ehdr, s)
       else if eh_magic ehdr \<noteq> ELF_MAGIC then Inr (EL_NOTELF, ehdr, s)
       else Inr (EL_OK, ehdr, s))"

definition record_segment ::
  "pref \<Rightarrow> elf_prog_header \<Rightarrow> ('h, 'z) kernel_scheme \<Rightarrow> kerr + ('h, 'z) kernel_scheme" where
  \<comment> \<open>the end of the loop body of \<^verbatim>\<open>elf_load\<close>; \<open>j\<close> is 256, past the page, when all regions are in use\<close>
  "record_segment p ph s =
     (let info = mapped_info (pcb s p);
          j = (case find (\<lambda>j. mem s (region_addr info j) = 0) [0..<256] of Some j \<Rightarrow> j | None \<Rightarrow> 256) in
      kbind (if ph_flags ph = SEGMENT_READABLE OR SEGMENT_EXECUTABLE then Inr CODE_SEGMENT
             else if ph_flags ph = SEGMENT_READABLE OR SEGMENT_WRITABLE then Inr DATA_SEGMENT
             else Inl (Panic ''unknown program segment encountered'')) (\<lambda>ty.
      kbind (set_region info j \<lparr>mr_va = ph_vaddr ph, mr_npages = 1, mr_seg_type = ty\<rparr> s) (\<lambda>s.
        Inr (upd_proc p (\<lambda>q. q\<lparr>total_mapped_region := total_mapped_region q + 1\<rparr>) s))))"

fun elf_load_segments ::
  "nat \<Rightarrow> int \<Rightarrow> 'h frontend \<Rightarrow> u64 \<Rightarrow> pref \<Rightarrow> ('h, 'z) kernel_scheme \<Rightarrow>
     kerr + (elf_status \<times> ('h, 'z) kernel_scheme)" where
  \<comment> \<open>the next \<open>n\<close> program headers, from file offset \<open>off\<close> on\<close>
  "elf_load_segments 0 off fe f p s = Inr (EL_OK, s)"
| "elf_load_segments (Suc n) off fe f p s =
     kbind (elf_fpread fe f 56 (word_of_int off) s) (\<lambda>(r, out, s).
       if r \<noteq> 56 then Inr (EL_EIO, s)
       else let ph = to_prog_header (from_list out) in
         if ph_type ph \<noteq> ELF_PROG_LOAD then elf_load_segments n (off + 56) fe f p s
         else if ph_memsz ph < ph_filesz ph then Inr (EL_ERR, s)
         else if ph_vaddr ph + ph_memsz ph < ph_vaddr ph then Inr (EL_ERR, s)
         else
           kbind (elf_alloc_mb (pagetable (pcb s p)) (ph_vaddr ph) (ph_memsz ph) s) (\<lambda>(dest, s).
           kbind (elf_fpread fe f (ph_memsz ph) (ph_off ph) s) (\<lambda>(r, out, s).
           kbind (write_bytes dest out s) (\<lambda>s.
             if r \<noteq> ph_memsz ph then Inr (EL_EIO, s)
             else kbind (record_segment p ph s) (\<lambda>s. elf_load_segments n (off + 56) fe f p s)))))"

definition elf_load ::
  "'h frontend \<Rightarrow> u64 \<Rightarrow> pref \<Rightarrow> elf_header \<Rightarrow> ('h, 'z) kernel_scheme \<Rightarrow> kerr + (elf_status \<times> ('h, 'z) kernel_scheme)" where
  "elf_load fe f p ehdr s = elf_load_segments (unat (eh_phnum ehdr)) (sint (ucast (eh_phoff ehdr) :: u32)) fe f p s"

section \<open>The symbol table\<close>

definition cstr_of :: "bytes \<Rightarrow> nat \<Rightarrow> cstring" where
  \<comment> \<open>the C string in the first \<open>n\<close> bytes, up to the first NUL\<close>
  "cstr_of b n = takeWhile (\<lambda>c. c \<noteq> 0) (map b [0..<n])"

fun find_sections ::
  "nat \<Rightarrow> nat \<Rightarrow> 'h frontend \<Rightarrow> u64 \<Rightarrow> elf_header \<Rightarrow> u8 list \<Rightarrow>
     elf_sect_header \<times> elf_sect_header \<Rightarrow> ('h, 'z) hfs_scheme \<Rightarrow>
     kerr + ((elf_sect_header \<times> elf_sect_header) \<times> ('h, 'z) hfs_scheme)" where
  \<comment> \<open>the loop of \<^verbatim>\<open>elf_copyhead\<close> over the next \<open>n\<close> section headers; \<open>strs\<close> is the section name table\<close>
  "find_sections 0 i fe f ehdr strs r s = Inr (r, s)"
| "find_sections (Suc n) i fe f ehdr strs (symh, strh) s =
     kbind (elf_fpread fe f 64 (eh_shoff ehdr + of_nat i * ucast (eh_shentsize ehdr)) s) (\<lambda>(_, out, s).
       let tp = to_sect_header (from_list out);
           name = takeWhile (\<lambda>c. c \<noteq> 0) (drop (unat (sect_name tp)) strs) in
       find_sections n (Suc i) fe f ehdr strs
         (if name = [46, 115, 121, 109, 116, 97, 98] then (tp, strh)
          else if name = [46, 115, 116, 114, 116, 97, 98] then (symh, tp) else (symh, strh)) s)"

fun copy_symbols ::
  "nat \<Rightarrow> nat \<Rightarrow> nat \<Rightarrow> 'h frontend \<Rightarrow> u64 \<Rightarrow> elf_sect_header \<Rightarrow> elf_sect_header \<Rightarrow> ('h, 'z) elfk_scheme \<Rightarrow>
     kerr + ('h, 'z) elfk_scheme" where
  \<comment> \<open>the loop over the next \<open>n\<close> symbols from \<open>i\<close> on; \<open>j\<close> is the next free entry of \<^verbatim>\<open>sh\<close>\<close>
  "copy_symbols 0 i j fe f symh strh s = Inr s"
| "copy_symbols (Suc n) i j fe f symh strh s =
     kbind (elf_fpread fe f 24 (sect_offset symh + of_nat i * 24) s) (\<lambda>(_, out, s).
       let st = to_elf_sym (from_list out) in
       if i \<ge> 64 then Inl (Fault ''id'')
       else
         let s = s\<lparr>id_tab := (id_tab s)(i := ucast (sym_info st))\<rparr> in
         kbind (if sym_info st = FUNC then
                  kbind (elf_fpread fe f 32 (sect_offset strh + ucast (sym_name st)) s) (\<lambda>(_, out, s).
                    if j \<ge> 64 \<or> length (cstr_of (from_list out) 32) \<ge> 32 then Inl (Fault ''sh'')
                    else Inr (Suc j, s\<lparr>sh_tab := (sh_tab s)(j :=
                           \<lparr>sy_nm = cstr_of (from_list out) 32, sy_offset = sym_value st\<rparr>)\<rparr>))
                else Inr (j, s)) (\<lambda>(j, s).
           if j \<ge> 64 then Inl (Fault ''sh'')
           else copy_symbols n (Suc i) j fe f symh strh
                  (s\<lparr>sh_tab := (sh_tab s)(j := (sh_tab s j)\<lparr>sy_offset := 1\<rparr>)\<rparr>)))"

definition no_section :: elf_sect_header where
  \<comment> \<open>the local headers before the loop, which the source leaves uninitialised\<close>
  "no_section = \<lparr>sect_name = 0, sect_offset = 0, sect_size = 0\<rparr>"

definition elf_copyhead ::
  "'h frontend \<Rightarrow> u64 \<Rightarrow> elf_header \<Rightarrow> ('h, 'z) elfk_scheme \<Rightarrow> kerr + (elf_status \<times> ('h, 'z) elfk_scheme)" where
  "elf_copyhead fe f ehdr s =
     kbind (elf_fpread fe f 64 (eh_shoff ehdr + ucast (eh_shstrndx ehdr) * 64) s) (\<lambda>(_, out, s).
     let shr = to_sect_header (from_list out) in
     kbind (elf_fpread fe f (sect_size shr) (sect_offset shr) s) (\<lambda>(_, strs, s).
     kbind (find_sections (unat (eh_shnum ehdr)) 0 fe f ehdr strs (no_section, no_section) s) (\<lambda>((symh, strh), s).
     kbind (copy_symbols (unat (sect_size symh div 24)) 0 0 fe f symh strh s) (\<lambda>s. Inr (EL_OK, s)))))"

section \<open>Sorting the symbols\<close>

definition swap_sym :: "nat \<Rightarrow> (nat \<Rightarrow> symbol) \<Rightarrow> nat \<Rightarrow> symbol" where
  "swap_sym j sh = sh(j := sh (j + 1), j + 1 := sh j)"

fun bubble :: "nat \<Rightarrow> nat \<Rightarrow> (nat \<Rightarrow> symbol) \<Rightarrow> nat \<Rightarrow> symbol" where
  \<comment> \<open>the inner loop, from \<open>j\<close> on, \<open>n\<close> comparisons\<close>
  "bubble 0 j sh = sh"
| "bubble (Suc n) j sh =
     bubble n (Suc j) (if sy_offset (sh j) > sy_offset (sh (j + 1)) then swap_sym j sh else sh)"

fun bubble_passes :: "nat \<Rightarrow> nat \<Rightarrow> (nat \<Rightarrow> symbol) \<Rightarrow> nat \<Rightarrow> symbol" where
  \<comment> \<open>the outer loop: \<open>k\<close> more passes, the next one over \<open>n\<close> neighbours\<close>
  "bubble_passes 0 n sh = sh"
| "bubble_passes (Suc k) n sh = bubble_passes k (n - 1) (bubble n 0 sh)"

definition sym_count :: "(nat \<Rightarrow> symbol) \<Rightarrow> nat" where
  \<comment> \<open>\<^verbatim>\<open>len\<close>: the index of the end marker, 0 when there is none\<close>
  "sym_count sh = (case find (\<lambda>i. sy_offset (sh i) = 1) [0..<64] of Some i \<Rightarrow> i | None \<Rightarrow> 0)"

definition sort_sym :: "(nat \<Rightarrow> symbol) \<Rightarrow> nat \<Rightarrow> symbol" where
  "sort_sym sh = (let n = sym_count sh in bubble_passes (n - 1) (n - 1) sh)"


section \<open>The line number program\<close>

text \<open>
  The decoder reads the \<open>len\<close> bytes of the section in \<^verbatim>\<open>debug\<close>; what lies behind them are the tables it
  builds, and a program that reads on there is a fault.
\<close>

definition dbg :: "bytes \<Rightarrow> nat \<Rightarrow> nat \<Rightarrow> kerr + u8" where
  "dbg b len off = (if off < len then Inr (b off) else Inl (Fault ''debug_line''))"

function uleb_from :: "bytes \<Rightarrow> nat \<Rightarrow> nat \<Rightarrow> nat \<Rightarrow> u64 \<Rightarrow> kerr + (u64 \<times> nat)" where
  \<comment> \<open>the loop of \<^verbatim>\<open>read_uleb128\<close>; the value and the offset behind it\<close>
  "uleb_from b len off shift v =
     kbind (dbg b len off) (\<lambda>x.
       let v = v OR push_bit shift (ucast x AND 0x7F) in
       if x AND 0x80 = 0 then Inr (v, off + 1) else uleb_from b len (off + 1) (shift + 7) v)"
  by pat_completeness auto
termination
  by (relation "measure (\<lambda>(b, len, off, shift, v). len - off)") (auto simp: dbg_def split: if_splits)

declare uleb_from.simps [simp del]

definition read_uleb128 :: "bytes \<Rightarrow> nat \<Rightarrow> nat \<Rightarrow> kerr + (u64 \<times> nat)" where
  "read_uleb128 b len off = uleb_from b len off 0 0"

function sleb_from :: "bytes \<Rightarrow> nat \<Rightarrow> nat \<Rightarrow> nat \<Rightarrow> u64 \<Rightarrow> kerr + (u64 \<times> nat)" where
  \<comment> \<open>\<^verbatim>\<open>1 << shift\<close> is an \<^verbatim>\<open>int\<close>; the machine takes the shift amount modulo 32\<close>
  "sleb_from b len off shift v =
     kbind (dbg b len off) (\<lambda>x.
       let v = v OR push_bit shift (ucast x AND 0x7F); shift = shift + 7 in
       if x AND 0x80 = 0 then
         Inr (if shift < 64 \<and> x AND 0x40 \<noteq> 0
              then v OR scast (- push_bit (shift mod 32) 1 :: u32) else v, off + 1)
       else sleb_from b len (off + 1) shift v)"
  by pat_completeness auto
termination
  by (relation "measure (\<lambda>(b, len, off, shift, v). len - off)") (auto simp: dbg_def split: if_splits)

declare sleb_from.simps [simp del]

definition read_sleb128 :: "bytes \<Rightarrow> nat \<Rightarrow> nat \<Rightarrow> kerr + (u64 \<times> nat)" where
  "read_sleb128 b len off = sleb_from b len off 0 0"

fun read_le :: "nat \<Rightarrow> bytes \<Rightarrow> nat \<Rightarrow> nat \<Rightarrow> nat \<Rightarrow> u64 \<Rightarrow> kerr + (u64 \<times> nat)" where
  "read_le 0 b len off shift v = Inr (v, off)"
| "read_le (Suc n) b len off shift v =
     kbind (dbg b len off) (\<lambda>x. read_le n b len (off + 1) (shift + 8) (v OR push_bit shift (ucast x)))"

definition read_uint64 :: "bytes \<Rightarrow> nat \<Rightarrow> nat \<Rightarrow> kerr + (u64 \<times> nat)" where
  "read_uint64 b len off = read_le 8 b len off 0 0"

definition read_uint32 :: "bytes \<Rightarrow> nat \<Rightarrow> nat \<Rightarrow> kerr + (u64 \<times> nat)" where
  "read_uint32 b len off = read_le 4 b len off 0 0"

definition read_uint16 :: "bytes \<Rightarrow> nat \<Rightarrow> nat \<Rightarrow> kerr + (u64 \<times> nat)" where
  "read_uint16 b len off = read_le 2 b len off 0 0"

function skip_string :: "bytes \<Rightarrow> nat \<Rightarrow> nat \<Rightarrow> kerr + nat" where
  \<comment> \<open>\<^verbatim>\<open>while (*off != 0) off++; off++\<close>\<close>
  "skip_string b len off =
     kbind (dbg b len off) (\<lambda>x. if x \<noteq> 0 then skip_string b len (off + 1) else Inr (off + 1))"
  by pat_completeness auto
termination
  by (relation "measure (\<lambda>(b, len, off). len - off)") (auto simp: dbg_def split: if_splits)

declare skip_string.simps [simp del]

lemma uleb_from_less: "uleb_from b len off shift v = Inr (w, off') \<Longrightarrow> off < off'"
proof (induction b len off shift v rule: uleb_from.induct)
  case (1 b len off shift v)
  from "1.prems" show ?case
    by (subst (asm) uleb_from.simps) (auto simp: kbind_eq_Inr Let_def split: if_splits dest!: "1.IH" [OF _ refl])
qed

lemma sleb_from_less: "sleb_from b len off shift v = Inr (w, off') \<Longrightarrow> off < off'"
proof (induction b len off shift v rule: sleb_from.induct)
  case (1 b len off shift v)
  from "1.prems" show ?case
    by (subst (asm) sleb_from.simps) (auto simp: kbind_eq_Inr Let_def split: if_splits dest!: "1.IH" [OF _ refl refl])
qed

lemma read_le_le: "read_le n b len off shift v = Inr (w, off') \<Longrightarrow> off \<le> off'"
  by (induction n arbitrary: off shift v) (auto simp: kbind_eq_Inr, fastforce)

lemma skip_string_less: "skip_string b len off = Inr off' \<Longrightarrow> off < off'"
proof (induction b len off rule: skip_string.induct)
  case (1 b len off)
  from "1.prems" show ?case
    by (subst (asm) skip_string.simps) (auto simp: kbind_eq_Inr split: if_splits dest!: "1.IH")
qed

lemma dbg_less: "dbg b len off = Inr x \<Longrightarrow> off < len"
  by (simp add: dbg_def split: if_splits)

lemma read_leb_less:
  "read_uleb128 b len off = Inr (w, off') \<Longrightarrow> off < off'" "read_sleb128 b len off = Inr (w, off') \<Longrightarrow> off < off'"
  "read_uint64 b len off = Inr (w, off') \<Longrightarrow> off \<le> off'" "read_uint16 b len off = Inr (w, off') \<Longrightarrow> off \<le> off'"
  by (auto simp: read_uleb128_def read_sleb128_def read_uint64_def read_uint16_def
      dest: uleb_from_less sleb_from_less read_le_le)

function read_dirs :: "bytes \<Rightarrow> nat \<Rightarrow> nat \<Rightarrow> nat list \<Rightarrow> kerr + (nat list \<times> nat)" where
  \<comment> \<open>the directory names of a compilation unit; \<^verbatim>\<open>p->dir\<close> has room for 64\<close>
  "read_dirs b len off dirs =
     kbind (dbg b len off) (\<lambda>x.
       if x = 0 then Inr (dirs, off + 1)
       else if length dirs \<ge> 64 then Inl (Fault ''dir'')
       else kbind (skip_string b len off) (\<lambda>off'. read_dirs b len off' (dirs @ [off])))"
  by pat_completeness auto
termination
  by (relation "measure (\<lambda>(b, len, off, dirs). len - off)") (auto dest!: skip_string_less dbg_less)

declare read_dirs.simps [simp del]

function read_files :: "bytes \<Rightarrow> nat \<Rightarrow> nat \<Rightarrow> nat \<Rightarrow> (u64 \<times> nat) list \<Rightarrow> kerr + ((u64 \<times> nat) list \<times> nat)" where
  "read_files b len dir_base off fs =
     kbind (dbg b len off) (\<lambda>x.
       if x = 0 then Inr (fs, off + 1)
       else if length fs \<ge> 64 then Inl (Fault ''file'')
       else kbind (skip_string b len off) (\<lambda>o1.
            kbind (read_uleb128 b len o1) (\<lambda>(dir, o2).
            kbind (read_uleb128 b len o2) (\<lambda>(_, o3).
            kbind (read_uleb128 b len o3) (\<lambda>(_, o4).
              read_files b len dir_base o4 (fs @ [(dir - 1 + of_nat dir_base, off)]))))))"
  by pat_completeness auto
termination
  by (relation "measure (\<lambda>(b, len, dir_base, off, fs). len - off)")
    (auto dest!: skip_string_less dbg_less read_leb_less(1))

declare read_files.simps [simp del]

record debug_header =
  dh_min_instruction_length :: u8
  dh_line_base :: int
  dh_line_range :: u8
  dh_opcode_base :: u8

definition to_debug_header :: "bytes \<Rightarrow> nat \<Rightarrow> debug_header" where
  "to_debug_header b off = \<lparr>dh_min_instruction_length = b (off + 10), dh_line_base = sint (b (off + 12)),
     dh_line_range = b (off + 13), dh_opcode_base = b (off + 14)\<rparr>"

definition push_row :: "nat \<Rightarrow> nat \<Rightarrow> addr_line \<Rightarrow> addr_line list \<Rightarrow> kerr + addr_line list" where
  \<comment> \<open>enter a row, in place of the last one when that has the same address; the rows follow the 64 pointers
     and 64 file entries behind the section\<close>
  "push_row len file_base regs ls =
     (let ls = (if ls \<noteq> [] \<and> al_addr (last ls) = al_addr regs then butlast ls else ls) in
      if (len + 7) div 8 * 8 + 1536 + 24 * (length ls + 1) > DEBUG_SIZE then Inl (Fault ''line'')
      else Inr (ls @ [regs\<lparr>al_file := al_file regs + of_nat file_base - 1\<rparr>]))"

definition advance :: "debug_header \<Rightarrow> int \<Rightarrow> kerr + (u64 \<times> u64)" where
  \<comment> \<open>the address and line increments of a special opcode\<close>
  "advance dh adjust =
     (if dh_line_range dh = 0 then Inl (Fault ''div'')
      else Inr (word_of_int (cdiv adjust (uint (dh_line_range dh)) * uint (dh_min_instruction_length dh)),
                word_of_int (dh_line_base dh + cmod adjust (uint (dh_line_range dh)))))"

definition line_op ::
  "bytes \<Rightarrow> nat \<Rightarrow> debug_header \<Rightarrow> nat \<Rightarrow> nat \<Rightarrow> addr_line \<Rightarrow> addr_line list \<Rightarrow>
     kerr + (bool \<times> nat \<times> addr_line \<times> addr_line list)" where
  \<comment> \<open>one instruction: whether it ends the sequence, the offset behind it, the registers and the rows\<close>
  "line_op b len dh file_base off regs ls =
     kbind (dbg b len off) (\<lambda>op.
     let off = off + 1 in
     if op = 0 then
       kbind (read_uleb128 b len off) (\<lambda>(_, off).
       kbind (dbg b len off) (\<lambda>op.
       let off = off + 1 in
       if op = 1 then kbind (push_row len file_base regs ls) (\<lambda>ls. Inr (True, off, regs, ls))
       else if op = 2 then
         kbind (read_uint64 b len off) (\<lambda>(a, off). Inr (False, off, regs\<lparr>al_addr := a\<rparr>, ls))
       else if op = 4 then kbind (read_uleb128 b len off) (\<lambda>(_, off). Inr (False, off, regs, ls))
       else Inr (False, off, regs, ls)))
     else if op = 1 then kbind (push_row len file_base regs ls) (\<lambda>ls. Inr (False, off, regs, ls))
     else if op = 2 then
       kbind (read_uleb128 b len off) (\<lambda>(delta, off).
         Inr (False, off, regs\<lparr>al_addr := al_addr regs + delta * ucast (dh_min_instruction_length dh)\<rparr>, ls))
     else if op = 3 then
       kbind (read_sleb128 b len off) (\<lambda>(delta, off). Inr (False, off, regs\<lparr>al_line := al_line regs + delta\<rparr>, ls))
     else if op = 4 then
       kbind (read_uleb128 b len off) (\<lambda>(file, off). Inr (False, off, regs\<lparr>al_file := file\<rparr>, ls))
     else if op = 5 then kbind (read_uleb128 b len off) (\<lambda>(_, off). Inr (False, off, regs, ls))
     else if op = 6 \<or> op = 7 then Inr (False, off, regs, ls)
     else if op = 8 then
       kbind (advance dh (255 - uint (dh_opcode_base dh))) (\<lambda>(da, _).
         Inr (False, off, regs\<lparr>al_addr := al_addr regs + da\<rparr>, ls))
     else if op = 9 then
       kbind (read_uint16 b len off) (\<lambda>(delta, off). Inr (False, off, regs\<lparr>al_addr := al_addr regs + delta\<rparr>, ls))
     else
       kbind (advance dh (uint op - uint (dh_opcode_base dh))) (\<lambda>(da, dl).
       let regs = regs\<lparr>al_addr := al_addr regs + da, al_line := al_line regs + dl\<rparr> in
       kbind (push_row len file_base regs ls) (\<lambda>ls. Inr (False, off, regs, ls))))"

lemma line_op_less: "line_op b len dh fb off regs ls = Inr (e, off', r) \<Longrightarrow> off < off' \<and> off < len"
  by (force simp: line_op_def kbind_eq_Inr Let_def split: if_splits dest: dbg_less read_leb_less)

function run_ops ::
  "bytes \<Rightarrow> nat \<Rightarrow> debug_header \<Rightarrow> nat \<Rightarrow> nat \<Rightarrow> addr_line \<Rightarrow> addr_line list \<Rightarrow> kerr + (nat \<times> addr_line list)" where
  "run_ops b len dh file_base off regs ls =
     kbind (line_op b len dh file_base off regs ls) (\<lambda>(fin, off, regs, ls).
       if fin then Inr (off, ls) else run_ops b len dh file_base off regs ls)"
  by pat_completeness auto
termination
  by (relation "measure (\<lambda>(b, len, dh, fb, off, regs, ls). len - off)") (auto dest!: line_op_less)

declare run_ops.simps [simp del]

definition read_unit :: "bytes \<Rightarrow> nat \<Rightarrow> nat \<Rightarrow> line_table \<Rightarrow> kerr + (nat \<times> line_table)" where
  \<comment> \<open>one compilation unit\<close>
  "read_unit b len off t =
     kbind (read_dirs b len (off + 27) (lt_dir t)) (\<lambda>(dirs, o1).
     kbind (read_files b len (length (lt_dir t)) o1 (lt_file t)) (\<lambda>(fs, o2).
     kbind (run_ops b len (to_debug_header b off) (length (lt_file t)) o2
              \<lparr>al_addr = 0, al_line = 1, al_file = 1\<rparr> (lt_line t)) (\<lambda>(o3, ls).
       Inr (o3, \<lparr>lt_dir = dirs, lt_file = fs, lt_line = ls\<rparr>))))"


lemma read_dirs_less: "read_dirs b len off ds = Inr (r, off') \<Longrightarrow> off < off'"
proof (induction "len - off" arbitrary: off ds rule: less_induct)
  case less
  note eq = less.prems [unfolded read_dirs.simps [of b len off ds]]
  from eq obtain x where x: "dbg b len off = Inr x" by (rule kbind_InrE)
  show ?case
  proof (cases "x = 0")
    case False
    then obtain o1 where o1: "skip_string b len off = Inr o1" "read_dirs b len o1 (ds @ [off]) = Inr (r, off')"
      using eq by (auto simp: x kbind_eq_Inr split: if_splits)
    then have "off < o1" "off < len" using skip_string_less dbg_less [OF x] by blast+
    then show ?thesis using less.hyps [of o1, OF _ o1(2)] by fastforce
  qed (use eq in \<open>simp add: x\<close>)
qed

lemma read_files_less: "read_files b len base off fs = Inr (r, off') \<Longrightarrow> off < off'"
proof (induction "len - off" arbitrary: off fs rule: less_induct)
  case less
  note eq = less.prems [unfolded read_files.simps [of b len base off fs]]
  from eq obtain x where x: "dbg b len off = Inr x" by (rule kbind_InrE)
  show ?case
  proof (cases "x = 0")
    case False
    then obtain o1 d o2 e o3 e' o4 fs' where o: "skip_string b len off = Inr o1" "read_uleb128 b len o1 = Inr (d, o2)"
      "read_uleb128 b len o2 = Inr (e, o3)" "read_uleb128 b len o3 = Inr (e', o4)" "read_files b len base o4 fs' = Inr (r, off')"
      using eq by (auto simp: x kbind_eq_Inr split: if_splits)
    then have "off < o4" using skip_string_less read_leb_less(1) by (meson less_trans)
    then show ?thesis using less.hyps [of o4, OF _ o(5)] dbg_less [OF x] by fastforce
  qed (use eq in \<open>simp add: x\<close>)
qed

lemma run_ops_less: "run_ops b len dh fb off regs ls = Inr (off', r) \<Longrightarrow> off < off'"
proof (induction "len - off" arbitrary: off regs ls rule: less_induct)
  case less
  note eq = less.prems [unfolded run_ops.simps [of b len dh fb off regs ls]]
  from eq obtain fin o1 regs' ls' where x: "line_op b len dh fb off regs ls = Inr (fin, o1, regs', ls')"
    by (auto elim!: kbind_InrE)
  with eq have r: "if fin then off' = o1 else run_ops b len dh fb o1 regs' ls' = Inr (off', r)"
    by (simp split: if_splits)
  show ?case
    using r less.hyps [of o1 regs' ls'] line_op_less [OF x] by (cases fin) fastforce+
qed

lemma read_unit_less: "read_unit b len off t = Inr (off', r) \<Longrightarrow> off < off'"
  by (force simp: read_unit_def kbind_eq_Inr dest!: read_dirs_less read_files_less run_ops_less)

function read_units :: "bytes \<Rightarrow> nat \<Rightarrow> nat \<Rightarrow> line_table \<Rightarrow> kerr + line_table" where
  "read_units b len off t =
     (if off < len then kbind (read_unit b len off t) (\<lambda>(off, t). read_units b len off t) else Inr t)"
  by pat_completeness auto
termination
  by (relation "measure (\<lambda>(b, len, off, t). len - off)") (auto dest!: read_unit_less)

declare read_units.simps [simp del]

definition make_addr_line :: "pref \<Rightarrow> ('h, 'z) elfk_scheme \<Rightarrow> kerr + ('h, 'z) elfk_scheme" where
  \<comment> \<open>called with \<^verbatim>\<open>debug\<close> and \<^verbatim>\<open>debug_length\<close>\<close>
  "make_addr_line p s =
     (let len = unat (debug_length s);
          dir = push_bit 3 (drop_bit 3 (debug_addr s + debug_length s + 7)) in
      kbind (read_units (debug_buf s) len 0 \<lparr>lt_dir = [], lt_file = [], lt_line = []\<rparr>) (\<lambda>t.
        Inr (upd_proc p (\<lambda>q. q\<lparr>debugline := debug_addr s, p_dir := dir, p_file := dir + 512, p_line := dir + 1536,
               line_ind := int (length (lt_line t))\<rparr>) (s\<lparr>debug_tab := t\<rparr>))))"

section \<open>Loading a program\<close>

fun read_debug ::
  "nat \<Rightarrow> nat \<Rightarrow> 'h frontend \<Rightarrow> u64 \<Rightarrow> elf_header \<Rightarrow> u8 list \<Rightarrow> ('h, 'z) elfk_scheme \<Rightarrow> kerr + ('h, 'z) elfk_scheme" where
  \<comment> \<open>the loop of \<^verbatim>\<open>elf_section_read\<close> over the next \<open>n\<close> section headers\<close>
  "read_debug 0 i fe f ehdr strs s = Inr s"
| "read_debug (Suc n) i fe f ehdr strs s =
     kbind (elf_fpread fe f 64 (eh_shoff ehdr + of_nat i * ucast (eh_shentsize ehdr)) s) (\<lambda>(_, out, s).
     let tp = to_sect_header (from_list out);
         name = takeWhile (\<lambda>c. c \<noteq> 0) (drop (unat (sect_name tp)) strs) in
     kbind (if name = [46, 100, 101, 98, 117, 103, 95, 108, 105, 110, 101] then
              kbind (elf_fpread fe f (sect_size tp) (sect_offset tp) s) (\<lambda>(_, out, s).
                if length out > DEBUG_SIZE then Inl (Fault ''debug'')
                else Inr (s\<lparr>debug_buf := (\<lambda>k. if k < length out then out ! k else debug_buf s k),
                           debug_length := sect_size tp\<rparr>))
            else Inr s) (\<lambda>s. read_debug n (Suc i) fe f ehdr strs s))"

definition elf_section_read ::
  "'h frontend \<Rightarrow> u64 \<Rightarrow> pref \<Rightarrow> elf_header \<Rightarrow> ('h, 'z) elfk_scheme \<Rightarrow> kerr + ('h, 'z) elfk_scheme" where
  "elf_section_read fe f p ehdr s =
     kbind (elf_fpread fe f 64 (eh_shoff ehdr + ucast (eh_shstrndx ehdr) * 64) s) (\<lambda>(_, out, s).
     let shr = to_sect_header (from_list out) in
     kbind (elf_fpread fe f (sect_size shr) (sect_offset shr) s) (\<lambda>(_, strs, s).
     kbind (read_debug (unat (eh_shnum ehdr)) 0 fe f ehdr strs s) (\<lambda>s. make_addr_line p s)))"

definition IS_ERR_VALUE :: "u64 \<Rightarrow> bool" where
  "IS_ERR_VALUE x \<longleftrightarrow> x \<ge> - 4096"

definition app_backtrace :: cstring where
  \<comment> \<open>\<^verbatim>\<open>"/bin/app_backtrace"\<close>\<close>
  "app_backtrace = [47, 98, 105, 110, 47, 97, 112, 112, 95, 98, 97, 99, 107, 116, 114, 97, 99, 101]"

definition app_errorline :: cstring where
  \<comment> \<open>\<^verbatim>\<open>"/bin/app_errorline_challengex"\<close>\<close>
  "app_errorline = [47, 98, 105, 110, 47, 97, 112, 112, 95, 101, 114, 114, 111, 114, 108, 105, 110, 101, 95,
     99, 104, 97, 108, 108, 101, 110, 103, 101, 120]"

definition load_elf ::
  "'h frontend \<Rightarrow> u64 \<Rightarrow> pref \<Rightarrow> ('h, 'z) elfk_scheme \<Rightarrow> kerr + (elf_header \<times> ('h, 'z) elfk_scheme)" where
  \<comment> \<open>the tests and calls that both loaders share: open file, header and segments\<close>
  "load_elf fe f p s =
     (if IS_ERR_VALUE f then Inl (Panic ''Fail on openning the input application program.'')
      else kbind (elf_init fe f s) (\<lambda>(st, ehdr, s).
        if st \<noteq> EL_OK then Inl (Panic ''fail to init elfloader.'')
        else kbind (elf_load fe f p ehdr s) (\<lambda>(st, s).
          if st \<noteq> EL_OK then Inl (Panic ''Fail on loading elf.'') else Inr (ehdr, s))))"

definition load_bincode_from_host_elf ::
  "'h frontend \<Rightarrow> nat \<Rightarrow> pref \<Rightarrow> cstring \<Rightarrow> ('h, 'z) elfk_scheme \<Rightarrow> kerr + ('h, 'z) elfk_scheme" where
  "load_bincode_from_host_elf fe cpu p filename s =
     kbind (c_d cpu filename s) (\<lambda>file_name.
     if length file_name \<ge> 256 then Inl (Fault ''strcpy'') else
     kbind (vfs_open fe file_name O_RDONLY s) (\<lambda>(f, s).
     kbind (load_elf fe f p s) (\<lambda>(ehdr, s).
     kbind (if file_name = app_backtrace
            then kbind (elf_copyhead fe f ehdr s) (\<lambda>(_, s). Inr (s\<lparr>sh_tab := sort_sym (sh_tab s)\<rparr>))
            else Inr s) (\<lambda>s.
     kbind (if file_name = app_errorline then elf_section_read fe f p ehdr s else Inr s) (\<lambda>s.
     kbind (store (trapframe (pcb s p) + TF_epc) (eh_entry ehdr) s) (\<lambda>s.
     kbind (vfs_close fe f s) (\<lambda>(_, s). Inr s)))))))"

end
