(* ===== verification/RfsProps.thy ===== *)
theory RfsProps
  imports Rfs PageTable
begin

text \<open>
  Correctness of the RAM disk file system: the byte encodings round-trip, disk inodes written
  are read back, the block bitmap hands out free blocks, a directory behaves as an association
  list and a file as a sequence of bytes.
\<close>

section \<open>Encodings\<close>

definition int32 :: "int \<Rightarrow> bool" where
  "int32 v \<longleftrightarrow> - (2 ^ 31) \<le> v \<and> v < 2 ^ 31"

lemma sint_word_of_int32: "int32 v \<Longrightarrow> sint (word_of_int v :: u32) = v"
  by (simp add: int32_def signed_of_int signed_take_bit_int_eq_self)

lemma nat_less_4: "i < 4 \<longleftrightarrow> i \<in> {0, 1, 2, 3 :: nat}"
  by auto

lemma bit_u8_cast32 [simp]: "bit (ucast (x :: u8) :: u32) k \<longleftrightarrow> bit x k"
  using bit_imp_le_length [of x k] by (auto simp: bit_ucast_iff)

lemma bit_rdw: "i < 4 \<Longrightarrow> n < 8 \<Longrightarrow> bit (rdw b p) (8 * i + n) = bit (b (p + i)) n"
  unfolding nat_less_4 rdw_def
  by (elim insertE emptyE; simp add: bit_or_iff bit_push_bit_iff)

lemma rdw_eqI:
  assumes "\<And>i. i < 4 \<Longrightarrow> b (p + i) = ucast (drop_bit (8 * i) w)"
  shows "rdw b p = w"
proof (rule bit_word_eqI)
  fix n assume "n < LENGTH(32)"
  then have n: "n = 8 * (n div 8) + n mod 8" "n div 8 < 4" "n mod 8 < 8" by auto
  have "bit (rdw b p) (8 * (n div 8) + n mod 8) = bit (b (p + n div 8)) (n mod 8)"
    by (rule bit_rdw [OF n(2,3)])
  also have "\<dots> = bit w (8 * (n div 8) + n mod 8)"
    using n(3) by (simp add: assms [OF n(2)] bit_ucast_iff bit_drop_bit_eq)
  finally show "bit (rdw b p) n = bit w n" by simp
qed

lemma wr32_byte: "i < 4 \<Longrightarrow> wr32 b p v (p + i) = ucast (drop_bit (8 * i) (word_of_int v :: u32))"
  unfolding nat_less_4 by (elim insertE emptyE; simp add: wr32_def Let_def)

lemma wr32_other: "a < p \<or> p + 4 \<le> a \<Longrightarrow> wr32 b p v a = b a"
  by (auto simp: wr32_def Let_def)

lemma rd32_wr32 [simp]: "int32 v \<Longrightarrow> rd32 (wr32 b p v) p = v"
  using rdw_eqI [of "wr32 b p v" p "word_of_int v"] wr32_byte
  by (simp add: rd32_def sint_word_of_int32)

lemma rd32_cong: "(\<And>i. i < 4 \<Longrightarrow> b (p + i) = b' (p + i)) \<Longrightarrow> rd32 b p = rd32 b' p"
proof -
  assume eq: "\<And>i. i < 4 \<Longrightarrow> b (p + i) = b' (p + i)"
  show ?thesis using eq [of 0] eq [of 1] eq [of 2] eq [of 3] by (simp add: rd32_def rdw_def)
qed

lemma rd32_wr32_other: "q + 4 \<le> p \<or> p + 4 \<le> q \<Longrightarrow> rd32 (wr32 b p v) q = rd32 b q"
  by (rule rd32_cong) (auto simp: wr32_other)

lemma wr_ints_other: "a < p \<or> p + 4 * length vs \<le> a \<Longrightarrow> wr_ints b p vs a = b a"
  by (induction vs arbitrary: b p) (auto simp: wr32_other)

lemma rd32_wr_ints_other:
  "q + 4 \<le> p \<or> p + 4 * length vs \<le> q \<Longrightarrow> rd32 (wr_ints b p vs) q = rd32 b q"
  by (rule rd32_cong) (auto simp: wr_ints_other)

lemma rd32_wr_ints: "list_all int32 vs \<Longrightarrow> i < length vs \<Longrightarrow> rd32 (wr_ints b p vs) (p + 4 * i) = vs ! i"
proof (induction vs arbitrary: b p i)
  case (Cons v vs)
  show ?case
  proof (cases i)
    case 0
    then show ?thesis using Cons.prems by (simp add: rd32_wr_ints_other)
  next
    case (Suc j)
    then show ?thesis using Cons.IH [of j "wr32 b p v" "p + 4"] Cons.prems by (simp add: algebra_simps)
  qed
qed simp

lemma rd_ints_wr_ints: "list_all int32 vs \<Longrightarrow> rd_ints (wr_ints b p vs) p (length vs) = vs"
  by (rule nth_equalityI) (simp_all add: rd_ints_def rd32_wr_ints)

definition dinode_ok :: "rfs_dinode \<Rightarrow> bool" where
  "dinode_ok d \<longleftrightarrow> list_all int32 (dinode_ints d) \<and> length (di_addrs d) = 10"

lemma dinode_of_ints [simp]: "length (di_addrs d) = 10 \<Longrightarrow> dinode_of (dinode_ints d) = d"
  by (simp add: dinode_of_def dinode_ints_def)

lemma length_dinode_ints [simp]: "length (di_addrs d) = 10 \<Longrightarrow> length (dinode_ints d) = 14"
  by (simp add: dinode_ints_def)

lemma pack_lo: "ucast (pack lo hi) = (word_of_int lo :: u32)"
proof (rule bit_word_eqI)
  fix n assume "n < LENGTH(32)"
  then show "bit (ucast (pack lo hi) :: u32) n = bit (word_of_int lo :: u32) n"
    by (simp add: pack_def bit_ucast_iff bit_or_iff bit_push_bit_iff)
qed

lemma pack_hi: "ucast (drop_bit 32 (pack lo hi)) = (word_of_int hi :: u32)"
proof (rule bit_word_eqI)
  fix n assume n: "n < LENGTH(32)"
  have "\<not> bit (word_of_int lo :: u32) (32 + n)" using bit_imp_le_length by fastforce
  then show "bit (ucast (drop_bit 32 (pack lo hi)) :: u32) n = bit (word_of_int hi :: u32) n"
    using n by (simp add: pack_def bit_ucast_iff bit_or_iff bit_push_bit_iff bit_drop_bit_eq)
qed

abbreviation slot :: "u64 \<Rightarrow> nat \<Rightarrow> u64" where
  "slot p k \<equiv> p + 8 * of_nat k"

lemma of_nat_512: "k < 512 \<Longrightarrow> (of_nat k :: u64) < 512"
  by (simp add: word_less_nat_alt unat_of_nat)

lemma slot_inj: "ram_page p \<Longrightarrow> k < 512 \<Longrightarrow> j < 512 \<Longrightarrow> slot p k = slot p j \<longleftrightarrow> k = j"
  using entry_inj [of p p "of_nat k" "of_nat j"] of_nat_512 [of k] of_nat_512 [of j]
  by (auto simp: word_unat_eq_iff unat_of_nat)

lemma store_ints_slot:
  "ram_page p \<Longrightarrow> j < 512 \<Longrightarrow> k + length vs div 2 \<le> 512 \<Longrightarrow>
   store_ints m (slot p k) vs (slot p j) =
     (if k \<le> j \<and> j < k + length vs div 2 then pack (vs ! (2 * (j - k))) (vs ! (2 * (j - k) + 1))
      else m (slot p j))"
proof (induction vs arbitrary: m k rule: induct_list012)
  case (3 x y zs)
  have k: "slot p k + 8 = slot p (Suc k)" "k < 512" using 3(5) by (simp_all add: algebra_simps)
  have IH: "store_ints (m(slot p k := pack x y)) (slot p (Suc k)) zs (slot p j) =
     (if Suc k \<le> j \<and> j < Suc k + length zs div 2
      then pack (zs ! (2 * (j - Suc k))) (zs ! (2 * (j - Suc k) + 1))
      else (m(slot p k := pack x y)) (slot p j))"
    using 3 by (intro 3(1)) auto
  have dj: "Suc k \<le> j \<Longrightarrow> j - k = Suc (j - Suc k)" by simp
  show ?case
    unfolding store_ints.simps k(1) IH using slot_inj [OF 3(3,4) k(2)] dj by (auto simp: slot_inj)
qed auto

lemma store_ints_frame:
  "ram_page p \<Longrightarrow> \<not> in_page a p \<Longrightarrow> k + length vs div 2 \<le> 512 \<Longrightarrow>
   store_ints m (slot p k) vs a = m a"
proof (induction vs arbitrary: m k rule: induct_list012)
  case (3 x y zs)
  have "slot p k + 8 = slot p (Suc k)" by (simp add: algebra_simps)
  moreover have "a \<noteq> slot p k"
    using 3(4,5) in_page_entry [OF 3(3) 3(3), of "of_nat k"] of_nat_512 [of k] by auto
  moreover have "store_ints (m(slot p k := pack x y)) (slot p (Suc k)) zs a = (m(slot p k := pack x y)) a"
    by (rule 3(1)) (use 3 in auto)
  ultimately show ?case by (simp only: store_ints.simps fun_upd_apply if_False simp_thms)
qed auto

lemma mem_int_store:
  assumes "ram_page p" "even (length vs)" "length vs \<le> 1024" "list_all int32 vs" "i < length vs"
  shows "mem_int (store_ints m p vs) p i = vs ! i"
proof -
  have h: "i div 2 < length vs div 2" using assms(2,5) by (auto elim!: evenE)
  then have w: "store_ints m p vs (slot p (i div 2)) = pack (vs ! (2 * (i div 2))) (vs ! (2 * (i div 2) + 1))"
    using store_ints_slot [of p "i div 2" 0 vs m] assms(1,3) by simp
  have "int32 (vs ! i)" using assms(4,5) by (simp add: list_all_length)
  then show ?thesis
    unfolding mem_int_def w Let_def
    by (cases "even i") (simp_all add: pack_lo pack_hi sint_word_of_int32 odd_two_times_div_two_succ)
qed

lemma load_store_dinode:
  assumes "ram_page p" "dinode_ok d"
  shows "load_dinode (store_dinode m p d) p = d"
proof -
  have "map (mem_int (store_dinode m p d) p) [0..<14] = dinode_ints d"
    by (rule nth_equalityI)
      (use assms in \<open>auto simp: store_dinode_def dinode_ok_def mem_int_store\<close>)
  then show ?thesis using assms(2) by (simp add: load_dinode_def dinode_ok_def)
qed

lemma store_dinode_frame:
  "ram_page p \<Longrightarrow> length (di_addrs d) = 10 \<Longrightarrow> \<not> in_page a p \<Longrightarrow> store_dinode m p d a = m a"
  using store_ints_frame [of p a 0 "dinode_ints d" m] by (simp add: store_dinode_def)

section \<open>Blocks and disk inodes\<close>

definition disk :: "'z fs_scheme \<Rightarrow> int \<Rightarrow> int \<Rightarrow> bytes" where
  "disk s dv = (case rfs_device_list s dv of None \<Rightarrow> (\<lambda>_ _. 0) | Some d \<Rightarrow> d_disk d)"

definition has_dev :: "'z fs_scheme \<Rightarrow> int \<Rightarrow> bool" where
  "has_dev s dv \<longleftrightarrow> rfs_device_list s dv \<noteq> None"

definition buf :: "'z fs_scheme \<Rightarrow> int \<Rightarrow> bytes" where
  "buf s dv = (case rfs_device_list s dv of None \<Rightarrow> (\<lambda>_. 0) | Some d \<Rightarrow> iobuffer d)"

definition set_disk :: "int \<Rightarrow> (int \<Rightarrow> bytes) \<Rightarrow> bytes \<Rightarrow> 'z fs_scheme \<Rightarrow> 'z fs_scheme" where
  \<comment> \<open>the state with other disk contents and I/O buffer\<close>
  "set_disk dv D b s = (case rfs_device_list s dv of None \<Rightarrow> s
     | Some d \<Rightarrow> set_rdev dv (d\<lparr>d_disk := D, iobuffer := b\<rparr>) s)"

lemma set_disk_simps [simp]:
  "has_dev s dv \<Longrightarrow> disk (set_disk dv D b s) dv = D"
  "has_dev s dv \<Longrightarrow> buf (set_disk dv D b s) dv = b"
  "has_dev (set_disk dv D b s) dv = has_dev s dv"
  "set_disk dv D' b' (set_disk dv D b s) = set_disk dv D' b' s"
  "mem (set_disk dv D b s) = mem s"
  "vinodes (set_disk dv D b s) = vinodes s" "dentries (set_disk dv D b s) = dentries s"
  "sbs (set_disk dv D b s) = sbs s" "devices (set_disk dv D b s) = devices s"
  "freemaps (set_disk dv D b s) = freemaps s"
  "vdev v (set_disk dv D b s) = vdev v s"
  "vaddr v i (set_disk dv D b s) = vaddr v i s"
  by (auto simp: set_disk_def disk_def buf_def has_dev_def set_rdev_def vdev_def vaddr_def
      split: option.splits)

lemma pmm_rel_set_disk [simp]: "pmm_rel (set_disk dv D b s) xs = pmm_rel s xs"
  by (auto simp: set_disk_def set_rdev_def pmm_rel_def managed_def split: option.splits)

lemma set_disk_id: "has_dev s dv \<Longrightarrow> set_disk dv (disk s dv) (buf s dv) s = s"
  by (auto simp: set_disk_def set_rdev_def disk_def buf_def has_dev_def fun_upd_idem split: option.splits)

lemma block_ops:
  assumes "has_dev s dv" "0 \<le> n" "n < 128"
  shows "ramdisk_read dv n s = Inr (set_disk dv (disk s dv) (disk s dv n) s)"
    and "ramdisk_write dv n s = Inr (set_disk dv ((disk s dv)(n := buf s dv)) (buf s dv) s)"
    and "rfs_r1block dv n s = Inr (set_disk dv (disk s dv) (disk s dv n) s)"
    and "rfs_w1block dv n s = Inr (set_disk dv ((disk s dv)(n := buf s dv)) (buf s dv) s)"
  using assms
  by (auto simp: ramdisk_read_def ramdisk_write_def rfs_r1block_def rfs_w1block_def with_rdev_def
      set_disk_def disk_def buf_def has_dev_def RAMDISK_BLOCK_COUNT_def split: option.splits)

lemma buf_ops:
  assumes "has_dev s dv"
  shows "iobuf dv s = Inr (buf s dv)"
    and "upd_iobuf dv f s = Inr (set_disk dv (disk s dv) (f (buf s dv)) s)"
  using assms
  by (auto simp: iobuf_def upd_iobuf_def with_rdev_def set_disk_def disk_def buf_def has_dev_def
      split: option.splits)

definition disk_dinode :: "(int \<Rightarrow> bytes) \<Rightarrow> int \<Rightarrow> rfs_dinode" where
  "disk_dinode D n = dinode_of (rd_ints (D (inode_block n)) (inode_offset n) 14)"

definition put_dinode :: "(int \<Rightarrow> bytes) \<Rightarrow> int \<Rightarrow> rfs_dinode \<Rightarrow> int \<Rightarrow> bytes" where
  "put_dinode D n d =
     D(inode_block n := wr_ints (D (inode_block n)) (inode_offset n) (dinode_ints d))"

lemma inode_block_bounds:
  assumes "0 \<le> n" "n < 320"
  shows "1 \<le> inode_block n" "inode_block n < 11"
  using assms by (auto simp: inode_block_def RFS_defs)

lemma rd32_int32 [simp]: "int32 (rd32 b p)"
  using sint_range_size [of "rdw b p"] by (simp add: int32_def rd32_def word_size)

lemma disk_dinode_ok [simp]: "dinode_ok (disk_dinode D n)"
  by (auto simp: disk_dinode_def dinode_ok_def dinode_of_def dinode_ints_def rd_ints_def list_all_iff
      dest!: in_set_dropD)

lemma disk_dinode_put_other:
  assumes "0 \<le> n" "n < 320" "0 \<le> n'" "n' < 320" "n' \<noteq> n" and len: "length (di_addrs d) = 10"
  shows "disk_dinode (put_dinode D n d) n' = disk_dinode D n'"
proof (cases "inode_block n' = inode_block n")
  case False
  then show ?thesis by (auto simp: disk_dinode_def put_dinode_def)
next
  case same: True
  have "n' div 32 = n div 32" using same assms by (simp add: inode_block_def RFS_defs)
  then have "n' mod 32 \<noteq> n mod 32" using assms(5) by (metis div_mult_mod_eq)
  then have "n' mod 32 + 1 \<le> n mod 32 \<or> n mod 32 + 1 \<le> n' mod 32" by linarith
  moreover have "inode_offset n = nat (n mod 32) * 128" "inode_offset n' = nat (n' mod 32) * 128"
    using assms by (simp_all add: inode_offset_def RFS_defs nat_mult_distrib)
  moreover have "0 \<le> n mod 32" "0 \<le> n' mod 32" by simp_all
  ultimately have "inode_offset n' + 128 \<le> inode_offset n \<or> inode_offset n + 128 \<le> inode_offset n'"
    by linarith
  then have "rd_ints (wr_ints b (inode_offset n) (dinode_ints d)) (inode_offset n') 14 =
      rd_ints b (inode_offset n') 14" for b
    unfolding rd_ints_def using len by (auto intro!: rd32_wr_ints_other)
  then show ?thesis using same by (simp add: disk_dinode_def put_dinode_def)
qed

lemma disk_dinode_put:
  assumes "0 \<le> n" "n < 320" "0 \<le> n'" "n' < 320" and d: "dinode_ok d"
  shows "disk_dinode (put_dinode D n d) n' = (if n' = n then d else disk_dinode D n')"
proof (cases "n' = n")
  case True
  have len: "length (dinode_ints d) = 14" "list_all int32 (dinode_ints d)"
    using d by (simp_all add: dinode_ok_def)
  then show ?thesis
    using True rd_ints_wr_ints [OF len(2), of "D (inode_block n)" "inode_offset n"] d
    by (simp add: disk_dinode_def put_dinode_def dinode_ok_def)
next
  case False
  then show ?thesis using assms by (simp add: disk_dinode_put_other dinode_ok_def)
qed

lemma rfs_write_dinode_eq:
  assumes "has_dev s dv" "0 \<le> n" "n < 320"
  shows "rfs_write_dinode dv d n s =
    Inr (0, set_disk dv (put_dinode (disk s dv) n d) (put_dinode (disk s dv) n d (inode_block n)) s)"
proof -
  have n: "0 \<le> inode_block n" "inode_block n < 128" using inode_block_bounds [OF assms(2,3)] by auto
  show ?thesis
    using assms(1) n by (simp add: rfs_write_dinode_def block_ops buf_ops put_dinode_def)
qed

lemma alloc_obj_Cons:
  assumes "pmm_rel s (x # xs)"
  shows "alloc_obj s = Inr (x, s\<lparr>g_free_mem_list := mem s x\<rparr>)"
    and "pmm_rel (s\<lparr>g_free_mem_list := mem s x\<rparr>) xs"
  using alloc_page_Cons [OF assms] assms by (auto simp: alloc_obj_def pmm_rel_def)

lemma rfs_read_dinode_eq:
  assumes dv: "has_dev s dv" and n: "0 \<le> n" "n < 320" and rel: "pmm_rel s (x # xs)"
  shows "\<exists>s'. rfs_read_dinode dv n s = Inr (x, s') \<and> pmm_rel s' xs \<and>
     load_dinode (mem s') x = disk_dinode (disk s dv) n \<and>
     (\<exists>m h. s' = set_disk dv (disk s dv) (disk s dv (inode_block n)) s\<lparr>mem := m, g_free_mem_list := h\<rparr>) \<and>
     (\<forall>a. \<not> in_page a x \<longrightarrow> mem s' a = mem s a)"
proof -
  let ?D = "disk s dv" and ?b = "inode_block n"
  let ?s1 = "set_disk dv ?D (?D ?b) s"
  have nb: "0 \<le> ?b" "?b < 128" using inode_block_bounds [OF n] by auto
  have rel1: "pmm_rel ?s1 (x # xs)" using rel by simp
  let ?s2 = "?s1\<lparr>g_free_mem_list := mem ?s1 x\<rparr>"
  have hd: "has_dev ?s2 dv" "buf ?s2 dv = ?D ?b" using dv by (auto simp: has_dev_def buf_def set_disk_def set_rdev_def split: option.splits)
  define m where "m = store_dinode (mem s) x (disk_dinode ?D n)"
  have rx: "ram_page x" "x \<notin> set xs" and ry: "\<And>y. y \<in> set xs \<Longrightarrow> ram_page y"
    using rel by (auto simp: pmm_rel_def managed_def)
  have eq: "rfs_read_dinode dv n s = Inr (x, ?s2\<lparr>mem := m\<rparr>)"
    using dv nb hd alloc_obj_Cons(1) [OF rel1]
    by (simp add: rfs_read_dinode_def block_ops buf_ops m_def disk_dinode_def)
  have fr: "m a = mem s a" if "\<not> in_page a x" for a
    unfolding m_def using that rx(1) disk_dinode_ok [of ?D n]
    by (intro store_dinode_frame) (auto simp: dinode_ok_def)
  have "pmm_rel (?s2\<lparr>mem := m\<rparr>) xs"
  proof (rule pmm_rel_more_cong [OF alloc_obj_Cons(2) [OF rel1]])
    fix y assume "y \<in> set xs"
    then have "\<not> in_page y x" using ry rx by auto
    then show "m y = mem ?s2 y" using fr by simp
  qed
  moreover have "load_dinode m x = disk_dinode ?D n"
    unfolding m_def by (rule load_store_dinode [OF rx(1)]) simp
  ultimately show ?thesis
    using eq fr by (intro exI [of _ "?s2\<lparr>mem := m\<rparr>"]) (auto intro!: exI [of _ m] exI [of _ "mem s x"])
qed

section \<open>The block bitmap\<close>

definition freemap :: "u64 \<Rightarrow> 'z fs_scheme \<Rightarrow> int \<Rightarrow> int" where
  "freemap sb s = freemaps s (s_fs_info (sbs s sb))"

lemma rfs_alloc_block_cases:
  "case rfs_alloc_block sb s of
     Inl e \<Rightarrow> e = Panic ''rfs_alloc_block: no more free block!'' \<and>
       (\<forall>k. 0 \<le> k \<longrightarrow> k < sb_nblocks (sbs s sb) \<longrightarrow> freemap sb s k \<noteq> 0)
   | Inr (b, s') \<Rightarrow> 12 \<le> b \<and> b < 12 + sb_nblocks (sbs s sb) \<and> freemap sb s (b - 12) = 0 \<and>
       (\<forall>k. 0 \<le> k \<longrightarrow> k < b - 12 \<longrightarrow> freemap sb s k \<noteq> 0) \<and>
       freemap sb s' = (freemap sb s)(b - 12 := 1) \<and>
       s' = s\<lparr>freemaps := (freemaps s)(s_fs_info (sbs s sb) := freemap sb s')\<rparr>"
proof (cases "find (\<lambda>block. freemap sb s block = 0) (map int [0..<nat (sb_nblocks (sbs s sb))])")
  case None
  then have "freemap sb s k \<noteq> 0" if "0 \<le> k" "k < sb_nblocks (sbs s sb)" for k
  proof -
    have "k \<in> set (map int [0..<nat (sb_nblocks (sbs s sb))])"
      using that by (auto simp: image_iff intro!: bexI [of _ "nat k"])
    then show ?thesis using None unfolding find_None_iff by blast
  qed
  then show ?thesis using None by (simp add: rfs_alloc_block_def freemap_def)
next
  case (Some b)
  then obtain i where i: "i < nat (sb_nblocks (sbs s sb))" "b = int i" "freemap sb s b = 0"
    and least: "\<And>j. j < i \<Longrightarrow> freemap sb s (int j) \<noteq> 0"
    by (auto simp: find_Some_iff)
  have "freemap sb s k \<noteq> 0" if "0 \<le> k" "k < b" for k using least [of "nat k"] that i(2) by auto
  then show ?thesis
    using Some i by (auto simp: rfs_alloc_block_def freemap_def RFS_BLK_OFFSET_FREE_def Let_def)
qed

section \<open>Directories\<close>

definition name_ok :: "cstring \<Rightarrow> bool" where
  "name_ok name \<longleftrightarrow> length name < 28 \<and> 0 \<notin> set name"

definition direntry_at :: "(int \<Rightarrow> bytes) \<Rightarrow> int list \<Rightarrow> nat \<Rightarrow> cstring \<times> int \<Rightarrow> bool" where
  "direntry_at D addrs i e \<longleftrightarrow>
     (let b = D (addrs ! (i div 128)); p = i mod 128 * 32 in
      name_ok (fst e) \<and> name_eq b (p + 4) (fst e) \<and> rd32 b p = snd e)"

definition dir_rel :: "(int \<Rightarrow> bytes) \<Rightarrow> int list \<Rightarrow> (cstring \<times> int) list \<Rightarrow> bool" where
  \<comment> \<open>the blocks hold the directory entries \<open>es\<close>\<close>
  "dir_rel D addrs es \<longleftrightarrow> length addrs = 10 \<and> length es \<le> 1280 \<and>
     (\<forall>k < 10. k * 128 < length es \<longrightarrow> 12 \<le> addrs ! k \<and> addrs ! k < 112) \<and>
     (\<forall>i < length es. direntry_at D addrs i (es ! i))"

lemma name_eq_unique:
  assumes "name_eq b p s" "name_eq b p t" "0 \<notin> set s" "0 \<notin> set t"
  shows "s = t"
proof -
  have le: "length s \<le> length t" if "name_eq b p s" "name_eq b p t" "0 \<notin> set s" for s t
  proof (rule ccontr)
    assume "\<not> length s \<le> length t"
    then have "s ! length t = 0" using that(1,2) by (auto simp: name_eq_def)
    then show False using that(3) \<open>\<not> length s \<le> length t\<close> nth_mem [of "length t" s] by auto
  qed
  have "length s = length t" using le assms by (meson le_antisym)
  then show ?thesis using assms(1,2) by (intro nth_equalityI) (auto simp: name_eq_def)
qed

lemma direntry_name:
  assumes "direntry_at D addrs i e" "name_ok name"
  shows "name_eq (D (addrs ! (i div 128))) (i mod 128 * 32 + 4) name \<longleftrightarrow> fst e = name"
  using assms name_eq_unique by (auto simp: direntry_at_def name_ok_def Let_def)

lemma lookup_loop_spec:
  assumes "has_dev s dv" "vdev parent s = dv" "v_addrs (vinodes s parent) = addrs"
    and "dir_rel (disk s dv) addrs es" "name_ok name" "i + n = length es"
    and "i mod 128 \<noteq> 0 \<Longrightarrow> buf s dv = disk s dv (addrs ! (i div 128))"
  shows "\<exists>b. lookup_loop n (int i) parent name s =
    Inr (map_of (drop i es) name, int (i + length (takeWhile (\<lambda>e. fst e \<noteq> name) (drop i es))),
      set_disk dv (disk s dv) b s)"
  using assms
proof (induction n arbitrary: i s)
  case 0
  then show ?case using set_disk_id [of s dv] by (intro exI [of _ "buf s dv"]) simp
next
  case (Suc n)
  let ?blk = "addrs ! (i div 128)" and ?D = "disk s dv"
  have i: "i < length es" using Suc.prems(6) by simp
  have k: "i div 128 < 10" "i div 128 * 128 < length es"
    using i Suc.prems(4) by (auto simp: dir_rel_def)
  have "12 \<le> ?blk \<and> ?blk < 112" using k Suc.prems(4) by (simp add: dir_rel_def)
  then have blk: "0 \<le> ?blk" "?blk < 128" by simp_all
  define s1 where "s1 = set_disk dv ?D (?D ?blk) s"
  have rd: "(if int i mod 128 = 0 then
              kbind (vaddr parent (int i div 128) s) (\<lambda>a. rfs_r1block (vdev parent s) a s)
            else Inr s) = Inr s1"
  proof (cases "i mod 128 = 0")
    case True
    then have "int i mod 128 = 0" by presburger
    moreover have "vaddr parent (int i div 128) s = Inr ?blk"
      using k(1) Suc.prems(3) by (simp add: vaddr_def RFS_defs zdiv_int [of i 128, simplified, symmetric])
    ultimately show ?thesis using Suc.prems(1,2) blk by (simp add: block_ops s1_def)
  next
    case False
    then have "int i mod 128 \<noteq> 0" by presburger
    moreover have "s1 = s" using Suc.prems(7) [OF False] set_disk_id [OF Suc.prems(1)] by (simp add: s1_def)
    ultimately show ?thesis by simp
  qed
  have s1: "has_dev s1 dv" "vdev parent s1 = dv" "buf s1 dv = ?D ?blk" "disk s1 dv = ?D"
    "v_addrs (vinodes s1 parent) = addrs"
    using Suc.prems(1,2,3) by (simp_all add: s1_def)
  have p: "nat (int i mod 128) * 32 = i mod 128 * 32" by (simp add: nat_mod_distrib)
  have e: "direntry_at ?D addrs i (es ! i)" using Suc.prems(4) i by (simp add: dir_rel_def)
  have dr: "drop i es = es ! i # drop (Suc i) es" using i by (simp add: Cons_nth_drop_Suc)
  show ?case
  proof (cases "fst (es ! i) = name")
    case True
    then have "lookup_loop (Suc n) (int i) parent name s = Inr (Some (snd (es ! i)), int i, s1)"
      using rd s1 direntry_name [OF e Suc.prems(5)] e p
      by (simp add: buf_ops direntry_at_def Let_def)
    then show ?thesis using True by (auto simp: dr s1_def intro!: exI [of _ "?D ?blk"])
  next
    case False
    have step: "lookup_loop (Suc n) (int i) parent name s = lookup_loop n (int (Suc i)) parent name s1"
      using rd s1 direntry_name [OF e Suc.prems(5)] False p
      by (simp add: buf_ops Let_def add.commute)
    have "\<exists>b. lookup_loop n (int (Suc i)) parent name s1 =
      Inr (map_of (drop (Suc i) es) name,
        int (Suc i + length (takeWhile (\<lambda>e. fst e \<noteq> name) (drop (Suc i) es))),
        set_disk dv (disk s1 dv) b s1)"
    proof (rule Suc.IH)
      show "dir_rel (disk s1 dv) addrs es" using Suc.prems(4) s1(4) by simp
      show "Suc i + n = length es" using Suc.prems(6) by simp
      assume "Suc i mod 128 \<noteq> 0"
      then have "Suc i div 128 = i div 128" by (simp add: div_Suc)
      then show "buf s1 dv = disk s1 dv (addrs ! (Suc i div 128))" using s1 by simp
    qed (use s1 Suc.prems in auto)
    then obtain b where IH: "lookup_loop n (int (Suc i)) parent name s1 =
      Inr (map_of (drop (Suc i) es) name,
        int (Suc i + length (takeWhile (\<lambda>e. fst e \<noteq> name) (drop (Suc i) es))),
        set_disk dv (disk s1 dv) b s1)" by blast
    have "set_disk dv (disk s1 dv) b s1 = set_disk dv ?D b s" by (simp add: s1(4)) (simp add: s1_def)
    note step [unfolded IH this]
    moreover have "map_of (drop i es) name = map_of (drop (Suc i) es) name"
      using False by (cases "es ! i") (simp add: dr)
    moreover have "i + length (takeWhile (\<lambda>e. fst e \<noteq> name) (drop i es)) =
        Suc i + length (takeWhile (\<lambda>e. fst e \<noteq> name) (drop (Suc i) es))" using False by (simp add: dr)
    ultimately show ?thesis by metis
  qed
qed

lemma put_bytes_at: "put_bytes b p cs a = (if p \<le> a \<and> a < p + length cs then cs ! (a - p) else b a)"
proof (induction cs arbitrary: b p)
  case (Cons c cs)
  show ?case
    unfolding put_bytes.simps Cons.IH by (cases "a = p") (auto simp: nth_Cons' less_Suc_eq_le)
qed auto

lemma name_eq_put_str: "0 \<notin> set s \<Longrightarrow> name_eq (put_str b p s) p s"
  by (simp add: name_eq_def put_str_def put_bytes_at nth_append)

lemma name_eq_cong: "(\<And>a. p \<le> a \<Longrightarrow> a \<le> p + length s \<Longrightarrow> b a = b' a) \<Longrightarrow> name_eq b p s = name_eq b' p s"
  by (simp add: name_eq_def)

lemma direntry_at_cong:
  assumes "\<And>a. i mod 128 * 32 \<le> a \<Longrightarrow> a < i mod 128 * 32 + 32 \<Longrightarrow>
      D (addrs ! (i div 128)) a = D' (addrs ! (i div 128)) a"
  shows "direntry_at D addrs i e = direntry_at D' addrs i e"
proof -
  let ?p = "i mod 128 * 32"
  have "rd32 (D (addrs ! (i div 128))) ?p = rd32 (D' (addrs ! (i div 128))) ?p"
    by (rule rd32_cong) (use assms in auto)
  moreover have "name_eq (D (addrs ! (i div 128))) (?p + 4) (fst e) = name_eq (D' (addrs ! (i div 128))) (?p + 4) (fst e)"
    if "name_ok (fst e)"
    by (rule name_eq_cong) (use assms that in \<open>auto simp: name_ok_def\<close>)
  ultimately show ?thesis by (auto simp: direntry_at_def Let_def)
qed

definition dir_ok :: "'z fs_scheme \<Rightarrow> u64 \<Rightarrow> (cstring \<times> int) list \<Rightarrow> bool" where
  \<comment> \<open>the virtual inode \<open>dir\<close> is a directory with the entries \<open>es\<close>\<close>
  "dir_ok s dir es \<longleftrightarrow> (let v = vinodes s dir in
     has_dev s (vdev dir s) \<and> v_type v = DIR_I \<and> v_size v = 32 * int (length es) \<and>
     0 \<le> v_inum v \<and> v_inum v < 320 \<and> dir_rel (disk s (vdev dir s)) (v_addrs v) es)"

definition dir_room :: "'z fs_scheme \<Rightarrow> u64 \<Rightarrow> nat \<Rightarrow> bool" where
  \<comment> \<open>the block the next entry goes to exists and is no other block of the directory\<close>
  "dir_room s dir n \<longleftrightarrow> n < 1280 \<and>
     (let a = v_addrs (vinodes s dir) in
      12 \<le> a ! (n div 128) \<and> a ! (n div 128) < 112 \<and> (\<forall>k < n div 128. a ! k \<noteq> a ! (n div 128)))"

lemma rfs_add_direntry_spec:
  assumes ok: "dir_ok s dir es" and room: "dir_room s dir (length es)"
    and name: "name_ok name" and inum: "int32 inum"
  shows "\<exists>s' b. rfs_add_direntry dir name inum s = Inr (0, s') \<and> dir_ok s' dir (es @ [(name, inum)]) \<and>
     (\<exists>D. s' = set_disk (vdev dir s) D b (upd_vinode dir (\<lambda>x. x\<lparr>v_size := v_size x + 32\<rparr>) s) \<and>
        (\<forall>k. k \<noteq> v_addrs (vinodes s dir) ! (length es div 128) \<longrightarrow> 11 \<le> k \<longrightarrow> D k = disk s (vdev dir s) k) \<and>
        (\<forall>n. 0 \<le> n \<longrightarrow> n < 320 \<longrightarrow> n \<noteq> v_inum (vinodes s dir) \<longrightarrow>
            disk_dinode D n = disk_dinode (disk s (vdev dir s)) n))"
proof -
  let ?v = "vinodes s dir" and ?dv = "vdev dir s" and ?n = "length es"
  let ?D = "disk s ?dv" and ?addrs = "v_addrs ?v" and ?p = "?n mod 128 * 32"
  let ?blk = "?addrs ! (?n div 128)"
  have v: "has_dev s ?dv" "v_type ?v = DIR_I" "v_size ?v = 32 * int ?n" "0 \<le> v_inum ?v" "v_inum ?v < 320"
    and dr: "dir_rel ?D ?addrs es" using ok by (auto simp: dir_ok_def Let_def)
  have r: "?n < 1280" "12 \<le> ?blk" "?blk < 112" "\<And>k. k < ?n div 128 \<Longrightarrow> ?addrs ! k \<noteq> ?blk"
    using room by (auto simp: dir_room_def Let_def)
  have "32 * int ?n mod 4096 = 32 * (int ?n mod 128)" using mod_mult_mult1 [of 32 "int ?n" 128] by simp
  then have nn: "32 * int ?n div 4096 = int (?n div 128)" "nat (32 * int ?n mod 4096) = ?p"
    by (linarith, simp add: nat_mult_distrib nat_mod_distrib)
  have va: "vaddr dir (cdiv (v_size ?v) RFS_BLKSIZE) s = Inr ?blk"
    using r(1) nn(1) by (simp add: vaddr_def RFS_defs v(3))
  define b1 where "b1 = put_str (wr32 (?D ?blk) ?p inum) (?p + 4) name"
  define D1 where "D1 = ?D(?blk := b1)"
  define s1 where "s1 = upd_vinode dir (\<lambda>x. x\<lparr>v_size := v_size x + 32\<rparr>) (set_disk ?dv D1 b1 s)"
  define d where "d = vinode_dinode (vinodes s1 dir)"
  define D2 where "D2 = put_dinode D1 (v_inum ?v) d"
  have s1: "has_dev s1 ?dv" "disk s1 ?dv = D1" "vdev dir s1 = ?dv" "v_inum (vinodes s1 dir) = v_inum ?v"
    using v(1) by (auto simp: s1_def upd_vinode_def has_dev_def disk_def vdev_def set_disk_def set_rdev_def
        split: option.splits)
  have eq: "rfs_add_direntry dir name inum s = Inr (0, set_disk ?dv D2 (D2 (inode_block (v_inum ?v))) s1)"
    using v va nn(2) r(2,3) s1
    by (simp add: rfs_add_direntry_def Let_def block_ops buf_ops RFS_defs rfs_write_back_vinode_def
        rfs_write_dinode_eq flip: s1_def b1_def D1_def d_def D2_def)
  have di: "di_addrs d = ?addrs" by (simp add: d_def vinode_dinode_def s1_def upd_vinode_def)
  have D2: "D2 k = D1 k" if "11 \<le> k" for k
    using inode_block_bounds [OF v(4,5)] that by (simp add: D2_def put_dinode_def)
  have l10: "length ?addrs = 10" using dr by (simp add: dir_rel_def)
  have D2n: "disk_dinode D2 n = disk_dinode ?D n" if "0 \<le> n" "n < 320" "n \<noteq> v_inum ?v" for n
  proof -
    have "disk_dinode D2 n = disk_dinode D1 n"
      unfolding D2_def using v(4,5) that l10 di by (intro disk_dinode_put_other) auto
    then show ?thesis
      using inode_block_bounds [OF that(1,2)] r(2) by (simp add: D1_def disk_dinode_def)
  qed
  have pb: "b1 a = ?D ?blk a" if "a < ?p \<or> ?p + 32 \<le> a" for a
    using that name by (auto simp: b1_def put_str_def put_bytes_at wr32_other name_ok_def)
  have D2blk: "D2 ?blk = b1" using D2 [of ?blk] r(2) by (simp add: D1_def)
  have new: "direntry_at D2 ?addrs ?n (name, inum)"
  proof -
    have "name_eq b1 (?p + 4) name" using name by (simp add: b1_def name_eq_put_str name_ok_def)
    moreover have "rd32 b1 ?p = rd32 (wr32 (?D ?blk) ?p inum) ?p"
      by (rule rd32_cong) (simp add: b1_def put_str_def put_bytes_at)
    ultimately show ?thesis using inum name by (simp add: direntry_at_def D2blk)
  qed
  have old: "direntry_at D2 ?addrs i (es ! i)" if i: "i < ?n" for i
  proof -
    let ?k = "i div 128"
    have le: "?k \<le> ?n div 128" using i by (simp add: div_le_mono)
    have "12 \<le> ?addrs ! ?k"
      using dr i r(1) by (force simp: dir_rel_def)
    then have k: "D2 (?addrs ! ?k) = D1 (?addrs ! ?k)" by (intro D2) simp
    have "D2 (?addrs ! ?k) a = ?D (?addrs ! ?k) a" if a: "i mod 128 * 32 \<le> a" "a < i mod 128 * 32 + 32" for a
    proof (cases "?k = ?n div 128")
      case True
      have "i mod 128 < ?n mod 128" using i True by (metis div_mult_mod_eq nat_add_left_cancel_less)
      then have "a < ?p" using a(2) by linarith
      then show ?thesis using k True pb by (simp add: D1_def)
    next
      case False
      then have "?addrs ! ?k \<noteq> ?blk" using le r(4) [of ?k] by simp
      then show ?thesis using k by (simp add: D1_def)
    qed
    then have "direntry_at D2 ?addrs i (es ! i) = direntry_at ?D ?addrs i (es ! i)"
      by (rule direntry_at_cong)
    then show ?thesis using dr i by (simp add: dir_rel_def)
  qed
  have rel: "dir_rel D2 ?addrs (es @ [(name, inum)])"
  proof -
    have "12 \<le> ?addrs ! k \<and> ?addrs ! k < 112" if "k < 10" "k * 128 < Suc ?n" for k
    proof (cases "k * 128 < ?n")
      case True
      then show ?thesis using dr that(1) by (simp add: dir_rel_def)
    next
      case False
      then have "k = ?n div 128" using that(2) by simp
      then show ?thesis using r(2,3) by simp
    qed
    moreover have "direntry_at D2 ?addrs i ((es @ [(name, inum)]) ! i)" if "i < Suc ?n" for i
      using that new old [of i] by (cases "i = ?n") (auto simp: nth_append)
    ultimately show ?thesis using l10 r(1) by (simp add: dir_rel_def)
  qed
  define s2 where "s2 = set_disk ?dv D2 (D2 (inode_block (v_inum ?v))) s1"
  have s2: "s2 = set_disk ?dv D2 (D2 (inode_block (v_inum ?v)))
      (upd_vinode dir (\<lambda>x. x\<lparr>v_size := v_size x + 32\<rparr>) s)"
    using v(1) by (auto simp: s2_def s1_def set_disk_def set_rdev_def upd_vinode_def has_dev_def
        split: option.splits)
  have "vdev dir s2 = ?dv" "has_dev s2 ?dv" "disk s2 ?dv = D2" using s1 by (simp_all add: s2_def)
  moreover have "vinodes s2 dir = ?v\<lparr>v_size := v_size ?v + 32\<rparr>"
    by (simp add: s2_def s1_def upd_vinode_def)
  ultimately have "dir_ok s2 dir (es @ [(name, inum)])"
    using v rel by (simp add: dir_ok_def)
  moreover have "D2 k = ?D k" if "k \<noteq> ?blk" "11 \<le> k" for k using D2 [OF that(2)] that(1) by (simp add: D1_def)
  ultimately show ?thesis
    using eq D2n s2 unfolding s2_def [symmetric] by blast
qed

lemma pmm_rel_fs_upd [simp]:
  "pmm_rel (s\<lparr>vinodes := f\<rparr>) xs = pmm_rel s xs" "pmm_rel (upd_vinode v g s) xs = pmm_rel s xs"
  by (simp_all add: pmm_rel_def managed_def upd_vinode_def)

lemma upd_vinode_simps [simp]:
  "has_dev (upd_vinode v g s) dv = has_dev s dv" "disk (upd_vinode v g s) dv = disk s dv"
  "buf (upd_vinode v g s) dv = buf s dv" "mem (upd_vinode v g s) = mem s"
  "vinodes (upd_vinode v g s) = (vinodes s)(v := g (vinodes s v))"
  "sbs (upd_vinode v g s) = sbs s" "devices (upd_vinode v g s) = devices s"
  "dentries (upd_vinode v g s) = dentries s"
  by (simp_all add: upd_vinode_def has_dev_def disk_def buf_def)

lemma fs_mem_simps [simp]:
  "has_dev (s\<lparr>g_free_mem_list := h\<rparr>) dv = has_dev s dv" "disk (s\<lparr>g_free_mem_list := h\<rparr>) dv = disk s dv"
  "has_dev (s\<lparr>mem := m\<rparr>) dv = has_dev s dv" "disk (s\<lparr>mem := m\<rparr>) dv = disk s dv"
  "vdev v (s\<lparr>g_free_mem_list := h\<rparr>) = vdev v s" "vdev v (s\<lparr>mem := m\<rparr>) = vdev v s"
  "has_dev (s\<lparr>vinodes := f\<rparr>) dv = has_dev s dv" "disk (s\<lparr>vinodes := f\<rparr>) dv = disk s dv"
  by (simp_all add: has_dev_def disk_def vdev_def)

lemma rfs_update_vinode_spec:
  assumes dv: "vdev v s = dv" "has_dev s dv" and rel: "pmm_rel s (y # xs)"
    and n: "v_inum (vinodes s v) = n" "0 \<le> n" "n < 320"
  shows "\<exists>s'. rfs_update_vinode v s = Inr (0, s') \<and> pmm_rel s' (y # xs) \<and>
     (let d = disk_dinode (disk s dv) n in
      vinodes s' = (vinodes s)(v := (vinodes s v)\<lparr>v_size := di_size d, v_nlinks := di_nlinks d,
        v_blocks := di_blocks d, v_type := di_type d, v_addrs := di_addrs d\<rparr>)) \<and>
     disk s' dv = disk s dv \<and> has_dev s' dv \<and> sbs s' = sbs s \<and> devices s' = devices s \<and>
     dentries s' = dentries s"
proof -
  let ?d = "disk_dinode (disk s dv) n"
  from rfs_read_dinode_eq [OF dv(2) n(2,3) rel] obtain s1 m h where
    r: "rfs_read_dinode dv n s = Inr (y, s1)" "pmm_rel s1 xs" "load_dinode (mem s1) y = ?d" and
    s1: "s1 = set_disk dv (disk s dv) (disk s dv (inode_block n)) s\<lparr>mem := m, g_free_mem_list := h\<rparr>"
    by blast
  have y: "managed s y" "y \<notin> set xs" "y \<noteq> 0" using rel by (auto simp: pmm_rel_def managed_def)
  let ?g = "\<lambda>x. x\<lparr>v_size := di_size ?d, v_nlinks := di_nlinks ?d, v_blocks := di_blocks ?d,
      v_type := di_type ?d, v_addrs := di_addrs ?d\<rparr>"
  have ym: "managed (upd_vinode v ?g s1) y"
    using y(1) unfolding s1 by (auto simp: managed_def upd_vinode_def set_disk_def set_rdev_def split: option.splits)
  have rel2: "pmm_rel (upd_vinode v ?g s1) xs" using r(2) by simp
  note fp = free_page_managed [OF rel2 ym y(2)]
  have "rfs_update_vinode v s = Inr (0, (upd_vinode v ?g s1)
      \<lparr>mem := (mem s1)(y := g_free_mem_list s1), g_free_mem_list := y\<rparr>)"
    using r(1,3) dv(1) n(1) y(3) fp(1)
    by (simp add: rfs_update_vinode_def Let_def) (simp add: upd_vinode_def)
  moreover have "pmm_rel ((upd_vinode v ?g s1)\<lparr>mem := (mem s1)(y := g_free_mem_list s1), g_free_mem_list := y\<rparr>) (y # xs)"
    using fp(2) by (simp add: upd_vinode_def)
  ultimately show ?thesis using dv(2) unfolding s1 Let_def by (simp add: upd_vinode_def)
qed

definition sub_name :: "u64 \<Rightarrow> 'z fs_scheme \<Rightarrow> cstring" where
  "sub_name sub s = d_name (dentries s sub)"

lemma rfs_lookup_spec:
  assumes ok: "dir_ok s parent es" and rel: "pmm_rel s (x # y # xs)" and px: "parent \<noteq> x"
    and name: "name_ok (sub_name sub s)" and inums: "\<forall>e \<in> set es. 0 \<le> snd e \<and> snd e < 320"
  shows "case map_of es (sub_name sub s) of
     None \<Rightarrow> \<exists>s'. rfs_lookup parent sub s = Inr (0, s') \<and> pmm_rel s' (x # y # xs) \<and> vinodes s' = vinodes s
   | Some inum \<Rightarrow> \<exists>s'. rfs_lookup parent sub s = Inr (x, s') \<and> pmm_rel s' (y # xs) \<and>
       v_inum (vinodes s' x) = inum \<and> v_sb (vinodes s' x) = v_sb (vinodes s parent) \<and>
       v_ref (vinodes s' x) = 0 \<and> i_ops (vinodes s' x) = Rfs_ops \<and>
       vinode_dinode (vinodes s' x) = disk_dinode (disk s (vdev parent s)) inum"
proof -
  let ?dv = "vdev parent s" and ?v = "vinodes s parent" and ?name = "sub_name sub s"
  have v: "has_dev s ?dv" "v_size ?v = 32 * int (length es)" "dir_rel (disk s ?dv) (v_addrs ?v) es"
    using ok by (auto simp: dir_ok_def Let_def)
  from lookup_loop_spec [OF v(1) refl refl v(3) name, of 0 "length es"] obtain b where
    l: "lookup_loop (length es) 0 parent ?name s =
      Inr (map_of es ?name, int (length (takeWhile (\<lambda>e. fst e \<noteq> ?name) es)), set_disk ?dv (disk s ?dv) b s)"
    by auto
  let ?s1 = "set_disk ?dv (disk s ?dv) b s"
  have sz: "nat (v_size ?v div 32) = length es" by (simp add: v(2))
  show ?thesis
  proof (cases "map_of es ?name")
    case None
    then show ?thesis using l sz rel by (simp add: rfs_lookup_def sub_name_def)
  next
    case (Some inum)
    then have i: "0 \<le> inum" "inum < 320" using inums map_of_SomeD [OF Some] by auto
    have rel1: "pmm_rel ?s1 (x # y # xs)" using rel by simp
    let ?sb = "v_sb ?v"
    define s2 where "s2 = upd_vinode x (\<lambda>v. v\<lparr>v_blocks := 0, v_nlinks := 0, v_ref := 0,
        v_sb := ?sb, v_size := 0, i_ops := Rfs_ops, v_inum := inum\<rparr>) (?s1\<lparr>g_free_mem_list := mem s x\<rparr>)"
    have al: "kbind (rfs_alloc_vinode (v_sb (vinodes ?s1 parent)) ?s1)
        (\<lambda>(c, s). f c (upd_vinode c (\<lambda>x. x\<lparr>v_inum := inum\<rparr>) s)) = f x s2" for f
      using alloc_obj_Cons(1) [OF rel1]
      by (simp add: rfs_alloc_vinode_def default_alloc_vinode_def s2_def upd_vinode_def)
    have rel2: "pmm_rel s2 (y # xs)" using alloc_obj_Cons(2) [OF rel1] by (simp add: s2_def)
    have d2: "vdev x s2 = ?dv" "has_dev s2 ?dv" "v_inum (vinodes s2 x) = inum" "disk s2 ?dv = disk s ?dv"
      using v(1) by (simp_all add: s2_def vdev_def)
    from rfs_update_vinode_spec [OF d2(1,2) rel2 d2(3) i] obtain s3 where
      u: "rfs_update_vinode x s2 = Inr (0, s3)" "pmm_rel s3 (y # xs)"
        "let d = disk_dinode (disk s2 ?dv) inum in
      vinodes s3 = (vinodes s2)(x := (vinodes s2 x)\<lparr>v_size := di_size d, v_nlinks := di_nlinks d,
        v_blocks := di_blocks d, v_type := di_type d, v_addrs := di_addrs d\<rparr>)" by blast
    have "rfs_lookup parent sub s = Inr (x, s3)"
      using l sz Some al [of "\<lambda>child s. kbind (rfs_update_vinode child s) (\<lambda>(e, s).
               if e \<noteq> 0 then Inl (Panic ''rfs_lookup: read inode failed!'') else Inr (child, s))"] u(1)
      by (simp add: rfs_lookup_def sub_name_def Let_def)
    moreover have "vinodes s2 x = (vinodes s x)\<lparr>v_blocks := 0, v_nlinks := 0, v_ref := 0,
        v_sb := ?sb, v_size := 0, i_ops := Rfs_ops, v_inum := inum\<rparr>" by (simp add: s2_def)
    ultimately show ?thesis
      using Some u(2,3) d2(4) by (simp add: Let_def vinode_dinode_def)
  qed
qed

end
