(* ===== verification/RfsFile.thy ===== *)
theory RfsFile
  imports RfsProps
begin

text \<open>
  Files of the RAM disk file system as byte sequences: \<open>fbyte\<close> is the byte of a file at a position,
  \<open>file_inv\<close> the invariant of a virtual inode with its blocks and bitmap.  The lemmas say what the
  block loops of \<^verbatim>\<open>rfs_read\<close> and \<^verbatim>\<open>rfs_write\<close> do to it.
\<close>

section \<open>Reading\<close>

definition fbyte :: "(int \<Rightarrow> bytes) \<Rightarrow> int list \<Rightarrow> nat \<Rightarrow> u8" where
  "fbyte D addrs i = D (addrs ! (i div 4096)) (i mod 4096)"

definition valid_block :: "int list \<Rightarrow> nat \<Rightarrow> bool" where
  "valid_block addrs j \<longleftrightarrow> j < 10 \<and> 12 \<le> addrs ! j \<and> addrs ! j < 112"

lemma get_bytes_fbyte:
  assumes "p + n \<le> 4096"
  shows "get_bytes (D (addrs ! k)) p n = map (fbyte D addrs) [4096 * k + p..<4096 * k + p + n]"
proof (rule nth_equalityI)
  fix i assume "i < length (get_bytes (D (addrs ! k)) p n)"
  then have i: "i < n" by (simp add: get_bytes_def)
  then have "(p + i + 4096 * k) div 4096 = k" "(p + i + 4096 * k) mod 4096 = p + i"
    using assms by (auto simp only: div_mult_self2 mod_mult_self2 mod_less div_less)
  then have "(4096 * k + p + i) div 4096 = k" "(4096 * k + p + i) mod 4096 = p + i"
    by (simp_all only: ac_simps)
  then show "get_bytes (D (addrs ! k)) p n ! i = map (fbyte D addrs) [4096 * k + p..<4096 * k + p + n] ! i"
    using i by (simp add: get_bytes_def fbyte_def)
qed (simp add: get_bytes_def)

lemma vaddr_valid: "valid_block (v_addrs (vinodes s v)) k \<Longrightarrow> vaddr v (int k) s = Inr (v_addrs (vinodes s v) ! k)"
  by (simp add: vaddr_def valid_block_def RFS_defs)

lemma read_blocks_spec:
  assumes "has_dev s dv" "vdev v s = dv" "v_addrs (vinodes s v) = addrs"
    and "\<And>j. bo \<le> j \<Longrightarrow> j < bo + n \<Longrightarrow> valid_block addrs j"
  shows "\<exists>b. read_blocks n v (int bo) s =
    Inr (map (fbyte (disk s dv) addrs) [4096 * bo..<4096 * (bo + n)], set_disk dv (disk s dv) b s)"
  using assms
proof (induction n arbitrary: bo s)
  case 0
  then show ?case using set_disk_id [of s dv] by (intro exI [of _ "buf s dv"]) simp
next
  case (Suc n)
  let ?D = "disk s dv" and ?a = "addrs ! bo"
  have va: "valid_block addrs bo" using Suc.prems(4) by simp
  then have a: "0 \<le> ?a" "?a < 128" by (simp_all add: valid_block_def)
  let ?s1 = "set_disk dv ?D (?D ?a) s"
  have vd: "vdev v ?s1 = dv" "has_dev ?s1 dv" "disk ?s1 dv = ?D" "buf ?s1 dv = ?D ?a"
    "v_addrs (vinodes ?s1 v) = addrs"
    using Suc.prems by simp_all
  have "\<exists>b. read_blocks n v (int (Suc bo)) ?s1 =
    Inr (map (fbyte (disk ?s1 dv) addrs) [4096 * Suc bo..<4096 * (Suc bo + n)], set_disk dv (disk ?s1 dv) b ?s1)"
    by (rule Suc.IH) (use vd Suc.prems in auto)
  then obtain b where IH: "read_blocks n v (int (Suc bo)) ?s1 =
    Inr (map (fbyte ?D addrs) [4096 * Suc bo..<4096 * (Suc bo + n)], set_disk dv ?D b s)"
    using vd(3) by auto
  have "read_blocks (Suc n) v (int bo) s =
      Inr (get_bytes (?D ?a) 0 4096 @ map (fbyte ?D addrs) [4096 * Suc bo..<4096 * (Suc bo + n)],
        set_disk dv ?D b s)"
    using vaddr_valid [of s v bo] va a Suc.prems(1-3) vd IH by (simp add: block_ops buf_ops add.commute)
  moreover have "get_bytes (?D ?a) 0 4096 = map (fbyte ?D addrs) [4096 * bo..<4096 * Suc bo]"
    using get_bytes_fbyte [of 0 4096 ?D addrs bo] by (simp add: algebra_simps)
  moreover have "[4096 * bo..<4096 * (bo + Suc n)] =
      [4096 * bo..<4096 * Suc bo] @ [4096 * Suc bo..<4096 * (Suc bo + n)]"
    using upt_add_eq_append [of "4096 * bo" "4096 * Suc bo" "4096 * n"] by (simp add: algebra_simps)
  ultimately show ?case by auto
qed

lemma rfs_read_buffer_spec:
  assumes dv: "has_dev s dv" "vdev v s = dv" "v_addrs (vinodes s v) = addrs"
    and val: "\<And>j. j \<le> (off + len) div 4096 \<Longrightarrow> j * 4096 < off + len \<or> j = off div 4096 \<Longrightarrow> valid_block addrs j"
  shows "\<exists>b. rfs_read_buffer v (int len) (int off) s =
    Inr (map (fbyte (disk s dv) addrs) [off..<off + len], set_disk dv (disk s dv) b s)"
proof -
  let ?D = "disk s dv"
  define bo al rt rem where "bo = off div 4096" and "al = off mod 4096"
    and "rt = (al + len) div 4096" and "rem = (al + len) mod 4096"
  have off: "off = 4096 * bo + al" "al < 4096" by (simp_all add: bo_def al_def)
  have tot: "al + len = 4096 * rt + rem" "rem < 4096" by (simp_all add: rt_def rem_def)
  have endp: "off + len = 4096 * (bo + rt) + rem" using off tot by simp
  have ints: "cmod (int off) RFS_BLKSIZE = int al" "cdiv (int off) RFS_BLKSIZE = int bo"
    "cdiv (int al + int len) RFS_BLKSIZE = int rt" "cmod (int al + int len) RFS_BLKSIZE = int rem"
    by (simp_all add: RFS_defs al_def bo_def rt_def rem_def zdiv_int zmod_int)
  have va: "valid_block addrs bo"
    by (rule val) (simp_all add: endp bo_def [symmetric])
  let ?a = "addrs ! bo"
  have a: "0 \<le> ?a" "?a < 128" using va by (simp_all add: valid_block_def)
  let ?s1 = "set_disk dv ?D (?D ?a) s"
  have vd: "vdev v ?s1 = dv" "has_dev ?s1 dv" "disk ?s1 dv = ?D" "buf ?s1 dv = ?D ?a"
    "v_addrs (vinodes ?s1 v) = addrs"
    using dv by simp_all
  note vb = vaddr_valid [of s v bo, unfolded dv(3), OF va]
  show ?thesis
  proof (cases "rt = 0")
    case True
    have "get_bytes (?D ?a) al len = map (fbyte ?D addrs) [off..<off + len]"
      using get_bytes_fbyte [of al len ?D addrs bo] tot off True by simp
    then have "rfs_read_buffer v (int len) (int off) s =
        Inr (map (fbyte ?D addrs) [off..<off + len], ?s1)"
      using vb a dv(1,2) vd True unfolding rfs_read_buffer_def ints Let_def
      by (simp add: block_ops buf_ops)
    then show ?thesis by blast
  next
    case False
    then obtain k where k: "rt = Suc k" by (cases rt) auto
    have "\<exists>b. read_blocks k v (int (Suc bo)) ?s1 =
      Inr (map (fbyte (disk ?s1 dv) addrs) [4096 * Suc bo..<4096 * (Suc bo + k)], set_disk dv (disk ?s1 dv) b ?s1)"
      by (rule read_blocks_spec [OF vd(2,1,5)], rule val) (use endp k in auto)
    then obtain b where rb: "read_blocks k v (int (Suc bo)) ?s1 =
      Inr (map (fbyte ?D addrs) [4096 * Suc bo..<4096 * (bo + rt)], set_disk dv ?D b s)"
      using vd(3) by (auto simp: k)
    have b1: "get_bytes (?D ?a) al (4096 - al) = map (fbyte ?D addrs) [off..<4096 * Suc bo]"
      using get_bytes_fbyte [of al "4096 - al" ?D addrs bo] off by (simp add: add.commute [of 4096])
    have app: "[off..<4096 * Suc bo] @ [4096 * Suc bo..<4096 * (bo + rt)] = [off..<4096 * (bo + rt)]"
      using upt_add_eq_append [of off "4096 * Suc bo" "4096 * k"] off k by (simp add: algebra_simps)
    show ?thesis
    proof (cases "rem = 0")
      case True
      have "rfs_read_buffer v (int len) (int off) s =
          Inr (map (fbyte ?D addrs) ([off..<4096 * Suc bo] @ [4096 * Suc bo..<4096 * (bo + rt)]), set_disk dv ?D b s)"
        using vb a dv(1,2) vd rb b1 off(2) unfolding rfs_read_buffer_def ints Let_def
        by (simp add: block_ops buf_ops k True nat_diff_distrib add.commute RFS_defs of_nat_diff [symmetric] del: of_nat_diff)
      then show ?thesis unfolding app using endp True by auto
    next
      case False
      let ?a2 = "addrs ! (bo + rt)" and ?s2 = "set_disk dv ?D b s"
      have va2: "valid_block addrs (bo + rt)" by (rule val) (use endp False in auto)
      then have a2: "0 \<le> ?a2" "?a2 < 128" by (simp_all add: valid_block_def)
      have vb2: "vaddr v (int (bo + rt)) ?s2 = Inr ?a2"
        using vaddr_valid [of ?s2 v "bo + rt"] va2 dv(3) by simp
      have b3: "get_bytes (?D ?a2) 0 rem = map (fbyte ?D addrs) [4096 * (bo + rt)..<off + len]"
        using get_bytes_fbyte [of 0 rem ?D addrs "bo + rt"] tot(2) endp by simp
      have "rfs_read_buffer v (int len) (int off) s =
          Inr (map (fbyte ?D addrs) ([off..<4096 * Suc bo] @ [4096 * Suc bo..<4096 * (bo + rt)] @
            [4096 * (bo + rt)..<off + len]), set_disk dv ?D (?D ?a2) s)"
        using vb a dv(1,2) vd rb b1 b3 vb2 a2 off(2) False unfolding rfs_read_buffer_def ints Let_def
        by (simp add: block_ops buf_ops k nat_diff_distrib add.commute add.left_commute RFS_defs
            of_nat_diff [symmetric] del: of_nat_diff)
      moreover have "[off..<4096 * (bo + rt)] @ [4096 * (bo + rt)..<off + len] = [off..<off + len]"
        using upt_add_eq_append [of off "4096 * (bo + rt)" rem] off k unfolding endp by simp
      ultimately show ?thesis using app by (metis append.assoc)
    qed
  qed
qed

section \<open>Writing\<close>

definition nfree :: "u64 \<Rightarrow> 'z fs_scheme \<Rightarrow> nat" where
  "nfree sb s = card {k. 0 \<le> k \<and> k < 100 \<and> freemap sb s k = 0}"

definition file_inv :: "'z fs_scheme \<Rightarrow> u64 \<Rightarrow> int \<Rightarrow> nat \<Rightarrow> bool" where
  \<comment> \<open>the virtual inode \<open>v\<close> on device \<open>dv\<close> owns \<open>nb\<close> distinct blocks, all marked used\<close>
  "file_inv s v dv nb \<longleftrightarrow> (let x = vinodes s v in
     has_dev s dv \<and> vdev v s = dv \<and> v_blocks x = int nb \<and> nb \<le> 10 \<and> length (v_addrs x) = 10 \<and>
     sb_nblocks (sbs s (v_sb x)) = 100 \<and> distinct (take nb (v_addrs x)) \<and>
     (\<forall>j < nb. valid_block (v_addrs x) j \<and> freemap (v_sb x) s (v_addrs x ! j - 12) \<noteq> 0))"

definition file_step :: "'z fs_scheme \<Rightarrow> 'z fs_scheme \<Rightarrow> u64 \<Rightarrow> int \<Rightarrow> nat \<Rightarrow> nat \<Rightarrow> bool" where
  \<comment> \<open>what every part of a write keeps: the blocks already owned and all blocks of others\<close>
  "file_step s s' v dv nb nb' \<longleftrightarrow> nb \<le> nb' \<and> file_inv s' v dv nb' \<and>
     take nb (v_addrs (vinodes s' v)) = take nb (v_addrs (vinodes s v)) \<and>
     v_size (vinodes s' v) = v_size (vinodes s v) \<and> v_sb (vinodes s' v) = v_sb (vinodes s v) \<and>
     nfree (v_sb (vinodes s v)) s' + (nb' - nb) = nfree (v_sb (vinodes s v)) s \<and>
     (\<forall>b. b \<notin> set (take nb' (v_addrs (vinodes s' v))) \<longrightarrow> disk s' dv b = disk s dv b) \<and>
     (\<forall>b \<in> set (take nb' (v_addrs (vinodes s' v))). b \<in> set (take nb (v_addrs (vinodes s v))) \<or>
        freemap (v_sb (vinodes s v)) s (b - 12) = 0) \<and>
     (\<forall>k. freemap (v_sb (vinodes s v)) s' k = 0 \<longrightarrow> freemap (v_sb (vinodes s v)) s k = 0)"

lemma freemap_set_disk [simp]: "freemap sb (set_disk dv D b s) = freemap sb s"
  by (simp add: freemap_def)

lemma nfree_set_disk [simp]: "nfree sb (set_disk dv D b s) = nfree sb s"
  by (simp add: nfree_def)

lemma file_inv_set_disk [simp]: "file_inv (set_disk dv D b s) v dv nb = file_inv s v dv nb"
  by (simp add: file_inv_def)

lemma file_step_refl: "file_inv s v dv nb \<Longrightarrow> file_step s s v dv nb nb"
  by (simp add: file_step_def)

lemma freemap_upd_vinode [simp]: "freemap sb (upd_vinode v g s) = freemap sb s"
  by (simp add: freemap_def upd_vinode_def)

lemma nfree_alloc:
  assumes "freemap sb s k = 0" "0 \<le> k" "k < 100" "freemap sb s' = (freemap sb s)(k := 1)"
  shows "Suc (nfree sb s') = nfree sb s"
proof -
  let ?F = "{k. 0 \<le> k \<and> k < 100 \<and> freemap sb s k = 0}"
  have "{j. 0 \<le> j \<and> j < 100 \<and> freemap sb s' j = 0} = ?F - {k}" using assms(4) by auto
  moreover have "finite ?F" by (rule finite_subset [of _ "{0..<100}"]) auto
  moreover have "k \<in> ?F" using assms(1-3) by simp
  ultimately show ?thesis using card_Suc_Diff1 [of ?F k] by (simp only: nfree_def)
qed

lemma file_invD:
  assumes "file_inv s v dv nb"
  shows "has_dev s dv" "vdev v s = dv" "v_blocks (vinodes s v) = int nb" "nb \<le> 10"
    "length (v_addrs (vinodes s v)) = 10" "distinct (take nb (v_addrs (vinodes s v)))"
    "sb_nblocks (sbs s (v_sb (vinodes s v))) = 100"
    "j < nb \<Longrightarrow> valid_block (v_addrs (vinodes s v)) j"
    "j < nb \<Longrightarrow> freemap (v_sb (vinodes s v)) s (v_addrs (vinodes s v) ! j - 12) \<noteq> 0"
  using assms by (auto simp: file_inv_def Let_def)

lemma write_block_spec:
  assumes inv: "file_inv s v dv nb" and bo: "bo < nb"
  defines "addrs \<equiv> v_addrs (vinodes s v)"
  shows "kbind (vaddr v (int bo) s) (\<lambda>a. rfs_w1block (vdev v s) a s) =
      Inr (set_disk dv ((disk s dv)(addrs ! bo := buf s dv)) (buf s dv) s)"
    and "file_step s (set_disk dv ((disk s dv)(addrs ! bo := buf s dv)) (buf s dv) s) v dv nb nb"
    and "i < 4096 * nb \<Longrightarrow> fbyte ((disk s dv)(addrs ! bo := buf s dv)) addrs i =
      (if i div 4096 = bo then buf s dv (i mod 4096) else fbyte (disk s dv) addrs i)"
proof -
  note I = file_invD [OF inv]
  have va: "valid_block addrs bo" using I(8) bo by (simp add: addrs_def)
  then have a: "0 \<le> addrs ! bo" "addrs ! bo < 128" by (simp_all add: valid_block_def)
  show "kbind (vaddr v (int bo) s) (\<lambda>a. rfs_w1block (vdev v s) a s) =
      Inr (set_disk dv ((disk s dv)(addrs ! bo := buf s dv)) (buf s dv) s)"
    using va a vaddr_valid [of s v bo] I(1,2) by (simp add: addrs_def block_ops)
  have "addrs ! bo \<in> set (take nb addrs)"
    using bo I(4,5) by (auto simp: in_set_conv_nth addrs_def)
  then show "file_step s (set_disk dv ((disk s dv)(addrs ! bo := buf s dv)) (buf s dv) s) v dv nb nb"
    using inv I(1) by (auto simp: file_step_def addrs_def)
  have "addrs ! k = addrs ! bo \<longleftrightarrow> k = bo" if "k < nb" for k
    using nth_eq_iff_index_eq [OF I(6), of k bo] that bo I(4,5) by (simp add: addrs_def)
  moreover have "i div 4096 < nb" if "i < 4096 * nb" using that by (simp add: less_mult_imp_div_less mult.commute)
  ultimately show "i < 4096 * nb \<Longrightarrow> fbyte ((disk s dv)(addrs ! bo := buf s dv)) addrs i =
      (if i div 4096 = bo then buf s dv (i mod 4096) else fbyte (disk s dv) addrs i)"
    by (simp add: fbyte_def)
qed

lemma ensure_block_spec:
  assumes inv: "file_inv s v dv nb" and bo: "bo \<le> nb" "bo < 10"
    and free: "bo = nb \<Longrightarrow> 0 < nfree (v_sb (vinodes s v)) s"
  shows "\<exists>s'. ensure_block v (int bo) s = Inr s' \<and> file_step s s' v dv nb (max nb (Suc bo)) \<and>
    disk s' dv = disk s dv \<and> buf s' dv = buf s dv"
proof (cases "bo = nb")
  case False
  then have "max nb (Suc bo) = nb" using bo by simp
  then show ?thesis using file_step_refl [OF inv] file_invD(3) [OF inv] False by (simp add: ensure_block_def)
next
  case True
  note I = file_invD [OF inv]
  let ?sb = "v_sb (vinodes s v)" and ?addrs = "v_addrs (vinodes s v)"
  have "\<exists>k. 0 \<le> k \<and> k < 100 \<and> freemap ?sb s k = 0"
    using free [OF True] by (force simp: nfree_def card_gt_0_iff)
  then obtain b s1 where al: "rfs_alloc_block ?sb s = Inr (b, s1)"
    using rfs_alloc_block_cases [where sb = ?sb and s = s] I(7) by (auto split: sum.splits)
  then have b: "12 \<le> b" "b < 112" "freemap ?sb s (b - 12) = 0"
    "freemap ?sb s1 = (freemap ?sb s)(b - 12 := 1)"
    and s1: "s1 = s\<lparr>freemaps := (freemaps s)(s_fs_info (sbs s ?sb) := freemap ?sb s1)\<rparr>"
    using rfs_alloc_block_cases [where sb = ?sb and s = s] I(7) by auto
  let ?g = "\<lambda>x. x\<lparr>v_addrs := (v_addrs x)[nb := b], v_blocks := v_blocks x + 1\<rparr>"
  define s2 where "s2 = upd_vinode v ?g s1"
  have eq: "ensure_block v (int bo) s = Inr s2"
    using al True bo(2) I(3) by (simp add: ensure_block_def s2_def RFS_defs)
  have same: "vinodes s1 = vinodes s" "sbs s1 = sbs s" "devices s1 = devices s" "disk s1 dv = disk s dv"
    "buf s1 dv = buf s dv" "has_dev s1 dv = has_dev s dv"
    by (subst s1; simp add: disk_def buf_def has_dev_def)+
  have v2: "v_addrs (vinodes s2 v) = ?addrs[nb := b]" "v_sb (vinodes s2 v) = ?sb"
    "v_blocks (vinodes s2 v) = int (Suc nb)" "v_size (vinodes s2 v) = v_size (vinodes s v)"
    using I(3) by (simp_all add: s2_def same)
  have tk: "take (Suc nb) (?addrs[nb := b]) = take nb ?addrs @ [b]"
    using True bo(2) I(5) by (simp add: take_Suc_conv_app_nth)
  have nb10: "nb < 10" using True bo(2) by simp
  have own: "?addrs ! j \<noteq> b" if "j < nb" for j using I(9) [OF that] b(3) by auto
  have fm: "freemap ?sb s2 = (freemap ?sb s)(b - 12 := 1)" using b(4) by (simp add: s2_def)
  have inv2: "file_inv s2 v dv (Suc nb)"
    unfolding file_inv_def Let_def v2 tk
  proof (intro conjI allI impI)
    show "has_dev s2 dv" "vdev v s2 = dv" using I(1,2) by (simp_all add: s2_def same vdev_def)
    show "sb_nblocks (sbs s2 ?sb) = 100" using I(7) by (simp add: s2_def same)
    have "b \<notin> set (take nb ?addrs)"
      using own I(4,5) by (auto simp: in_set_conv_nth)
    then show "distinct (take nb ?addrs @ [b])" using I(6) by simp
    fix j assume "j < Suc nb"
    then show "valid_block (?addrs[nb := b]) j" "freemap ?sb s2 (?addrs[nb := b] ! j - 12) \<noteq> 0"
      using I(5,8,9) b(1,2) nb10 fm by (auto simp: less_Suc_eq valid_block_def)
  qed (use I nb10 in auto)
  have "Suc (nfree ?sb s2) = nfree ?sb s" by (rule nfree_alloc [OF b(3) _ _ fm]) (use b in auto)
  then have "file_step s s2 v dv nb (Suc nb)"
    unfolding file_step_def v2 tk using inv2 I(5) nb10 b(3) fm by (simp add: same s2_def [symmetric])
      (auto simp: s2_def same)
  then show ?thesis using eq True same by (auto simp: s2_def)
qed

lemma file_step_trans:
  assumes 1: "file_step s s1 v dv nb nb1" and 2: "file_step s1 s2 v dv nb1 nb2"
  shows "file_step s s2 v dv nb nb2"
proof -
  let ?a = "v_addrs (vinodes s v)" and ?a1 = "v_addrs (vinodes s1 v)" and ?a2 = "v_addrs (vinodes s2 v)"
  have le: "nb \<le> nb1" "nb1 \<le> nb2" and tk: "take nb ?a1 = take nb ?a" "take nb1 ?a2 = take nb1 ?a1"
    using 1 2 by (simp_all add: file_step_def)
  have t2: "take nb ?a2 = take nb ?a" using tk le by (metis min.absorb1 take_take)
  have sub: "set (take nb1 ?a1) \<subseteq> set (take nb2 ?a2)"
    using tk(2) set_take_subset_set_take [OF le(2)] by metis
  have sb: "v_sb (vinodes s1 v) = v_sb (vinodes s v)" "v_sb (vinodes s2 v) = v_sb (vinodes s v)"
    using 1 2 by (simp_all add: file_step_def)
  have d: "disk s2 dv b = disk s dv b" if "b \<notin> set (take nb2 ?a2)" for b
    using 1 2 that sub unfolding file_step_def by (metis subsetD)
  have own: "b \<in> set (take nb ?a) \<or> freemap (v_sb (vinodes s v)) s (b - 12) = 0"
    if "b \<in> set (take nb2 ?a2)" for b
    using 1 2 that sb unfolding file_step_def by metis
  have "nfree (v_sb (vinodes s v)) s1 + (nb1 - nb) = nfree (v_sb (vinodes s v)) s"
    "nfree (v_sb (vinodes s v)) s2 + (nb2 - nb1) = nfree (v_sb (vinodes s v)) s1"
    using 1 2 sb by (simp_all only: file_step_def)
  then have nf: "nfree (v_sb (vinodes s v)) s2 + (nb2 - nb) = nfree (v_sb (vinodes s v)) s"
    using le by linarith
  have fm: "freemap (v_sb (vinodes s v)) s2 k = 0 \<longrightarrow> freemap (v_sb (vinodes s v)) s k = 0" for k
    using 1 2 sb by (simp add: file_step_def)
  have rest: "nb \<le> nb2" "file_inv s2 v dv nb2" "v_size (vinodes s2 v) = v_size (vinodes s v)"
    using 1 2 le by (simp_all add: file_step_def)
  show ?thesis
    unfolding file_step_def by (intro conjI allI ballI impI rest t2 sb(2) nf d own fm [rule_format])
qed

definition content :: "'z fs_scheme \<Rightarrow> u64 \<Rightarrow> int \<Rightarrow> nat \<Rightarrow> u8" where
  "content s v dv = fbyte (disk s dv) (v_addrs (vinodes s v))"

lemma file_stepD:
  assumes "file_step s s' v dv nb nb'"
  shows "nb \<le> nb'" "file_inv s' v dv nb'" "v_size (vinodes s' v) = v_size (vinodes s v)"
    "v_sb (vinodes s' v) = v_sb (vinodes s v)"
    "k < nb \<Longrightarrow> v_addrs (vinodes s' v) ! k = v_addrs (vinodes s v) ! k"
    "nfree (v_sb (vinodes s v)) s' + (nb' - nb) = nfree (v_sb (vinodes s v)) s"
proof -
  show "k < nb \<Longrightarrow> v_addrs (vinodes s' v) ! k = v_addrs (vinodes s v) ! k"
    using assms by (metis file_step_def nth_take)
qed (use assms in \<open>auto simp: file_step_def\<close>)

definition put_block :: "u64 \<Rightarrow> int \<Rightarrow> (bytes \<Rightarrow> bytes) \<Rightarrow> 'z fs_scheme \<Rightarrow> kerr + 'z fs_scheme" where
  \<comment> \<open>the body of the block loop of \<^verbatim>\<open>rfs_write\<close>: get a block, fill the buffer, write it\<close>
  "put_block v bo f s =
     kbind (ensure_block v bo s) (\<lambda>s.
     kbind (upd_iobuf (vdev v s) f s) (\<lambda>s.
     kbind (vaddr v bo s) (\<lambda>a. rfs_w1block (vdev v s) a s)))"

lemma put_block_spec:
  assumes inv: "file_inv s v dv nb" and bo: "bo \<le> nb" "bo < 10"
    and free: "bo = nb \<Longrightarrow> 0 < nfree (v_sb (vinodes s v)) s"
  shows "\<exists>s'. put_block v (int bo) f s = Inr s' \<and> file_step s s' v dv nb (max nb (Suc bo)) \<and>
    (\<forall>j. j < 4096 \<longrightarrow> content s' v dv (4096 * bo + j) = f (buf s dv) j) \<and>
    (\<forall>i < 4096 * nb. i div 4096 \<noteq> bo \<longrightarrow> content s' v dv i = content s v dv i)"
proof -
  from ensure_block_spec [OF inv bo free] obtain s1 where
    e: "ensure_block v (int bo) s = Inr s1" "file_step s s1 v dv nb (max nb (Suc bo))"
      "disk s1 dv = disk s dv" "buf s1 dv = buf s dv" by blast
  let ?nb = "max nb (Suc bo)" and ?b = "f (buf s dv)"
  note S = file_stepD [OF e(2)]
  note I = file_invD [OF S(2)]
  define s2 where "s2 = set_disk dv (disk s dv) ?b s1"
  have u: "upd_iobuf (vdev v s1) f s1 = Inr s2" using I(1,2) e(3,4) by (simp add: buf_ops s2_def)
  have inv2: "file_inv s2 v dv ?nb" using S(2) by (simp add: s2_def)
  have b2: "buf s2 dv = ?b" "disk s2 dv = disk s dv" "vinodes s2 = vinodes s1" using I(1) by (simp_all add: s2_def)
  let ?addrs = "v_addrs (vinodes s1 v)"
  define s3 where "s3 = set_disk dv ((disk s dv)(?addrs ! bo := ?b)) ?b s2"
  have "bo < ?nb" by simp
  note W = write_block_spec [OF inv2 this, unfolded b2]
  have eq: "put_block v (int bo) f s = Inr s3"
    using e(1) u W(1) by (simp add: put_block_def s3_def)
  have "file_step s1 s2 v dv ?nb ?nb" using S(2) I(1) e(3) by (simp add: file_step_def s2_def)
  then have st: "file_step s s3 v dv nb ?nb"
    using file_step_trans [OF e(2) file_step_trans] W(2) by (auto simp: s3_def)
  have c: "content s3 v dv i = (if i div 4096 = bo then ?b (i mod 4096) else fbyte (disk s dv) ?addrs i)"
    if "i < 4096 * ?nb" for i
    using W(3) [OF that] I(1) by (simp add: content_def s3_def s2_def)
  have "content s3 v dv (4096 * bo + j) = ?b j" if "j < 4096" for j
  proof -
    have "4096 * bo + j < 4096 * ?nb" using that by (auto simp: max_def)
    then show ?thesis using c that by simp
  qed
  moreover have "content s3 v dv i = content s v dv i" if "i < 4096 * nb" "i div 4096 \<noteq> bo" for i
  proof -
    have "i div 4096 < nb" using that(1) by (simp add: less_mult_imp_div_less mult.commute)
    then show ?thesis using c [of i] that S(5) by (simp add: content_def fbyte_def max_def)
  qed
  ultimately show ?thesis using eq st by blast
qed

lemma write_blocks_spec:
  assumes "file_inv s v dv nb" "bo \<le> nb" "bo + n \<le> 10" "4096 * n \<le> length w"
    and "bo + n - nb \<le> nfree (v_sb (vinodes s v)) s"
  shows "\<exists>s'. write_blocks n v (int bo) w s = Inr s' \<and> file_step s s' v dv nb (max nb (bo + n)) \<and>
    (\<forall>i < 4096 * n. content s' v dv (4096 * bo + i) = w ! i) \<and>
    (\<forall>i < 4096 * nb. i < 4096 * bo \<or> 4096 * (bo + n) \<le> i \<longrightarrow> content s' v dv i = content s v dv i)"
  using assms
proof (induction n arbitrary: bo w s nb)
  case 0
  then show ?case using file_step_refl [of s v dv nb] by (auto simp: max_def)
next
  case (Suc n)
  have "bo < 10" using Suc.prems(3) by simp
  moreover have "bo = nb \<Longrightarrow> 0 < nfree (v_sb (vinodes s v)) s" using Suc.prems(5) by auto
  ultimately obtain s1 where p: "put_block v (int bo) (\<lambda>b. put_bytes b 0 (take 4096 w)) s = Inr s1"
    "file_step s s1 v dv nb (max nb (Suc bo))" and
    c1: "\<And>j. j < 4096 \<Longrightarrow> content s1 v dv (4096 * bo + j) = put_bytes (buf s dv) 0 (take 4096 w) j" and
    o1: "\<And>i. i < 4096 * nb \<Longrightarrow> i div 4096 \<noteq> bo \<Longrightarrow> content s1 v dv i = content s v dv i"
    using put_block_spec [OF Suc.prems(1,2), of "\<lambda>b. put_bytes b 0 (take 4096 w)"] by blast
  let ?nb = "max nb (Suc bo)"
  note S = file_stepD [OF p(2)]
  have "\<exists>s'. write_blocks n v (int (Suc bo)) (drop 4096 w) s1 = Inr s' \<and>
      file_step s1 s' v dv ?nb (max ?nb (Suc bo + n)) \<and>
    (\<forall>i < 4096 * n. content s' v dv (4096 * Suc bo + i) = drop 4096 w ! i) \<and>
    (\<forall>i < 4096 * ?nb. i < 4096 * Suc bo \<or> 4096 * (Suc bo + n) \<le> i \<longrightarrow> content s' v dv i = content s1 v dv i)"
  proof (rule Suc.IH [OF S(2)])
    show "Suc bo + n - ?nb \<le> nfree (v_sb (vinodes s1 v)) s1" using Suc.prems(5) S(4,6) by auto
  qed (use Suc.prems in auto)
  then obtain s2 where w2: "write_blocks n v (int (Suc bo)) (drop 4096 w) s1 = Inr s2"
      "file_step s1 s2 v dv ?nb (max ?nb (Suc bo + n))" and
    c2: "\<And>i. i < 4096 * n \<Longrightarrow> content s2 v dv (4096 * Suc bo + i) = drop 4096 w ! i" and
    o2: "\<And>i. i < 4096 * ?nb \<Longrightarrow> i < 4096 * Suc bo \<or> 4096 * (Suc bo + n) \<le> i \<Longrightarrow>
      content s2 v dv i = content s1 v dv i" by blast
  have "write_blocks (Suc n) v (int bo) w s =
      kbind (put_block v (int bo) (\<lambda>b. put_bytes b 0 (take 4096 w)) s) (write_blocks n v (int bo + 1) (drop 4096 w))"
    by (simp add: put_block_def kbind_assoc)
  then have eq: "write_blocks (Suc n) v (int bo) w s = Inr s2" using p(1) w2(1) by (simp add: add.commute)
  have m: "max ?nb (Suc bo + n) = max nb (bo + Suc n)" by simp
  have st: "file_step s s2 v dv nb (max nb (bo + Suc n))" using file_step_trans [OF p(2) w2(2)] m by simp
  have "content s2 v dv (4096 * bo + i) = w ! i" if i: "i < 4096 * Suc n" for i
  proof (cases "i < 4096")
    case True
    have "4096 * bo + i < 4096 * ?nb" using True by (auto simp: max_def)
    then have "content s2 v dv (4096 * bo + i) = content s1 v dv (4096 * bo + i)" using True by (intro o2) auto
    then show ?thesis using c1 [OF True] True Suc.prems(4) by (simp add: put_bytes_at)
  next
    case False
    then have "content s2 v dv (4096 * Suc bo + (i - 4096)) = drop 4096 w ! (i - 4096)" using i by (intro c2) auto
    then show ?thesis using False Suc.prems(4) by simp
  qed
  moreover have "content s2 v dv i = content s v dv i"
    if "i < 4096 * nb" "i < 4096 * bo \<or> 4096 * (bo + Suc n) \<le> i" for i
  proof -
    have "i < 4096 * ?nb" using that(1) by (auto simp: max_def)
    then have "content s2 v dv i = content s1 v dv i" using that by (intro o2) auto
    moreover have "i div 4096 \<noteq> bo" using that(2) by (auto dest: div_less_iff_less_mult [THEN iffD1])
    ultimately show ?thesis using o1 that(1) by simp
  qed
  ultimately show ?case using eq st by blast
qed

definition write_tail :: "u64 \<Rightarrow> int \<Rightarrow> nat \<Rightarrow> nat \<Rightarrow> u8 list \<Rightarrow> 'z fs_scheme \<Rightarrow> kerr + 'z fs_scheme" where
  \<comment> \<open>the part of \<^verbatim>\<open>rfs_write\<close> after the first block: \<open>n\<close> complete blocks and \<open>rem\<close> bytes\<close>
  "write_tail v bo n rem w s =
     kbind (write_blocks n v bo w s) (\<lambda>s.
       if rem > 0 then put_block v (bo + int n) (\<lambda>b. put_bytes b 0 (take rem (drop (4096 * n) w))) s
       else Inr s)"

lemma write_tail_spec:
  assumes inv: "file_inv s v dv nb" and bo: "bo \<le> nb" and fit: "4096 * (bo + n) + rem \<le> 40960"
    and rem: "rem < 4096" and len: "length w = 4096 * n + rem"
    and free: "bo + n + (if rem = 0 then 0 else 1) - nb \<le> nfree (v_sb (vinodes s v)) s"
  shows "\<exists>s' nb'. write_tail v (int bo) n rem w s = Inr s' \<and> file_step s s' v dv nb nb' \<and>
    4096 * (bo + n) + rem \<le> 4096 * nb' \<and>
    (\<forall>i < 4096 * n + rem. content s' v dv (4096 * bo + i) = w ! i) \<and>
    (\<forall>i < 4096 * bo. content s' v dv i = content s v dv i)"
proof -
  have "\<exists>s'. write_blocks n v (int bo) w s = Inr s' \<and> file_step s s' v dv nb (max nb (bo + n)) \<and>
    (\<forall>i < 4096 * n. content s' v dv (4096 * bo + i) = w ! i) \<and>
    (\<forall>i < 4096 * nb. i < 4096 * bo \<or> 4096 * (bo + n) \<le> i \<longrightarrow> content s' v dv i = content s v dv i)"
    by (rule write_blocks_spec [OF inv bo]) (use fit len free in \<open>auto split: if_splits\<close>)
  then obtain s1 where w1: "write_blocks n v (int bo) w s = Inr s1" "file_step s s1 v dv nb (max nb (bo + n))" and
    c1: "\<And>i. i < 4096 * n \<Longrightarrow> content s1 v dv (4096 * bo + i) = w ! i" and
    o1: "\<And>i. i < 4096 * nb \<Longrightarrow> i < 4096 * bo \<Longrightarrow> content s1 v dv i = content s v dv i" by blast
  let ?nb = "max nb (bo + n)"
  note S = file_stepD [OF w1(2)]
  have lo: "i < 4096 * nb" if "i < 4096 * bo" for i using that bo by auto
  show ?thesis
  proof (cases "rem = 0")
    case True
    then have "write_tail v (int bo) n rem w s = Inr s1" using w1(1) by (simp add: write_tail_def)
    then show ?thesis using w1(2) True c1 o1 lo by (intro exI [of _ s1] exI [of _ ?nb]) (auto simp: max_def)
  next
    case False
    have b10: "bo + n \<le> ?nb" "bo + n < 10" using fit False by auto
    have fr: "bo + n = ?nb \<Longrightarrow> 0 < nfree (v_sb (vinodes s1 v)) s1"
      using free S(4,6) False by (auto simp: max_def split: if_splits)
    let ?f = "\<lambda>b. put_bytes b 0 (take rem (drop (4096 * n) w))"
    from put_block_spec [OF S(2) b10 fr, of ?f] obtain s2 where
      p: "put_block v (int (bo + n)) ?f s1 = Inr s2" "file_step s1 s2 v dv ?nb (max ?nb (Suc (bo + n)))" and
      c2: "\<And>j. j < 4096 \<Longrightarrow> content s2 v dv (4096 * (bo + n) + j) = ?f (buf s1 dv) j" and
      o2: "\<And>i. i < 4096 * ?nb \<Longrightarrow> i div 4096 \<noteq> bo + n \<Longrightarrow> content s2 v dv i = content s1 v dv i"
      by blast
    have eq: "write_tail v (int bo) n rem w s = Inr s2" using w1(1) p(1) False by (simp add: write_tail_def)
    have lt: "content s2 v dv i = content s1 v dv i" if "i < 4096 * (bo + n)" for i
    proof (rule o2)
      show "i < 4096 * ?nb" using that by (auto simp: max_def)
      show "i div 4096 \<noteq> bo + n" using that by (auto simp: less_mult_imp_div_less mult.commute)
    qed
    have "content s2 v dv (4096 * bo + i) = w ! i" if "i < 4096 * n + rem" for i
    proof (cases "i < 4096 * n")
      case True
      then show ?thesis using lt c1 by simp
    next
      case False
      then have "i - 4096 * n < rem" using that by simp
      then have "content s2 v dv (4096 * (bo + n) + (i - 4096 * n)) = w ! i"
        using c2 [of "i - 4096 * n"] rem len False by (simp add: put_bytes_at)
      then show ?thesis using False by (simp add: algebra_simps)
    qed
    moreover have "content s2 v dv i = content s v dv i" if "i < 4096 * bo" for i
      using that lt [of i] o1 [OF lo [OF that] that] by simp
    moreover have "4096 * (bo + n) + rem \<le> 4096 * max ?nb (Suc (bo + n))" using rem by (auto simp: max_def)
    ultimately show ?thesis using eq file_step_trans [OF w1(2) p(2)] by blast
  qed
qed

lemma first_block_spec:
  assumes inv: "file_inv s v dv nb" and bo: "bo < nb"
  shows "\<exists>s'. kbind (vaddr v (int bo) s) (\<lambda>a. kbind (rfs_r1block (vdev v s) a s) (\<lambda>s.
        kbind (upd_iobuf (vdev v s) f s) (\<lambda>s. rfs_w1block (vdev v s) a s))) = Inr s' \<and>
    file_step s s' v dv nb nb \<and>
    (\<forall>i < 4096 * nb. content s' v dv i =
       (if i div 4096 = bo then f (disk s dv (v_addrs (vinodes s v) ! bo)) (i mod 4096) else content s v dv i))"
proof -
  note I = file_invD [OF inv]
  let ?addrs = "v_addrs (vinodes s v)" and ?D = "disk s dv"
  have va: "valid_block ?addrs bo" using I(8) bo by simp
  then have a: "0 \<le> ?addrs ! bo" "?addrs ! bo < 128" by (simp_all add: valid_block_def)
  define s1 where "s1 = set_disk dv ?D (f (?D (?addrs ! bo))) s"
  have inv1: "file_inv s1 v dv nb" using inv by (simp add: s1_def)
  have s1: "disk s1 dv = ?D" "buf s1 dv = f (?D (?addrs ! bo))" "vinodes s1 = vinodes s"
    "vdev v s1 = dv" "has_dev s1 dv" using I(1,2) by (simp_all add: s1_def)
  note W = write_block_spec [OF inv1 bo, unfolded s1]
  let ?s2 = "set_disk dv (?D(?addrs ! bo := f (?D (?addrs ! bo)))) (f (?D (?addrs ! bo))) s1"
  have "kbind (vaddr v (int bo) s) (\<lambda>a. kbind (rfs_r1block (vdev v s) a s) (\<lambda>s.
        kbind (upd_iobuf (vdev v s) f s) (\<lambda>s. rfs_w1block (vdev v s) a s))) = Inr ?s2"
    using vaddr_valid [of s v bo] va a I(1,2) s1 by (simp add: block_ops buf_ops s1_def [symmetric])
  moreover have "file_step s s1 v dv nb nb" using inv inv1 I(1) by (simp add: file_step_def s1_def)
  then have "file_step s ?s2 v dv nb nb" using file_step_trans W(2) by blast
  moreover have "content ?s2 v dv i = (if i div 4096 = bo then f (?D (?addrs ! bo)) (i mod 4096) else content s v dv i)"
    if "i < 4096 * nb" for i
    using W(3) [OF that] s1 by (simp add: content_def)
  ultimately show ?thesis by blast
qed

definition write_body :: "u64 \<Rightarrow> u8 list \<Rightarrow> nat \<Rightarrow> nat \<Rightarrow> 'z fs_scheme \<Rightarrow> kerr + 'z fs_scheme" where
  \<comment> \<open>\<^verbatim>\<open>rfs_write\<close> between its check and the update of the size, for an offset \<open>4096 * bo + al\<close>\<close>
  "write_body v w bo al s =
     (let len = length w; n = (len + al) div 4096; rem = (len + al) mod 4096;
          fst_len = (if n = 0 then len else 4096 - al) in
      if al = 0 then write_tail v (int bo) n rem w s
      else kbind (kbind (vaddr v (int bo) s) (\<lambda>a. kbind (rfs_r1block (vdev v s) a s) (\<lambda>s.
             kbind (upd_iobuf (vdev v s) (\<lambda>b. put_bytes b al (take fst_len w)) s)
               (\<lambda>s. rfs_w1block (vdev v s) a s)))) (\<lambda>s.
           if n = 0 then Inr s else write_tail v (int (Suc bo)) (n - 1) rem (drop fst_len w) s))"

lemma kbind_Inr_right: "kbind m Inr = m"
  by (cases m) simp_all

lemma rfs_write_body:
  assumes "int off \<le> v_size (vinodes s v)"
  shows "rfs_write v w (int (length w)) (int off) s =
    kbind (write_body v w (off div 4096) (off mod 4096) s) (\<lambda>s.
      Inr (int (length w), int (off + length w), upd_vinode v (\<lambda>x. x\<lparr>v_size :=
        (if v_size x < int (off + length w) then int (off + length w) else v_size x)\<rparr>) s))"
proof -
  define bo al n rem where "bo = off div 4096" and "al = off mod 4096"
    and "n = (length w + al) div 4096" and "rem = (length w + al) mod 4096"
  have al: "al < 4096" by (simp add: al_def)
  have ints: "cmod (int off) RFS_BLKSIZE = int al" "cdiv (int off) RFS_BLKSIZE = int bo"
    "cdiv (int (length w) + int al) RFS_BLKSIZE = int n" "cmod (int (length w) + int al) RFS_BLKSIZE = int rem"
    by (simp_all add: RFS_defs al_def bo_def n_def rem_def zdiv_int zmod_int)
  have sub: "nat (RFS_BLKSIZE - int al) = 4096 - al" using al by (simp add: RFS_defs)
  have le: "\<not> v_size (vinodes s v) < int off" using assms by simp
  note defs = rfs_write_def ints Let_def write_body_def bo_def [symmetric] al_def [symmetric]
      n_def [symmetric] rem_def [symmetric]
  show ?thesis
  proof (cases "al = 0")
    case True
    then show ?thesis using le unfolding defs by (simp add: write_tail_def put_block_def cong: if_cong)
  next
    case False
    show ?thesis
    proof (cases n)
      case 0
      show ?thesis using le False unfolding defs 0 by (simp add: kbind_Inr_right cong: if_cong)
    next
      case (Suc m)
      have m: "int (Suc m) - 1 = int m" "int (Suc bo) = int bo + 1" by simp_all
      show ?thesis using le False unfolding defs Suc m
        by (simp add: write_tail_def put_block_def sub kbind_assoc cong: if_cong)
    qed
  qed
qed

lemma content_offset:
  assumes "al < 4096" "al + j < 4096"
  shows "(4096 * bo + al + j) div 4096 = bo" "(4096 * bo + al + j) mod 4096 = al + (j :: nat)"
  using assms by (simp_all add: add.assoc)

lemma first_block_write:
  assumes inv: "file_inv s v dv nb" and bo: "bo < nb" and al: "al + length ws \<le> 4096"
  shows "\<exists>s'. kbind (vaddr v (int bo) s) (\<lambda>a. kbind (rfs_r1block (vdev v s) a s) (\<lambda>s.
        kbind (upd_iobuf (vdev v s) (\<lambda>b. put_bytes b al ws) s) (\<lambda>s. rfs_w1block (vdev v s) a s))) = Inr s' \<and>
    file_step s s' v dv nb nb \<and>
    (\<forall>i < length ws. content s' v dv (4096 * bo + al + i) = ws ! i) \<and>
    (\<forall>i < 4096 * nb. i < 4096 * bo + al \<or> 4096 * bo + al + length ws \<le> i \<longrightarrow>
       content s' v dv i = content s v dv i)"
proof -
  from first_block_spec [OF inv bo, of "\<lambda>b. put_bytes b al ws"] obtain s' where
    s': "kbind (vaddr v (int bo) s) (\<lambda>a. kbind (rfs_r1block (vdev v s) a s) (\<lambda>s.
        kbind (upd_iobuf (vdev v s) (\<lambda>b. put_bytes b al ws) s) (\<lambda>s. rfs_w1block (vdev v s) a s))) = Inr s'"
    "file_step s s' v dv nb nb" and
    c: "\<And>i. i < 4096 * nb \<Longrightarrow> content s' v dv i =
       (if i div 4096 = bo then put_bytes (disk s dv (v_addrs (vinodes s v) ! bo)) al ws (i mod 4096)
        else content s v dv i)" by blast
  have "content s' v dv (4096 * bo + al + i) = ws ! i" if "i < length ws" for i
  proof -
    have "4096 * bo + al + i < 4096 * nb" using that al bo by linarith
    then show ?thesis using c that al content_offset [of al i bo] by (simp add: put_bytes_at)
  qed
  moreover have "content s' v dv i = content s v dv i"
    if "i < 4096 * nb" "i < 4096 * bo + al \<or> 4096 * bo + al + length ws \<le> i" for i
  proof (cases "i div 4096 = bo")
    case True
    then have "i = 4096 * bo + i mod 4096" by (metis mult_div_mod_eq)
    then have "\<not> (al \<le> i mod 4096 \<and> i mod 4096 < al + length ws)" using that(2) by linarith
    then have "put_bytes b al ws (i mod 4096) = b (i mod 4096)" for b by (auto simp: put_bytes_at)
    then show ?thesis using c [OF that(1)] True by (simp add: content_def fbyte_def)
  qed (use c [OF that(1)] in simp)
  ultimately show ?thesis using s' by blast
qed

lemma write_body_spec:
  assumes inv: "file_inv s v dv nb" and off: "4096 * bo + al \<le> 4096 * nb" "al < 4096"
    and fit: "4096 * bo + al + length w \<le> 40960"
    and free: "4096 * bo + al + length w \<le> 4096 * (nb + nfree (v_sb (vinodes s v)) s)"
  shows "\<exists>s' nb'. write_body v w bo al s = Inr s' \<and> file_step s s' v dv nb nb' \<and>
    4096 * bo + al + length w \<le> 4096 * nb' \<and>
    (\<forall>i < length w. content s' v dv (4096 * bo + al + i) = w ! i) \<and>
    (\<forall>i < 4096 * bo + al. content s' v dv i = content s v dv i)"
proof -
  define n rem where "n = (length w + al) div 4096" and "rem = (length w + al) mod 4096"
  have len: "length w + al = 4096 * n + rem" "rem < 4096" by (simp_all add: n_def rem_def)
  note body = write_body_def Let_def n_def [symmetric] rem_def [symmetric]
  let ?nf = "nfree (v_sb (vinodes s v)) s"
  show ?thesis
  proof (cases "al = 0")
    case True
    have "\<exists>s' nb'. write_tail v (int bo) n rem w s = Inr s' \<and> file_step s s' v dv nb nb' \<and>
      4096 * (bo + n) + rem \<le> 4096 * nb' \<and>
      (\<forall>i < 4096 * n + rem. content s' v dv (4096 * bo + i) = w ! i) \<and>
      (\<forall>i < 4096 * bo. content s' v dv i = content s v dv i)"
      by (rule write_tail_spec [OF inv]) (use True off fit len free in auto)
    then show ?thesis using True len unfolding body by (auto simp: algebra_simps)
  next
    case False
    then have bo: "bo < nb" using off by linarith
    define fl where "fl = (if n = 0 then length w else 4096 - al)"
    have fl: "fl \<le> length w" "al + fl \<le> 4096" using len off(2) by (auto simp: fl_def)
    then have lt: "al + length (take fl w) \<le> 4096" "length (take fl w) = fl" by simp_all
    from first_block_write [OF inv bo lt(1)] obtain s1 where
      w1: "kbind (vaddr v (int bo) s) (\<lambda>a. kbind (rfs_r1block (vdev v s) a s) (\<lambda>s.
        kbind (upd_iobuf (vdev v s) (\<lambda>b. put_bytes b al (take fl w)) s)
          (\<lambda>s. rfs_w1block (vdev v s) a s))) = Inr s1" "file_step s s1 v dv nb nb" and
      c1: "\<And>i. i < fl \<Longrightarrow> content s1 v dv (4096 * bo + al + i) = w ! i" and
      o1: "\<And>i. i < 4096 * nb \<Longrightarrow> i < 4096 * bo + al \<Longrightarrow> content s1 v dv i = content s v dv i"
      unfolding lt(2) by (auto simp del: length_take)
    have eq: "write_body v w bo al s =
        (if n = 0 then Inr s1 else write_tail v (int (Suc bo)) (n - 1) rem (drop fl w) s1)"
      using False w1(1) unfolding body fl_def [symmetric] by simp
    note S = file_stepD [OF w1(2)]
    show ?thesis
    proof (cases "n = 0")
      case True
      then show ?thesis using eq w1(2) c1 o1 len off bo
        by (intro exI [of _ s1] exI [of _ nb]) (auto simp: fl_def)
    next
      case nz: False
      have dl: "length (drop fl w) = 4096 * (n - 1) + rem" using len nz off(2) by (simp add: fl_def algebra_simps)
      have "\<exists>s' nb'. write_tail v (int (Suc bo)) (n - 1) rem (drop fl w) s1 = Inr s' \<and>
        file_step s1 s' v dv nb nb' \<and> 4096 * (Suc bo + (n - 1)) + rem \<le> 4096 * nb' \<and>
        (\<forall>i < 4096 * (n - 1) + rem. content s' v dv (4096 * Suc bo + i) = drop fl w ! i) \<and>
        (\<forall>i < 4096 * Suc bo. content s' v dv i = content s1 v dv i)"
      proof (rule write_tail_spec [OF S(2)])
        show "Suc bo + (n - 1) + (if rem = 0 then 0 else 1) - nb \<le> nfree (v_sb (vinodes s1 v)) s1"
          using free len S(4,6) nz by auto
        show "4096 * (Suc bo + (n - 1)) + rem \<le> 40960" using fit len nz by simp
      qed (use bo len dl in auto)
      then obtain s2 nb2 where w2: "write_tail v (int (Suc bo)) (n - 1) rem (drop fl w) s1 = Inr s2"
        "file_step s1 s2 v dv nb nb2" "4096 * (Suc bo + (n - 1)) + rem \<le> 4096 * nb2" and
        c2: "\<And>i. i < length (drop fl w) \<Longrightarrow> content s2 v dv (4096 * Suc bo + i) = drop fl w ! i" and
        o2: "\<And>i. i < 4096 * Suc bo \<Longrightarrow> content s2 v dv i = content s1 v dv i"
        unfolding dl [symmetric] by blast
      have "content s2 v dv (4096 * bo + al + i) = w ! i" if "i < length w" for i
      proof (cases "i < fl")
        case True
        have "4096 * bo + al + i < 4096 * Suc bo" using True fl by simp
        then show ?thesis using o2 c1 [OF True] by simp
      next
        case False
        then have "content s2 v dv (4096 * Suc bo + (i - fl)) = w ! i" using c2 [of "i - fl"] that fl by simp
        moreover have "4096 * Suc bo + (i - fl) = 4096 * bo + al + i" using False nz off(2) by (simp add: fl_def)
        ultimately show ?thesis by metis
      qed
      moreover have "content s2 v dv i = content s v dv i" if "i < 4096 * bo + al" for i
        using that o2 [of i] o1 [of i] off bo by simp
      ultimately show ?thesis using eq nz w2 file_step_trans [OF w1(2) w2(2)] len
        by (intro exI [of _ s2] exI [of _ nb2]) auto
    qed
  qed
qed

lemma file_inv_upd_size [simp]:
  "file_inv (upd_vinode v (\<lambda>x. x\<lparr>v_size := g x\<rparr>) s) v dv nb = file_inv s v dv nb"
  by (simp add: file_inv_def vdev_def upd_vinode_def freemap_def has_dev_def Let_def)

lemma content_upd_size [simp]:
  "content (upd_vinode v (\<lambda>x. x\<lparr>v_size := g x\<rparr>) s) v dv = content s v dv"
  by (simp add: content_def upd_vinode_def disk_def)

lemma rfs_write_spec:
  assumes inv: "file_inv s v dv nb" and sz: "v_size (vinodes s v) = int sz" "sz \<le> 4096 * nb"
    and off: "off \<le> sz" and fit: "off + length w \<le> 40960"
    and free: "off + length w \<le> 4096 * (nb + nfree (v_sb (vinodes s v)) s)"
  shows "\<exists>s' nb'. rfs_write v w (int (length w)) (int off) s = Inr (int (length w), int (off + length w), s') \<and>
    file_inv s' v dv nb' \<and> max sz (off + length w) \<le> 4096 * nb' \<and>
    v_size (vinodes s' v) = int (max sz (off + length w)) \<and>
    (\<forall>i < off. content s' v dv i = content s v dv i) \<and>
    (\<forall>i < length w. content s' v dv (off + i) = w ! i) \<and>
    (\<forall>b. b \<notin> set (take nb (v_addrs (vinodes s v))) \<longrightarrow> freemap (v_sb (vinodes s v)) s (b - 12) \<noteq> 0 \<longrightarrow>
       disk s' dv b = disk s dv b)"
proof -
  let ?bo = "off div 4096" and ?al = "off mod 4096"
  have oe: "4096 * ?bo + ?al = off" by simp
  have "4096 * ?bo + ?al \<le> 4096 * nb" "4096 * ?bo + ?al + length w \<le> 40960"
    "4096 * ?bo + ?al + length w \<le> 4096 * (nb + nfree (v_sb (vinodes s v)) s)"
    unfolding oe using off sz(2) fit free by simp_all
  from write_body_spec [OF inv this(1) _ this(2,3), unfolded oe] obtain s1 nb1 where
    b: "write_body v w ?bo ?al s = Inr s1" "file_step s s1 v dv nb nb1" "off + length w \<le> 4096 * nb1" and
    c: "\<forall>i < length w. content s1 v dv (off + i) = w ! i" "\<forall>i < off. content s1 v dv i = content s v dv i"
    by auto
  let ?s2 = "upd_vinode v (\<lambda>x. x\<lparr>v_size :=
        (if v_size x < int (off + length w) then int (off + length w) else v_size x)\<rparr>) s1"
  note S = file_stepD [OF b(2)]
  have "rfs_write v w (int (length w)) (int off) s = Inr (int (length w), int (off + length w), ?s2)"
    using rfs_write_body [of off s v w] b(1) sz off by (simp cong: if_cong)
  moreover have "file_inv ?s2 v dv nb1" using S(2) by simp
  moreover have "max sz (off + length w) \<le> 4096 * nb1" using b(3) S(1) sz(2) by auto
  moreover have "v_size (vinodes ?s2 v) = int (max sz (off + length w))"
    using S(3) sz(1) by (auto simp: upd_vinode_def)
  moreover have "disk ?s2 dv x = disk s dv x"
    if "x \<notin> set (take nb (v_addrs (vinodes s v)))" "freemap (v_sb (vinodes s v)) s (x - 12) \<noteq> 0" for x
    using b(2) that by (auto simp: file_step_def disk_def upd_vinode_def)
  ultimately show ?thesis using c
    by (intro exI [of _ ?s2] exI [of _ nb1]) (simp del: of_nat_add)
qed

lemma rfs_read_spec:
  assumes inv: "file_inv s v dv nb" and sz: "v_size (vinodes s v) = int sz" "sz \<le> 4096 * nb"
    and off: "off < sz"
  shows "\<exists>s'. rfs_read v (int len) (int off) s =
      Inr (int (min len (sz - off)),
        takeWhile (\<lambda>c. c \<noteq> 0) (map (content s v dv) [off..<off + min len (sz - off)]) @ [0],
        int (off + min len (sz - off)), s') \<and>
    vinodes s' = vinodes s \<and> disk s' dv = disk s dv"
proof -
  note I = file_invD [OF inv]
  let ?l = "min len (sz - off)" and ?a = "v_addrs (vinodes s v)"
  have "\<exists>b. rfs_read_buffer v (int ?l) (int off) s =
    Inr (map (fbyte (disk s dv) ?a) [off..<off + ?l], set_disk dv (disk s dv) b s)"
  proof (rule rfs_read_buffer_spec [OF I(1,2) refl])
    fix j assume j: "j \<le> (off + ?l) div 4096" "j * 4096 < off + ?l \<or> j = off div 4096"
    have "off + ?l \<le> sz" using off by auto
    moreover have "off div 4096 * 4096 < sz" using off div_mult_mod_eq [of off 4096] by linarith
    ultimately have "j * 4096 < sz" using j(2) by auto
    then have "j < nb" using sz(2) by linarith
    then show "valid_block ?a j" by (rule I(8))
  qed
  then obtain b where b: "rfs_read_buffer v (int ?l) (int off) s =
    Inr (map (content s v dv) [off..<off + ?l], set_disk dv (disk s dv) b s)" by (auto simp: content_def)
  have cl: "(if int sz < int off + int len then int sz - int off else int len) = int ?l"
    using off by (auto simp: min_def)
  have "\<not> int sz < int off" using off by simp
  then have "rfs_read v (int len) (int off) s =
      Inr (int ?l, takeWhile (\<lambda>c. c \<noteq> 0) (map (content s v dv) [off..<off + ?l]) @ [0],
        int off + int ?l, set_disk dv (disk s dv) b s)"
    unfolding rfs_read_def sz(1) Let_def cl using b by simp
  then show ?thesis using I(1) by auto
qed

end
