(* ===== verification/RfsTheorems.thy ===== *)
theory RfsTheorems
  imports RfsFile
begin

text \<open>
  What the RAM disk file system promises: the round trips of its disk inodes, blocks, directories
  and files, and where the code falls short of them.
\<close>

section \<open>A concrete file system\<close>

definition demo_fs :: fs where
  \<comment> \<open>six free pages, a disk of zero bytes with block 12 in use, inodes owning block 12\<close>
  "demo_fs = \<lparr>mem = mem demo_vm, free_mem_start_addr = free_mem_start_addr demo_vm,
     free_mem_end_addr = free_mem_end_addr demo_vm, g_free_mem_list = g_free_mem_list demo_vm,
     g_mem_size = g_mem_size demo_vm, count_5 = count_5 demo_vm, g_kernel_pagetable = 0x80210000,
     dentries = (\<lambda>_. \<lparr>d_name = [97], d_ref = 0, dentry_inode = 0, d_parent = 0\<rparr>),
     vinodes = (\<lambda>_. \<lparr>v_inum = 0, v_ref = 0, v_size = 0, v_type = DIR_I, v_nlinks = 1, v_blocks = 1,
        v_addrs = [12, 0, 0, 0, 0, 0, 0, 0, 0, 0], i_fs_info = 0, v_sb = 0x80220000, i_ops = Rfs_ops\<rparr>),
     files = (\<lambda>_. \<lparr>f_status = FD_NONE, f_readable = 0, f_writable = 0, f_offset = 0, f_dentry = 0\<rparr>),
     devices = (\<lambda>_. \<lparr>dev_name = [], dev_id = 0, dev_fs_type = \<lparr>type_num = 0, get_superblock = Rfs_ops\<rparr>\<rparr>),
     sbs = (\<lambda>_. \<lparr>sb_magic = RFS_MAGIC, sb_size = 112, sb_nblocks = 100, sb_ninodes = 320,
        s_root = 0x80221000, s_dev = 0x80222000, s_fs_info = 0x80223000\<rparr>),
     freemaps = (\<lambda>_ k. if k = 0 then 1 else 0),
     dir_caches = (\<lambda>_. \<lparr>block_count = 0, dir_base_addr = 0\<rparr>), page_bytes = (\<lambda>_ _. 0),
     rfs_device_list = [0 \<mapsto> \<lparr>d_address = 0x80300000, d_blocks = 128, d_blocksize = 4096,
        d_disk = (\<lambda>_ _. 0), iobuffer = (\<lambda>_. 0)\<rparr>],
     vfs_root_dentry = 0x80221000, vfs_sb_list = (\<lambda>_. 0), vfs_dev_list = (\<lambda>_. 0), fs_list = Map.empty,
     dentry_hash_table = demo_table (0, []), vinode_hash_table = demo_table (0, 0)\<rparr>"

lemma demo_fs_rel: "pmm_rel demo_fs demo_free"
  using demo_vm_rel by (simp add: demo_fs_def pmm_rel_def managed_def)

lemma demo_fs_dev [simp]: "has_dev demo_fs 0" "disk demo_fs 0 = (\<lambda>_ _. 0)" "vdev v demo_fs = 0"
  by (simp_all add: demo_fs_def has_dev_def disk_def vdev_def)

lemma demo_fs_vinode [simp]:
  "vinodes demo_fs v = \<lparr>v_inum = 0, v_ref = 0, v_size = 0, v_type = DIR_I, v_nlinks = 1, v_blocks = 1,
     v_addrs = [12, 0, 0, 0, 0, 0, 0, 0, 0, 0], i_fs_info = 0, v_sb = 0x80220000, i_ops = Rfs_ops\<rparr>"
  by (simp add: demo_fs_def)

lemma demo_fs_freemap [simp]: "freemap sb demo_fs k = (if k = 0 then 1 else 0)" "sb_nblocks (sbs demo_fs sb) = 100"
  by (simp_all add: demo_fs_def freemap_def)

lemma demo_fs_nfree [simp]: "nfree sb demo_fs = 99"
proof -
  have "{k :: int. 0 \<le> k \<and> k < 100 \<and> freemap sb demo_fs k = 0} = {1..<100}" by auto
  then show ?thesis by (simp add: nfree_def)
qed

lemma demo_fs_file: "file_inv demo_fs v 0 1"
  by (simp add: file_inv_def valid_block_def)

lemma demo_fs_dir: "dir_ok demo_fs v []" "dir_room demo_fs v 0"
  by (simp_all add: dir_ok_def dir_rel_def dir_room_def)

section \<open>Disk inodes and blocks\<close>

text \<open>A disk inode written by \<^verbatim>\<open>rfs_write_dinode\<close> is the one \<^verbatim>\<open>rfs_read_dinode\<close> returns in a fresh
  page, for each of the 320 inodes, and writing it changes none of the others and no block outside
  the inode area.\<close>

lemma rfs_dinode_roundtrip:
  assumes "has_dev s dv" and "0 \<le> n" "n < 320" and "pmm_rel s (x # xs)" and "dinode_ok d"
  shows "\<exists>s1 s2. rfs_write_dinode dv d n s = Inr (0, s1) \<and> rfs_read_dinode dv n s1 = Inr (x, s2) \<and>
     load_dinode (mem s2) x = d \<and> pmm_rel s2 xs \<and>
     (\<forall>k. 0 \<le> k \<longrightarrow> k < 320 \<longrightarrow> k \<noteq> n \<longrightarrow> disk_dinode (disk s2 dv) k = disk_dinode (disk s dv) k) \<and>
     (\<forall>b. b < 1 \<or> 11 \<le> b \<longrightarrow> disk s2 dv b = disk s dv b)"
proof -
  let ?D = "put_dinode (disk s dv) n d"
  let ?s1 = "set_disk dv ?D (?D (inode_block n)) s"
  have "has_dev ?s1 dv" "pmm_rel ?s1 (x # xs)" using assms(1,4) by simp_all
  from rfs_read_dinode_eq [OF this(1) assms(2,3) this(2)] obtain s2 where
    r: "rfs_read_dinode dv n ?s1 = Inr (x, s2)" "pmm_rel s2 xs" "load_dinode (mem s2) x = disk_dinode ?D n"
      "disk s2 dv = ?D" using assms(1) by auto
  have "disk s2 dv b = disk s dv b" if "b < 1 \<or> 11 \<le> b" for b
    using that r(4) inode_block_bounds [OF assms(2,3)] by (auto simp: put_dinode_def)
  then show ?thesis
    using rfs_write_dinode_eq [OF assms(1-3)] r disk_dinode_put [OF assms(2,3) _ _ assms(5)] assms(2,3)
    by auto
qed

text \<open>A block handed out by \<^verbatim>\<open>rfs_alloc_block\<close> lies in the data area, was free and is the lowest
  free one; the call panics exactly when no block is free, and freeing the block restores the state.\<close>

lemma rfs_alloc_free_block:
  "case rfs_alloc_block sb s of
     Inl e \<Rightarrow> e = Panic ''rfs_alloc_block: no more free block!'' \<and>
       (\<forall>k. \<not> (0 \<le> k \<and> k < sb_nblocks (sbs s sb) \<and> freemaps s (s_fs_info (sbs s sb)) k = 0))
   | Inr (b, s') \<Rightarrow> 12 \<le> b \<and> b < 12 + sb_nblocks (sbs s sb) \<and>
       freemaps s (s_fs_info (sbs s sb)) (b - 12) = 0 \<and>
       (\<forall>k. \<not> (0 \<le> k \<and> k < b - 12 \<and> freemaps s (s_fs_info (sbs s sb)) k = 0)) \<and>
       freemaps s' (s_fs_info (sbs s sb)) (b - 12) = 1 \<and> rfs_free_block sb b s' = s"
proof (cases "rfs_alloc_block sb s")
  case (Inl e)
  then show ?thesis using rfs_alloc_block_cases [where sb = sb and s = s] by (auto simp: freemap_def)
next
  case (Inr r)
  obtain b s' where r: "r = (b, s')" by force
  note C = rfs_alloc_block_cases [where sb = sb and s = s, unfolded Inr r sum.case prod.case freemap_def]
  have "s' = s\<lparr>freemaps := (freemaps s)(s_fs_info (sbs s sb) := (freemaps s (s_fs_info (sbs s sb)))(b - 12 := 1))\<rparr>"
    using C by metis
  then have "rfs_free_block sb b s' = s" and "freemaps s' (s_fs_info (sbs s sb)) (b - 12) = 1"
    using C by (auto simp: rfs_free_block_def RFS_defs fun_upd_idem)
  moreover have "\<forall>k. \<not> (0 \<le> k \<and> k < b - 12 \<and> freemaps s (s_fs_info (sbs s sb)) k = 0)" using C by blast
  ultimately show ?thesis unfolding Inr r sum.case prod.case using C by (intro conjI) simp_all
qed

section \<open>Directories\<close>

text \<open>C29: a directory is an association list from names to inodes: after \<^verbatim>\<open>rfs_add_direntry\<close> of an entry
  the code's \<^verbatim>\<open>rfs_lookup\<close> of a name returns a new virtual inode loaded from the disk inode of the first entry
  with that name, and NULL when there is none.\<close>

theorem rfs_add_direntry_lookup:
  assumes "dir_ok s dir es" and "dir_room s dir (length es)" and "pmm_rel s (x # y # xs)" and "dir \<noteq> x"
    and "name_ok name" and "0 \<le> inum" "inum < 320" and "\<forall>e \<in> set es. 0 \<le> snd e \<and> snd e < 320"
    and "name_ok (d_name (dentries s sub))"
  shows "\<exists>s1. rfs_add_direntry dir name inum s = Inr (0, s1) \<and> dir_ok s1 dir (es @ [(name, inum)]) \<and>
     (\<exists>s2. case map_of (es @ [(name, inum)]) (d_name (dentries s sub)) of
        None \<Rightarrow> rfs_lookup dir sub s1 = Inr (0, s2) \<and> vinodes s2 = vinodes s1
      | Some n \<Rightarrow> rfs_lookup dir sub s1 = Inr (x, s2) \<and> v_inum (vinodes s2 x) = n \<and>
          vinode_dinode (vinodes s2 x) = disk_dinode (disk s1 (vdev dir s)) n)"
proof -
  have "int32 inum" using assms(6,7) by (simp add: int32_def)
  from rfs_add_direntry_spec [OF assms(1,2,5) this] obtain s1 b D where
    a: "rfs_add_direntry dir name inum s = Inr (0, s1)" "dir_ok s1 dir (es @ [(name, inum)])" and
    s1: "s1 = set_disk (vdev dir s) D b (upd_vinode dir (\<lambda>x. x\<lparr>v_size := v_size x + 32\<rparr>) s)" by blast
  have k: "pmm_rel s1 (x # y # xs)" "vdev dir s1 = vdev dir s" "sub_name sub s1 = d_name (dentries s sub)"
    using assms(3) by (simp_all add: s1 sub_name_def vdev_def)
  have "\<forall>e \<in> set (es @ [(name, inum)]). 0 \<le> snd e \<and> snd e < 320" using assms(6-8) by auto
  from rfs_lookup_spec [OF a(2) k(1) assms(4) _ this, of sub, unfolded k(2,3), OF assms(9)]
  show ?thesis using a by (auto split: option.splits)
qed

section \<open>Files\<close>

text \<open>C2: writing a text (no NUL byte) at an offset inside a file or at its end and reading it back at the same offset
  returns exactly the text; the file grows to hold it, taking free blocks as needed, the bytes before the
  offset are kept and no block of another file changes.\<close>

theorem rfs_write_read:
  assumes "file_inv s v dv nb" and "v_size (vinodes s v) = int sz" "sz \<le> 4096 * nb"
    and "off \<le> sz" and "off + length w \<le> 40960"
    and "off + length w \<le> 4096 * (nb + nfree (v_sb (vinodes s v)) s)"
    and "w \<noteq> []" and "0 \<notin> set w"
  shows "\<exists>s1 s2 nb'. rfs_write v w (int (length w)) (int off) s =
       Inr (int (length w), int (off + length w), s1) \<and>
     rfs_read v (int (length w)) (int off) s1 = Inr (int (length w), w @ [0], int (off + length w), s2) \<and>
     file_inv s1 v dv nb' \<and> v_size (vinodes s1 v) = int (max sz (off + length w)) \<and>
     (\<forall>i < off. content s1 v dv i = content s v dv i) \<and>
     (\<forall>b. b \<notin> set (take nb (v_addrs (vinodes s v))) \<longrightarrow> freemap (v_sb (vinodes s v)) s (b - 12) \<noteq> 0 \<longrightarrow>
        disk s1 dv b = disk s dv b)"
proof -
  from rfs_write_spec [OF assms(1-6)] obtain s1 nb1 where
    w: "rfs_write v w (int (length w)) (int off) s = Inr (int (length w), int (off + length w), s1)"
      "file_inv s1 v dv nb1" "max sz (off + length w) \<le> 4096 * nb1"
      "v_size (vinodes s1 v) = int (max sz (off + length w))"
      "\<forall>i < off. content s1 v dv i = content s v dv i"
      "\<forall>i < length w. content s1 v dv (off + i) = w ! i"
      "\<forall>b. b \<notin> set (take nb (v_addrs (vinodes s v))) \<longrightarrow> freemap (v_sb (vinodes s v)) s (b - 12) \<noteq> 0 \<longrightarrow>
        disk s1 dv b = disk s dv b" by blast
  let ?sz = "max sz (off + length w)"
  have "0 < length w" using assms(7) by simp
  then have "off < ?sz" and m: "min (length w) (?sz - off) = length w" by (auto simp del: length_greater_0_conv)
  from rfs_read_spec [OF w(2,4,3) this(1), of "length w", unfolded m] obtain s2 where
    r: "rfs_read v (int (length w)) (int off) s1 = Inr (int (length w),
      takeWhile (\<lambda>c. c \<noteq> 0) (map (content s1 v dv) [off..<off + length w]) @ [0], int (off + length w), s2)"
    by blast
  have "map (content s1 v dv) [off..<off + length w] = w"
    using w(6) by (intro nth_equalityI) simp_all
  moreover have "takeWhile (\<lambda>c. c \<noteq> 0) w = w" using assms(8) by (auto simp: takeWhile_eq_all_conv)
  ultimately show ?thesis using w r by auto
qed

text \<open>Overwriting the start of a file with fewer bytes than a block destroys the rest of that block:
  \<^verbatim>\<open>rfs_write\<close> fills the I/O buffer without reading the block first, so the bytes behind the new ones
  become whatever the buffer held.\<close>

lemma rfs_write_stale_tail:
  assumes "file_inv s v dv nb" and "0 < nb" and "0 \<le> v_size (vinodes s v)"
    and "w \<noteq> []" "length w < 4096" and "length w \<le> i" "i < 4096"
  shows "\<exists>s1. rfs_write v w (int (length w)) 0 s = Inr (int (length w), int (length w), s1) \<and>
     content s1 v dv i = buf s dv i"
proof -
  let ?f = "\<lambda>b. put_bytes b 0 (take (length w) (drop (4096 * 0) w))"
  from put_block_spec [OF assms(1), of 0 ?f] assms(2) obtain s1 where
    p: "put_block v 0 ?f s = Inr s1" "content s1 v dv (4096 * 0 + i) = ?f (buf s dv) i"
    using assms(7) by auto
  have "write_body v w 0 0 s = Inr s1"
    using p(1) assms(4,5) by (simp add: write_body_def write_tail_def)
  then show ?thesis
    using rfs_write_body [of 0 s v w] assms(3,6) p(2) by (auto simp: put_bytes_at)
qed

text \<open>\<^verbatim>\<open>rfs_lseek\<close> never moves the offset of a file outside 0 .. size, and when it refuses a position it
  leaves the offset alone.\<close>

lemma rfs_lseek_bounds:
  assumes "rfs_lseek v new_offset whence offset s = (r, offset')"
    and "0 \<le> offset" "offset \<le> v_size (vinodes s v)"
  shows "0 \<le> offset' \<and> offset' \<le> v_size (vinodes s v) \<and> (r \<noteq> 0 \<longrightarrow> offset' = offset) \<and>
     (r = 0 \<longrightarrow> offset' = (if whence = 0 then new_offset else offset + new_offset))"
  using assms by (auto simp: rfs_lseek_def Let_def split: if_splits)

section \<open>Formatting and mounting\<close>

lemma format_inodes_other: "a < p \<Longrightarrow> format_inodes n p b a = b a"
  by (induction n arbitrary: p b) (simp_all add: wr_ints_other del: wr_ints.simps)

lemma rd32_format_inodes_other: "q + 4 \<le> p \<Longrightarrow> rd32 (format_inodes n p b) q = rd32 b q"
  by (rule rd32_cong) (simp add: format_inodes_other)

lemma format_inodes_type: "k < n \<Longrightarrow> rd32 (format_inodes n p b) (p + 128 * k + 4) = R_FREE"
proof (induction n arbitrary: p b k)
  case (Suc n)
  show ?case
  proof (cases k)
    case 0
    have "rd32 (wr_ints b p [0, R_FREE, 0, 0]) (p + 4 * 1) = [0, R_FREE, 0, 0] ! 1"
      by (rule rd32_wr_ints) (simp_all add: int32_def RFS_defs)
    then show ?thesis using 0 rd32_format_inodes_other [of "p + 4" "p + 128" n] by simp
  next
    case (Suc j)
    then show ?thesis using Suc.IH [of j "p + 128" "wr_ints b p [0, R_FREE, 0, 0]"] Suc.prems
      by (simp add: add.assoc del: wr_ints.simps)
  qed
qed simp

lemma write_inode_blocks_spec:
  assumes "has_dev s dv" "0 \<le> i" "i + int n \<le> 10"
  shows "write_inode_blocks dv n i s =
    Inr (set_disk dv (\<lambda>b. if 1 + i \<le> b \<and> b < 1 + i + int n then buf s dv else disk s dv b) (buf s dv) s)"
  using assms
proof (induction n arbitrary: i s)
  case 0
  have "(\<lambda>b. if 1 + i \<le> b \<and> b < 1 + i + int 0 then buf s dv else disk s dv b) = disk s dv" by (auto simp: fun_eq_iff)
  then show ?case using 0 set_disk_id [of s dv] by simp
next
  case (Suc n)
  let ?s = "set_disk dv ((disk s dv)(1 + i := buf s dv)) (buf s dv) s"
  have "rfs_w1block dv (RFS_BLK_OFFSET_INODE + i) s = Inr ?s"
    using Suc.prems by (simp add: block_ops RFS_defs)
  moreover have "write_inode_blocks dv n (i + 1) ?s =
      Inr (set_disk dv (\<lambda>b. if 1 + (i + 1) \<le> b \<and> b < 1 + (i + 1) + int n then buf ?s dv else disk ?s dv b)
        (buf ?s dv) ?s)"
    by (rule Suc.IH) (use Suc.prems in auto)
  moreover have "(\<lambda>b. if 1 + (i + 1) \<le> b \<and> b < 1 + (i + 1) + int n then buf s dv
        else ((disk s dv)(1 + i := buf s dv)) b) =
      (\<lambda>b. if 1 + i \<le> b \<and> b < 1 + i + int (Suc n) then buf s dv else disk s dv b)" by auto
  ultimately show ?case using Suc.prems(1) by (simp cong: if_cong)
qed

definition formatted :: "int list \<Rightarrow> (int \<Rightarrow> bytes) \<Rightarrow> bool" where
  \<comment> \<open>an empty file system: super block, free inodes but the root directory, bitmap with one block in use\<close>
  "formatted junk D \<longleftrightarrow> rd_ints (D 0) 0 4 = [RFS_MAGIC, 112, 100, 320] \<and>
     disk_dinode D 0 = \<lparr>di_size = 0, di_type = R_DIR, di_nlinks = 1, di_blocks = 1, di_addrs = 12 # junk\<rparr> \<and>
     (\<forall>n. 0 < n \<longrightarrow> n < 320 \<longrightarrow> di_type (disk_dinode D n) = R_FREE) \<and>
     (\<forall>k. 0 \<le> k \<longrightarrow> k < 100 \<longrightarrow> rd32 (D 11) (nat (4 * k)) = (if k = 0 then 1 else 0))"

lemma rfs_format_dev_spec:
  assumes dv: "has_dev s dv" and j: "length junk = 9" "list_all int32 junk"
  shows "\<exists>D b. rfs_format_dev dv junk s = Inr (0, set_disk dv D b s) \<and> formatted junk D \<and>
     (\<forall>k. 12 \<le> k \<longrightarrow> D k = disk s dv k)"
proof -
  define b0 b1 where "b0 = wr_ints (buf s dv) 0 [RFS_MAGIC, 112, 100, 320]" and "b1 = format_inodes 32 0 b0"
  define b2 where "b2 = wr32 (memset (put_dinode (\<lambda>_. b1) 0 \<lparr>di_size = 0, di_type = R_DIR, di_nlinks = 1,
      di_blocks = 1, di_addrs = 12 # junk\<rparr> (inode_block 0)) 0 0 4096) 0 1"
  let ?d = "\<lparr>di_size = 0, di_type = R_DIR, di_nlinks = 1, di_blocks = 1, di_addrs = 12 # junk\<rparr>"
  define D1 where "D1 = (\<lambda>b. if 1 \<le> b \<and> b < 11 then b1 else ((disk s dv)(0 := b0)) b)"
  define D where "D = (put_dinode D1 0 ?d)(11 := b2)"
  have c: "1 + RFS_MAX_INODE_BLKNUM + 1 + 100 = 112"
    "RFS_MAX_INODE_BLKNUM * RFS_DIRECT_BLKNUM = 100" "RFS_BLKSIZE div RFS_INODESIZE * RFS_MAX_INODE_BLKNUM = 320"
    "RFS_BLK_OFFSET_FREE = 12" "RFS_BLK_OFFSET_SUPER = 0" "RFS_BLK_OFFSET_BITMAP = 11"
    by (simp_all add: RFS_defs)
  have ib: "1 \<le> inode_block 0" "inode_block 0 < 11" using inode_block_bounds [of 0] by auto
  have b2': "wr32 (memset (put_dinode D1 0 ?d (inode_block 0)) 0 0 4096) 0 1 = b2"
    using ib by (simp add: b2_def put_dinode_def D1_def)
  let ?s1 = "set_disk dv ((disk s dv)(0 := b0)) b1 s"
  have "write_inode_blocks dv 10 0 ?s1 = Inr (set_disk dv D1 b1 s)"
    using dv write_inode_blocks_spec [of ?s1 dv 0 10] by (simp add: D1_def cong: if_cong)
  then have eq: "rfs_format_dev dv junk s = Inr (0, set_disk dv D b2 s)"
    using dv unfolding rfs_format_dev_def c
    by (simp add: buf_ops block_ops rfs_write_dinode_eq b0_def [symmetric]
        b1_def [symmetric] b2' D_def del: wr_ints.simps)
  have ok: "dinode_ok ?d" using j by (simp add: dinode_ok_def dinode_ints_def int32_def RFS_defs)
  have D_dinode: "disk_dinode D n = (if n = 0 then ?d else disk_dinode D1 n)" if "0 \<le> n" "n < 320" for n
  proof -
    have "disk_dinode D n = disk_dinode (put_dinode D1 0 ?d) n"
      using inode_block_bounds [OF that] by (simp add: disk_dinode_def D_def)
    then show ?thesis using disk_dinode_put [OF _ _ that ok, of 0 D1] by simp
  qed
  have fr: "di_type (disk_dinode D1 n) = R_FREE" if "0 < n" "n < 320" for n
  proof -
    have "rd32 b1 (0 + 128 * nat (n mod 32) + 4) = R_FREE" unfolding b1_def
      by (rule format_inodes_type) simp
    then show ?thesis using inode_block_bounds [of n] that
      by (simp add: disk_dinode_def dinode_of_def rd_ints_def D1_def inode_offset_def RFS_defs nat_mult_distrib
          mult.commute)
  qed
  have sb: "rd_ints (D 0) 0 4 = [RFS_MAGIC, 112, 100, 320]"
    using ib rd_ints_wr_ints [of "[RFS_MAGIC, 112, 100, 320]" "buf s dv" 0]
    by (simp add: D_def put_dinode_def D1_def b0_def int32_def RFS_defs eval_nat_numeral del: wr_ints.simps)
  have bm: "rd32 (D 11) (nat (4 * k)) = (if k = 0 then 1 else 0)" if "0 \<le> k" "k < 100" for k
  proof (cases "k = 0")
    case True
    then show ?thesis by (simp add: D_def b2_def int32_def)
  next
    case False
    then have "4 \<le> nat (4 * k)" "nat (4 * k) + 4 \<le> 4096" using that by auto
    then show ?thesis using False
      by (simp add: D_def b2_def rd32_wr32_other) (simp add: rd32_def rdw_def memset_fill fill_def)
  qed
  have "D k = disk s dv k" if "12 \<le> k" for k using that ib by (simp add: D_def put_dinode_def D1_def)
  moreover have "formatted junk D"
    using sb bm fr D_dinode by (simp add: formatted_def)
  ultimately show ?thesis using eq by blast
qed

lemma rfs_get_superblock_spec:
  assumes dv: "has_dev s dv" "dev_id (devices s dev) = dv" and rel: "pmm_rel s (a # b # c # d # xs)"
    and fm: "formatted junk (disk s dv)"
  shows "\<exists>s'. rfs_get_superblock dev s = Inr (a, s') \<and> pmm_rel s' xs \<and> disk s' dv = disk s dv \<and>
     (let sb = sbs s' a; root = dentries s' (s_root sb); v = vinodes s' (dentry_inode root) in
      sb_magic sb = RFS_MAGIC \<and> sb_size sb = 112 \<and> sb_nblocks sb = 100 \<and> sb_ninodes sb = 320 \<and> s_dev sb = dev \<and>
      d_name root = [47] \<and> d_parent root = 0 \<and> v_inum v = 0 \<and> v_sb v = a \<and> v_ref v = 1 \<and>
      vinode_dinode v = disk_dinode (disk s dv) 0) \<and>
     (\<forall>k. 0 \<le> k \<longrightarrow> k < 100 \<longrightarrow> freemap a s' k = (if k = 0 then 1 else 0))"
proof -
  let ?D = "disk s dv"
  have sb: "rd_ints (?D 0) 0 4 = [RFS_MAGIC, 112, 100, 320]" using fm by (simp add: formatted_def)
  have ne: "a \<noteq> b" "a \<noteq> c" "a \<noteq> d" "b \<noteq> c" "b \<noteq> d" "c \<noteq> d" "b \<noteq> 0" using rel by (auto simp: pmm_rel_def managed_def)
  define s1 where "s1 = set_disk dv ?D (?D 0) s"
  have rel1: "pmm_rel s1 (a # b # c # d # xs)" using rel by (simp add: s1_def)
  note A1 = alloc_obj_Cons [OF rel1]
  define s2 where "s2 = s1\<lparr>g_free_mem_list := mem s1 a,
    sbs := (sbs s1)(a := (sbs s1 a)\<lparr>sb_magic := RFS_MAGIC, sb_size := 112, sb_nblocks := 100, sb_ninodes := 320, s_dev := dev\<rparr>)\<rparr>"
  have rel2: "pmm_rel s2 (b # c # d # xs)" using A1(2) by (simp add: s2_def pmm_rel_def managed_def)
  note A2 = alloc_obj_Cons [OF rel2]
  define s3 where "s3 = upd_vinode b (\<lambda>x. x\<lparr>v_blocks := 0, v_nlinks := 0, v_ref := 0, v_sb := a, v_size := 0,
      i_ops := Rfs_ops, v_inum := 0\<rparr>) (s2\<lparr>g_free_mem_list := mem s2 b\<rparr>)"
  have al: "kbind (rfs_alloc_vinode a s2) (\<lambda>(v, s). f v (upd_vinode v (\<lambda>x. x\<lparr>v_inum := 0\<rparr>) s)) = f b s3" for f
    using A2(1) by (simp add: rfs_alloc_vinode_def default_alloc_vinode_def s3_def upd_vinode_def)
  have rel3: "pmm_rel s3 (c # d # xs)" using A2(2) by (simp add: s3_def)
  have d3: "vdev b s3 = dv" "has_dev s3 dv" "v_inum (vinodes s3 b) = 0" "disk s3 dv = ?D"
    using dv by (simp_all add: s3_def s2_def s1_def vdev_def has_dev_def disk_def set_disk_def set_rdev_def upd_vinode_def
        split: option.splits)
  from rfs_update_vinode_spec [OF d3(1,2) rel3 d3(3)] obtain s4 where
    u: "rfs_update_vinode b s3 = Inr (0, s4)" "pmm_rel s4 (c # d # xs)"
      "vinodes s4 b = (vinodes s3 b)\<lparr>v_size := di_size (disk_dinode ?D 0), v_nlinks := di_nlinks (disk_dinode ?D 0),
        v_blocks := di_blocks (disk_dinode ?D 0), v_type := di_type (disk_dinode ?D 0), v_addrs := di_addrs (disk_dinode ?D 0)\<rparr>"
      "disk s4 dv = ?D" "has_dev s4 dv" "sbs s4 = sbs s3"
    unfolding d3(4) by (auto simp: Let_def)
  note A4 = alloc_obj_Cons [OF u(2)]
  define s5 where "s5 = upd_dentry c (\<lambda>_. \<lparr>d_name = [47], d_ref = 0, dentry_inode = b, d_parent = 0\<rparr>)
      (upd_vinode b (\<lambda>v. v\<lparr>v_ref := v_ref v + 1\<rparr>) (s4\<lparr>g_free_mem_list := mem s4 c\<rparr>))"
  have ad: "alloc_vfs_dentry [47] b 0 s4 = Inr (c, s5)"
    using A4(1) ne(7) by (simp add: alloc_vfs_dentry_def MAX_DENTRY_NAME_LEN_def s5_def)
  define s6 where "s6 = set_disk dv ?D (?D 11) (s5\<lparr>sbs := (sbs s5)(a := (sbs s5 a)\<lparr>s_root := c\<rparr>)\<rparr>)"
  have d5: "has_dev (s5\<lparr>sbs := f\<rparr>) dv" "disk (s5\<lparr>sbs := f\<rparr>) dv = ?D" for f
    using u(4,5) by (simp_all add: s5_def has_dev_def disk_def upd_dentry_def upd_vinode_def)
  have d6: "has_dev s6 dv" "buf s6 dv = ?D 11" using d5 by (simp_all add: s6_def)
  have "pmm_rel (s5\<lparr>sbs := f\<rparr>) (d # xs)" for f
    using A4(2) by (simp add: s5_def pmm_rel_def managed_def upd_dentry_def upd_vinode_def)
  then have rel6: "pmm_rel s6 (d # xs)" by (simp add: s6_def)
  note A6 = alloc_obj_Cons [OF rel6]
  let ?s7 = "s6\<lparr>g_free_mem_list := mem s6 d, freemaps := (freemaps s6)(d := (\<lambda>i. rd32 (?D 11) (nat (4 * i)))),
      sbs := (sbs s6)(a := (sbs s6 a)\<lparr>s_fs_info := d\<rparr>)\<rparr>"
  have r0: "rfs_r1block dv 0 s = Inr s1" "iobuf dv s1 = Inr (?D 0)" using dv(1) by (simp_all add: block_ops buf_ops s1_def)
  have r11: "rfs_r1block dv 11 (s5\<lparr>sbs := (sbs s5)(a := (sbs s5 a)\<lparr>s_root := c\<rparr>)\<rparr>) = Inr s6"
    using d5 by (simp add: block_ops s6_def)
  have "rfs_get_superblock dev s = Inr (a, ?s7)"
    using dv(2) r0 sb A1(1) al [of "\<lambda>root_inode s. kbind (rfs_update_vinode root_inode s) (\<lambda>(_, s).
        kbind (alloc_vfs_dentry [47] root_inode 0 s) (\<lambda>(root_dentry, s).
        kbind (rfs_r1block dv 11 (s\<lparr>sbs := (sbs s)(a := (sbs s a)\<lparr>s_root := root_dentry\<rparr>)\<rparr>)) (\<lambda>s.
        kbind (iobuf dv s) (\<lambda>b.
        kbind (alloc_obj s) (\<lambda>(bitmap, s).
          Inr (a, s\<lparr>freemaps := (freemaps s)(bitmap := (\<lambda>i. rd32 b (nat (4 * i)))),
            sbs := (sbs s)(a := (sbs s a)\<lparr>s_fs_info := bitmap\<rparr>)\<rparr>))))))"] u(1) ad r11 d6 A6(1)
    by (simp add: rfs_get_superblock_def Let_def RFS_BLK_OFFSET_SUPER_def RFS_BLK_OFFSET_BITMAP_def s2_def buf_ops)
  moreover have "pmm_rel ?s7 xs" using A6(2) by (simp add: pmm_rel_def managed_def)
  moreover have "disk ?s7 dv = ?D" using d5 by (simp add: s6_def disk_def has_dev_def set_disk_def set_rdev_def split: option.splits)
  moreover have "vinodes ?s7 b = (vinodes s4 b)\<lparr>v_ref := v_ref (vinodes s4 b) + 1\<rparr>"
    by (simp add: s6_def s5_def upd_dentry_def upd_vinode_def)
  moreover have "sbs ?s7 a = (sbs s2 a)\<lparr>s_root := c, s_fs_info := d\<rparr>"
    using u(6) by (simp add: s6_def s5_def upd_dentry_def upd_vinode_def s3_def)
  moreover have "dentries ?s7 c = \<lparr>d_name = [47], d_ref = 0, dentry_inode = b, d_parent = 0\<rparr>"
    by (simp add: s6_def s5_def upd_dentry_def)
  moreover have "freemaps ?s7 d k = (if k = 0 then 1 else 0)" if "0 \<le> k" "k < 100" for k
    using fm that by (simp add: formatted_def)
  ultimately show ?thesis
    using u(3) by (intro exI [of _ ?s7]) (simp add: freemap_def s2_def s3_def vinode_dinode_def)
qed

text \<open>C30: formatting a RAM disk and reading its super block back yields an empty file system: 112 blocks,
  320 inodes all free but the root directory, which is empty, and one of 100 data blocks in use.\<close>

theorem rfs_format_mount:
  assumes "has_dev s dv" and "dev_id (devices s dev) = dv" and "pmm_rel s (a # b # c # d # xs)"
    and "length junk = 9" and "list_all int32 junk"
  shows "\<exists>s1 s2. rfs_format_dev dv junk s = Inr (0, s1) \<and> rfs_get_superblock dev s1 = Inr (a, s2) \<and>
     (let sb = sbs s2 a; root = vinodes s2 (dentry_inode (dentries s2 (s_root sb))) in
      sb_magic sb = RFS_MAGIC \<and> sb_size sb = 112 \<and> sb_nblocks sb = 100 \<and> sb_ninodes sb = 320 \<and> s_dev sb = dev \<and>
      v_type root = DIR_I \<and> v_size root = 0 \<and> v_blocks root = 1 \<and> v_addrs root ! 0 = 12 \<and> v_sb root = a) \<and>
     (\<forall>n. 0 < n \<longrightarrow> n < 320 \<longrightarrow> di_type (disk_dinode (disk s2 dv) n) = R_FREE) \<and>
     (\<forall>k. 0 \<le> k \<longrightarrow> k < 100 \<longrightarrow> freemap a s2 k = (if k = 0 then 1 else 0))"
proof -
  from rfs_format_dev_spec [OF assms(1,4,5)] obtain D bf where
    f: "rfs_format_dev dv junk s = Inr (0, set_disk dv D bf s)" "formatted junk D" by blast
  let ?s1 = "set_disk dv D bf s"
  have "has_dev ?s1 dv" "dev_id (devices ?s1 dev) = dv" "pmm_rel ?s1 (a # b # c # d # xs)"
    "formatted junk (disk ?s1 dv)" using assms(1-3) f(2) by simp_all
  from rfs_get_superblock_spec [OF this] obtain s2 where
    g: "rfs_get_superblock dev ?s1 = Inr (a, s2)" "disk s2 dv = D" and
    r: "let sb = sbs s2 a; root = dentries s2 (s_root sb); v = vinodes s2 (dentry_inode root) in
      sb_magic sb = RFS_MAGIC \<and> sb_size sb = 112 \<and> sb_nblocks sb = 100 \<and> sb_ninodes sb = 320 \<and> s_dev sb = dev \<and>
      d_name root = [47] \<and> d_parent root = 0 \<and> v_inum v = 0 \<and> v_sb v = a \<and> v_ref v = 1 \<and>
      vinode_dinode v = disk_dinode D 0" and
    k: "\<forall>k. 0 \<le> k \<longrightarrow> k < 100 \<longrightarrow> freemap a s2 k = (if k = 0 then 1 else 0)"
    using assms(1) by auto
  have "disk_dinode D 0 = \<lparr>di_size = 0, di_type = R_DIR, di_nlinks = 1, di_blocks = 1, di_addrs = 12 # junk\<rparr>"
    "\<forall>n. 0 < n \<longrightarrow> n < 320 \<longrightarrow> di_type (disk_dinode D n) = R_FREE"
    using f(2) by (simp_all add: formatted_def)
  then show ?thesis using f(1) g r k
    by (intro exI [of _ ?s1] exI [of _ s2]) (simp add: Let_def vinode_dinode_def RFS_defs)
qed

section \<open>Witnesses\<close>

lemma rfs_dinode_roundtrip_example:
  "\<exists>s1 s2. rfs_write_dinode 0 \<lparr>di_size = 7, di_type = R_FILE, di_nlinks = 1, di_blocks = 1,
       di_addrs = replicate 10 20\<rparr> 33 demo_fs = Inr (0, s1) \<and>
     rfs_read_dinode 0 33 s1 = Inr (0x80206000, s2) \<and> di_size (load_dinode (mem s2) 0x80206000) = 7"
proof -
  let ?d = "\<lparr>di_size = 7, di_type = R_FILE, di_nlinks = 1, di_blocks = 1, di_addrs = replicate 10 20\<rparr>"
  have "dinode_ok ?d" by (simp add: dinode_ok_def dinode_ints_def int32_def RFS_defs numeral_nat)
  from rfs_dinode_roundtrip [OF demo_fs_dev(1) _ _ demo_fs_rel [unfolded demo_free_def] this, of 33]
  show ?thesis by fastforce
qed

lemma demo_name: "d_name (dentries demo_fs sub) = [97]"
  by (simp add: demo_fs_def)

theorem rfs_add_direntry_lookup_witness:
  "\<exists>s1 s2. rfs_add_direntry 0x80230000 [97] 5 demo_fs = Inr (0, s1) \<and>
     rfs_lookup 0x80230000 0x80231000 s1 = Inr (0x80206000, s2) \<and> v_inum (vinodes s2 0x80206000) = 5"
proof -
  have "name_ok [97]" by (simp add: name_ok_def)
  with rfs_add_direntry_lookup [OF demo_fs_dir(1) _ demo_fs_rel [unfolded demo_free_def], of "0x80230000" "[97]" 5 "0x80231000"]
  show ?thesis using demo_fs_dir(2) by (fastforce simp: demo_name)
qed

theorem rfs_write_read_witness:
  "\<exists>s1 s2. rfs_write 0x80230000 [104, 105] 2 0 demo_fs = Inr (2, 2, s1) \<and>
     rfs_read 0x80230000 2 0 s1 = Inr (2, [104, 105, 0], 2, s2)"
  using rfs_write_read [OF demo_fs_file, where v = "0x80230000" and sz = 0 and off = 0 and w = "[104, 105]"]
  by fastforce

lemma rfs_write_stale_tail_example:
  "\<exists>s1. rfs_write 0x80230000 [104, 105] 2 0 demo_fs = Inr (2, 2, s1) \<and>
     content s1 0x80230000 0 5 = buf demo_fs 0 5"
  using rfs_write_stale_tail [OF demo_fs_file, where v = "0x80230000" and i = 5 and w = "[104, 105]"] by simp

lemma rfs_lseek_bounds_example:
  "rfs_lseek 0x80230000 3 0 0 demo_fs = (- 1, 0) \<and> (0 :: int) \<le> v_size (vinodes demo_fs 0x80230000)"
  using rfs_lseek_bounds [of "0x80230000" 3 0 0 demo_fs "- 1" 0] by (simp add: rfs_lseek_def)

theorem rfs_format_mount_witness:
  "\<exists>s1 s2. rfs_format_dev 0 (replicate 9 0) demo_fs = Inr (0, s1) \<and>
     rfs_get_superblock 0x80222000 s1 = Inr (0x80206000, s2) \<and> sb_ninodes (sbs s2 0x80206000) = 320"
proof -
  have "dev_id (devices demo_fs 0x80222000) = 0" by (simp add: demo_fs_def)
  from rfs_format_mount [OF demo_fs_dev(1) this demo_fs_rel [unfolded demo_free_def], of "replicate 9 0"]
  show ?thesis by (auto simp: Let_def int32_def list_all_iff)
qed

end
