(* ===== verification/VfsProps.thy ===== *)
theory VfsProps
  imports Vfs RfsTheorems
begin

text \<open>
  The virtual file system over the RAM disk file system and the hash tables: path lookup through the
  dentry cache is a walk in the map the dentry table represents, and writing, seeking and reading
  through an open file reach the bytes on the disk.
\<close>

section \<open>Path lookup in the dentry cache\<close>

fun dwalk :: "(dentry_key \<rightharpoonup> u64) \<Rightarrow> cstring list \<Rightarrow> u64 \<Rightarrow> u64 \<Rightarrow> (u64 \<times> u64) option" where
  \<comment> \<open>the dentry a list of components leads to, and its parent\<close>
  "dwalk M [] parent this = Some (this, parent)"
| "dwalk M (token # ts) _ parent =
     (case M (parent, token) of None \<Rightarrow> None | Some this \<Rightarrow> dwalk M ts parent this)"

lemma dentry_value_nz:
  assumes "ht_rel dentry_hash_func n (t, s) M" and "M k = Some v"
  shows "v \<noteq> 0"
proof -
  have "dentry_hash_func k < 128" by (simp add: dentry_hash_func_def HASH_TABLE_SIZE_def Let_def word_mod_128)
  with assms show ?thesis by (auto simp: ht_rel_def dest: ht_map_nz)
qed

lemma lookup_tokens_cached:
  assumes rel: "ht_rel dentry_hash_func n (dentry_hash_table s, s) M"
    and "dwalk M ts parent this = Some (d, p)"
  shows "lookup_tokens fe ts parent this s = Inr (d, p, [], s)"
  using assms(2)
proof (induction ts arbitrary: parent this)
  case (Cons token ts)
  from Cons.prems obtain x where x: "M (this, token) = Some x" "dwalk M ts this x = Some (d, p)"
    by (auto split: option.splits)
  have "hash_get_dentry this token s = Inr x"
    using dht.get_spec [OF rel, of "(this, token)"] x(1) by (simp add: hash_get_dentry_def)
  moreover have "x \<noteq> 0" using dentry_value_nz [OF rel x(1)] .
  ultimately show ?case using Cons.IH x(2) by simp
qed simp

text \<open>C18: looking up a path whose components are all in the dentry cache follows the parent and name
  links of the cache and changes nothing: no page is allocated and no file system is asked.\<close>

theorem lookup_final_dentry_cached:
  assumes "ht_rel dentry_hash_func n (dentry_hash_table s, s) M"
    and "length pth < MAX_PATH_LEN" and "dwalk M (tokens [47] pth) root root = Some (d, p)"
  shows "lookup_final_dentry fe pth root s = Inr (d, p, [], s)"
  using lookup_tokens_cached [OF assms(1,3)] assms(2) by (simp add: lookup_final_dentry_def path_tokens_def)

section \<open>Creating a file behind a missing directory\<close>

text \<open>\<^verbatim>\<open>vfs_open\<close> tells a missing directory from a missing file only by comparing the name that was not found with the
  last component.  When a path repeats its first component at the end and that component does not exist,
  opening it is the same as opening the first component alone: with \<^verbatim>\<open>O_CREAT\<close>, \<^verbatim>\<open>/x/y/x\<close> creates \<^verbatim>\<open>/x\<close>.\<close>

lemma vfs_open_repeated_name:
  assumes "length pth < MAX_PATH_LEN" "length qth < MAX_PATH_LEN"
    and "tokens [47] pth = x # ts" "last (x # ts) = x" and "tokens [47] qth = [x]"
    and "hash_get_dentry (vfs_root_dentry s) x s = Inr 0"
    and "lookup_new fe (vfs_root_dentry s) x s = Inr (0, s1)"
  shows "vfs_open fe pth flags s = vfs_open fe qth flags s"
proof -
  have "lookup_final_dentry fe pth (vfs_root_dentry s) s = Inr (0, vfs_root_dentry s, x, s1)"
    "lookup_final_dentry fe qth (vfs_root_dentry s) s = Inr (0, vfs_root_dentry s, x, s1)"
    "get_base_name pth = Inr x" "get_base_name qth = Inr x"
    using assms by (simp_all add: lookup_final_dentry_def path_tokens_def get_base_name_def)
  then show ?thesis by (simp add: vfs_open_def)
qed

section \<open>Reading back through an open file\<close>

definition kept :: "'z fs_scheme \<Rightarrow> 'z fs_scheme \<Rightarrow> bool" where
  \<comment> \<open>what the operations on file contents leave alone\<close>
  "kept s s' \<longleftrightarrow> dentries s' = dentries s \<and> files s' = files s \<and>
     (\<forall>u. v_type (vinodes s' u) = v_type (vinodes s u) \<and> i_ops (vinodes s' u) = i_ops (vinodes s u))"

lemma kept_refl [simp]: "kept s s"
  by (simp add: kept_def)

lemma kept_trans: "kept s s1 \<Longrightarrow> kept s1 s2 \<Longrightarrow> kept s s2"
  by (simp add: kept_def)

lemma kept_block_ops:
  "rfs_r1block dv n s = Inr s' \<Longrightarrow> kept s s'" "rfs_w1block dv n s = Inr s' \<Longrightarrow> kept s s'"
  "upd_iobuf dv f s = Inr s' \<Longrightarrow> kept s s'"
  by (auto simp: rfs_r1block_def rfs_w1block_def ramdisk_read_def ramdisk_write_def upd_iobuf_def with_rdev_def
      set_rdev_def kept_def split: if_splits option.splits)

lemma kept_ensure_block: "ensure_block v bo s = Inr s' \<Longrightarrow> kept s s'"
  by (auto simp: ensure_block_def kbind_eq_Inr rfs_alloc_block_def kept_def upd_vinode_def Let_def
      split: if_splits option.splits)

lemma kept_write_blocks: "write_blocks n v bo w s = Inr s' \<Longrightarrow> kept s s'"
proof (induction n arbitrary: bo w s)
  case (Suc n)
  then obtain s1 s2 a s3 where "ensure_block v bo s = Inr s1" "upd_iobuf (vdev v s1) (\<lambda>b. put_bytes b 0 (take 4096 w)) s1 = Inr s2"
    "rfs_w1block (vdev v s2) a s2 = Inr s3" "write_blocks n v (bo + 1) (drop 4096 w) s3 = Inr s'"
    by (auto elim!: kbind_InrE)
  then have "kept s s1" "kept s1 s2" "kept s2 s3" "kept s3 s'"
    using Suc.IH by (simp_all add: kept_ensure_block kept_block_ops)
  then show ?case by (simp add: kept_def)
qed simp

lemma kept_put_block: "put_block v bo f s = Inr s' \<Longrightarrow> kept s s'"
proof -
  assume "put_block v bo f s = Inr s'"
  then obtain s1 s2 a where "ensure_block v bo s = Inr s1" "upd_iobuf (vdev v s1) f s1 = Inr s2"
    "rfs_w1block (vdev v s2) a s2 = Inr s'" by (auto simp: put_block_def elim!: kbind_InrE)
  then have "kept s s1" "kept s1 s2" "kept s2 s'" by (simp_all add: kept_ensure_block kept_block_ops)
  then show ?thesis by (simp add: kept_def)
qed

lemma kept_write_tail: "write_tail v bo n rem w s = Inr s' \<Longrightarrow> kept s s'"
  unfolding write_tail_def by (auto simp: kbind_eq_Inr split: if_splits
      intro: kept_write_blocks kept_put_block kept_trans [OF kept_write_blocks kept_put_block])

lemma kept_write_body: "write_body v w bo al s = Inr s' \<Longrightarrow> kept s s'"
proof -
  assume b: "write_body v w bo al s = Inr s'"
  show ?thesis
  proof (cases "al = 0")
    case True
    then show ?thesis using b by (auto simp: write_body_def Let_def dest: kept_write_tail)
  next
    case False
    then obtain s1 s2 s3 a f where st: "rfs_r1block (vdev v s) a s = Inr s1" "upd_iobuf (vdev v s1) f s1 = Inr s2"
      "rfs_w1block (vdev v s2) a s2 = Inr s3"
      "s3 = s' \<or> (\<exists>n rem w'. write_tail v (int (Suc bo)) n rem w' s3 = Inr s')"
      using b unfolding write_body_def Let_def if_not_P [OF False] by (elim kbind_InrE) (metis sum.inject(2))
    then have "kept s s1" "kept s1 s2" "kept s2 s3" "kept s3 s'"
      by (auto simp: kept_block_ops intro: kept_write_tail)
    then show ?thesis by (simp add: kept_def)
  qed
qed

lemma kept_rfs_write:
  assumes "rfs_write v w (int (length w)) (int off) s = Inr (r, o', s')" and "int off \<le> v_size (vinodes s v)"
  shows "kept s s'"
proof -
  from assms obtain s1 where "write_body v w (off div 4096) (off mod 4096) s = Inr s1"
    "s' = upd_vinode v (\<lambda>x. x\<lparr>v_size := (if v_size x < int (off + length w) then int (off + length w) else v_size x)\<rparr>) s1"
    by (auto simp: rfs_write_body kbind_eq_Inr simp del: of_nat_add)
  then show ?thesis using kept_write_body [of v w "off div 4096" "off mod 4096" s s1]
    by (auto simp: kept_def upd_vinode_def)
qed

lemma file_upd_file [simp]:
  "file_inv (upd_file p f s) v dv nb = file_inv s v dv nb" "content (upd_file p f s) v dv = content s v dv"
  "vinodes (upd_file p f s) = vinodes s" "dentries (upd_file p f s) = dentries s"
  "files (upd_file p f s) p = f (files s p)"
  by (simp_all add: upd_file_def file_inv_def content_def disk_def vdev_def freemap_def has_dev_def)

definition rfs_file :: "'z fs_scheme \<Rightarrow> u64 \<Rightarrow> u64 \<Rightarrow> bool" where
  \<comment> \<open>\<open>file\<close> is an open file of the RAM disk file system with the virtual inode \<open>v\<close>, readable and writable\<close>
  "rfs_file s file v \<longleftrightarrow> (let f = files s file in
     f_readable f \<noteq> 0 \<and> f_writable f \<noteq> 0 \<and> f_dentry f \<noteq> 0 \<and> v \<noteq> 0 \<and>
     dentry_inode (dentries s (f_dentry f)) = v \<and> v_type (vinodes s v) = FILE_I \<and> i_ops (vinodes s v) = Rfs_ops)"

lemma rfs_file_kept: "kept s s' \<Longrightarrow> rfs_file s' file v = rfs_file s file v"
  by (simp add: kept_def rfs_file_def)

lemma inode_of_file: "rfs_file s file v \<Longrightarrow> inode_of (f_dentry (files s file)) s = Inr v"
  by (auto simp: rfs_file_def inode_of_def nonnull_def Let_def)


section \<open>Witnesses\<close>

definition demo_fe :: "unit frontend" where
  \<comment> \<open>a host that refuses everything\<close>
  "demo_fe n args w h = (- 1, [], h)"

definition demo_file :: vinode where
  "demo_file = \<lparr>v_inum = 1, v_ref = 1, v_size = 0, v_type = FILE_I, v_nlinks = 1, v_blocks = 1,
     v_addrs = [12, 0, 0, 0, 0, 0, 0, 0, 0, 0], i_fs_info = 0, v_sb = 0x80220000, i_ops = Rfs_ops\<rparr>"

definition demo_hfs :: "unit hfs" where
  \<comment> \<open>the file system of \<open>demo_fs\<close> mounted as root, with an open file at \<open>0x80233000\<close> and no host files\<close>
  "demo_hfs = fs.extend
     (demo_fs\<lparr>dentries := (\<lambda>d. \<lparr>d_name = [97], d_ref = 0,
          dentry_inode = (if d = 0x80221000 then 0x80230000 else 0x80232000),
          d_parent = (if d = 0x80221000 then 0 else 0x80221000)\<rparr>),
        vinodes := (vinodes demo_fs)(0x80232000 := demo_file),
        files := (\<lambda>_. \<lparr>f_status = FD_OPENED, f_readable = 1, f_writable = 1, f_offset = 0, f_dentry = 0x80231000\<rparr>)\<rparr>)
     (hfs.fields (\<lambda>_. 0) (\<lambda>_. \<lparr>kfd = - 1, refcnt = 0\<rparr>) 0x80010000 ())"

lemma demo_hfs_rel: "pmm_rel demo_hfs demo_free"
  using demo_fs_rel by (simp add: demo_hfs_def fs.defs hfs.defs pmm_rel_def managed_def)

lemma demo_hfs_simps [simp]:
  "vfs_root_dentry demo_hfs = 0x80221000" "dentry_hash_table demo_hfs = demo_table (0, [])"
  "dentry_inode (dentries demo_hfs d) = (if d = 0x80221000 then 0x80230000 else 0x80232000)"
  "files demo_hfs p = \<lparr>f_status = FD_OPENED, f_readable = 1, f_writable = 1, f_offset = 0, f_dentry = 0x80231000\<rparr>"
  "vinodes demo_hfs 0x80232000 = demo_file"
  "vinodes demo_hfs 0x80230000 = vinodes demo_fs 0x80230000"
  by (simp_all add: demo_hfs_def fs.defs hfs.defs) (simp_all add: demo_fs_def)

lemma demo_hfs_file: "rfs_file demo_hfs 0x80233000 0x80232000"
  by (simp add: rfs_file_def demo_file_def)

lemma demo_hfs_inv: "file_inv demo_hfs 0x80232000 0 1" "nfree sb demo_hfs = 99"
proof -
  have "freemap sb demo_hfs = freemap sb demo_fs" "has_dev demo_hfs dv = has_dev demo_fs dv"
    "sbs demo_hfs = sbs demo_fs" "devices demo_hfs = devices demo_fs" for sb dv
    by (simp_all add: demo_hfs_def fs.defs hfs.defs freemap_def has_dev_def)
  moreover have "dev_id (devices demo_fs x) = 0" for x by (simp add: demo_fs_def)
  ultimately show "file_inv demo_hfs 0x80232000 0 1" "nfree sb demo_hfs = 99"
    using demo_fs_nfree [of sb]
    by (simp_all add: file_inv_def valid_block_def vdev_def demo_file_def nfree_def)
qed


lemma demo_hfs_miss: "hash_get_dentry 0x80221000 x demo_hfs = Inr 0"
  using dht.get_spec [OF demo_table_rel [of dentry_hash_func "(0, [])"], of "(0x80221000, x)"]
  by (simp add: hash_get_dentry_def)

lemma demo_hfs_lookup_new:
  assumes "length x < 30"
  shows "\<exists>s1. lookup_new demo_fe 0x80221000 x demo_hfs = Inr (0, s1)"
proof -
  let ?x = "0x80206000 :: u64"
  let ?s = "demo_hfs\<lparr>g_free_mem_list := mem demo_hfs ?x\<rparr>"
  note A = alloc_obj_Cons [OF demo_hfs_rel [unfolded demo_free_def]]
  define s2 where "s2 = upd_dentry ?x (\<lambda>_. \<lparr>d_name = x, d_ref = 0, dentry_inode = 0, d_parent = 0x80221000\<rparr>) ?s"
  have d: "alloc_vfs_dentry x 0 0x80221000 demo_hfs = Inr (?x, s2)"
    using A(1) assms by (simp add: alloc_vfs_dentry_def MAX_DENTRY_NAME_LEN_def s2_def)
  have i: "inode_of 0x80221000 s2 = Inr 0x80230000"
    by (simp add: inode_of_def nonnull_def s2_def upd_dentry_def)
  have l: "viop_lookup demo_fe 0x80230000 ?x s2 = Inr (0, s2)"
    by (simp add: viop_lookup_def rfs_lookup_def s2_def upd_dentry_def)
  have "pmm_rel s2 (tl demo_free)" using A(2)
    by (simp add: s2_def upd_dentry_def pmm_rel_def managed_def demo_free_def)
  moreover have "managed s2 ?x" "?x \<notin> set (tl demo_free)"
    using demo_hfs_rel by (auto simp: pmm_rel_def managed_def demo_free_def s2_def upd_dentry_def)
  ultimately have "\<exists>s3. free_page ?x s2 = Inr s3" using free_page_managed(1) by blast
  then show ?thesis using d i l by (auto simp: lookup_new_def)
qed

lemma vfs_open_repeated_name_example:
  "vfs_open demo_fe [47, 120, 47, 121, 47, 120] 66 demo_hfs = vfs_open demo_fe [47, 120] 66 demo_hfs"
proof -
  from demo_hfs_lookup_new [of "[120]"] obtain s1 where "lookup_new demo_fe 0x80221000 [120] demo_hfs = Inr (0, s1)"
    by auto
  moreover have "tokens [47] [47, 120, 47, 121, 47, 120] = [120] # [[121], [120]]" "tokens [47] [47, 120] = [[120]]"
    by (simp_all add: tokens.simps)
  ultimately show ?thesis
    using vfs_open_repeated_name [where s = demo_hfs and fe = demo_fe and x = "[120]" and ts = "[[121], [120]]"]
      demo_hfs_miss by (simp add: MAX_PATH_LEN_def)
qed

theorem lookup_final_dentry_cached_witness:
  "\<exists>t s1. default_put dentry_hash_func dentry_hash_equal (0x80221000, [97]) 0x80231000
       (demo_table (0, []), demo_hfs) = Inr (0, t, s1) \<and>
     lookup_final_dentry demo_fe [47, 97] 0x80221000 (s1\<lparr>dentry_hash_table := t\<rparr>) =
       Inr (0x80231000, 0x80221000, [], s1\<lparr>dentry_hash_table := t\<rparr>)"
proof -
  have "ht_rel dentry_hash_func (Suc 6) (demo_table (0, []), demo_hfs) Map.empty"
    using hash_table_init_rel [OF demo_hfs_rel] by (simp add: demo_table_def demo_free_def eval_nat_numeral)
  from dht.put_new [OF this, of "0x80231000" "(0x80221000, [97])"] obtain t s1 where
    p: "default_put dentry_hash_func dentry_hash_equal (0x80221000, [97]) 0x80231000
       (demo_table (0, []), demo_hfs) = Inr (0, t, s1)"
      "ht_rel dentry_hash_func 6 (t, s1) [(0x80221000, [97]) \<mapsto> 0x80231000]" by auto
  let ?s = "s1\<lparr>dentry_hash_table := t\<rparr>"
  have "ht_rel dentry_hash_func 6 (dentry_hash_table ?s, ?s) [(0x80221000, [97]) \<mapsto> 0x80231000]"
    using p(2) by (simp add: ht_rel_def ht_buckets_def pmm_rel_def managed_def)
  from lookup_final_dentry_cached [OF this, of "[47, 97]" "0x80221000" "0x80231000" "0x80221000" demo_fe] p(1)
  show ?thesis by (simp add: tokens.simps MAX_PATH_LEN_def)
qed

definition demo_fe5 :: "unit frontend" where
  \<comment> \<open>a host that answers 5\<close>
  "demo_fe5 n args w h = (5, [], h)"

lemma demo_spike [simp]:
  "spike_files demo_hfs = (\<lambda>_. \<lparr>kfd = - 1, refcnt = 0\<rparr>)" "spike_fds demo_hfs = (\<lambda>_. 0)"
  "spike_base demo_hfs = 0x80010000" "hst demo_hfs = ()"
  by (simp_all add: demo_hfs_def fs.defs hfs.defs)

lemma demo_spike_ptr: "j < 128 \<Longrightarrow> file_ptr demo_hfs j \<noteq> 0"
proof -
  assume j: "j < 128"
  then have "unat (8 * of_nat j :: u64) = 8 * j" by (subst unat_mult_small) (simp_all add: unat_of_nat)
  then have "unat (file_ptr demo_hfs j) = 0x80010000 + 8 * j"
    using j unfolding file_ptr_def by (subst unat_plus_small) simp_all
  then show ?thesis by auto
qed

lemma demo_find: "find (\<lambda>i. refcnt (spike_files demo_hfs i) = 0) [0..<MAX_FILES] = Some 0"
  by (simp add: MAX_FILES_def upt_rec [of 0])

lemma spike_open_close_leaks_example:
  "\<exists>s1 s2. spike_file_open demo_fe5 [97] 2 0 demo_hfs = Inr (file_ptr demo_hfs 0, s1) \<and>
     spike_file_close demo_fe5 (file_ptr demo_hfs 0) s1 = Inr (- 1, s2) \<and> refcnt (spike_files s2 0) = 2"
  using spike_open_close_leaks [OF demo_find, of demo_fe5 "[97]" 2 0 5 "[]" "()"] demo_spike_ptr
  by (auto simp: MAX_FILES_def MAX_FDS_def demo_fe5_def)

theorem hostfs_lookup_missing_witness:
  "\<exists>s2. hostfs_lookup demo_fe 0x80230000 0x80231000 demo_hfs = Inr (0x80206000, s2) \<and>
     v_type (vinodes s2 0x80206000) = DIR_I"
proof -
  let ?p = "H_ROOT_DIR @ [47, 97]"
  have D: "dentries demo_hfs 0x80231000 = \<lparr>d_name = [97], d_ref = 0, dentry_inode = 0x80232000, d_parent = 0x80221000\<rparr>"
    "d_parent (dentries demo_hfs 0x80221000) = 0"
    by (simp_all add: demo_hfs_def fs.defs hfs.defs)
  have "path_backtrack (dentries demo_hfs) H_ROOT_DIR 0x80221000 = Some H_ROOT_DIR"
    by (subst path_backtrack.simps) (simp add: D)
  then have "path_backtrack (dentries demo_hfs) H_ROOT_DIR 0x80231000 = Some ?p"
    by (subst path_backtrack.simps) (simp add: D)
  then have g: "get_path_string 0x80231000 demo_hfs = Inr ?p"
    by (simp add: get_path_string_def MAX_PATH_LEN_def H_ROOT_DIR_def)
  have "\<exists>s1. spike_file_open demo_fe ?p O_RDWR 0 demo_hfs = Inr (ERR_PTR (- 1), s1) \<and> pmm_rel s1 demo_free"
    using demo_find demo_spike_ptr [of 0] file_index_ptr [of 0 demo_hfs] demo_hfs_rel
    by (simp add: spike_file_open_def spike_file_openat_def spike_file_get_free_def frontend_syscall_def demo_fe_def
        spike_file_decref_def INIT_FILE_REF_def) (simp add: upd_spike_def pmm_rel_def managed_def)
  then obtain s1 where "spike_file_open demo_fe ?p O_RDWR 0 demo_hfs = Inr (ERR_PTR (- 1), s1)"
    "pmm_rel s1 demo_free" by blast
  from hostfs_lookup_missing [OF g this(1) _ _ this(2) [unfolded demo_free_def], of "0x80230000"]
  show ?thesis by auto
qed

end
