(* ===== verification/SchedProps.thy ===== *)
theory SchedProps
  imports Sched PageTable VfsProps
begin

text \<open>
  Properties of the scheduler.  A queue threaded through the \<^verbatim>\<open>queue_next\<close> fields is related to the list of
  its processes; the contract of an insertion at the tail is a locale, interpreted for the ready and
  for the wait queue.
\<close>

section \<open>Queues as lists\<close>

fun plist :: "(pref \<Rightarrow> pref) \<Rightarrow> pref \<Rightarrow> pref list \<Rightarrow> bool" where
  "plist n h [] \<longleftrightarrow> h = Null"
| "plist n h (x # xs) \<longleftrightarrow> h = x \<and> x \<noteq> Null \<and> plist n (n x) xs"

abbreviation nexts :: "('h, 'z) kernel_scheme \<Rightarrow> pref \<Rightarrow> pref" where
  "nexts s \<equiv> \<lambda>p. queue_next (pcb s p)"

definition queue_rel :: "proc_status \<Rightarrow> pref \<Rightarrow> ('h, 'z) kernel_scheme \<Rightarrow> pref list \<Rightarrow> bool" where
  "queue_rel st h s xs \<longleftrightarrow> plist (nexts s) h xs \<and> distinct xs \<and> (\<forall>x \<in> set xs. status (pcb s x) = st)"

definition ready_queue :: "('h, 'z) kernel_scheme \<Rightarrow> pref list \<Rightarrow> bool" where
  "ready_queue s = queue_rel READY (ready_queue_head s) s"

definition wait_queue :: "('h, 'z) kernel_scheme \<Rightarrow> pref list \<Rightarrow> bool" where
  "wait_queue s = queue_rel BLOCKED (wait_queue_head s) s"

lemmas queue_defs = ready_queue_def wait_queue_def queue_rel_def

lemma plist_Null [simp]: "plist n Null xs \<longleftrightarrow> xs = []"
  by (cases xs) auto

lemma plist_not_Null: "plist n h xs \<Longrightarrow> Null \<notin> set xs"
  by (induction xs arbitrary: h) auto

lemma plist_cong: "\<forall>x \<in> set xs. n x = n' x \<Longrightarrow> plist n h xs = plist n' h xs"
  by (induction xs arbitrary: h) auto

lemma plist_append: "plist n h (xs @ [x]) \<Longrightarrow> p \<notin> set xs \<Longrightarrow> p \<noteq> x \<Longrightarrow> x \<notin> set xs \<Longrightarrow> p \<noteq> Null \<Longrightarrow>
    plist (n(x := p, p := Null)) h (xs @ [x, p])"
  by (induction xs arbitrary: h) auto

lemma queue_last_spec:
  "plist n h xs \<Longrightarrow> distinct xs \<Longrightarrow> xs \<noteq> [] \<Longrightarrow>
     queue_last n proc h = Some (if proc \<in> set xs then Null else last xs)"
proof (induction xs arbitrary: h)
  case (Cons x xs)
  show ?case
  proof (cases xs)
    case Nil
    then show ?thesis using Cons.prems by (subst queue_last.simps) auto
  next
    case (Cons y ys)
    then show ?thesis using Cons.prems Cons.IH [of "n x"] by (subst queue_last.simps) auto
  qed
qed simp

lemma queue_rel_cong:
  assumes "\<forall>x \<in> set xs. queue_next (pcb s' x) = queue_next (pcb s x) \<and> status (pcb s' x) = status (pcb s x)"
  shows "queue_rel st h s' xs = queue_rel st h s xs"
  using plist_cong [of xs "nexts s'" "nexts s" h] assms by (auto simp: queue_rel_def)

lemma queue_rel_other: "pcb s' = pcb s \<Longrightarrow> queue_rel st h s' = queue_rel st h s"
  by (simp add: queue_rel_def fun_eq_iff)

lemma queue_rel_head: "queue_rel st h s (x # xs) \<Longrightarrow> h = x \<and> x \<noteq> Null \<and> queue_rel st (nexts s x) s xs"
  by (simp add: queue_rel_def)

lemma pcb_upd_proc [simp]: "pcb (upd_proc p f s) = (pcb s)(p := f (pcb s p))"
  by (simp add: upd_proc_def)

lemma upd_proc_simps [simp]:
  "ready_queue_head (upd_proc p f s) = ready_queue_head s" "wait_queue_head (upd_proc p f s) = wait_queue_head s"
  "current (upd_proc p f s) = current s" "mem (upd_proc p f s) = mem s" "csr_satp (upd_proc p f s) = csr_satp s"
  "sem_l (upd_proc p f s) = sem_l s" "smode_trap_entry (upd_proc p f s) = smode_trap_entry s"
  by (simp_all add: upd_proc_def)

lemma append_to_queue:
  \<comment> \<open>the insertion at the tail that both queues perform\<close>
  assumes q: "queue_rel st h s xs" and ne: "xs \<noteq> []" and p: "p \<notin> set xs" "p \<noteq> Null"
  shows "queue_rel st h (upd_proc p (\<lambda>q. q\<lparr>status := st, queue_next := Null\<rparr>)
           (upd_proc (last xs) (\<lambda>q. q\<lparr>queue_next := p\<rparr>) s)) (xs @ [p])" (is "queue_rel st h ?s' _")
proof -
  obtain ys y where xs: "xs = ys @ [y]" using ne by (metis append_butlast_last_id)
  have n: "nexts ?s' = (nexts s)(y := p, p := Null)" using p xs by (auto simp: fun_eq_iff)
  have "plist (nexts ?s') h (xs @ [p])"
    unfolding n using q p plist_append [of "nexts s" h ys y p] by (auto simp: queue_rel_def xs)
  moreover have "distinct (xs @ [p])" "\<forall>x \<in> set (xs @ [p]). status (pcb ?s' x) = st"
    using q p by (auto simp: queue_rel_def)
  ultimately show ?thesis unfolding queue_rel_def by blast
qed

section \<open>The contract of an insertion\<close>

locale tail_queue =
  fixes st :: proc_status and qhead :: "('h, 'z) kernel_scheme \<Rightarrow> pref"
    and ins :: "pref \<Rightarrow> ('h, 'z) kernel_scheme \<Rightarrow> kerr + ('h, 'z) kernel_scheme"
  assumes ins_empty: "qhead s = Null \<Longrightarrow> p \<noteq> Null \<Longrightarrow>
      \<exists>s'. ins p s = Inr s' \<and> qhead s' = p \<and> pcb s' = (pcb s)(p := (pcb s p)\<lparr>status := st, queue_next := Null\<rparr>)"
    and ins_new: "qhead s \<noteq> Null \<Longrightarrow> queue_last (nexts s) p (qhead s) = Some x \<Longrightarrow> x \<noteq> Null \<Longrightarrow>
      \<exists>s'. ins p s = Inr s' \<and> qhead s' = qhead s \<and> pcb s' = pcb (upd_proc p (\<lambda>q. q\<lparr>status := st, queue_next := Null\<rparr>)
        (upd_proc x (\<lambda>q. q\<lparr>queue_next := p\<rparr>) s))"
    and ins_dup: "qhead s \<noteq> Null \<Longrightarrow> queue_last (nexts s) p (qhead s) = Some Null \<Longrightarrow> ins p s = Inr s"
begin

lemma insert_spec:
  assumes q: "queue_rel st (qhead s) s xs" and p: "p \<noteq> Null"
  shows "\<exists>s'. ins p s = Inr s' \<and> queue_rel st (qhead s') s' (if p \<in> set xs then xs else xs @ [p]) \<and>
           (\<forall>x. x \<noteq> p \<longrightarrow> x \<notin> set xs \<longrightarrow> pcb s' x = pcb s x) \<and>
           (\<forall>x. x \<noteq> p \<longrightarrow> (\<exists>n. pcb s' x = (pcb s x)\<lparr>queue_next := n\<rparr>))"
proof (cases "xs = []")
  case True
  then have h: "qhead s = Null" using q by (simp add: queue_rel_def)
  from ins_empty [OF h p] obtain s' where s': "ins p s = Inr s'" "qhead s' = p"
    "pcb s' = (pcb s)(p := (pcb s p)\<lparr>status := st, queue_next := Null\<rparr>)" by blast
  have "\<exists>n. pcb s x = (pcb s x)\<lparr>queue_next := n\<rparr>" for x by (rule exI [of _ "queue_next (pcb s x)"]) simp
  then show ?thesis using s' True p by (auto simp: queue_rel_def)
next
  case False
  then have h: "qhead s \<noteq> Null" using q by (auto simp: queue_rel_def)
  have l: "queue_last (nexts s) p (qhead s) = Some (if p \<in> set xs then Null else last xs)"
    using queue_last_spec False q by (auto simp: queue_rel_def)
  have n: "\<exists>n. pcb s x = (pcb s x)\<lparr>queue_next := n\<rparr>" for x by (rule exI [of _ "queue_next (pcb s x)"]) simp
  show ?thesis
  proof (cases "p \<in> set xs")
    case True
    then show ?thesis using ins_dup [OF h] l q n by auto
  next
    case new: False
    have nn: "last xs \<noteq> Null" using plist_not_Null last_in_set [OF False] q by (metis queue_rel_def)
    from ins_new [OF h, of p "last xs"] l new nn obtain s' where s': "ins p s = Inr s'" "qhead s' = qhead s"
      "pcb s' = pcb (upd_proc p (\<lambda>q. q\<lparr>status := st, queue_next := Null\<rparr>)
        (upd_proc (last xs) (\<lambda>q. q\<lparr>queue_next := p\<rparr>) s))" by auto
    have "queue_rel st (qhead s') s' (xs @ [p])"
      using append_to_queue [OF q False new p] s'(2) queue_rel_other [OF s'(3)] by simp
    moreover have "pcb s' x = pcb s x" if "x \<noteq> p" "x \<notin> set xs" for x using that s'(3) False by auto
    moreover have "\<exists>n. pcb s' x = (pcb s x)\<lparr>queue_next := n\<rparr>" if "x \<noteq> p" for x using that s'(3) n by auto
    ultimately show ?thesis using s'(1) new by auto
  qed
qed

end

interpretation rq: tail_queue READY ready_queue_head insert_to_ready_queue
  by unfold_locales (auto simp: insert_to_ready_queue_def)

interpretation wq: tail_queue BLOCKED wait_queue_head insert_to_wait_queue
  by unfold_locales (auto simp: insert_to_wait_queue_def)


section \<open>Dispatching\<close>

definition enters_user :: "nat \<Rightarrow> pref \<Rightarrow> ('h, 'z) kernel_scheme \<Rightarrow> ('h, 'z) kernel_scheme \<Rightarrow> bool" where
  \<comment> \<open>what the hart and the trapframe of \<open>p\<close> hold in \<open>s'\<close> after the switch to \<open>p\<close> from \<open>s\<close>\<close>
  "enters_user cpu p s s' \<longleftrightarrow>
     (let tf = trapframe (pcb s p) in
      current s' cpu = p \<and> user_satp s' cpu = MAKE_SATP (pagetable (pcb s p)) \<and>
      csr_sepc s' cpu = mem s (tf + TF_epc) \<and> mem s' (tf + TF_kernel_sp) = kstack (pcb s p) \<and>
      mem s' (tf + TF_kernel_satp) = csr_satp s cpu \<and> mem s' (tf + TF_kernel_trap) = smode_trap_entry s \<and>
      csr_sstatus s' cpu AND SSTATUS_SPP = 0 \<and> csr_sstatus s' cpu AND SSTATUS_SPIE \<noteq> 0 \<and>
      (\<forall>a. a \<noteq> tf + TF_kernel_sp \<longrightarrow> a \<noteq> tf + TF_kernel_satp \<longrightarrow> a \<noteq> tf + TF_kernel_trap \<longrightarrow> mem s' a = mem s a))"

lemma trapframe_words [simp]:
  assumes "ram_page tf"
  shows "mem_ok (tf + TF_kernel_sp)" "mem_ok (tf + TF_kernel_satp)" "mem_ok (tf + TF_kernel_trap)" "mem_ok (tf + TF_epc)"
  using mem_ok_entry [OF assms, of 31] mem_ok_entry [OF assms, of 34] mem_ok_entry [OF assms, of 32]
    mem_ok_entry [OF assms, of 33] by (simp_all add: TF_defs)

lemma sstatus_user: "(x AND NOT SSTATUS_SPP OR SSTATUS_SPIE) AND SSTATUS_SPP = 0"
  "(x AND NOT SSTATUS_SPP OR SSTATUS_SPIE) AND SSTATUS_SPIE \<noteq> 0" for x :: u64
proof -
  show "(x AND NOT SSTATUS_SPP OR SSTATUS_SPIE) AND SSTATUS_SPP = 0"
    by (simp add: bit.conj_disj_distrib2 and.assoc) (simp add: SSTATUS_SPP_def SSTATUS_SPIE_def)
  have "bit ((x AND NOT SSTATUS_SPP OR SSTATUS_SPIE) AND SSTATUS_SPIE) 5"
    by (simp add: SSTATUS_SPP_def SSTATUS_SPIE_def bit_simps)
  then show "(x AND NOT SSTATUS_SPP OR SSTATUS_SPIE) AND SSTATUS_SPIE \<noteq> 0" by auto
qed

lemma switch_to_spec:
  assumes "p \<noteq> Null" "ram_page (trapframe (pcb s p))"
  shows "\<exists>s'. switch_to cpu p s = Inr s' \<and> enters_user cpu p s s' \<and> pcb s' = pcb s \<and>
           ready_queue_head s' = ready_queue_head s \<and> wait_queue_head s' = wait_queue_head s"
  using assms sstatus_user
  by (simp add: switch_to_def store_def load_def enters_user_def Let_def) (simp add: TF_defs)

lemma dispatch_spec:
  assumes q: "ready_queue s (x # xs)" and w: "wait_queue s ys" "x \<notin> set ys" and tf: "ram_page (trapframe (pcb s x))"
  shows "\<exists>s'. dispatch cpu s = Inr s' \<and> enters_user cpu x s s' \<and> status (pcb s' x) = RUNNING \<and>
           ready_queue s' xs \<and> wait_queue s' ys \<and> (\<forall>p. p \<noteq> x \<longrightarrow> pcb s' p = pcb s p)"
proof -
  let ?s = "upd_proc x (\<lambda>q. q\<lparr>status := RUNNING\<rparr>)
              (s\<lparr>current := (current s)(cpu := x), ready_queue_head := queue_next (pcb s x)\<rparr>)"
  have x: "ready_queue_head s = x" "x \<noteq> Null" "status (pcb s x) = READY"
    "queue_rel READY (queue_next (pcb s x)) s xs" "x \<notin> set xs"
    using q by (auto simp: ready_queue_def queue_rel_def)
  obtain s' where s': "switch_to cpu x ?s = Inr s'" "enters_user cpu x ?s s'" "pcb s' = pcb ?s"
    "ready_queue_head s' = ready_queue_head ?s" "wait_queue_head s' = wait_queue_head ?s"
    using switch_to_spec [of x ?s cpu] x(2) tf by auto
  have d: "dispatch cpu s = Inr s'"
    using s'(1) x by (simp add: dispatch_def nonnull_proc_def Let_def)
  have e: "enters_user cpu x s s'"
    using s'(2) by (simp add: enters_user_def Let_def)
  have r: "ready_queue s' xs" "wait_queue s' ys"
    using x(4,5) w s'(3-5)
    by (auto simp: ready_queue_def wait_queue_def queue_rel_cong [of xs s' s] queue_rel_cong [of ys s' s] fun_upd_apply)
  show ?thesis using d e r s'(3) by auto
qed

text \<open>C3: \<^verbatim>\<open>schedule\<close>, called other than by an exiting process, runs the process at the head of the ready
  queue: it is taken out of the queue, becomes RUNNING and the current process of the hart, and the
  hart enters user mode with its page table, its saved program counter and its own kernel stack in
  the trapframe; the rest of both queues and every other process stay as they are.\<close>

theorem schedule_runs_head:
  assumes "ready_queue s (x # xs)" and "wait_queue s ys" "x \<notin> set ys" and "ram_page (trapframe (pcb s x))"
    and "typ \<noteq> 1 \<or> ys = []"
  shows "\<exists>s'. schedule typ cpu s = Inr s' \<and> enters_user cpu x s s' \<and> status (pcb s' x) = RUNNING \<and>
           ready_queue s' xs \<and> wait_queue s' ys \<and> (\<forall>p. p \<noteq> x \<longrightarrow> pcb s' p = pcb s p)"
proof -
  have "schedule typ cpu s = dispatch cpu s"
    using assms(1,2,5) by (auto simp: schedule_def ready_queue_def wait_queue_def queue_rel_def)
  then show ?thesis using dispatch_spec [OF assms(1-4)] by simp
qed

text \<open>inserting a process into the ready queue keeps both queues well formed: a process that is in
  neither is appended and READY, one that is in the ready queue is left where it is, and no other
  process changes but for the link to the new tail.\<close>

lemma insert_to_ready_queue_appends:
  assumes "ready_queue s xs" and "wait_queue s ys" and "set xs \<inter> set ys = {}" and "p \<noteq> Null" "p \<notin> set ys"
  shows "\<exists>s'. insert_to_ready_queue p s = Inr s' \<and> ready_queue s' (if p \<in> set xs then xs else xs @ [p]) \<and>
           wait_queue s' ys \<and> (\<forall>x. x \<noteq> p \<longrightarrow> (\<exists>n. pcb s' x = (pcb s x)\<lparr>queue_next := n\<rparr>))"
proof -
  obtain s' where s': "insert_to_ready_queue p s = Inr s'"
    "queue_rel READY (ready_queue_head s') s' (if p \<in> set xs then xs else xs @ [p])"
    "\<forall>x. x \<noteq> p \<longrightarrow> x \<notin> set xs \<longrightarrow> pcb s' x = pcb s x" "\<forall>x. x \<noteq> p \<longrightarrow> (\<exists>n. pcb s' x = (pcb s x)\<lparr>queue_next := n\<rparr>)"
    using rq.insert_spec [of s xs p] assms(1,4) by (auto simp: ready_queue_def)
  have "wait_queue_head s' = wait_queue_head s"
    using s'(1) by (auto simp: insert_to_ready_queue_def split: if_splits option.splits)
  moreover have "\<forall>x \<in> set ys. pcb s' x = pcb s x" using s'(3) assms(3,5) by auto
  ultimately have "wait_queue s' ys"
    using assms(2) queue_rel_cong [of ys s' s] by (simp add: wait_queue_def)
  then show ?thesis using s' by (auto simp: ready_queue_def)
qed


section \<open>Waking up\<close>

lemma find_waiter_found:
  "plist (\<lambda>p. queue_next (ps p)) h (xs @ w # ys) \<Longrightarrow> \<forall>x \<in> set xs. \<not> P (ps x) \<Longrightarrow> P (ps w) \<Longrightarrow>
     find_waiter ps P front h = Some (w, last (front # xs))"
proof (induction xs arbitrary: h front)
  case (Cons x xs)
  then show ?case using Cons.IH [of "queue_next (ps x)" x] by (subst find_waiter.simps) auto
qed (subst find_waiter.simps, simp)

lemma find_waiter_none:
  "plist (\<lambda>p. queue_next (ps p)) h xs \<Longrightarrow> \<forall>x \<in> set xs. \<not> P (ps x) \<Longrightarrow>
     find_waiter ps P front h = Some (Null, last (front # xs))"
proof (induction xs arbitrary: h front)
  case (Cons x xs)
  then show ?case using Cons.IH [of "queue_next (ps x)" x] by (subst find_waiter.simps) auto
qed (subst find_waiter.simps, simp)

lemma plist_unlink:
  "plist n h (xs @ f # w # ys) \<Longrightarrow> distinct (xs @ f # w # ys) \<Longrightarrow> plist (n(f := n w)) h (xs @ f # ys)"
proof (induction xs arbitrary: h)
  case Nil
  then have "\<forall>x \<in> set ys. (n(f := n w)) x = n x" by auto
  from plist_cong [OF this, of "n w"] Nil show ?case by auto
qed auto

lemma unlink_waiter_spec:
  assumes q: "wait_queue s (xs @ w # ys)"
  shows "wait_queue (unlink_waiter w (last (Null # xs)) s) (xs @ ys)"
    and "\<forall>p. \<exists>n. pcb (unlink_waiter w (last (Null # xs)) s) p = (pcb s p)\<lparr>queue_next := n\<rparr>"
    and "\<forall>p. p \<notin> set xs \<longrightarrow> pcb (unlink_waiter w (last (Null # xs)) s) p = pcb s p"
    and "ready_queue_head (unlink_waiter w f s) = ready_queue_head s" "current (unlink_waiter w f s) = current s"
proof -
  have n: "\<exists>n. pcb s p = (pcb s p)\<lparr>queue_next := n\<rparr>" for p by (rule exI [of _ "queue_next (pcb s p)"]) simp
  let ?t = "unlink_waiter w (last (Null # xs)) s"
  have "wait_queue ?t (xs @ ys) \<and> (\<forall>p. \<exists>n. pcb ?t p = (pcb s p)\<lparr>queue_next := n\<rparr>) \<and> (\<forall>p. p \<notin> set xs \<longrightarrow> pcb ?t p = pcb s p)"
  proof (cases xs rule: rev_cases)
    case Nil
    then show ?thesis using q n by (auto simp: unlink_waiter_def wait_queue_def queue_rel_def)
  next
    case (snoc zs f)
    have f: "f \<noteq> Null" using q plist_not_Null [of "nexts s" "wait_queue_head s" "xs @ w # ys"]
      by (auto simp: snoc wait_queue_def queue_rel_def)
    then have t: "?t = upd_proc f (\<lambda>q. q\<lparr>queue_next := queue_next (pcb s w)\<rparr>) s"
      by (simp add: snoc unlink_waiter_def)
    have "nexts ?t = (nexts s)(f := nexts s w)" unfolding t by (auto simp: fun_eq_iff)
    then have "plist (nexts ?t) (wait_queue_head s) (zs @ f # ys)"
      using plist_unlink [of "nexts s" "wait_queue_head s" zs f w ys] q
      by (simp only: snoc wait_queue_def queue_rel_def append.simps append_assoc)
    moreover have "distinct (zs @ f # ys)" "\<forall>x \<in> set (zs @ f # ys). status (pcb ?t x) = BLOCKED" "wait_queue_head ?t = wait_queue_head s"
      using q unfolding t by (auto simp: snoc wait_queue_def queue_rel_def)
    ultimately have "wait_queue ?t (xs @ ys)" unfolding wait_queue_def queue_rel_def snoc by simp
    then show ?thesis using n unfolding t by (auto simp: snoc)
  qed
  then show "wait_queue ?t (xs @ ys)" "\<forall>p. \<exists>n. pcb ?t p = (pcb s p)\<lparr>queue_next := n\<rparr>"
    "\<forall>p. p \<notin> set xs \<longrightarrow> pcb ?t p = pcb s p" by blast+
  show "ready_queue_head (unlink_waiter w f s) = ready_queue_head s" "current (unlink_waiter w f s) = current s"
    by (simp_all add: unlink_waiter_def)
qed

lemma insert_head_spec:
  assumes "ready_queue s xs" "p \<noteq> Null" "p \<notin> set xs"
  shows "ready_queue (insert_to_ready_queue_head p s) (p # xs)"
    and "\<forall>x. x \<noteq> p \<longrightarrow> pcb (insert_to_ready_queue_head p s) x = pcb s x"
    and "wait_queue_head (insert_to_ready_queue_head p s) = wait_queue_head s"
proof -
  have "plist (nexts (insert_to_ready_queue_head p s)) (ready_queue_head s) xs"
    using assms plist_cong [of xs "nexts (insert_to_ready_queue_head p s)" "nexts s" "ready_queue_head s"]
    by (auto simp: insert_to_ready_queue_head_def ready_queue_def queue_rel_def)
  then show "ready_queue (insert_to_ready_queue_head p s) (p # xs)"
    using assms by (auto simp: insert_to_ready_queue_head_def ready_queue_def queue_rel_def)
qed (simp_all add: insert_to_ready_queue_head_def)

lemma wake_wait_queue_moves:
  \<comment> \<open>the first waiter for semaphore \<open>a\<close> goes to the head of the ready queue, unless its counter is negative\<close>
  assumes "ready_queue s rs" and "wait_queue s (xs @ w # ys)" and "set rs \<inter> set (xs @ w # ys) = {}"
    and "\<forall>x \<in> set xs. sem (pcb s x) \<noteq> a" and "sem (pcb s w) = a" and "0 \<le> a" "a < 100"
  shows "\<exists>s'. wake_wait_queue a s = Inr s' \<and>
     (if sem_l s a < 0 then s' = s
      else ready_queue s' (w # rs) \<and> wait_queue s' (xs @ ys) \<and> status (pcb s' w) = READY \<and>
        (\<forall>x. x \<noteq> w \<longrightarrow> (\<exists>n. pcb s' x = (pcb s x)\<lparr>queue_next := n\<rparr>)))"
proof (cases "sem_l s a < 0")
  case False
  let ?u = "unlink_waiter w (last (Null # xs)) s"
  let ?t = "insert_to_ready_queue_head w ?u"
  have w: "w \<noteq> Null" "w \<notin> set rs" "w \<notin> set (xs @ ys)"
    using assms(2,3) plist_not_Null [of "nexts s" "wait_queue_head s" "xs @ w # ys"] by (auto simp: wait_queue_def queue_rel_def)
  have "find_waiter (pcb s) (\<lambda>p. sem p = a) Null (wait_queue_head s) = Some (w, last (Null # xs))"
    using assms(2,4,5) by (intro find_waiter_found) (auto simp: wait_queue_def queue_rel_def)
  then have r: "wake_wait_queue a s = Inr ?t" using False w(1) assms(6,7) by (simp add: wake_wait_queue_def)
  have "\<forall>x \<in> set rs. pcb ?u x = pcb s x" using unlink_waiter_spec(3) [OF assms(2)] assms(3) by auto
  then have "ready_queue ?u rs"
    using assms(1) queue_rel_cong [of rs ?u s] by (simp add: ready_queue_def unlink_waiter_spec(4) [OF assms(2)])
  from insert_head_spec [OF this w(1,2)] have i: "ready_queue ?t (w # rs)" "\<forall>x. x \<noteq> w \<longrightarrow> pcb ?t x = pcb ?u x"
    "wait_queue_head ?t = wait_queue_head ?u" by blast+
  have eq: "\<forall>x \<in> set (xs @ ys). pcb ?t x = pcb ?u x" using i(2) w(3) by metis
  have "wait_queue ?t (xs @ ys)"
    using unlink_waiter_spec(1) [OF assms(2)] queue_rel_cong [of "xs @ ys" ?t ?u] eq i(3) by (simp add: wait_queue_def)
  moreover have "\<forall>x. x \<noteq> w \<longrightarrow> (\<exists>n. pcb ?t x = (pcb s x)\<lparr>queue_next := n\<rparr>)"
    using i(2) unlink_waiter_spec(2) [OF assms(2)] by simp
  moreover have "status (pcb ?t w) = READY" using i(1) by (simp add: ready_queue_def queue_rel_def)
  ultimately show ?thesis using r i(1) False by auto
qed (use assms(6,7) in \<open>simp add: wake_wait_queue_def\<close>)


section \<open>The scheduler called by an exiting process\<close>

definition waits_for :: "nat \<Rightarrow> ('h, 'z) kernel_scheme \<Rightarrow> pref \<Rightarrow> bool" where
  \<comment> \<open>\<open>p\<close> has the process identifier of the parent of the current process\<close>
  "waits_for cpu s p \<longleftrightarrow> pid (pcb s p) = pid (pcb s (parent (cur cpu s)))"

text \<open>C36: when a process exits while its parent waits and no process is ready, \<^verbatim>\<open>schedule(1)\<close> takes the
  parent out of the wait queue and resumes it, but it runs a copy of the parent's process structure in
  the frame of \<^verbatim>\<open>schedule\<close>, on the kernel stack of the process that exits; the entry of the parent in
  \<^verbatim>\<open>procs\<close> stays BLOCKED.\<close>

theorem schedule_exit_runs_copy:
  assumes r: "ready_queue s []" and w: "wait_queue s (xs @ w # ys)" and "parent (cur cpu s) \<noteq> Null"
    and "\<forall>x \<in> set xs. \<not> waits_for cpu s x" and "waits_for cpu s w" and "ram_page (trapframe (pcb s w))"
    and t: "t = Local (kstack (cur cpu s))" "t \<notin> set (xs @ w # ys)"
  shows "\<exists>s'. schedule 1 cpu s = Inr s' \<and> current s' cpu = t \<and>
     pcb s' t = (pcb s w)\<lparr>status := RUNNING\<rparr> \<and> status (pcb s' w) = BLOCKED \<and>
     wait_queue s' (xs @ ys) \<and> ready_queue s' [] \<and> user_satp s' cpu = MAKE_SATP (pagetable (pcb s w))"
proof -
  let ?u = "unlink_waiter w (last (Null # xs)) s"
  let ?c = "upd_proc t (\<lambda>_. pcb s w) ?u"
  let ?v = "upd_proc t (\<lambda>p. p\<lparr>status := RUNNING\<rparr>) (?c\<lparr>current := (current ?c)(cpu := t)\<rparr>)"
  have wn: "w \<noteq> Null" "wait_queue_head s \<noteq> Null" "t \<noteq> Null" "w \<notin> set xs" "status (pcb s w) = BLOCKED"
    using w t plist_not_Null [of "nexts s" "wait_queue_head s" "xs @ w # ys"]
    by (auto simp: wait_queue_def queue_rel_def)
  have "find_waiter (pcb s) (\<lambda>p. pid p = pid (pcb s (parent (cur cpu s)))) Null (wait_queue_head s) = Some (w, last (Null # xs))"
    using w assms(4,5) by (intro find_waiter_found) (auto simp: wait_queue_def queue_rel_def waits_for_def)
  moreover have rh: "ready_queue_head s = Null" "ready_queue_head ?c = Null"
    using r unlink_waiter_spec(4) [OF w] by (auto simp: ready_queue_def queue_rel_def)
  ultimately have sch: "schedule 1 cpu s = switch_to cpu t ?v"
    using wn assms(3) t(1) by (simp add: schedule_def Let_def)
  have pv: "pcb ?v = (pcb ?u)(t := (pcb s w)\<lparr>status := RUNNING\<rparr>)" by (simp add: fun_eq_iff)
  obtain s' where s': "switch_to cpu t ?v = Inr s'" "enters_user cpu t ?v s'" "pcb s' = pcb ?v"
    "ready_queue_head s' = ready_queue_head ?v" "wait_queue_head s' = wait_queue_head ?v"
    using switch_to_spec [of t ?v cpu] wn(3) assms(6) pv by auto
  have eq: "\<forall>x \<in> set (xs @ ys). pcb s' x = pcb ?u x" using s'(3) pv t(2) by auto
  have "wait_queue s' (xs @ ys)"
    using unlink_waiter_spec(1) [OF w] queue_rel_cong [of "xs @ ys" s' ?u] eq s'(5) by (simp add: wait_queue_def)
  moreover have "pcb s' w = pcb s w" using s'(3) pv t(2) unlink_waiter_spec(3) [OF w] wn(4) by auto
  moreover have "ready_queue s' []" using s'(4) rh(2) by (simp add: ready_queue_def queue_rel_def)
  ultimately show ?thesis
    using sch s'(1,2,3) pv wn(5) by (simp add: enters_user_def Let_def)
qed

text \<open>When the wait queue is not empty but nobody in it waits for the exiting process, \<^verbatim>\<open>schedule(1)\<close>
  does not look whether the ready queue is empty: it follows its NULL head instead of shutting the
  machine down.\<close>

lemma schedule_exit_null_head:
  assumes "ready_queue s []" and "wait_queue s (y # ys)"
    and "parent (cur cpu s) = Null \<or> (\<forall>x \<in> set (y # ys). \<not> waits_for cpu s x)"
  shows "schedule 1 cpu s = Inl (Fault ''null'')"
proof -
  have d: "dispatch cpu s = Inl (Fault ''null'')" and w: "wait_queue_head s \<noteq> Null"
    using assms(1,2) by (auto simp: dispatch_def nonnull_proc_def Let_def queue_defs)
  show ?thesis
  proof (cases "parent (cur cpu s) = Null")
    case False
    have "find_waiter (pcb s) (\<lambda>p. pid p = pid (pcb s (parent (cur cpu s)))) Null (wait_queue_head s)
        = Some (Null, last (Null # y # ys))"
      using assms(2,3) False by (intro find_waiter_none) (auto simp: queue_defs waits_for_def)
    then show ?thesis using d w False by (simp add: schedule_def)
  qed (use d w in \<open>simp add: schedule_def\<close>)
qed

section \<open>Witnesses\<close>

definition demo_proc :: "nat \<Rightarrow> process" where
  \<comment> \<open>0 runs, 1 and 2 are ready, 3 and 4 wait; 3 is the parent of 0\<close>
  "demo_proc i = \<lparr>kstack = 0x80250000, pagetable = 0x80260000, trapframe = 0x80240000, mapped_info = 0x80270000,
     total_mapped_region = 4, user_heap = \<lparr>heap_top = 0x400000, heap_bottom = 0x400000,
     free_pages_address = (\<lambda>_. 0), free_pages_count = 0\<rparr>, pid = of_nat i,
     status = (if i = 0 then RUNNING else if i \<le> 2 then READY else if i \<le> 4 then BLOCKED else FREE),
     parent = (if i = 0 then Proc 3 else Null),
     queue_next = (if i = 1 then Proc 2 else if i = 3 then Proc 4 else Null),
     tick_count = 0, sem = int i + 2, pfiles = 0x80280000, debugline = 0, p_dir = 0, p_file = 0, p_line = 0,
     line_ind = 0\<rparr>"

definition demo_kernel :: "unit kernel" where
  "demo_kernel = hfs.extend demo_hfs
     (kernel.fields (\<lambda>p. case p of Proc i \<Rightarrow> demo_proc i | _ \<Rightarrow> demo_proc 31) (\<lambda>_. Proc 0) (Proc 1) (Proc 3)
        1 (\<lambda>_. 0) 7 0 0 (\<lambda>_. 0x80221000) (\<lambda>_. 0) (\<lambda>_. 0) (\<lambda>_. 0) (\<lambda>_. 0) (\<lambda>_. 0) (\<lambda>_. 0) (\<lambda>_. 0)
        0x80007000 0x80003000 0x80007000)"

lemma demo_kernel_simps [simp]:
  "pcb demo_kernel (Proc i) = demo_proc i" "current demo_kernel cpu = Proc 0" "sem_l demo_kernel a = 0"
  "ready_queue_head demo_kernel = Proc 1" "wait_queue_head demo_kernel = Proc 3"
  by (simp_all add: demo_kernel_def hfs.defs kernel.defs)

lemma demo_kernel_queues: "ready_queue demo_kernel [Proc 1, Proc 2]" "wait_queue demo_kernel [Proc 3, Proc 4]"
  by (simp_all add: queue_defs demo_proc_def)

lemma demo_tf: "ram_page (trapframe (demo_proc i))"
  by (simp add: demo_proc_def ram_page_def page_aligned_def layout_defs)

theorem schedule_runs_head_witness:
  "\<exists>s'. schedule 0 0 demo_kernel = Inr s' \<and> current s' 0 = Proc 1 \<and> ready_queue s' [Proc 2]"
  using schedule_runs_head [OF demo_kernel_queues, of 0 0] demo_tf by (auto simp: enters_user_def Let_def)

lemma insert_to_ready_queue_appends_example:
  "\<exists>s'. insert_to_ready_queue (Proc 0) demo_kernel = Inr s' \<and> ready_queue s' [Proc 1, Proc 2, Proc 0] \<and>
     wait_queue s' [Proc 3, Proc 4]"
  using insert_to_ready_queue_appends [OF demo_kernel_queues, of "Proc 0"] by auto

lemma demo_no_ready: "ready_queue (demo_kernel\<lparr>ready_queue_head := Null\<rparr>) []"
  "wait_queue (demo_kernel\<lparr>ready_queue_head := Null\<rparr>) [Proc 3, Proc 4]"
  by (simp_all add: queue_defs demo_proc_def)

theorem schedule_exit_runs_copy_witness:
  "\<exists>s'. schedule 1 0 (demo_kernel\<lparr>ready_queue_head := Null\<rparr>) = Inr s' \<and> current s' 0 = Local 0x80250000 \<and>
     status (pcb s' (Proc 3)) = BLOCKED"
  using schedule_exit_runs_copy [of "demo_kernel\<lparr>ready_queue_head := Null\<rparr>" "[]" "Proc 3" "[Proc 4]" 0 "Local 0x80250000"]
    demo_no_ready demo_tf by (fastforce simp: waits_for_def demo_proc_def)

lemma schedule_exit_null_head_example:
  "schedule 1 0 (demo_kernel\<lparr>ready_queue_head := Null, current := \<lambda>_. Proc 3\<rparr>) = Inl (Fault ''null'')"
  using schedule_exit_null_head [of "demo_kernel\<lparr>ready_queue_head := Null, current := \<lambda>_. Proc 3\<rparr>" "Proc 3" "[Proc 4]" 0]
  by (simp add: queue_defs demo_proc_def)

end
