(* ===== verification/ElfProps.thy ===== *)
theory ElfProps
  imports Elf SchedProps
begin

text \<open>
  Properties of the ELF loader: the sort of the symbol table, the variable length numbers and the table
  of line numbers.
\<close>

section \<open>Bubble sort\<close>

lemma bubble_outside: "i < j \<or> j + n < i \<Longrightarrow> bubble n j sh i = sh i"
  by (induction n arbitrary: j sh) (auto simp: swap_sym_def)

definition syms :: "(nat \<Rightarrow> symbol) \<Rightarrow> nat \<Rightarrow> symbol multiset" where
  \<comment> \<open>the first \<open>m\<close> entries of a table\<close>
  "syms sh m = mset (map sh [0..<m])"

lemma syms_swap: "j + 1 < m \<Longrightarrow> syms (swap_sym j sh) m = syms sh m"
proof -
  assume j: "j + 1 < m"
  then have "map (swap_sym j sh) [0..<m] = (map sh [0..<m])[j := map sh [0..<m] ! (j + 1), j + 1 := map sh [0..<m] ! j]"
    by (auto simp: list_eq_iff_nth_eq swap_sym_def nth_list_update)
  moreover have "j + 1 < length (map sh [0..<m])" "j < length (map sh [0..<m])" using j by simp_all
  ultimately show ?thesis unfolding syms_def by (metis mset_swap)
qed

lemma bubble_syms: "j + n < m \<Longrightarrow> syms (bubble n j sh) m = syms sh m"
  by (induction n arbitrary: j sh) (simp_all add: syms_swap [unfolded Suc_eq_plus1 [symmetric]])

lemma bubble_range: "j \<le> i \<Longrightarrow> i \<le> j + n \<Longrightarrow> \<exists>k. j \<le> k \<and> k \<le> j + n \<and> bubble n j sh i = sh k"
proof (induction n arbitrary: i j sh)
  case (Suc n)
  let ?sh = "if sy_offset (sh j) > sy_offset (sh (j + 1)) then swap_sym j sh else sh"
  have r: "\<exists>k'. j \<le> k' \<and> k' \<le> j + Suc n \<and> ?sh k = sh k'" if "j \<le> k" "k \<le> j + Suc n" for k
  proof -
    let ?k = "if sy_offset (sh j) > sy_offset (sh (j + 1)) then (if k = j + 1 then j else if k = j then j + 1 else k) else k"
    have "?sh k = sh ?k" by (simp add: swap_sym_def)
    moreover have "j \<le> ?k \<and> ?k \<le> j + Suc n" using that by simp
    ultimately show ?thesis by blast
  qed
  show ?case
  proof (cases "i = j")
    case True
    then show ?thesis using r [of j] bubble_outside [of i "Suc j" n ?sh] by simp
  next
    case False
    then obtain k where "Suc j \<le> k" "k \<le> Suc j + n" "bubble n (Suc j) ?sh i = ?sh k"
      using Suc.IH [of "Suc j" i ?sh] Suc.prems by auto
    then show ?thesis using r [of k] by simp
  qed
qed auto

lemma bubble_max: "j \<le> i \<Longrightarrow> i \<le> j + n \<Longrightarrow> sy_offset (sh i) \<le> sy_offset (bubble n j sh (j + n))"
proof (induction n arbitrary: i j sh)
  case (Suc n)
  let ?sh = "if sy_offset (sh j) > sy_offset (sh (j + 1)) then swap_sym j sh else sh"
  have m: "sy_offset (?sh k) \<le> sy_offset (bubble n (Suc j) ?sh (Suc j + n))" if "Suc j \<le> k" "k \<le> Suc j + n" for k
    using Suc.IH [OF that] .
  have "sy_offset (sh j) \<le> sy_offset (?sh (Suc j))" "sy_offset (sh (Suc j)) \<le> sy_offset (?sh (Suc j))"
    "k \<noteq> j \<longrightarrow> k \<noteq> Suc j \<longrightarrow> ?sh k = sh k" for k
    by (auto simp: swap_sym_def)
  then have "sy_offset (sh i) \<le> sy_offset (?sh (if i = j then Suc j else i))" by (cases "i = j"; cases "i = Suc j") auto
  also have "\<dots> \<le> sy_offset (bubble n (Suc j) ?sh (Suc j + n))" using Suc.prems by (intro m) auto
  finally show ?case by simp
qed auto

lemma bubble_passes_sorts:
  "sorted (map (\<lambda>i. sy_offset (bubble_passes k k sh i)) [0..<Suc k]) \<and>
   (\<forall>i \<le> k. \<exists>l \<le> k. bubble_passes k k sh i = sh l) \<and> (\<forall>i > k. bubble_passes k k sh i = sh i) \<and>
   (\<forall>m > k. syms (bubble_passes k k sh) m = syms sh m)"
proof (induction k arbitrary: sh)
  case (Suc k)
  define b where "b = bubble (Suc k) 0 sh"
  define r where "r = bubble_passes k k b"
  have IH: "sorted (map (\<lambda>i. sy_offset (r i)) [0..<Suc k])" "\<And>i. i \<le> k \<Longrightarrow> \<exists>l \<le> k. r i = b l"
    "\<And>i. i > k \<Longrightarrow> r i = b i" "\<And>m. m > k \<Longrightarrow> syms r m = syms b m"
    using Suc.IH [of b] unfolding r_def by blast+
  have max: "sy_offset (b l) \<le> sy_offset (b (Suc k))" if "l \<le> Suc k" for l
    using bubble_range [of 0 l "Suc k" sh] bubble_max [of 0 _ "Suc k" sh] that unfolding b_def by fastforce
  have le: "sy_offset (r i) \<le> sy_offset (r (Suc k))" if "i < Suc k" for i
    using IH(2) [of i] IH(3) [of "Suc k"] max that by (metis le_SucI less_Suc_eq_le lessI)
  have "[0..<Suc (Suc k)] = [0..<Suc k] @ [Suc k]" by simp
  then have "sorted (map (\<lambda>i. sy_offset (r i)) [0..<Suc (Suc k)])"
    using IH(1) le by (simp only: map_append sorted_append) auto
  moreover have "\<exists>l \<le> Suc k. r i = sh l" if i: "i \<le> Suc k" for i
  proof -
    obtain l where "l \<le> Suc k" "r i = b l" using IH(2,3) [of i] i by (metis le_SucI le_refl not_less)
    then show ?thesis using bubble_range [of 0 l "Suc k" sh] unfolding b_def by auto
  qed
  moreover have "r i = sh i" if "i > Suc k" for i
    using IH(3) [of i] that bubble_outside [of i 0 "Suc k" sh] unfolding b_def by simp
  moreover have "syms r m = syms sh m" if "m > Suc k" for m
    using IH(4) [of m] that bubble_syms [of 0 "Suc k" m sh] unfolding b_def by simp
  moreover have "bubble_passes (Suc k) (Suc k) sh = r" unfolding r_def b_def by simp
  ultimately show ?case by (simp only:) blast
qed simp

text \<open>C24: \<^verbatim>\<open>sort\<close> orders the symbols before the end marker by address; they are the same symbols as before
  and the rest of the table is not touched.\<close>

theorem sort_sym_sorts:
  "sorted (map (\<lambda>i. sy_offset (sort_sym sh i)) [0..<sym_count sh]) \<and>
   syms (sort_sym sh) (sym_count sh) = syms sh (sym_count sh) \<and>
   (\<forall>i \<ge> sym_count sh. sort_sym sh i = sh i)"
proof (cases "sym_count sh")
  case (Suc k)
  then show ?thesis using bubble_passes_sorts [of k sh] unfolding sort_sym_def Suc Let_def by auto
qed (simp add: sort_sym_def syms_def)

definition demo_syms :: "nat \<Rightarrow> symbol" where
  "demo_syms i = \<lparr>sy_nm = [], sy_offset = (if i = 0 then 9 else if i = 1 then 4 else if i = 2 then 7 else 1)\<rparr>"

theorem sort_sym_sorts_witness:
  "sorted (map (\<lambda>i. sy_offset (sort_sym demo_syms i)) [0..<3]) \<and> sort_sym demo_syms 5 = demo_syms 5"
proof -
  have "sym_count demo_syms = 3" by (simp add: sym_count_def demo_syms_def upt_rec [of 0] upt_rec [of "Suc _"])
  then show ?thesis using sort_sym_sorts [of demo_syms] by simp
qed


section \<open>Variable length numbers\<close>

function uleb_enc :: "u64 \<Rightarrow> u8 list" where
  \<comment> \<open>the encoding of the DWARF standard: seven bits a byte, the lowest first, bit 7 set in all but the last\<close>
  "uleb_enc v = (if v < 128 then [ucast v] else (ucast (take_bit 7 v) OR 128) # uleb_enc (drop_bit 7 v))"
  by pat_completeness auto
termination
proof (relation "measure unat", goal_cases)
  case (2 v)
  then have "unat v \<ge> 128" by (simp add: word_le_nat_alt not_less)
  then show ?case by (simp add: drop_bit_eq_div unat_div_distrib)
qed simp

declare uleb_enc.simps [simp del]

lemma and_7F: "x AND 0x7F = take_bit 7 x" for x :: u64
proof -
  have "(0x7F :: u64) = mask 7" by (simp add: mask_eq_decr_exp)
  then show ?thesis by (simp only: take_bit_eq_mask)
qed

lemma and_80: "x AND 0x80 = 0 \<longleftrightarrow> \<not> bit x 7" for x :: u8
  using and_exp_eq_0_iff_not_bit [of x 7] by simp

lemma uleb_step:
  "push_bit k (take_bit 7 v) OR push_bit (k + 7) (drop_bit 7 v) = push_bit k v" for v :: u64
proof (rule bit_word_eqI)
  fix n
  have "k + 7 \<le> n \<Longrightarrow> 7 + (n - (k + 7)) = n - k" by simp
  then show "bit (push_bit k (take_bit 7 v) OR push_bit (k + 7) (drop_bit 7 v)) n = bit (push_bit k v) n"
    by (cases "k + 7 \<le> n") (auto simp: bit_simps)
qed

lemma uleb_byte:
  fixes v :: u64
  shows "take_bit 7 (ucast (ucast (take_bit 7 v) OR 128 :: u8) :: u64) = take_bit 7 v"
    and "bit (ucast (take_bit 7 v) OR 128 :: u8) 7"
    and "v < 128 \<Longrightarrow> take_bit 7 (ucast (ucast v :: u8) :: u64) = v" "v < 128 \<Longrightarrow> \<not> bit (ucast v :: u8) 7"
proof -
  have b: "bit (128 :: u8) n \<longleftrightarrow> n = 7" for n
  proof -
    have "(128 :: u8) = 2 ^ 7" by simp
    then show ?thesis by (simp only: bit_exp_iff possible_bit_word) auto
  qed
  show "bit (ucast (take_bit 7 v) OR 128 :: u8) 7" by (simp only: bit_or_iff b) simp
  have n: "\<not> bit (128 :: u8) n" if "n < 7" for n using that by (simp only: b)
  show "take_bit 7 (ucast (ucast (take_bit 7 v) OR 128 :: u8) :: u64) = take_bit 7 v"
  proof (rule bit_word_eqI)
    fix i
    show "bit (take_bit 7 (ucast (ucast (take_bit 7 v) OR 128 :: u8) :: u64)) i = bit (take_bit 7 v) i"
      using n [of i] by (cases "i < 7") (simp_all add: bit_take_bit_iff bit_ucast_iff bit_or_iff)
  qed
  assume "v < 128"
  then have t: "take_bit 7 v = v" by (simp add: take_bit_eq_mod word_unat_eq_iff unat_mod_distrib word_less_nat_alt)
  then have nb: "\<not> bit v n" if "n \<ge> 7" for n using that by (metis bit_take_bit_iff not_le)
  show "take_bit 7 (ucast (ucast v :: u8) :: u64) = v"
  proof (rule bit_word_eqI)
    fix i
    show "bit (take_bit 7 (ucast (ucast v :: u8) :: u64)) i = bit v i"
      using nb [of i] by (cases "i < 7") (simp_all add: bit_take_bit_iff bit_ucast_iff)
  qed
  show "\<not> bit (ucast v :: u8) 7" using nb by (auto simp: bit_simps)
qed

definition bytes_at :: "bytes \<Rightarrow> nat \<Rightarrow> nat \<Rightarrow> u8 list \<Rightarrow> bool" where
  "bytes_at b len off l \<longleftrightarrow> off + length l \<le> len \<and> (\<forall>i < length l. b (off + i) = l ! i)"

lemma bytes_at_Cons: "bytes_at b len off (x # l) \<longleftrightarrow> off < len \<and> b off = x \<and> bytes_at b len (Suc off) l"
  by (auto simp: bytes_at_def All_less_Suc2)

lemma uleb_from_enc:
  "bytes_at b len off (uleb_enc v) \<Longrightarrow>
     uleb_from b len off shift a = Inr (a OR push_bit shift v, off + length (uleb_enc v))"
proof (induction v arbitrary: off shift a rule: uleb_enc.induct)
  case (1 v)
  show ?case
  proof (cases "v < 128")
    case True
    with "1.prems" have "dbg b len off = Inr (ucast v)" by (simp add: uleb_enc.simps [of v] bytes_at_Cons dbg_def)
    with True show ?thesis
      by (subst uleb_from.simps) (simp add: uleb_enc.simps [of v] and_7F and_80 uleb_byte)
  next
    case False
    have e: "uleb_enc v = (ucast (take_bit 7 v) OR 128) # uleb_enc (drop_bit 7 v)"
      using False by (simp add: uleb_enc.simps [of v])
    from "1.prems" have d: "dbg b len off = Inr (ucast (take_bit 7 v) OR 128)"
      and t: "bytes_at b len (Suc off) (uleb_enc (drop_bit 7 v))" by (simp_all add: e bytes_at_Cons dbg_def)
    have "uleb_from b len off shift a = uleb_from b len (Suc off) (shift + 7) (a OR push_bit shift (take_bit 7 v))"
      by (subst uleb_from.simps) (simp add: d and_7F and_80 uleb_byte)
    also have "\<dots> = Inr (a OR push_bit shift v, off + length (uleb_enc v))"
      using "1.IH" [OF False t] uleb_step [of shift v] by (simp add: e or.assoc)
    finally show ?thesis .
  qed
qed

text \<open>\<^verbatim>\<open>read_uleb128\<close> inverts the encoding of the DWARF standard for every 64-bit number: it returns the
  number and leaves the offset right behind its last byte.\<close>

lemma read_uleb128_roundtrip:
  assumes "bytes_at b len off (uleb_enc v)"
  shows "read_uleb128 b len off = Inr (v, off + length (uleb_enc v))"
  using uleb_from_enc [OF assms, of 0 0] by (simp add: read_uleb128_def)

lemma read_uleb128_roundtrip_example:
  "read_uleb128 (from_list (uleb_enc 624485)) (length (uleb_enc 624485)) 0 = Inr (624485, 0 + length (uleb_enc 624485))"
  by (rule read_uleb128_roundtrip) (simp add: bytes_at_def from_list_def)


section \<open>The table of line numbers\<close>

definition rows_ok :: "addr_line list \<Rightarrow> bool" where
  \<comment> \<open>no two neighbouring rows have the same address\<close>
  "rows_ok ls \<longleftrightarrow> distinct_adj (map al_addr ls)"

lemma distinct_adj_snoc: "distinct_adj (xs @ [x]) \<longleftrightarrow> distinct_adj xs \<and> (xs \<noteq> [] \<longrightarrow> last xs \<noteq> x)"
  by (induction xs rule: induct_list012) auto

lemma rows_ok_snoc: "rows_ok (ls @ [r]) \<longleftrightarrow> rows_ok ls \<and> (ls \<noteq> [] \<longrightarrow> al_addr (last ls) \<noteq> al_addr r)"
  by (auto simp: rows_ok_def distinct_adj_snoc last_map)

lemma push_row_ok:
  assumes "push_row len fb regs ls = Inr ls'" and "rows_ok ls"
  shows "rows_ok ls' \<and> (len + 7) div 8 * 8 + 1536 + 24 * length ls' \<le> DEBUG_SIZE"
proof -
  define ls1 where "ls1 = (if ls \<noteq> [] \<and> al_addr (last ls) = al_addr regs then butlast ls else ls)"
  have "rows_ok ls1 \<and> (ls1 \<noteq> [] \<longrightarrow> al_addr (last ls1) \<noteq> al_addr regs)"
    using assms(2) by (cases ls rule: rev_cases) (auto simp: ls1_def rows_ok_snoc)
  moreover have "ls' = ls1 @ [regs\<lparr>al_file := al_file regs + of_nat fb - 1\<rparr>]"
    "(len + 7) div 8 * 8 + 1536 + 24 * (length ls1 + 1) \<le> DEBUG_SIZE"
    using assms(1) by (auto simp: push_row_def ls1_def Let_def split: if_splits)
  ultimately show ?thesis by (simp add: rows_ok_snoc)
qed

definition table_ok :: "nat \<Rightarrow> line_table \<Rightarrow> bool" where
  "table_ok len t \<longleftrightarrow> length (lt_dir t) \<le> 64 \<and> length (lt_file t) \<le> 64 \<and> rows_ok (lt_line t) \<and>
     (lt_line t = [] \<or> (len + 7) div 8 * 8 + 1536 + 24 * length (lt_line t) \<le> DEBUG_SIZE)"

lemma line_op_rows:
  "line_op b len dh fb off regs ls = Inr (fin, off', regs', ls') \<Longrightarrow>
     ls' = ls \<or> (\<exists>r. push_row len fb r ls = Inr ls')"
  by (auto simp: line_op_def kbind_eq_Inr Let_def split: if_splits)

lemma run_ops_rows:
  assumes "run_ops b len dh fb off regs ls = Inr (off', ls')" and "rows_ok ls"
    and "ls = [] \<or> (len + 7) div 8 * 8 + 1536 + 24 * length ls \<le> DEBUG_SIZE"
  shows "rows_ok ls' \<and> (ls' = [] \<or> (len + 7) div 8 * 8 + 1536 + 24 * length ls' \<le> DEBUG_SIZE)"
  using assms
proof (induction "len - off" arbitrary: off regs ls rule: less_induct)
  case less
  note eq = less.prems(1) [unfolded run_ops.simps [of b len dh fb off regs ls]]
  from eq obtain fin o1 regs1 ls1 where x: "line_op b len dh fb off regs ls = Inr (fin, o1, regs1, ls1)"
    by (auto elim!: kbind_InrE)
  with eq have r: "if fin then ls' = ls1 else run_ops b len dh fb o1 regs1 ls1 = Inr (off', ls')"
    by (simp split: if_splits)
  have ok: "rows_ok ls1" "ls1 = [] \<or> (len + 7) div 8 * 8 + 1536 + 24 * length ls1 \<le> DEBUG_SIZE"
    using line_op_rows [OF x] push_row_ok [OF _ less.prems(2)] less.prems(2,3) by auto
  show ?case using r less.hyps [of o1 regs1 ls1] ok line_op_less [OF x] by (cases fin) auto
qed

lemma read_dirs_bound: "read_dirs b len off ds = Inr (r, off') \<Longrightarrow> length ds \<le> 64 \<Longrightarrow> length r \<le> 64"
proof (induction "len - off" arbitrary: off ds rule: less_induct)
  case less
  note eq = less.prems(1) [unfolded read_dirs.simps [of b len off ds]]
  from eq obtain x where x: "dbg b len off = Inr x" by (rule kbind_InrE)
  show ?case
  proof (cases "x = 0")
    case False
    then obtain o1 where o1: "skip_string b len off = Inr o1" "read_dirs b len o1 (ds @ [off]) = Inr (r, off')" "length ds < 64"
      using eq by (auto simp: x kbind_eq_Inr split: if_splits)
    then show ?thesis
      using less.hyps [of o1 "ds @ [off]"] skip_string_less [OF o1(1)] dbg_less [OF x] by simp
  qed (use eq less.prems in \<open>simp add: x\<close>)
qed

lemma read_files_bound: "read_files b len base off fs = Inr (r, off') \<Longrightarrow> length fs \<le> 64 \<Longrightarrow> length r \<le> 64"
proof (induction "len - off" arbitrary: off fs rule: less_induct)
  case less
  note eq = less.prems(1) [unfolded read_files.simps [of b len base off fs]]
  from eq obtain x where x: "dbg b len off = Inr x" by (rule kbind_InrE)
  show ?case
  proof (cases "x = 0")
    case False
    then obtain o1 d o2 e o3 e' o4 f where o: "skip_string b len off = Inr o1" "read_uleb128 b len o1 = Inr (d, o2)"
      "read_uleb128 b len o2 = Inr (e, o3)" "read_uleb128 b len o3 = Inr (e', o4)"
      "read_files b len base o4 (fs @ [f]) = Inr (r, off')" "length fs < 64"
      using eq by (auto simp: x kbind_eq_Inr split: if_splits)
    then have "off < o4" using skip_string_less read_leb_less(1) by (meson less_trans)
    then show ?thesis using less.hyps [of o4 "fs @ [f]"] o(5,6) dbg_less [OF x] by simp
  qed (use eq less.prems in \<open>simp add: x\<close>)
qed

lemma read_unit_ok: "read_unit b len off t = Inr (off', t') \<Longrightarrow> table_ok len t \<Longrightarrow> table_ok len t'"
  by (auto simp: read_unit_def kbind_eq_Inr table_ok_def dest: read_dirs_bound read_files_bound run_ops_rows)

lemma read_units_ok: "read_units b len off t = Inr t' \<Longrightarrow> table_ok len t \<Longrightarrow> table_ok len t'"
proof (induction "len - off" arbitrary: off t rule: less_induct)
  case less
  note eq = less.prems(1) [unfolded read_units.simps [of b len off t]]
  show ?case
  proof (cases "off < len")
    case True
    then obtain o1 t1 where u: "read_unit b len off t = Inr (o1, t1)" "read_units b len o1 t1 = Inr t'"
      using eq by (auto simp: kbind_eq_Inr)
    then show ?thesis
      using less.hyps [of o1 t1] read_unit_ok [OF u(1) less.prems(2)] read_unit_less [OF u(1)] True by auto
  qed (use eq less.prems in simp)
qed



definition demo_line :: "u8 list" where
  \<comment> \<open>a unit without directories and files whose program sets the address 5 and ends the sequence\<close>
  "demo_line = replicate 10 0 @ [1, 1, 251, 14, 13] @ replicate 12 0 @ [0, 0] @
     [0, 9, 2, 5, 0, 0, 0, 0, 0, 0, 0] @ [0, 1, 1]"

definition demo_elf :: "unit elfk" where
  "demo_elf = kernel.extend demo_kernel
     (elfk.fields (\<lambda>_. \<lparr>sy_nm = [], sy_offset = 1\<rparr>) (\<lambda>_. 0) (from_list demo_line) 0x80020000 43
        \<lparr>lt_dir = [], lt_file = [], lt_line = []\<rparr>)"

lemma demo_line_table:
  "read_units (from_list demo_line) 43 0 \<lparr>lt_dir = [], lt_file = [], lt_line = []\<rparr> =
     Inr \<lparr>lt_dir = [], lt_file = [], lt_line = [\<lparr>al_addr = 5, al_line = 1, al_file = 0\<rparr>]\<rparr>"
  by code_simp


end
