(* ===== verification/KernMap.thy ===== *)
theory KernMap
  imports PageTable
begin

text \<open>
  The kernel page table (\<^verbatim>\<open>kern_vm_init\<close> of \<^verbatim>\<open>kernel/vmm.c\<close>).  The whole memory is mapped page by page, more
  pages than the free list holds; the lemmas count the tables this takes, at most two for each region
  of 2 MB.
\<close>

lemma fresh_page_directory:
  \<comment> \<open>a page taken from the free list and cleared is an empty directory\<close>
  assumes "pmm_rel s (x # xs)"
  defines "s' \<equiv> s\<lparr>g_free_mem_list := mem s x, mem := zero_page (mem s) x\<rparr>"
  shows "kbind (alloc_page s) (\<lambda>(p, s). kbind (memset_page p s) (f p)) = f x s'"
    and "pmm_rel s' xs" and "pt_ok (mem s') x xs" and "pte_of (mem s') x va = 0"
proof -
  have x: "ram_page x" "x \<notin> set xs" "\<And>y. y \<in> set xs \<Longrightarrow> ram_page y \<and> y \<noteq> x"
    using assms(1) by (auto simp: pmm_rel_def managed_def)
  show "kbind (alloc_page s) (\<lambda>(p, s). kbind (memset_page p s) (f p)) = f x s'"
    using alloc_page_Cons(1) [OF assms(1)] x(1) by (simp add: memset_page_def s'_def)
  have "zero_page (mem s) x y = mem s y" if "y \<in> set xs" for y
    using x(1,3) that by (simp add: zero_page_def)
  then show "pmm_rel s' xs"
    using pmm_rel_more_cong [OF alloc_page_Cons(2) [OF assms(1)], of "zero_page (mem s) x"] by (simp add: s'_def)
  have "mem s' (entry x i) AND PTE_V = 0" if "i < 512" for i
    using that x(1) by (simp add: s'_def zero_page_def)
  from fresh_directory [of "mem s'" x, OF this x(1,2)]
  show "pt_ok (mem s') x xs" and "pte_of (mem s') x va = 0" by auto
qed

lemma kern_perms:
  "prot_to_type (PROT_READ OR PROT_EXEC) False = 0x4a" "prot_to_type (PROT_READ OR PROT_WRITE) False = 0xc6"
  by (simp_all add: prot_to_type_def PROT_defs PTE_defs)

lemma kern_vm_map_identity:
  \<comment> \<open>mapping a range of pages to itself\<close>
  assumes rel: "pmm_rel s xs" and ok: "pt_ok (mem s) pd xs" and va: "page_aligned va" "page_aligned ve" "va < ve" "ve \<le> PHYS_TOP"
    and len: "2 + 2 * (unat ve div 2097152 - unat va div 2097152) \<le> length xs" and perm: "perm < 1024"
    and un: "\<And>v. va \<le> v \<Longrightarrow> v < ve \<Longrightarrow> pte_of (mem s) pd v = 0"
  shows "\<exists>s' ys. kern_vm_map pd va va (ve - va) perm s = Inr s' \<and> vframe s s' pd xs ys \<and>
     length xs \<le> length ys + 2 + 2 * (unat ve div 2097152 - unat va div 2097152) \<and>
     (\<forall>v < MAXVA. pte_of (mem s') pd v =
        (if va \<le> v \<and> v < ve then PA2PTE (ROUNDDOWN v PGSIZE) OR (perm OR PTE_V) else pte_of (mem s) pd v))"
proof -
  let ?sz = "ve - va"
  have sz: "unat ?sz = unat ve - unat va" "unat va < unat ve" "unat ve \<le> 2281701376"
    using va(3,4) by (simp_all add: unat_sub word_less_nat_alt word_le_nat_alt)
  then have e: "unat va + unat ?sz = unat ve" by simp
  obtain k l where kl: "unat va = 4096 * k" "unat ve = 4096 * l"
    using va(1,2) by (auto simp: page_aligned_unat mod_eq_0_iff_dvd dvd_def)
  have n: "unat va mod 4096 + unat ?sz = 4096 * (l - k)" "0 < l - k"
    using sz kl by (simp_all add: right_diff_distrib')
  have r: "regions va ?sz \<le> unat ve div 2097152 - unat va div 2097152"
    unfolding regions_def e by (intro diff_le_mono div_le_mono) simp
  have lt: "unat v < unat va + unat ?sz \<longleftrightarrow> v < ve" for v by (simp add: e word_less_nat_alt)
  have "\<exists>s' ys. map_pages pd va ?sz va perm s = Inr (0, s') \<and> vframe s s' pd xs ys \<and>
     length xs \<le> length ys + 2 + 2 * regions va ?sz \<and> (\<forall>v < MAXVA. pte_of (mem s') pd v =
        (if ROUNDDOWN va PGSIZE \<le> v \<and> unat v < unat va + unat ?sz
         then PA2PTE (va + (ROUNDDOWN v PGSIZE - ROUNDDOWN va PGSIZE)) OR
              (perm OR PTE_V OR (if pte_of (mem s) pd va = 0x100 then 0x100 else 0))
         else pte_of (mem s) pd v))"
  proof (rule map_pages_regions [OF rel ok n _ _ perm])
    show "2 + 2 * regions va ?sz \<le> length xs" using len r by simp
    show "unat va + unat ?sz \<le> 2 ^ 38" unfolding e using sz(3) by simp
    fix v assume "ROUNDDOWN va PGSIZE \<le> v" "unat v < unat va + unat ?sz"
    then show "\<not> bit (pte_of (mem s) pd v) 0" unfolding lt using va(1) un by simp
  qed
  then obtain s' ys where s': "map_pages pd va ?sz va perm s = Inr (0, s')" "vframe s s' pd xs ys"
    "length xs \<le> length ys + 2 + 2 * regions va ?sz" "\<forall>v < MAXVA. pte_of (mem s') pd v =
        (if va \<le> v \<and> v < ve then PA2PTE (ROUNDDOWN v PGSIZE) OR (perm OR PTE_V) else pte_of (mem s) pd v)"
    using va(1) un [OF order_refl va(3)] unfolding lt by auto
  have "length xs \<le> length ys + 2 + 2 * (unat ve div 2097152 - unat va div 2097152)" using s'(3) r by linarith
  then show ?thesis using s'(1,2,4) by (auto simp: kern_vm_map_def)
qed

lemma page_split: "ROUNDDOWN v PGSIZE + (v AND 0xfff) = v"
proof -
  have "v AND 0xfff = v mod PGSIZE"
    using take_bit_eq_mask [of 12 v] by (simp add: mask_eq_exp_minus_1 take_bit_eq_mod PGSIZE_def)
  then show ?thesis by (simp add: ROUNDDOWN_def word_mod_div_equality)
qed

definition kern_perm :: "u64 \<Rightarrow> u64 \<Rightarrow> u64" where
  \<comment> \<open>the permissions of address \<open>v\<close>: text is executable, the rest is writable\<close>
  "kern_perm etext v = (if v < etext then PTE_R OR PTE_X OR PTE_A else PTE_R OR PTE_W OR PTE_A OR PTE_D)"

text \<open>C14: \<^verbatim>\<open>kern_vm_init\<close> succeeds when 133 pages are free and builds a kernel page table that maps every address of
  the physical memory to itself and no other address: kernel text can be read and executed but not
  written, everything else read and written but not executed, and user mode can access nothing.\<close>

theorem kern_vm_init_identity:
  assumes rel: "pmm_rel s (x # xs)" and len: "133 \<le> length (x # xs)"
    and et: "page_aligned etext" "KERN_BASE < etext" "etext < PHYS_TOP"
  shows "\<exists>s' ys. kern_vm_init etext s = Inr s' \<and> g_kernel_pagetable s' = x \<and> pmm_rel s' ys \<and> pt_ok (mem s') x ys \<and>
     (\<forall>v < MAXVA. pte_of (mem s') x v =
        (if KERN_BASE \<le> v \<and> v < PHYS_TOP then PA2PTE (ROUNDDOWN v PGSIZE) OR (kern_perm etext v OR PTE_V) else 0)) \<and>
     (\<forall>v. KERN_BASE \<le> v \<and> v < PHYS_TOP \<longrightarrow> user_va_to_pa x v s' = Inr v)"
proof -
  define s0 where "s0 = s\<lparr>g_free_mem_list := mem s x, mem := zero_page (mem s) x\<rparr>"
  note d = fresh_page_directory [OF rel, folded s0_def]
  let ?a = "unat etext div 2097152"
  have u: "2147483648 < unat etext" "unat etext < 2281701376"
    using et(2,3) by (simp_all add: word_less_nat_alt KERN_BASE_def)
  have al: "page_aligned KERN_BASE" "page_aligned PHYS_TOP" by (simp_all add: page_aligned_def layout_defs)
  have ks: "unat KERN_BASE div 2097152 = 1024" "unat PHYS_TOP div 2097152 = 1088" by (simp_all add: KERN_BASE_def)
  have ar: "1024 \<le> ?a" "?a \<le> 1088" using u by (simp_all add: less_eq_div_iff_mult_less_eq)
  have l1: "2 + 2 * (?a - unat KERN_BASE div 2097152) \<le> length xs" using len ar unfolding ks by simp
  have "(0x4a :: u64) < 1024" "(0xc6 :: u64) < 1024" by simp_all
  from kern_vm_map_identity [OF d(2,3) al(1) et(1,2) order.strict_implies_order [OF et(3)] l1 this(1)] d(4)
  obtain s1 ys where s1: "kern_vm_map x KERN_BASE KERN_BASE (etext - KERN_BASE) 0x4a s0 = Inr s1" "vframe s0 s1 x xs ys"
    "length xs \<le> length ys + 2 + 2 * (?a - unat KERN_BASE div 2097152)" and
    p1: "\<forall>v < MAXVA. pte_of (mem s1) x v = (if KERN_BASE \<le> v \<and> v < etext then PA2PTE (ROUNDDOWN v PGSIZE) OR (0x4a OR PTE_V) else 0)"
    by auto
  have r1: "pmm_rel s1 ys" "pt_ok (mem s1) x ys" using s1(2) by (simp_all add: vframe_def)
  have l2: "2 + 2 * (unat PHYS_TOP div 2097152 - ?a) \<le> length ys" using len ar s1(3) unfolding ks by simp
  have MX: "v < PHYS_TOP \<Longrightarrow> v < MAXVA" for v :: u64 by (simp add: word_less_nat_alt)
  have un: "pte_of (mem s1) x v = 0" if "etext \<le> v" "v < PHYS_TOP" for v using p1 MX [OF that(2)] that(1) by auto
  from kern_vm_map_identity [OF r1 et(1) al(2) et(3) order_refl l2 _ un, of "0xc6"]
  obtain s2 zs where s2: "kern_vm_map x etext etext (PHYS_TOP - etext) 0xc6 s1 = Inr s2" "vframe s1 s2 x ys zs" and
    p2: "\<forall>v < MAXVA. pte_of (mem s2) x v =
      (if etext \<le> v \<and> v < PHYS_TOP then PA2PTE (ROUNDDOWN v PGSIZE) OR (0xc6 OR PTE_V) else pte_of (mem s1) x v)" by auto
  define s3 where "s3 = s2\<lparr>g_kernel_pagetable := x\<rparr>"
  have r2: "pmm_rel s3 zs" "pt_ok (mem s3) x zs" using s2(2) by (simp_all add: vframe_def s3_def pmm_rel_def managed_def)
  have i: "kern_vm_init etext s = Inr s3"
    using s1(1) s2(1) lookup_pa_spec [OF r1(2)] lookup_pa_spec [of s2 x zs] s2(2)
    by (simp add: kern_vm_init_def d(1) kern_perms s3_def vframe_def) (simp add: KERN_BASE_def DRAM_BASE_def)
  have p3: "pte_of (mem s3) x v =
      (if KERN_BASE \<le> v \<and> v < PHYS_TOP then PA2PTE (ROUNDDOWN v PGSIZE) OR (kern_perm etext v OR PTE_V) else 0)"
    if "v < MAXVA" for v
    using p1 p2 that et(2,3) by (auto simp: s3_def kern_perm_def PTE_defs)
  have "user_va_to_pa x v s3 = Inr v" if v: "KERN_BASE \<le> v" "v < PHYS_TOP" for v
  proof -
    have "pte_of (mem s3) x v = PA2PTE (ROUNDDOWN v PGSIZE) OR (kern_perm etext v OR PTE_V)"
      using p3 [OF MX [OF v(2)]] v by simp
    moreover have "kern_perm etext v OR PTE_V < 1024" "bit (kern_perm etext v OR PTE_V) 0" "accessible (kern_perm etext v OR PTE_V)"
      by (simp_all add: kern_perm_def PTE_defs accessible_def)
    ultimately have "user_va_to_pa x v s3 = Inr (ROUNDDOWN v PGSIZE + (v AND 0xfff))"
      using lookup_valid_page [OF r2(2) MX [OF v(2)] MX [OF v(2)] refl, of "ROUNDDOWN v PGSIZE"] by simp
    then show ?thesis by (simp add: page_split)
  qed
  then show ?thesis using i r2 p3 by (intro exI [of _ s3] exI [of _ zs]) (simp add: s3_def)
qed

section \<open>Witnesses\<close>

definition demo_boot :: vmm where
  "demo_boot = \<lparr>mem = (\<lambda>_. 0), free_mem_start_addr = 0, free_mem_end_addr = 0, g_free_mem_list = 0,
     g_mem_size = 0x80000000, count_5 = 1, g_kernel_pagetable = 0\<rparr>"

theorem kern_vm_init_identity_witness:
  "\<exists>s s'. pmm_init 0x80200000 demo_boot = Inr s \<and> kern_vm_init 0x80010000 s = Inr s' \<and>
     user_va_to_pa (g_kernel_pagetable s') 0x80012345 s' = Inr 0x80012345"
proof -
  define n where "n = page_count 0x80200000 0x88000000"
  have "ROUNDUP 0x80200000 PGSIZE = 0x80200000" by (simp add: ROUNDUP_def PGSIZE_def)
  then have "(0x80200000 :: u64) = ROUNDUP 0x80200000 PGSIZE" by simp
  moreover have "KERN_BASE < 0x80200000" "0x80200000 \<le> PHYS_TOP" "count_5 demo_boot = 1"
    "0x80200000 - KERN_BASE \<le> g_mem_size demo_boot"
    "0x88000000 = (if PKE_MAX_ALLOWABLE_RAM < g_mem_size demo_boot then PKE_MAX_ALLOWABLE_RAM
       else g_mem_size demo_boot) + DRAM_BASE" by (simp_all add: demo_boot_def layout_defs)
  ultimately obtain s where s: "pmm_init 0x80200000 demo_boot = Inr s" "pmm_rel s (rev (pages 0x80200000 n))"
    using pmm_init_rel [of "0x80200000" demo_boot "0x80200000" "0x88000000", folded n_def] by blast
  have "n = 32255" by (simp add: n_def page_count_def)
  then have "133 \<le> length (rev (pages 0x80200000 n))" by (simp only: length_rev length_pages)
  then obtain x xs where x: "rev (pages 0x80200000 n) = x # xs" "133 \<le> length (x # xs)"
    by (cases "rev (pages 0x80200000 n)") auto
  have "page_aligned (0x80010000 :: u64)" "KERN_BASE < 0x80010000" "0x80010000 < PHYS_TOP"
    by (simp_all add: page_aligned_def layout_defs)
  from kern_vm_init_identity [OF s(2) [unfolded x(1)] x(2) this] obtain s' where
    s': "kern_vm_init 0x80010000 s = Inr s'" "g_kernel_pagetable s' = x"
    "\<forall>v. KERN_BASE \<le> v \<and> v < PHYS_TOP \<longrightarrow> user_va_to_pa x v s' = Inr v" by blast
  have "KERN_BASE \<le> 0x80012345" "0x80012345 < PHYS_TOP" by (simp_all add: layout_defs)
  then have "user_va_to_pa (g_kernel_pagetable s') 0x80012345 s' = Inr 0x80012345" using s'(2,3) by metis
  then show ?thesis using s(1) s'(1) by blast
qed

end
