(* ===== verification/Snprintf.thy ===== *)
theory Snprintf
  imports KPrelude
begin

text \<open>
  Formatted output (\<^verbatim>\<open>util/snprintf.c\<close>).  The variable arguments are a list; a string argument is the text
  its pointer leads to.  An argument of the wrong kind or one that is missing is a fault.  The theorem
  compares the routine, which writes into a buffer of \<open>n\<close> bytes character by character and numbers from
  the right, with the text that the format denotes.
\<close>

datatype varg = Num u64 | Str cstring

definition put :: "nat \<Rightarrow> u8 \<Rightarrow> (nat \<Rightarrow> u8) \<times> nat \<Rightarrow> (nat \<Rightarrow> u8) \<times> nat" where
  \<comment> \<open>\<^verbatim>\<open>if (++pos < n) out[pos - 1] = c\<close>\<close>
  "put n c = (\<lambda>(out, pos). (if pos + 1 < n then out(pos := c) else out, pos + 1))"

definition va_num :: "bool \<Rightarrow> varg list \<Rightarrow> kerr + (u64 \<times> varg list)" where
  \<comment> \<open>\<^verbatim>\<open>longarg ? va_arg(vl, long) : va_arg(vl, int)\<close>\<close>
  "va_num longarg vl =
     (case vl of Num a # vl \<Rightarrow> Inr (if longarg then a else scast (ucast a :: u32), vl) | _ \<Rightarrow> Inl (Fault ''va_arg''))"

definition va_str :: "varg list \<Rightarrow> kerr + (cstring \<times> varg list)" where
  "va_str vl = (case vl of Str t # vl \<Rightarrow> Inr (t, vl) | _ \<Rightarrow> Inl (Fault ''va_arg''))"

definition hex_digit :: "u64 \<Rightarrow> nat \<Rightarrow> u8" where
  "hex_digit num i =
     (let d = signed_drop_bit (4 * i) num AND 0xF in if d < 10 then 48 + ucast d else 97 + ucast d - 10)"

fun put_hex :: "nat \<Rightarrow> nat \<Rightarrow> u64 \<Rightarrow> (nat \<Rightarrow> u8) \<times> nat \<Rightarrow> (nat \<Rightarrow> u8) \<times> nat" where
  \<comment> \<open>the loop of the hexadecimal case, for the \<open>k\<close> lowest digits\<close>
  "put_hex n 0 num b = b"
| "put_hex n (Suc k) num b = put_hex n k num (put n (hex_digit num k) b)"

function digits :: "int \<Rightarrow> nat" where
  \<comment> \<open>\<^verbatim>\<open>digits = 1; for (nn = num; nn /= 10; digits++);\<close>\<close>
  "digits nn = (if cdiv nn 10 = 0 then 1 else Suc (digits (cdiv nn 10)))"
  by pat_completeness auto
termination by (relation "measure (\<lambda>n. nat \<bar>n\<bar>)") (auto simp: cdiv_def split: if_splits)

declare digits.simps [simp del]

fun put_dec :: "nat \<Rightarrow> nat \<Rightarrow> int \<Rightarrow> (nat \<Rightarrow> u8) \<times> nat \<Rightarrow> nat \<Rightarrow> u8" where
  \<comment> \<open>the loop that stores the \<open>k\<close> digits of \<open>num\<close> at \<open>pos\<close>, from the right\<close>
  "put_dec n 0 num (out, pos) = out"
| "put_dec n (Suc k) num (out, pos) =
     put_dec n k (cdiv num 10) (if pos + k + 1 < n then out(pos + k := 48 + word_of_int (cmod num 10)) else out, pos)"

definition put_num :: "nat \<Rightarrow> u64 \<Rightarrow> (nat \<Rightarrow> u8) \<times> nat \<Rightarrow> (nat \<Rightarrow> u8) \<times> nat" where
  \<comment> \<open>the decimal case; the negation of the least \<^verbatim>\<open>long\<close> is itself\<close>
  "put_num n a b =
     (let b = (if sint a < 0 then put n 45 b else b);
          num = sint (if sint a < 0 then - a else a);
          k = digits num
      in (put_dec n k num b, snd b + k))"

fun vsn_loop :: "nat \<Rightarrow> bool \<Rightarrow> bool \<Rightarrow> cstring \<Rightarrow> varg list \<Rightarrow> (nat \<Rightarrow> u8) \<times> nat \<Rightarrow> kerr + ((nat \<Rightarrow> u8) \<times> nat)" where
  \<comment> \<open>the loop over the format, with \<^verbatim>\<open>format\<close> and \<^verbatim>\<open>longarg\<close>\<close>
  "vsn_loop n format longarg [] vl b = Inr b"
| "vsn_loop n format longarg (c # s) vl b =
     (if format then
        (if c = 108 then vsn_loop n True True s vl b
         else if c = 112 then
           kbind (va_num True vl) (\<lambda>(num, vl). vsn_loop n False False s vl (put_hex n 16 num (put n 120 (put n 48 b))))
         else if c = 120 then
           kbind (va_num longarg vl) (\<lambda>(num, vl). vsn_loop n False False s vl (put_hex n (if longarg then 16 else 8) num b))
         else if c = 100 then
           kbind (va_num longarg vl) (\<lambda>(num, vl). vsn_loop n False False s vl (put_num n num b))
         else if c = 115 then
           kbind (va_str vl) (\<lambda>(t, vl). vsn_loop n False False s vl (fold (put n) t b))
         else if c = 99 then
           kbind (va_num False vl) (\<lambda>(num, vl). vsn_loop n False False s vl (put n (ucast num) b))
         else vsn_loop n True longarg s vl b)
      else if c = 37 then vsn_loop n True longarg s vl b
      else vsn_loop n False longarg s vl (put n c b))"

definition vsnprintf :: "(nat \<Rightarrow> u8) \<Rightarrow> nat \<Rightarrow> cstring \<Rightarrow> varg list \<Rightarrow> kerr + (nat \<times> (nat \<Rightarrow> u8))" where
  \<comment> \<open>the result and the buffer afterwards\<close>
  "vsnprintf out n s vl =
     kbind (vsn_loop n False False s vl (out, 0)) (\<lambda>(out, pos).
       Inr (pos, if pos < n then out(pos := 0) else if n \<noteq> 0 then out(n - 1 := 0) else out))"

section \<open>The text that a format denotes\<close>

fun dec_text :: "nat \<Rightarrow> cstring" where
  "dec_text m = (if m < 10 then [48 + of_nat m] else dec_text (m div 10) @ [48 + of_nat (m mod 10)])"

declare dec_text.simps [simp del]

definition int_text :: "int \<Rightarrow> cstring" where
  "int_text i = (if i < 0 then 45 # dec_text (nat (- i)) else dec_text (nat i))"

definition hex_text :: "nat \<Rightarrow> u64 \<Rightarrow> cstring" where
  \<comment> \<open>the \<open>k\<close> lowest hexadecimal digits\<close>
  "hex_text k a = map (\<lambda>i. let d = unat a div 16 ^ i mod 16 in of_nat (if d < 10 then 48 + d else 87 + d)) (rev [0..<k])"

fun fmt_text :: "bool \<Rightarrow> bool \<Rightarrow> cstring \<Rightarrow> varg list \<Rightarrow> kerr + cstring" where
  "fmt_text dir lng [] vl = Inr []"
| "fmt_text dir lng (c # s) vl =
     (if \<not> dir then (if c = 37 then fmt_text True lng s vl else kbind (fmt_text False lng s vl) (\<lambda>t. Inr (c # t)))
      else if c = 108 then fmt_text True True s vl
      else if c = 112 then kbind (va_num True vl) (\<lambda>(a, vl).
        kbind (fmt_text False False s vl) (\<lambda>t. Inr ([48, 120] @ hex_text 16 a @ t)))
      else if c = 120 then kbind (va_num lng vl) (\<lambda>(a, vl).
        kbind (fmt_text False False s vl) (\<lambda>t. Inr (hex_text (if lng then 16 else 8) a @ t)))
      else if c = 100 then kbind (va_num lng vl) (\<lambda>(a, vl).
        kbind (fmt_text False False s vl) (\<lambda>t. Inr (int_text (sint a) @ t)))
      else if c = 115 then kbind (va_str vl) (\<lambda>(u, vl). kbind (fmt_text False False s vl) (\<lambda>t. Inr (u @ t)))
      else if c = 99 then kbind (va_num False vl) (\<lambda>(a, vl).
        kbind (fmt_text False False s vl) (\<lambda>t. Inr (ucast a # t)))
      else fmt_text True lng s vl)"

section \<open>The buffer\<close>

definition holds :: "nat \<Rightarrow> (nat \<Rightarrow> u8) \<Rightarrow> cstring \<Rightarrow> (nat \<Rightarrow> u8) \<times> nat \<Rightarrow> bool" where
  \<comment> \<open>the part of \<open>t\<close> that fits has been written over \<open>out0\<close>\<close>
  "holds n out0 t b \<longleftrightarrow> snd b = length t \<and> (\<forall>i. fst b i = (if i < length t \<and> i + 1 < n then t ! i else out0 i))"

lemma holds_put: "holds n o0 t b \<Longrightarrow> holds n o0 (t @ [c]) (put n c b)"
  by (cases b) (auto simp: holds_def put_def nth_append less_Suc_eq)

lemma holds_fold: "holds n o0 t b \<Longrightarrow> holds n o0 (t @ u) (fold (put n) u b)"
proof (induction u arbitrary: t b)
  case (Cons c u)
  from Cons.IH [OF holds_put [OF Cons.prems, of c]] show ?case by simp
qed simp

lemma put_hex_fold: "put_hex n k a b = fold (put n) (map (hex_digit a) (rev [0..<k])) b"
  by (induction k arbitrary: b) simp_all

lemma hex_digit_eq:
  assumes "i < 16"
  shows "hex_digit a i = (let d = unat a div 16 ^ i mod 16 in of_nat (if d < 10 then 48 + d else 87 + d))"
proof -
  let ?w = "signed_drop_bit (4 * i) a AND 0xF" and ?d = "unat a div 16 ^ i mod 16"
  have m: "0xF = (mask 4 :: u64)" by (simp add: mask_eq_exp_minus_1)
  have "?w = take_bit 4 (drop_bit (4 * i) a)" unfolding m
    using assms by (intro bit_word_eqI) (auto simp: bit_and_iff bit_mask_iff bit_take_bit_iff bit_drop_bit_eq bit_signed_drop_bit_iff not_le)
  then have "unat ?w = take_bit 4 (drop_bit (4 * i) (unat a))"
    using take_bit_nat_eq_self [OF unsigned_less [of a, where 'a = nat]]
    by (simp only: unsigned_take_bit_eq unsigned_drop_bit_eq)
  then have u: "unat ?w = ?d" by (simp add: take_bit_eq_mod drop_bit_eq_div power_mult)
  have "?w < 10 \<longleftrightarrow> ?d < 10" by (simp add: word_less_nat_alt u)
  moreover have "ucast ?w = (of_nat ?d :: u8)" unfolding u [symmetric] by simp
  ultimately show ?thesis by (simp add: hex_digit_def Let_def)
qed

lemma put_hex_text: "holds n o0 t b \<Longrightarrow> k \<le> 16 \<Longrightarrow> holds n o0 (t @ hex_text k a) (put_hex n k a b)"
proof -
  assume "holds n o0 t b" "k \<le> 16"
  moreover from this(2) have "map (hex_digit a) (rev [0..<k]) = hex_text k a"
    unfolding hex_text_def by (intro map_cong refl hex_digit_eq) auto
  ultimately show ?thesis using holds_fold by (simp only: put_hex_fold)
qed

lemma digits_length: "digits (int m) = length (dec_text m)"
proof (induction m rule: dec_text.induct)
  case (1 m)
  have "cdiv (int m) 10 = int (m div 10)" by (simp add: zdiv_int)
  then show ?case using "1.IH" by (subst digits.simps, subst dec_text.simps) auto
qed

lemma dec_text_nth:
  "j < length (dec_text m) \<Longrightarrow> dec_text m ! j = 48 + of_nat (m div 10 ^ (length (dec_text m) - 1 - j) mod 10)"
proof (induction m arbitrary: j rule: dec_text.induct)
  case (1 m)
  show ?case
  proof (cases "m < 10")
    case True
    then have "dec_text m = [48 + of_nat m]" by (subst dec_text.simps) simp
    then show ?thesis using "1.prems" True by simp
  next
    case False
    then have d: "dec_text m = dec_text (m div 10) @ [48 + of_nat (m mod 10)]" by (subst dec_text.simps) simp
    show ?thesis
    proof (cases "j < length (dec_text (m div 10))")
      case True
      then obtain l where l: "length (dec_text (m div 10)) = Suc (l + j)" by (metis add.commute less_imp_Suc_add)
      show ?thesis using "1.IH" [OF False True] True unfolding d by (simp add: nth_append l div_mult2_eq)
    next
      case False
      then have "j = length (dec_text (m div 10))" using "1.prems" unfolding d by simp
      then show ?thesis unfolding d by simp
    qed
  qed
qed

lemma put_dec_eq:
  "put_dec n k (int m) (out, pos) = (\<lambda>i. if pos \<le> i \<and> i < pos + k \<and> i + 1 < n
     then 48 + of_nat (m div 10 ^ (pos + k - 1 - i) mod 10) else out i)"
proof (induction k arbitrary: m out)
  case (Suc k)
  have "cdiv (int m) 10 = int (m div 10)" "cmod (int m) 10 = int (m mod 10)" by (simp_all add: zdiv_int zmod_int)
  then have "put_dec n (Suc k) (int m) (out, pos) =
      put_dec n k (int (m div 10)) (if pos + k + 1 < n then out(pos + k := 48 + of_nat (m mod 10)) else out, pos)" by simp
  moreover have "m div 10 div 10 ^ (pos + k - 1 - i) = m div 10 ^ (pos + Suc k - 1 - i)" if "pos \<le> i" "i < pos + k" for i
  proof -
    have "pos + Suc k - 1 - i = Suc (pos + k - 1 - i)" using that by simp
    then show ?thesis by (simp only: power_Suc div_mult2_eq)
  qed
  ultimately show ?case unfolding Suc.IH by (auto simp: fun_eq_iff less_Suc_eq)
qed (auto simp: fun_eq_iff)

lemma put_num_text:
  assumes "holds n o0 t b" and "sint a \<noteq> - (2 ^ 63)"
  shows "holds n o0 (t @ int_text (sint a)) (put_num n a b)"
proof -
  define m where "m = nat \<bar>sint a\<bar>"
  define u where "u = (if sint a < 0 then t @ [45] else t)"
  define b' where "b' = (if sint a < 0 then put n 45 b else b)"
  have h: "holds n o0 u b'" using assms(1) holds_put by (simp add: u_def b'_def)
  have "sint (- a) = - sint a" if "sint a < 0"
    using that assms(2) sint_greater_eq [of a] by (simp add: sint_word_ariths signed_take_bit_int_eq_self_iff)
  then have num: "sint (if sint a < 0 then - a else a) = int m" by (auto simp: m_def)
  have "put_num n a b = (put_dec n (length (dec_text m)) (int m) b', snd b' + length (dec_text m))"
    by (simp only: put_num_def Let_def num digits_length b'_def)
  moreover have "t @ int_text (sint a) = u @ dec_text m" by (simp add: int_text_def u_def m_def)
  ultimately show ?thesis
    using h by (cases b') (auto simp: holds_def put_dec_eq nth_append dec_text_nth add.commute)
qed

lemma vsn_loop_text:
  assumes "fmt_text format lng s vl = Inr u" and "\<forall>a. Num a \<in> set vl \<longrightarrow> sint a \<noteq> - (2 ^ 63)" and "holds n o0 t b"
  shows "\<exists>b'. vsn_loop n format lng s vl b = Inr b' \<and> holds n o0 (t @ u) b'"
  using assms
proof (induction s arbitrary: format lng vl u t b)
  case (Cons c s)
  have wide: "sint (scast (ucast (a :: u64) :: u32) :: u64) \<noteq> - (2 ^ 63)" for a
    using sint_greater_eq [of "ucast a :: u32"] sint_less [of "ucast a :: u32"]
    by (simp add: signed_scast_eq signed_take_bit_int_eq_self)
  have num: "va_num l vl = Inr (a, vl') \<Longrightarrow> sint a \<noteq> - (2 ^ 63) \<and> (\<forall>a. Num a \<in> set vl' \<longrightarrow> sint a \<noteq> - (2 ^ 63))" for l a vl'
    using Cons.prems(2) wide by (auto simp: va_num_def split: list.splits varg.splits if_splits)
  have str: "va_str vl = Inr (v, vl') \<Longrightarrow> \<forall>a. Num a \<in> set vl' \<longrightarrow> sint a \<noteq> - (2 ^ 63)" for v vl'
    using Cons.prems(2) by (auto simp: va_str_def split: list.splits varg.splits)
  have step: "\<exists>b'. vsn_loop n f l s vl' b1 = Inr b' \<and> holds n o0 (t @ p @ v) b'"
    if "holds n o0 (t @ p) b1" "fmt_text f l s vl' = Inr v" "\<forall>a. Num a \<in> set vl' \<longrightarrow> sint a \<noteq> - (2 ^ 63)" for f l p v vl' b1
    using Cons.IH [OF that(2,3,1)] by simp
  note h = Cons.prems(3)
  note puts = put_hex_text [OF h] put_num_text [OF h] holds_fold [OF h] holds_put [OF h]
    put_hex_text [OF holds_put [OF holds_put [OF h, of 48], of 120], of 16, simplified]
  consider "\<not> format" "c = 37" | "\<not> format" "c \<noteq> 37" | "format" "c = 108" | "format" "c = 112" | "format" "c = 120" |
    "format" "c = 100" | "format" "c = 115" | "format" "c = 99" | "format" "c \<notin> {108, 112, 120, 100, 115, 99}" by blast
  then show ?case
  proof cases
    case 1
    then show ?thesis using Cons.IH [of True lng vl u t b] Cons.prems by simp
  next
    case 2
    then obtain v where v: "fmt_text False lng s vl = Inr v" "u = [c] @ v" using Cons.prems(1) by (auto simp: kbind_eq_Inr)
    then show ?thesis using 2 step [OF puts(4) v(1) Cons.prems(2)] by simp
  next
    case 3
    then show ?thesis using Cons.IH [of True True vl u t b] Cons.prems by simp
  next
    case 4
    then obtain a vl' v where a: "va_num True vl = Inr (a, vl')" "fmt_text False False s vl' = Inr v"
      "u = ([48, 120] @ hex_text 16 a) @ v" using Cons.prems(1) by (auto simp: kbind_eq_Inr)
    have "holds n o0 (t @ ([48, 120] @ hex_text 16 a)) (put_hex n 16 a (put n 120 (put n 48 b)))"
      using puts(5) [of a] by simp
    from step [OF this a(2)] num [OF a(1)] show ?thesis using 4 a(1,3) by simp
  next
    case 5
    then obtain a vl' v where a: "va_num lng vl = Inr (a, vl')" "fmt_text False False s vl' = Inr v"
      "u = hex_text (if lng then 16 else 8) a @ v" using Cons.prems(1) by (auto simp: kbind_eq_Inr)
    have "(if lng then 16 else 8) \<le> (16 :: nat)" by simp
    from step [OF puts(1) [OF this] a(2)] num [OF a(1)] show ?thesis using 5 a(1,3) by simp
  next
    case 6
    then obtain a vl' v where a: "va_num lng vl = Inr (a, vl')" "fmt_text False False s vl' = Inr v"
      "u = int_text (sint a) @ v" using Cons.prems(1) by (auto simp: kbind_eq_Inr)
    from step [OF puts(2) [OF conjunct1 [OF num [OF a(1)]]] a(2)] num [OF a(1)] show ?thesis using 6 a(1,3) by simp
  next
    case 7
    then obtain w vl' v where a: "va_str vl = Inr (w, vl')" "fmt_text False False s vl' = Inr v"
      "u = w @ v" using Cons.prems(1) by (auto simp: kbind_eq_Inr)
    from step [OF puts(3) a(2) str [OF a(1)]] show ?thesis using 7 a(1,3) by simp
  next
    case 8
    then obtain a vl' v where a: "va_num False vl = Inr (a, vl')" "fmt_text False False s vl' = Inr v"
      "u = [ucast a] @ v" using Cons.prems(1) by (auto simp: kbind_eq_Inr)
    from step [OF puts(4) a(2)] num [OF a(1)] show ?thesis using 8 a(1,3) by simp
  next
    case 9
    then show ?thesis using Cons.IH [of True lng vl u t b] Cons.prems by simp
  qed
qed simp

lemma vsnprintf_spec:
  assumes "fmt_text False False s vl = Inr t" and "\<forall>a. Num a \<in> set vl \<longrightarrow> sint a \<noteq> - (2 ^ 63)"
  shows "\<exists>out'. vsnprintf out n s vl = Inr (length t, out') \<and>
     (\<forall>i. out' i = (if i < length t \<and> i + 1 < n then t ! i
                    else if i < n \<and> i = min (length t) (n - 1) then 0 else out i))"
proof -
  have "holds n out [] (out, 0)" by (simp add: holds_def)
  from vsn_loop_text [OF assms this] obtain o1 where
    "vsn_loop n False False s vl (out, 0) = Inr (o1, length t)"
    "\<forall>i. o1 i = (if i < length t \<and> i + 1 < n then t ! i else out i)" by (fastforce simp: holds_def)
  then show ?thesis by (auto simp: vsnprintf_def min_def)
qed

lemma vsn_loop_error: "fmt_text format lng s vl = Inl e \<Longrightarrow> \<forall>b. vsn_loop n format lng s vl b = Inl e"
proof (induction s arbitrary: format lng vl)
  case (Cons c s)
  then show ?case by (auto simp: kbind_eq_Inl simp del: split_paired_All split: if_splits)
qed simp

text \<open>C26: \<^verbatim>\<open>vsnprintf\<close> writes the text of the format, cut off after \<open>n - 1\<close> characters and terminated, and nothing
  else: no byte at or after \<^verbatim>\<open>out[n]\<close> changes.  It returns the length of the whole text.  When an argument
  is missing or of the wrong kind, it fails.\<close>

theorem vsnprintf_text:
  assumes "\<forall>a. Num a \<in> set vl \<longrightarrow> sint a \<noteq> - (2 ^ 63)"
  shows "case fmt_text False False s vl of Inl e \<Rightarrow> vsnprintf out n s vl = Inl e
     | Inr t \<Rightarrow> \<exists>out'. vsnprintf out n s vl = Inr (length t, out') \<and>
         (\<forall>i. out' i = (if i < length t \<and> i + 1 < n then t ! i
                        else if i < n \<and> i = min (length t) (n - 1) then 0 else out i))"
proof (cases "fmt_text False False s vl")
  case (Inl e)
  then show ?thesis using vsn_loop_error by (simp add: vsnprintf_def)
next
  case (Inr t)
  then show ?thesis using vsnprintf_spec [OF Inr assms] by simp
qed

theorem vsnprintf_text_witness:
  \<comment> \<open>\<^verbatim>\<open>"%d:%s"\<close> with -42 and \<^verbatim>\<open>"ok"\<close> in a buffer of 6 bytes\<close>
  "\<exists>out'. vsnprintf (\<lambda>_. 7) 6 [37, 100, 58, 37, 115] [Num (- 42), Str [111, 107]] = Inr (6, out') \<and>
     map out' [0..<8] = [45, 52, 50, 58, 111, 0, 7, 7]"
proof -
  have "fmt_text False False [37, 100, 58, 37, 115] [Num (- 42), Str [111, 107]] = Inr [45, 52, 50, 58, 111, 107]"
    by (simp add: va_num_def va_str_def int_text_def dec_text.simps)
  then show ?thesis
    using vsnprintf_text [where vl = "[Num (- 42), Str [111, 107]]" and s = "[37, 100, 58, 37, 115]" and out = "\<lambda>_. 7" and n = 6]
    by (auto simp: upt_rec numeral_nat)
qed

end
