(* ===== verification/Scanf.thy ===== *)
theory Scanf
  imports Snprintf
begin

text \<open>
  Formatted input (\<^verbatim>\<open>util/vsscanf.c\<close>).  The input and the format are the texts before their NUL; the result
  is the number of items and the values stored through the pointer arguments, in order.  \<^verbatim>\<open>char\<close> is
  unsigned on this machine.
\<close>

section \<open>Characters and numbers\<close>

definition isdigit :: "u8 \<Rightarrow> bool" where
  "isdigit c \<longleftrightarrow> 48 \<le> c \<and> c \<le> 57"

definition isspace :: "u8 \<Rightarrow> bool" where
  "isspace c \<longleftrightarrow> c = 32 \<or> c = 12 \<or> c = 10 \<or> c = 13 \<or> c = 9 \<or> c = 11"

definition valid_sint :: "u8 \<Rightarrow> int \<Rightarrow> bool \<Rightarrow> int" where
  "valid_sint c base sign =
     (if base = 2 \<and> 48 \<le> c \<and> c < 50 then 0
      else if base = 8 \<and> 48 \<le> c \<and> c < 56 then 0
      else if base = 10 \<and> (48 \<le> c \<and> c \<le> 57 \<or> sign \<and> (c = 45 \<or> c = 43)) then 0
      else if base = 16 \<and> (48 \<le> c \<and> c \<le> 57 \<or> 97 \<le> c \<and> c \<le> 102 \<or> 65 \<le> c \<and> c \<le> 70) then 0
      else - 1)"

definition wrap64 :: "int \<Rightarrow> int" where
  \<comment> \<open>the value of a \<^verbatim>\<open>long long\<close>\<close>
  "wrap64 i = sint (word_of_int i :: u64)"

definition upper :: "u8 \<Rightarrow> u8" where
  "upper c = (if 97 \<le> c then c - 32 else c)"

fun get_int_loop ::
  "bool \<Rightarrow> int \<Rightarrow> bool \<Rightarrow> int \<Rightarrow> int \<Rightarrow> bool \<Rightarrow> bool \<Rightarrow> cstring \<Rightarrow> int \<times> bool \<times> cstring" where
  \<comment> \<open>the loop of \<^verbatim>\<open>get_int\<close>: the number, the sign and the rest of the input\<close>
  "get_int_loop w base sign n width neg xskip [] = (n, neg, [])"
| "get_int_loop w base sign n width neg xskip (c # s) =
     (if sign \<and> \<not> neg \<and> base = 10 \<and> c = 45 then
        get_int_loop w base sign n (if w then width - 1 else width) True xskip s
      else if base = 16 \<and> \<not> xskip \<and> (c = 120 \<or> c = 88) then get_int_loop w base sign 0 width neg True s
      else if w \<and> width = 0 then (n, neg, c # s)
      else let width = (if w then width - 1 else width); d = upper c in
        if \<not> isdigit d \<and> (base \<noteq> 16 \<or> d < 65 \<or> 70 < d) then (n, neg, c # s)
        else if base = 2 \<and> 49 < d then (n, neg, c # s)
        else if base = 8 \<and> 55 < d then (n, neg, c # s)
        else let d = (if base = 16 \<and> 65 \<le> d then d - 65 + 10 + 48 else d) in
          get_int_loop w base sign (wrap64 (n * base + uint d - 48)) width neg xskip s)"

definition get_int :: "cstring \<Rightarrow> int \<Rightarrow> int \<Rightarrow> bool \<Rightarrow> int \<times> cstring" where
  "get_int str width base sign =
     (if base \<noteq> 2 \<and> base \<noteq> 8 \<and> base \<noteq> 10 \<and> base \<noteq> 16 then (0, str)
      else let (n, neg, rest) = get_int_loop (0 < width) base sign 0 width False False str in
        (if neg \<and> 0 < n then - n else n, rest))"

fun get_str :: "cstring \<Rightarrow> (u8 \<Rightarrow> bool) option \<Rightarrow> bool \<Rightarrow> int \<Rightarrow> cstring \<times> cstring" where
  \<comment> \<open>the text stored at \<^verbatim>\<open>ptr\<close> and the rest of the input; \<open>w\<close> tells whether a width was given\<close>
  "get_str [] ok w width = ([], [])"
| "get_str (c # s) ok w width =
     (if w \<and> width = 0 \<or> ok = None \<and> isspace c then ([], c # s)
      else if (case ok of Some A \<Rightarrow> \<not> A c | None \<Rightarrow> False) then ([], c # s)
      else let (t, rest) = get_str s ok w (if w then width - 1 else width) in (c # t, rest))"

section \<open>The scanner\<close>

datatype scan_state = S_DEFAULT | S_FLAGS | S_LENGTH   \<comment> \<open>the states in which a turn of the loop can begin\<close>

datatype lflag = L_NONE | L_CHAR | L_SHORT | L_LONG | L_LLONG | L_DOUBLE

datatype stored = SInt u32 | SChar u8 | SShort u16 | SLong u64 | SText cstring

definition store_num :: "lflag \<Rightarrow> int \<Rightarrow> stored" where
  "store_num l num = (case l of L_DOUBLE \<Rightarrow> SLong (word_of_int num) | L_LLONG \<Rightarrow> SLong (word_of_int num)
     | L_LONG \<Rightarrow> SLong (word_of_int num) | L_SHORT \<Rightarrow> SShort (word_of_int num) | L_CHAR \<Rightarrow> SChar (word_of_int num)
     | L_NONE \<Rightarrow> SInt (word_of_int num))"

definition scan_conv :: "bool \<Rightarrow> int \<Rightarrow> lflag \<Rightarrow> u8 \<Rightarrow> cstring \<Rightarrow> stored list \<Rightarrow> (cstring \<times> stored list) option" where
  \<comment> \<open>the state \<^verbatim>\<open>S_CONV\<close> at format character \<open>c\<close> with a non-empty input; \<open>None\<close> leaves the loop.
     \<^verbatim>\<open>strchr("douixXb", 0)\<close> is not NULL\<close>
  "scan_conv skip width l c str vs =
     (if c \<in> {100, 111, 117, 105, 120, 88, 98, 0} then
        let sign = (c = 100 \<or> c = 105);
            base = (if c = 98 then 2 else if c = 111 then 8 else if c = 120 \<or> c = 88 then 16 else 10);
            str = dropWhile isspace str in
        if valid_sint (if str = [] then 0 else hd str) base sign < 0 then None
        else let (num, str) = get_int str width base sign in
          Some (str, if skip then vs else vs @ [store_num l num])
      else if c = 99 then Some (tl str, if skip then vs else vs @ [SChar (hd str)])
      else if c = 115 then
        let (t, str) = get_str str None (0 < width) width in Some (str, if skip then vs else vs @ [SText t])
      else if c = 37 then (if hd str \<noteq> 37 then None else Some (tl str, vs))
      else None)"

lemma get_int_rest: "get_int_loop w base sign n width neg xskip s = (m, ng, r) \<Longrightarrow> length r \<le> length s"
  by (induction w base sign n width neg xskip s rule: get_int_loop.induct) (auto simp: Let_def le_SucI split: if_splits)

lemma get_int_length: "length (snd (get_int str width base sign)) \<le> length str"
  by (auto simp: get_int_def Let_def dest: get_int_rest split: prod.splits)

definition scan_width :: "cstring \<Rightarrow> int \<times> cstring" where
  \<comment> \<open>the state \<^verbatim>\<open>S_WIDTH\<close>: the width and the format behind it\<close>
  "scan_width fmt =
     (if isdigit (hd fmt) \<and> 48 < hd fmt then let (n, fmt) = get_int fmt 0 10 False in (sint (word_of_int n :: u32), fmt)
      else (0, fmt))"

lemma scan_width_length: "length (snd (scan_width fmt)) \<le> length fmt"
  using get_int_length [of fmt 0 10 False] by (auto simp: scan_width_def Let_def split: prod.splits)

lemma scan_width_less: "(w, r) = scan_width fmt \<Longrightarrow> fmt \<noteq> [] \<Longrightarrow> length r - Suc 0 < length fmt"
  using scan_width_length [of fmt] by (cases fmt) (auto dest!: arg_cong [of _ _ snd])

function vs_loop ::
  "scan_state \<Rightarrow> bool \<Rightarrow> int \<Rightarrow> lflag \<Rightarrow> cstring \<Rightarrow> cstring \<Rightarrow> stored list \<Rightarrow> kerr + stored list" where
  \<comment> \<open>\<open>skip\<close> is \<^verbatim>\<open>flags & F_SKIP\<close>; the flag \<^verbatim>\<open>F_ALLOC\<close> has no effect.
     A format that ends inside a directive makes the loop step over its NUL\<close>
  "vs_loop st skip width l fmt str vs =
     (if fmt = [] \<or> str = [] then Inr vs
      else case st of
        S_DEFAULT \<Rightarrow>
          if hd fmt = 37 then vs_loop S_FLAGS False width l (tl fmt) str vs
          else if isspace (hd fmt) then vs_loop S_DEFAULT skip width l (tl fmt) (dropWhile isspace str) vs
          else if hd fmt \<noteq> hd str then Inr vs
          else vs_loop S_DEFAULT skip width l (tl fmt) (tl str) vs
      | S_FLAGS \<Rightarrow>
          if hd fmt = 42 then vs_loop S_FLAGS True width l (tl fmt) str vs
          else if hd fmt = 109 then vs_loop S_FLAGS skip width l (tl fmt) str vs
          else let (width, fmt) = scan_width fmt; c = (if fmt = [] then 0 else hd fmt) in
            if c = 104 then vs_loop S_LENGTH skip width L_CHAR (tl fmt) str vs
            else if c = 108 then vs_loop S_LENGTH skip width L_LONG (tl fmt) str vs
            else if c = 76 then vs_loop S_LENGTH skip width L_DOUBLE (tl fmt) str vs
            else (case scan_conv skip width L_NONE c str vs of None \<Rightarrow> Inr vs
              | Some (str, vs) \<Rightarrow> if fmt = [] then Inl (Fault ''fmt'') else vs_loop S_DEFAULT skip width L_NONE (tl fmt) str vs)
      | S_LENGTH \<Rightarrow>
          let c = hd fmt in
          if c = 104 then vs_loop S_LENGTH skip width (if l = L_CHAR then L_SHORT else L_CHAR) (tl fmt) str vs
          else if c = 108 then vs_loop S_LENGTH skip width (if l = L_LONG then L_LLONG else L_LONG) (tl fmt) str vs
          else if c = 76 then vs_loop S_LENGTH skip width L_DOUBLE (tl fmt) str vs
          else (case scan_conv skip width l c str vs of None \<Rightarrow> Inr vs
            | Some (str, vs) \<Rightarrow> vs_loop S_DEFAULT skip width l (tl fmt) str vs))"
  by pat_completeness auto
termination
  by (relation "measure (\<lambda>(st, skip, width, l, fmt, str, vs). length fmt)") (auto intro: scan_width_less)

declare vs_loop.simps [simp del]

definition vsscanf :: "cstring \<Rightarrow> cstring option \<Rightarrow> kerr + (nat \<times> stored list)" where
  \<comment> \<open>the result and the values stored; \<open>None\<close> is a NULL format\<close>
  "vsscanf str fmt = (case fmt of None \<Rightarrow> Inr (0, [])
     | Some fmt \<Rightarrow> kbind (vs_loop S_DEFAULT False 0 L_NONE fmt str []) (\<lambda>vs. Inr (length vs, vs)))"

section \<open>Reading what was printed\<close>

fun dec_val :: "int \<Rightarrow> cstring \<Rightarrow> int" where
  "dec_val n [] = n"
| "dec_val n (c # s) = dec_val (n * 10 + uint c - 48) s"

lemma dec_val_append: "dec_val n (s @ t) = dec_val (dec_val n s) t"
  by (induction s arbitrary: n) simp_all

lemma isdigit_uint: "isdigit c \<longleftrightarrow> 48 \<le> uint c \<and> uint c \<le> 57"
  by (simp add: isdigit_def word_le_def)

lemma dec_val_ge: "0 \<le> n \<Longrightarrow> list_all isdigit s \<Longrightarrow> n \<le> dec_val n s"
proof (induction s arbitrary: n)
  case (Cons c s)
  then have "n \<le> n * 10 + uint c - 48" "0 \<le> n * 10 + uint c - 48" by (simp_all add: isdigit_uint)
  with Cons.IH [of "n * 10 + uint c - 48"] Cons.prems(2) show ?case by simp
qed simp

lemma digit_char: "d < 10 \<Longrightarrow> uint (48 + of_nat d :: u8) = 48 + int d"
proof -
  assume "d < 10"
  then have "(48 + int d) mod 2 ^ LENGTH(8) = 48 + int d" by simp
  moreover have "(48 + of_nat d :: u8) = word_of_int (48 + int d)" by simp
  ultimately show ?thesis by (simp only: uint_word_of_int)
qed

lemma isdigit_char: "d < 10 \<Longrightarrow> isdigit (48 + of_nat d)"
  using digit_char [of d] by (simp add: isdigit_uint)

lemma dec_text_val: "dec_val 0 (dec_text m) = int m" "list_all isdigit (dec_text m)" "dec_text m \<noteq> []"
proof (induction m rule: dec_text.induct)
  case (1 m)
  { case 1 then show ?case using "1.IH"(1) by (subst dec_text.simps) (auto simp: dec_val_append digit_char zdiv_int zmod_int) }
  { case 2 then show ?case using "1.IH"(2) by (subst dec_text.simps) (auto simp: isdigit_char) }
  { case 3 then show ?case by (subst dec_text.simps) auto }
qed

lemma wrap64_small: "- (2 ^ 63) \<le> k \<Longrightarrow> k < 2 ^ 63 \<Longrightarrow> wrap64 k = k"
  by (simp add: wrap64_def sint_sbintrunc' signed_take_bit_int_eq_self)

lemma get_int_digits:
  "list_all isdigit s \<Longrightarrow> 0 \<le> n \<Longrightarrow> dec_val n s < 2 ^ 63 \<Longrightarrow>
     get_int_loop False 10 sign n width neg xskip s = (dec_val n s, neg, [])"
proof (induction s arbitrary: n)
  case (Cons c s)
  let ?n = "n * 10 + uint c - 48"
  have c: "48 \<le> uint c" "uint c \<le> 57" "list_all isdigit s" using Cons.prems(1) isdigit_uint [of c] by simp_all
  have n: "0 \<le> ?n" "?n < 2 ^ 63" using c Cons.prems(2,3) dec_val_ge [of ?n s] by simp_all
  then have "wrap64 ?n = ?n" by (intro wrap64_small) simp_all
  moreover have "c \<noteq> 45" "upper c = c" "isdigit c" using c by (auto simp: upper_def isdigit_uint word_le_def)
  ultimately show ?case using Cons.IH [OF c(3) n(1)] Cons.prems(3) by simp
qed simp

lemma dec_text_length: "m < 10 ^ Suc k \<Longrightarrow> length (dec_text m) \<le> Suc k"
proof (induction k arbitrary: m)
  case (Suc k)
  then have "m div 10 < 10 ^ Suc k" by (simp add: div_less_iff_less_mult mult.commute)
  then show ?case using Suc.IH [of "m div 10"] by (subst dec_text.simps) simp
qed (simp add: dec_text.simps)

lemma get_int_text:
  assumes "\<bar>i\<bar> < 2 ^ 63"
  shows "get_int (int_text i) 0 10 True = (i, [])"
proof -
  have "dec_val 0 (dec_text (nat \<bar>i\<bar>)) = \<bar>i\<bar>" by (simp add: dec_text_val(1))
  moreover from this have "get_int_loop False 10 True 0 0 neg False (dec_text (nat \<bar>i\<bar>)) = (\<bar>i\<bar>, neg, [])" for neg
    using get_int_digits [OF dec_text_val(2), of 0 "nat \<bar>i\<bar>"] assms by simp
  ultimately show ?thesis by (auto simp: get_int_def int_text_def Let_def)
qed

lemma int_text_hd:
  "int_text i \<noteq> []" "valid_sint (hd (int_text i)) 10 True = 0" "dropWhile isspace (int_text i) = int_text i"
proof -
  obtain c s where d: "dec_text (nat \<bar>i\<bar>) = c # s" "isdigit c"
    using dec_text_val(2,3) [of "nat \<bar>i\<bar>"] by (cases "dec_text (nat \<bar>i\<bar>)") auto
  have c: "48 \<le> uint c" "uint c \<le> 57" using d(2) by (simp_all add: isdigit_uint)
  then have ns: "\<not> isspace c" by (auto simp: isspace_def)
  have r: "int_text i = 45 # c # s \<or> int_text i = c # s" using d(1) by (cases "i < 0") (auto simp: int_text_def)
  show "int_text i \<noteq> []" using r by auto
  show "valid_sint (hd (int_text i)) 10 True = 0" using r d(2) by (auto simp: valid_sint_def isdigit_def)
  show "dropWhile isspace (int_text i) = int_text i" using r ns by (auto simp: isspace_def)
qed

text \<open>C27: what \<^verbatim>\<open>vsnprintf\<close> prints for a number with the format \<^verbatim>\<open>"%d"\<close> is read back by \<^verbatim>\<open>vsscanf\<close> with the same format as the
  same number, for every \<^verbatim>\<open>int\<close> and every buffer of at least 12 bytes.\<close>

theorem print_scan_int:
  assumes "12 \<le> n"
  shows "\<exists>k out'. vsnprintf out n [37, 100] [Num (scast (v :: u32))] = Inr (k, out') \<and> out' k = 0 \<and>
     vsscanf (map out' [0..<k]) (Some [37, 100]) = Inr (1, [SInt v])"
proof -
  let ?t = "int_text (sint v)"
  have b: "- (2 ^ 31) \<le> sint v" "sint v < 2 ^ 31" using sint_greater_eq [of v] sint_less [of v] by simp_all
  have "ucast (scast v :: u64) = v" by (rule bit_word_eqI) (simp add: bit_simps)
  then have w: "(scast (ucast (scast v :: u64) :: u32) :: u64) = scast v" "sint (scast v :: u64) = sint v"
    using b by (simp_all add: signed_scast_eq signed_take_bit_int_eq_self)
  have f: "fmt_text False False [37, 100] [Num (scast v)] = Inr ?t" by (simp add: va_num_def w)
  have "length (dec_text (nat \<bar>sint v\<bar>)) \<le> 10" using b by (intro dec_text_length [of _ 9, simplified]) simp
  then have l: "length ?t < n" using assms by (auto simp: int_text_def)
  have "\<forall>a. Num a \<in> set [Num (scast v)] \<longrightarrow> sint a \<noteq> - (2 ^ 63)" using b w(2) by auto
  from vsnprintf_spec [OF f this, of out n] obtain out' where
    o: "vsnprintf out n [37, 100] [Num (scast v)] = Inr (length ?t, out')"
    and all: "\<forall>i. out' i = (if i < length ?t \<and> i + 1 < n then ?t ! i
       else if i < n \<and> i = min (length ?t) (n - 1) then 0 else out i)" by blast
  have o2: "out' (length ?t) = 0" "\<forall>i < length ?t. out' i = ?t ! i" using l by (subst all [rule_format], auto)+
  have "map out' [0..<length ?t] = ?t" using o2(2) by (intro nth_equalityI) auto
  moreover have "scan_conv False 0 L_NONE 100 ?t [] = Some ([], [SInt v])"
    using get_int_text [of "sint v"] b by (simp add: scan_conv_def int_text_hd store_num_def)
  then have "vs_loop S_DEFAULT False 0 L_NONE [37, 100] ?t [] = Inr [SInt v]"
    using int_text_hd(1) by (simp add: vs_loop.simps scan_width_def isdigit_def)
  ultimately show ?thesis using o o2(1) by (auto simp: vsscanf_def)
qed

theorem print_scan_int_witness:
  "\<exists>k out'. vsnprintf (\<lambda>_. 0) 12 [37, 100] [Num (scast (- 2147483648 :: u32))] = Inr (k, out') \<and>
     vsscanf (map out' [0..<k]) (Some [37, 100]) = Inr (1, [SInt (- 2147483648)])"
  using print_scan_int [of 12 "\<lambda>_. 0" "- 2147483648"] by blast

end
