(* ===== verification/BlockAlloc.thy ===== *)
theory BlockAlloc
  imports Elf
begin

text \<open>
  The sub-page allocator behind \<^verbatim>\<open>SYS_user_allocate\<close> and \<^verbatim>\<open>SYS_user_free\<close> (\<^verbatim>\<open>kernel/syscall.c\<close>): a table of
  pages, each with a table of blocks of physical addresses (\<^verbatim>\<open>b\<close>) and one of virtual addresses (\<^verbatim>\<open>c\<close>).
  An index outside the tables is a fault.
\<close>

section \<open>State\<close>

record block =
  b_flag :: int                       \<comment> \<open>0 when free\<close>
  b_start :: u64
  b_end :: u64
  b_index :: int

record page =
  p_b :: "int \<Rightarrow> block"
  p_c :: "int \<Rightarrow> block"
  p_n :: int
  p_vaild :: int

record 'h sysk = "'h elfk" +
  first_m :: int
  leave_m :: int
  page_p :: "nat \<Rightarrow> page"              \<comment> \<open>\<^verbatim>\<open>p[100]\<close>\<close>
  g_malloc_page :: u64
  g_ufree_page :: u64
  count_4 :: int
  count_7 :: int

definition upd_page :: "nat \<Rightarrow> (page \<Rightarrow> page) \<Rightarrow> ('h, 'z) sysk_scheme \<Rightarrow> ('h, 'z) sysk_scheme" where
  "upd_page i f s = s\<lparr>page_p := (page_p s)(i := f (page_p s i))\<rparr>"

definition upd_b :: "nat \<Rightarrow> int \<Rightarrow> (block \<Rightarrow> block) \<Rightarrow> ('h, 'z) sysk_scheme \<Rightarrow> ('h, 'z) sysk_scheme" where
  "upd_b i j f = upd_page i (\<lambda>g. g\<lparr>p_b := (p_b g)(j := f (p_b g j))\<rparr>)"

definition upd_c :: "nat \<Rightarrow> int \<Rightarrow> (block \<Rightarrow> block) \<Rightarrow> ('h, 'z) sysk_scheme \<Rightarrow> ('h, 'z) sysk_scheme" where
  "upd_c i j f = upd_page i (\<lambda>g. g\<lparr>p_c := (p_c g)(j := f (p_c g j))\<rparr>)"

definition blk :: "int \<Rightarrow> kerr + unit" where
  \<comment> \<open>an index into a table of 100 blocks\<close>
  "blk j = (if 0 \<le> j \<and> j < 100 then Inr () else Inl (Fault ''block''))"

section \<open>Searching\<close>

fun scan ::
  "(nat \<Rightarrow> 's \<Rightarrow> kerr + (u64 option \<times> 's)) \<Rightarrow> nat list \<Rightarrow> 's \<Rightarrow> kerr + (u64 option \<times> 's)" where
  \<comment> \<open>a \<^verbatim>\<open>for\<close> loop whose body may return a value\<close>
  "scan f [] s = Inr (None, s)"
| "scan f (j # js) s =
     kbind (f j s) (\<lambda>(r, s). case r of Some v \<Rightarrow> Inr (Some v, s) | None \<Rightarrow> scan f js s)"

definition split_b ::
  "nat \<Rightarrow> int \<Rightarrow> int \<Rightarrow> (('h, 'z) sysk_scheme \<Rightarrow> u64) \<Rightarrow> ('h, 'z) sysk_scheme \<Rightarrow> ('h, 'z) sysk_scheme" where
  \<comment> \<open>the node \<^verbatim>\<open>n+1\<close> takes what is left of block \<^verbatim>\<open>j\<close>, up to \<open>e\<close> (read last)\<close>
  "split_b i j n e s =
     (let s = upd_b i j (\<lambda>b. b\<lparr>b_index := n + 1\<rparr>) s;
          s = upd_b i (n + 1) (\<lambda>b. b\<lparr>b_index := n + 1\<rparr>) s;
          s = upd_b i (n + 1) (\<lambda>b. b\<lparr>b_start := b_end (p_b (page_p s i) j)\<rparr>) s
      in upd_b i (n + 1) (\<lambda>b. b\<lparr>b_flag := 0, b_end := e s\<rparr>) s)"

definition split_c ::
  "nat \<Rightarrow> int \<Rightarrow> int \<Rightarrow> (('h, 'z) sysk_scheme \<Rightarrow> u64) \<Rightarrow> ('h, 'z) sysk_scheme \<Rightarrow> ('h, 'z) sysk_scheme" where
  "split_c i j n e s =
     (let s = upd_c i j (\<lambda>b. b\<lparr>b_index := n + 1\<rparr>) s;
          s = upd_c i (n + 1) (\<lambda>b. b\<lparr>b_index := n + 1\<rparr>) s;
          s = upd_c i (n + 1) (\<lambda>b. b\<lparr>b_start := b_end (p_c (page_p s i) j)\<rparr>) s
      in upd_c i (n + 1) (\<lambda>b. b\<lparr>b_flag := 0, b_end := e s\<rparr>) s)"

definition block_alloc_at ::
  "int \<Rightarrow> nat \<Rightarrow> nat \<Rightarrow> ('h, 'z) sysk_scheme \<Rightarrow> kerr + (u64 option \<times> ('h, 'z) sysk_scheme)" where
  \<comment> \<open>the body of the two loops of \<^verbatim>\<open>block_alloc\<close>\<close>
  "block_alloc_at a1 i j s =
     (let n = p_n (page_p s i); b = p_b (page_p s i) (int j); a = word_of_int a1 in
      if b_flag b \<noteq> 0 then Inr (None, s)
      else if b_end b - b_start b = a then Inr (None, upd_b i (int j) (\<lambda>b. b\<lparr>b_flag := 1\<rparr>) s)
      else if b_end b - b_start b > a then
        let e = b_end b; index = b_index b;
            s = upd_b i (int j) (\<lambda>b. b\<lparr>b_flag := 1, b_end := b_start b + a\<rparr>) s in
        if int j = n then
          kbind (blk (n + 1)) (\<lambda>_.
          let s = split_b i (int j) n (\<lambda>_. e) s;
              s = upd_page i (\<lambda>g. g\<lparr>p_n := p_n g + 1\<rparr>) s; s = s\<lparr>leave_m := 0\<rparr>
          in Inr (Some (b_start (p_b (page_p s i) (int j))), s))
        else kbind (blk index) (\<lambda>_.
          if b_flag (p_b (page_p s i) index) = 0 then
            let s = upd_b i index (\<lambda>b. b\<lparr>b_start := e\<rparr>) s
            in Inr (Some (b_start (p_b (page_p s i) (int j))), s)
          else
            kbind (blk (n + 1)) (\<lambda>_.
            let s = split_b i (int j) n (\<lambda>s. b_start (p_b (page_p s i) index)) s;
                s = upd_page i (\<lambda>g. g\<lparr>p_n := p_n g + 1\<rparr>) s
            in Inr (Some (b_start (p_b (page_p s i) (int j))), s)))
      else Inr (Some 5, upd_b i (int j) (\<lambda>b. b\<lparr>b_flag := 0\<rparr>) s))"

definition block_alloc :: "int \<Rightarrow> ('h, 'z) sysk_scheme \<Rightarrow> kerr + (u64 \<times> ('h, 'z) sysk_scheme)" where
  "block_alloc a1 s =
     kbind (scan (\<lambda>i s. if p_vaild (page_p s i) = 1 then scan (block_alloc_at a1 i) [1..<100] s else Inr (None, s))
       [1..<100] s) (\<lambda>(r, s). Inr (case r of Some v \<Rightarrow> v | None \<Rightarrow> 0, s))"

definition block_alloc_va_at ::
  "int \<Rightarrow> nat \<Rightarrow> nat \<Rightarrow> ('h, 'z) sysk_scheme \<Rightarrow> kerr + (u64 option \<times> ('h, 'z) sysk_scheme)" where
  "block_alloc_va_at a1 i j s =
     (let n = p_n (page_p s i); c = p_c (page_p s i) (int j); a = word_of_int a1 in
      if b_flag c \<noteq> 0 then Inr (None, s)
      else if b_end c - b_start c = a then Inr (None, upd_c i (int j) (\<lambda>b. b\<lparr>b_flag := 1\<rparr>) s)
      else if b_end c - b_start c > a then
        let e = b_end c; index = b_index c;
            s = upd_c i (int j) (\<lambda>b. b\<lparr>b_flag := 1, b_end := b_start b + a\<rparr>) s in
        if int j = n then
          kbind (blk (n + 1)) (\<lambda>_.
          let s = split_c i (int j) n (\<lambda>_. e) s; s = s\<lparr>leave_m := 0\<rparr>
          in Inr (Some (b_start (p_c (page_p s i) (int j))), s))
        else kbind (blk index) (\<lambda>_.
          if b_flag (p_c (page_p s i) index) = 0 then
            let s = upd_c i index (\<lambda>b. b\<lparr>b_start := e\<rparr>) s; s = s\<lparr>leave_m := 0\<rparr>
            in Inr (Some (b_start (p_c (page_p s i) (int j))), s)
          else
            kbind (blk (n + 1)) (\<lambda>_.
            let s = split_c i (int j) n (\<lambda>s. b_start (p_c (page_p s i) index)) s; s = s\<lparr>leave_m := 0\<rparr>
            in Inr (Some (b_start (p_c (page_p s i) (int j))), s)))
      else
        let s = upd_c i (int j) (\<lambda>b. b\<lparr>b_flag := 1\<rparr>) s; b = p_b (page_p s i) (int j)
        in Inr (Some 5, s\<lparr>leave_m := sint (ucast (b_end b - b_start b) :: u32)\<rparr>))"

definition block_alloc_va :: "int \<Rightarrow> ('h, 'z) sysk_scheme \<Rightarrow> kerr + (u64 \<times> ('h, 'z) sysk_scheme)" where
  "block_alloc_va a1 s =
     kbind (scan (\<lambda>i s. if p_vaild (page_p s i) = 1 then scan (block_alloc_va_at a1 i) [1..<100] s else Inr (None, s))
       [1..<100] s) (\<lambda>(r, s). Inr (case r of Some v \<Rightarrow> v | None \<Rightarrow> 0, s))"

section \<open>Freeing\<close>

definition both :: "nat \<Rightarrow> int \<Rightarrow> (block \<Rightarrow> block) \<Rightarrow> ('h, 'z) sysk_scheme \<Rightarrow> ('h, 'z) sysk_scheme" where
  \<comment> \<open>the same change of \<^verbatim>\<open>c[j]\<close> and of \<^verbatim>\<open>b[j]\<close>\<close>
  "both i j f s = upd_b i j f (upd_c i j f s)"

definition copy_end :: "nat \<Rightarrow> int \<Rightarrow> int \<Rightarrow> ('h, 'z) sysk_scheme \<Rightarrow> ('h, 'z) sysk_scheme" where
  \<comment> \<open>\<^verbatim>\<open>c[j].end = c[k].end\<close> and the same for \<^verbatim>\<open>b\<close>\<close>
  "copy_end i j k s = upd_b i j (\<lambda>b. b\<lparr>b_end := b_end (p_b (page_p s i) k)\<rparr>)
                        (upd_c i j (\<lambda>b. b\<lparr>b_end := b_end (p_c (page_p s i) k)\<rparr>) s)"

definition copy_index :: "nat \<Rightarrow> int \<Rightarrow> int \<Rightarrow> ('h, 'z) sysk_scheme \<Rightarrow> ('h, 'z) sysk_scheme" where
  "copy_index i j k s = upd_b i j (\<lambda>b. b\<lparr>b_index := b_index (p_b (page_p s i) k)\<rparr>)
                          (upd_c i j (\<lambda>b. b\<lparr>b_index := b_index (p_c (page_p s i) k)\<rparr>) s)"

definition free_block_at :: "nat \<Rightarrow> int \<Rightarrow> ('h, 'z) sysk_scheme \<Rightarrow> kerr + ('h, 'z) sysk_scheme" where
  \<comment> \<open>the branches of \<^verbatim>\<open>block_free_va\<close> for a node that starts at \<^verbatim>\<open>va\<close>; \<^verbatim>\<open>front\<close> is 1\<close>
  "free_block_at i j s =
     (let c = p_c (page_p s i); index1 = b_index (c j) in
      kbind (blk index1) (\<lambda>_.
      if j = 1 then
        (if b_flag (c index1) = 0 then
           let index2 = b_index (c index1) in
           kbind (blk index2) (\<lambda>_.
             let s = copy_index i j index2 s; s = both i j (\<lambda>b. b\<lparr>b_flag := 0\<rparr>) s
             in Inr (copy_end i j index1 s))
         else Inr (both i j (\<lambda>b. b\<lparr>b_flag := 0\<rparr>) s))
      else if index1 = j then
        (if b_flag (c 1) = 0 then
           Inr (both i 1 (\<lambda>b. b\<lparr>b_index := 1, b_end := b_end (p_b (page_p s i) j)\<rparr>) s)
         else Inr (both i j (\<lambda>b. b\<lparr>b_flag := 0\<rparr>) s))
      else if b_flag (c 1) = 0 then
        (if b_flag (c index1) = 0 then Inr (copy_index i 1 index1 (copy_end i 1 index1 s))
         else Inr (both i 1 (\<lambda>b. b\<lparr>b_index := index1\<rparr>) (copy_end i 1 j s)))
      else if b_flag (c index1) = 0 then
        Inr (both i j (\<lambda>b. b\<lparr>b_flag := 0\<rparr>) (copy_index i j index1 (copy_end i j index1 s)))
      else Inr (both i j (\<lambda>b. b\<lparr>b_flag := 0\<rparr>) s)))"

fun free_scan :: "u64 \<Rightarrow> nat list \<Rightarrow> int \<Rightarrow> ('h, 'z) sysk_scheme \<Rightarrow> kerr + ('h, 'z) sysk_scheme" where
  \<comment> \<open>the loop over the pages; \<^verbatim>\<open>j\<close> keeps its value from one page to the next\<close>
  "free_scan va [] j s = Inr s"
| "free_scan va (i # is) j s =
     (if p_vaild (page_p s i) = 1 then
        kbind (blk j) (\<lambda>_.
        kbind (if b_start (p_c (page_p s i) j) = va then free_block_at i j s else Inr s) (\<lambda>s.
          free_scan va is (b_index (p_c (page_p s i) j)) s))
      else free_scan va is j s)"

definition block_free_va :: "u64 \<Rightarrow> ('h, 'z) sysk_scheme \<Rightarrow> kerr + (int \<times> ('h, 'z) sysk_scheme)" where
  "block_free_va va s = kbind (free_scan va [1..<100] 1 s) (\<lambda>s. Inr (1, s))"

section \<open>The system calls\<close>

definition to_i32 :: "u64 \<Rightarrow> int" where
  \<comment> \<open>conversion of a \<^verbatim>\<open>uint64\<close> to \<^verbatim>\<open>int\<close>\<close>
  "to_i32 a = sint (ucast a :: u32)"

definition new_page :: "nat \<Rightarrow> u64 \<Rightarrow> ('h, 'z) sysk_scheme \<Rightarrow> ('h, 'z) sysk_scheme" where
  \<comment> \<open>enter a page into entry \<open>i\<close>, its virtual addresses from \<^verbatim>\<open>g_ufree_page\<close> on\<close>
  "new_page i a1 s =
     (let s = upd_page i (\<lambda>g. g\<lparr>p_n := 1, p_vaild := 1\<rparr>) s;
          s = upd_c i 1 (\<lambda>b. b\<lparr>b_start := g_ufree_page s, b_end := g_ufree_page s + PGSIZE, b_index := 1\<rparr>) s
      in s\<lparr>g_ufree_page := g_ufree_page s + a1\<rparr>)"

fun first_pages :: "u64 \<Rightarrow> nat list \<Rightarrow> u64 \<Rightarrow> ('h, 'z) sysk_scheme \<Rightarrow> kerr + (nat \<times> ('h, 'z) sysk_scheme)" where
  \<comment> \<open>the first loop of the first call; the value of \<^verbatim>\<open>i\<close> after it\<close>
  "first_pages pa [] a1 s = Inr (100, s)"
| "first_pages pa (i # is) a1 s =
     (if p_vaild (page_p s i) \<noteq> 0 then first_pages pa is a1 s
      else
        let s = new_page i a1 s;
            s = upd_b i 1 (\<lambda>b. b\<lparr>b_start := pa, b_end := pa + PGSIZE, b_index := p_n (page_p s i)\<rparr>) s in
        kbind (block_alloc_va (to_i32 a1) s) (\<lambda>(r, s).
          if r = 5 then kbind (block_alloc (to_i32 a1) s) (\<lambda>(_, s). first_pages pa is (word_of_int (leave_m s)) s)
          else Inr (i, s)))"

fun map_first :: "nat \<Rightarrow> nat \<Rightarrow> u64 \<Rightarrow> ('h, 'z) sysk_scheme \<Rightarrow> kerr + ('h, 'z) sysk_scheme" where
  \<comment> \<open>map the next \<open>n\<close> pages at \<^verbatim>\<open>g_malloc_page\<close>\<close>
  "map_first 0 cpu pa s = Inr s"
| "map_first (Suc n) cpu pa s =
     kbind (page_walk (pagetable (cur cpu s)) (g_malloc_page s) True s) (\<lambda>(pte, s).
     kbind (load pte s) (\<lambda>v.
     kbind (if v AND PTE_V \<noteq> 0 then user_vm_unmap (pagetable (cur cpu s)) (g_malloc_page s) PGSIZE True s else Inr s) (\<lambda>s.
     kbind (user_vm_map (pagetable (cur cpu s)) (g_malloc_page s) PGSIZE pa
              (prot_to_type (PROT_WRITE OR PROT_READ) True) s) (\<lambda>s.
     kbind (alloc_page (s\<lparr>g_malloc_page := g_malloc_page s + PGSIZE\<rparr>)) (\<lambda>(pa, s). map_first n cpu pa s)))))"

definition add_page :: "nat \<Rightarrow> u64 \<Rightarrow> ('h, 'z) sysk_scheme \<Rightarrow> kerr + (u64 \<times> ('h, 'z) sysk_scheme)" where
  \<comment> \<open>the last branch of the loop: map another page and take the block from it\<close>
  "add_page cpu a1 s =
     kbind (alloc_page s) (\<lambda>(pa, s).
     let va = g_ufree_page s in
     kbind (user_vm_map (pagetable (cur cpu s)) (g_malloc_page s) PGSIZE pa
              (prot_to_type (PROT_WRITE OR PROT_READ) True) s) (\<lambda>s.
     let s = s\<lparr>g_malloc_page := g_malloc_page s + PGSIZE\<rparr> in
     case find (\<lambda>i. p_vaild (page_p s i) = 0) [1..<100] of
       None \<Rightarrow> Inr (va, s)
     | Some i \<Rightarrow>
         kbind (block_alloc_va (to_i32 a1) (new_page i a1 s)) (\<lambda>(_, s).
         let s = upd_b i 1 (\<lambda>b. b\<lparr>b_start := pa, b_end := pa + a1, b_index := p_n (page_p s i)\<rparr>) s in
         kbind (block_alloc (to_i32 a1) s) (\<lambda>(_, s). Inr (va, s)))))"

partial_function (option) allocate_loop ::
  "nat \<Rightarrow> u64 \<Rightarrow> ('h, 'z) sysk_scheme \<Rightarrow> (kerr + (u64 \<times> ('h, 'z) sysk_scheme)) option" where
  \<comment> \<open>the \<^verbatim>\<open>while(1)\<close> of later calls\<close>
  "allocate_loop cpu a1 s =
     (case block_alloc_va (to_i32 a1) s of Inl e \<Rightarrow> Some (Inl e) | Inr (va, s) \<Rightarrow>
        if va \<noteq> 0 \<and> va \<noteq> 5 then Some (kbind (block_alloc (to_i32 a1) s) (\<lambda>(_, s). Inr (va, s)))
        else if va = 5 then
          (case kbind (block_alloc_va (leave_m s) s) (\<lambda>(_, s'). block_alloc (leave_m s) s') of
             Inl e \<Rightarrow> Some (Inl e)
           | Inr (_, s') \<Rightarrow> allocate_loop cpu (word_of_int (leave_m s)) s')
        else
          (case add_page cpu a1 s of
             Inl e \<Rightarrow> Some (Inl e)
           | Inr (va, s) \<Rightarrow> if leave_m s = 0 then Some (Inr (va, s)) else allocate_loop cpu a1 s))"

definition sys_user_better_allocate_page ::
  "nat \<Rightarrow> u64 \<Rightarrow> ('h, 'z) sysk_scheme \<Rightarrow> kerr + (u64 \<times> ('h, 'z) sysk_scheme)" where
  "sys_user_better_allocate_page cpu a1 s =
     (if first_m s = 0 then
        kbind (alloc_page s) (\<lambda>(pa, s).
        let va = g_ufree_page s in
        kbind (first_pages pa [1..<100] a1 (s\<lparr>g_malloc_page := g_ufree_page s, first_m := 1\<rparr>)) (\<lambda>(i, s).
        kbind (map_first i cpu pa s) (\<lambda>s. Inr (va, s))))
      else case allocate_loop cpu a1 s of None \<Rightarrow> Inl Spin | Some r \<Rightarrow> r)"

definition sys_user_better_free_page :: "u64 \<Rightarrow> ('h, 'z) sysk_scheme \<Rightarrow> kerr + (u64 \<times> ('h, 'z) sysk_scheme)" where
  "sys_user_better_free_page va s = kbind (block_free_va va s) (\<lambda>(_, s). Inr (0, s))"

end
