(* ===== verification/Htif.thy ===== *)
theory Htif
  imports KPrelude
begin

text \<open>
  The registers of the host-target interface (\<^verbatim>\<open>spike_interface/spike_htif.c\<close>) and \<^verbatim>\<open>frontend_syscall\<close> of
  \<^verbatim>\<open>spike_utils.c\<close>, which hands a request to the host in memory.  The host is a parameter: a function on the
  shared state that runs before every read of \<^verbatim>\<open>tohost\<close> or \<^verbatim>\<open>fromhost\<close>, so that polling loops see it make
  progress.  The two locks are the ones of the source; on the one hart that is modelled a lock that is
  taken is never released.
\<close>

section \<open>State\<close>

record 'h htif_regs =
  tohost :: u64
  fromhost :: u64
  magic_mem :: "u64 list"        \<comment> \<open>the request of \<^verbatim>\<open>frontend_syscall\<close>, 8 words that the host reads and writes\<close>
  htif_host :: 'h                \<comment> \<open>the host\<close>
  htif_console_buf :: int
  htif_lock :: bool
  frontend_lock :: bool

type_synonym 'h host_step = "'h htif_regs \<Rightarrow> 'h htif_regs"

definition TOHOST_CMD :: "u64 \<Rightarrow> u64 \<Rightarrow> u64 \<Rightarrow> u64" where
  "TOHOST_CMD dev cmd payload = push_bit 56 dev OR push_bit 48 cmd OR payload"

definition FROMHOST_DEV :: "u64 \<Rightarrow> u64" where "FROMHOST_DEV v = drop_bit 56 v"
definition FROMHOST_CMD :: "u64 \<Rightarrow> u64" where "FROMHOST_CMD v = drop_bit 56 (push_bit 8 v)"
definition FROMHOST_DATA :: "u64 \<Rightarrow> u64" where "FROMHOST_DATA v = drop_bit 16 (push_bit 16 v)"

section \<open>Operations\<close>

definition check_fromhost :: "'h host_step \<Rightarrow> 'h htif_regs \<Rightarrow> kerr + 'h htif_regs" where
  "check_fromhost host s =
     (let s = host s; fh = fromhost s in
      if fh = 0 then Inr s
      else let s = s\<lparr>fromhost := 0\<rparr> in
        if FROMHOST_DEV fh \<noteq> 1 then Inl (Panic ''FROMHOST_DEV(fh) == 1'')
        else if FROMHOST_CMD fh = 0 then Inr (s\<lparr>htif_console_buf := 1 + uint (ucast (FROMHOST_DATA fh) :: u8)\<rparr>)
        else if FROMHOST_CMD fh = 1 then Inr s
        else Inl (Panic ''0''))"

partial_function (option) set_tohost_loop :: "'h host_step \<Rightarrow> u64 \<Rightarrow> 'h htif_regs \<Rightarrow> (kerr + 'h htif_regs) option" where
  "set_tohost_loop host w s =
     (let s = host s in
      if tohost s \<noteq> 0 then (case check_fromhost host s of Inl e \<Rightarrow> Some (Inl e) | Inr s \<Rightarrow> set_tohost_loop host w s)
      else Some (Inr (s\<lparr>tohost := w\<rparr>)))"

definition or_spin :: "(kerr + 'a) option \<Rightarrow> kerr + 'a" where
  "or_spin r = (case r of None \<Rightarrow> Inl Spin | Some x \<Rightarrow> x)"

definition set_tohost :: "'h host_step \<Rightarrow> u64 \<Rightarrow> u64 \<Rightarrow> u64 \<Rightarrow> 'h htif_regs \<Rightarrow> kerr + 'h htif_regs" where
  "set_tohost host dev cmd data s = or_spin (set_tohost_loop host (TOHOST_CMD dev cmd data) s)"

partial_function (option) await_reply :: "'h host_step \<Rightarrow> u64 \<Rightarrow> u64 \<Rightarrow> 'h htif_regs \<Rightarrow> (kerr + 'h htif_regs) option" where
  \<comment> \<open>the loop of \<^verbatim>\<open>do_tohost_fromhost\<close>\<close>
  "await_reply host dev cmd s =
     (let s = host s; fh = fromhost s in
      if fh = 0 then await_reply host dev cmd s
      else if FROMHOST_DEV fh = dev \<and> FROMHOST_CMD fh = cmd then Some (Inr (s\<lparr>fromhost := 0\<rparr>))
      else case check_fromhost host s of Inl e \<Rightarrow> Some (Inl e) | Inr s \<Rightarrow> await_reply host dev cmd s)"

definition take_lock :: "bool \<Rightarrow> kerr + unit" where
  \<comment> \<open>\<^verbatim>\<open>spinlock_lock\<close> on one hart\<close>
  "take_lock held = (if held then Inl Spin else Inr ())"

definition do_tohost_fromhost :: "'h host_step \<Rightarrow> u64 \<Rightarrow> u64 \<Rightarrow> u64 \<Rightarrow> 'h htif_regs \<Rightarrow> kerr + 'h htif_regs" where
  "do_tohost_fromhost host dev cmd data s =
     kbind (take_lock (htif_lock s)) (\<lambda>_.
     kbind (set_tohost host dev cmd data (s\<lparr>htif_lock := True\<rparr>)) (\<lambda>s.
     kbind (or_spin (await_reply host dev cmd s)) (\<lambda>s. Inr (s\<lparr>htif_lock := False\<rparr>))))"

definition htif_syscall :: "'h host_step \<Rightarrow> u64 \<Rightarrow> 'h htif_regs \<Rightarrow> kerr + 'h htif_regs" where
  "htif_syscall host arg s = do_tohost_fromhost host 0 0 arg s"

definition htif_console_putchar :: "'h host_step \<Rightarrow> u8 \<Rightarrow> 'h htif_regs \<Rightarrow> kerr + 'h htif_regs" where
  "htif_console_putchar host ch s =
     kbind (take_lock (htif_lock s)) (\<lambda>_.
     kbind (set_tohost host 1 1 (ucast ch) (s\<lparr>htif_lock := True\<rparr>)) (\<lambda>s. Inr (s\<lparr>htif_lock := False\<rparr>)))"

definition htif_console_getchar :: "'h host_step \<Rightarrow> 'h htif_regs \<Rightarrow> kerr + (int \<times> 'h htif_regs)" where
  "htif_console_getchar host s =
     kbind (take_lock (htif_lock s)) (\<lambda>_.
     kbind (check_fromhost host (s\<lparr>htif_lock := True\<rparr>)) (\<lambda>s.
     let ch = htif_console_buf s in
     kbind (if ch \<ge> 0 then set_tohost host 1 0 0 (s\<lparr>htif_console_buf := - 1\<rparr>) else Inr s) (\<lambda>s.
       Inr (ch - 1, s\<lparr>htif_lock := False\<rparr>))))"

definition htif_frontend_syscall :: "'h host_step \<Rightarrow> u64 \<Rightarrow> u64 list \<Rightarrow> 'h htif_regs \<Rightarrow> kerr + (u64 \<times> 'h htif_regs)" where
  \<comment> \<open>\<^verbatim>\<open>frontend_syscall\<close>: \<open>addr\<close> is the address of \<^verbatim>\<open>magic_mem\<close>, \<open>req\<close> the number of the call and its seven arguments\<close>
  "htif_frontend_syscall host addr req s =
     kbind (take_lock (frontend_lock s)) (\<lambda>_.
     kbind (htif_syscall host addr (s\<lparr>frontend_lock := True, magic_mem := req\<rparr>)) (\<lambda>s.
       Inr (magic_mem s ! 0, s\<lparr>frontend_lock := False\<rparr>)))"

definition mcall_console_putchar :: "'h host_step \<Rightarrow> u64 \<Rightarrow> u8 \<Rightarrow> 'h htif_regs \<Rightarrow> kerr + 'h htif_regs" where
  \<comment> \<open>\<open>htif\<close> is the flag that \<^verbatim>\<open>query_htif\<close> sets\<close>
  "mcall_console_putchar host htif ch s = (if htif \<noteq> 0 then htif_console_putchar host ch s else Inr s)"

fun putstring :: "'h host_step \<Rightarrow> u64 \<Rightarrow> u8 list \<Rightarrow> 'h htif_regs \<Rightarrow> kerr + 'h htif_regs" where
  \<comment> \<open>the characters before the NUL\<close>
  "putstring host htif [] s = Inr s"
| "putstring host htif (c # cs) s = kbind (mcall_console_putchar host htif c s) (\<lambda>s. putstring host htif cs s)"

section \<open>A host that answers\<close>

text \<open>
  What the code relies on: a host with nothing to do changes nothing, and a request is answered after
  some number of polls, with the device and the command of the request in \<^verbatim>\<open>fromhost\<close>.  \<open>idle\<close> and \<open>serves\<close>
  say this of a host; \<open>f\<close> is what the host does to memory and to its own state.
\<close>

definition idle :: "'h host_step \<Rightarrow> 'h htif_regs \<Rightarrow> bool" where
  "idle host s \<longleftrightarrow> tohost s = 0 \<and> fromhost s = 0 \<and> host s = s"

definition serves :: "'h host_step \<Rightarrow> nat \<Rightarrow> u64 \<Rightarrow> ('h htif_regs \<Rightarrow> 'h htif_regs) \<Rightarrow> 'h htif_regs \<Rightarrow> bool" where
  "serves host k reply f s \<longleftrightarrow>
     (\<forall>j<k. fromhost ((host ^^ Suc j) s) = 0) \<and> (host ^^ Suc k) s = (f s)\<lparr>tohost := 0, fromhost := reply\<rparr>"

lemma await_reply_serves:
  assumes "serves host k reply f s" "reply \<noteq> 0" "FROMHOST_DEV reply = dev" "FROMHOST_CMD reply = cmd"
  shows "await_reply host dev cmd s = Some (Inr ((f s)\<lparr>tohost := 0, fromhost := 0\<rparr>))"
proof -
  have "(\<forall>j<k. fromhost ((host ^^ Suc j) s) = 0) \<Longrightarrow> fromhost ((host ^^ Suc k) s) = reply \<Longrightarrow>
      await_reply host dev cmd s = Some (Inr ((host ^^ Suc k) s\<lparr>fromhost := 0\<rparr>))"
  proof (induction k arbitrary: s)
    case 0
    then show ?case using assms(2-4) by (subst await_reply.simps) (simp add: Let_def)
  next
    case (Suc k)
    have "await_reply host dev cmd (host s) = Some (Inr ((host ^^ Suc k) (host s)\<lparr>fromhost := 0\<rparr>))"
      using Suc.prems by (intro Suc.IH) (auto simp: funpow_Suc_right simp del: funpow.simps)
    moreover have "fromhost (host s) = 0"
      using Suc.prems(1) by (auto dest: spec [of _ 0])
    ultimately show ?case
      by (subst await_reply.simps) (simp add: Let_def funpow_Suc_right del: funpow.simps)
  qed
  then show ?thesis
    using assms(1) by (simp add: serves_def del: funpow.simps)
qed

lemma set_tohost_idle:
  "tohost (host s) = 0 \<Longrightarrow> set_tohost host dev cmd data s = Inr ((host s)\<lparr>tohost := TOHOST_CMD dev cmd data\<rparr>)"
  by (simp add: set_tohost_def or_spin_def Let_def set_tohost_loop.simps)

lemma frontend_roundtrip:
  assumes "idle host (s\<lparr>frontend_lock := True, magic_mem := req, htif_lock := True\<rparr>)"
    and "\<not> frontend_lock s" "\<not> htif_lock s"
    and "serves host k reply f (s\<lparr>frontend_lock := True, magic_mem := req, htif_lock := True, tohost := addr\<rparr>)"
    and "reply \<noteq> 0" "FROMHOST_DEV reply = 0" "FROMHOST_CMD reply = 0"
  shows "htif_frontend_syscall host addr req s =
    (let s' = f (s\<lparr>frontend_lock := True, magic_mem := req, htif_lock := True, tohost := addr\<rparr>)
     in Inr (magic_mem s' ! 0, s'\<lparr>tohost := 0, fromhost := 0, htif_lock := False, frontend_lock := False\<rparr>))"
proof -
  let ?s = "s\<lparr>frontend_lock := True, magic_mem := req, htif_lock := True\<rparr>"
  have "set_tohost host 0 0 addr ?s = Inr (?s\<lparr>tohost := addr\<rparr>)"
    using assms(1) by (simp add: idle_def set_tohost_idle TOHOST_CMD_def)
  moreover have "await_reply host 0 0 (?s\<lparr>tohost := addr\<rparr>) = Some (Inr ((f (?s\<lparr>tohost := addr\<rparr>))\<lparr>tohost := 0, fromhost := 0\<rparr>))"
    using await_reply_serves [of host k reply f "?s\<lparr>tohost := addr\<rparr>"] assms(4-7) by simp
  ultimately show ?thesis
    using assms(2,3)
    by (simp add: htif_frontend_syscall_def htif_syscall_def do_tohost_fromhost_def take_lock_def or_spin_def Let_def)
qed

definition answer :: "(u64 list \<Rightarrow> 'h \<Rightarrow> u64 \<times> 'h) \<Rightarrow> 'h htif_regs \<Rightarrow> 'h htif_regs" where
  \<comment> \<open>the host executes \<open>fe\<close> on the request and leaves the result in its first word\<close>
  "answer fe s = s\<lparr>magic_mem := (magic_mem s)[0 := fst (fe (magic_mem s) (htif_host s))],
                  htif_host := snd (fe (magic_mem s) (htif_host s))\<rparr>"

definition frontend_host :: "'h host_step \<Rightarrow> u64 \<Rightarrow> (u64 list \<Rightarrow> 'h \<Rightarrow> u64 \<times> 'h) \<Rightarrow> bool" where
  "frontend_host host addr fe \<longleftrightarrow>
     (\<forall>t. tohost t = 0 \<and> fromhost t = 0 \<longrightarrow> host t = t) \<and>
     (\<forall>t. tohost t = addr \<and> fromhost t = 0 \<longrightarrow>
        (\<exists>k reply. serves host k reply (answer fe) t \<and> reply \<noteq> 0 \<and> FROMHOST_DEV reply = 0 \<and> FROMHOST_CMD reply = 0))"

section \<open>The console\<close>

definition shown :: "('h \<Rightarrow> u8 list) \<Rightarrow> 'h htif_regs \<Rightarrow> u8 list" where
  \<comment> \<open>what the host has printed, and the character it has not taken yet\<close>
  "shown scr s = scr (htif_host s) @ (if tohost s = 0 then [] else [ucast (tohost s)])"

definition console_host :: "'h host_step \<Rightarrow> ('h \<Rightarrow> u8 list) \<Rightarrow> ('h \<Rightarrow> nat) \<Rightarrow> bool" where
  \<comment> \<open>a host that takes each character after a while, loses none and does not answer\<close>
  "console_host host scr delay \<longleftrightarrow>
     (\<forall>t. fromhost t = 0 \<longrightarrow> fromhost (host t) = 0 \<and> shown scr (host t) = shown scr t \<and> htif_lock (host t) = htif_lock t \<and>
        (if tohost t = 0 then tohost (host t) = 0
         else tohost (host t) = 0 \<or> delay (htif_host (host t)) < delay (htif_host t)))"

lemma console_hostD:
  assumes "console_host host scr delay" "fromhost t = 0"
  shows "fromhost (host t) = 0" "shown scr (host t) = shown scr t" "htif_lock (host t) = htif_lock t"
    "tohost t = 0 \<Longrightarrow> tohost (host t) = 0"
    "tohost (host t) \<noteq> 0 \<Longrightarrow> delay (htif_host (host t)) < delay (htif_host t)"
  using assms unfolding console_host_def by (force split: if_splits)+

lemma set_tohost_loop_console:
  assumes host: "console_host host scr delay"
  shows "fromhost s = 0 \<Longrightarrow>
    \<exists>s'. set_tohost_loop host w s = Some (Inr (s'\<lparr>tohost := w\<rparr>)) \<and> tohost s' = 0 \<and> fromhost s' = 0 \<and>
      shown scr s' = shown scr s \<and> htif_lock s' = htif_lock s"
proof (induction "delay (htif_host s)" arbitrary: s rule: less_induct)
  case less
  note 1 = console_hostD [OF host less.prems]
  note 2 = console_hostD [OF host 1(1)]
  note 3 = console_hostD [OF host 2(1)]
  let ?t = "host (host s)"
  consider "tohost (host s) = 0" | "tohost (host s) \<noteq> 0" "tohost ?t = 0" | "tohost (host s) \<noteq> 0" "tohost ?t \<noteq> 0"
    by blast
  then show ?case
  proof cases
    case 1
    then show ?thesis using console_hostD(1-3) [OF host less.prems]
      by (subst set_tohost_loop.simps) (auto simp: Let_def)
  next
    case 2
    have "set_tohost_loop host w s = set_tohost_loop host w ?t"
      using 2 \<open>fromhost ?t = 0\<close> by (subst set_tohost_loop.simps) (simp add: Let_def check_fromhost_def)
    moreover have "set_tohost_loop host w ?t = Some (Inr ((host ?t)\<lparr>tohost := w\<rparr>))"
      using 3(4) 2 by (subst set_tohost_loop.simps) (simp add: Let_def)
    ultimately show ?thesis
      using 3(1-4) 2(2) \<open>shown scr ?t = _\<close> \<open>shown scr (host s) = _\<close> \<open>htif_lock ?t = _\<close> \<open>htif_lock (host s) = _\<close>
      by (intro exI [of _ "host ?t"]) simp
  next
    case 3
    have "set_tohost_loop host w s = set_tohost_loop host w ?t"
      using 3 \<open>fromhost ?t = 0\<close> by (subst set_tohost_loop.simps) (simp add: Let_def check_fromhost_def)
    moreover have "delay (htif_host ?t) < delay (htif_host s)"
      using 3 1(5) 2(5) by simp
    ultimately show ?thesis
      using less.hyps [of ?t] 1 2 by simp
  qed
qed

lemma TOHOST_CMD_putchar: "ucast (TOHOST_CMD 1 1 (ucast (c :: u8))) = c" "TOHOST_CMD 1 1 (ucast (c :: u8)) \<noteq> 0"
proof -
  show "ucast (TOHOST_CMD 1 1 (ucast c)) = c"
  proof (rule bit_word_eqI)
    fix n assume n: "n < LENGTH(8)"
    have "\<not> bit (push_bit 56 (1 :: u64)) n" "\<not> bit (push_bit 48 (1 :: u64)) n"
      using n unfolding bit_push_bit_iff by simp_all
    then show "bit (ucast (TOHOST_CMD 1 1 (ucast c)) :: u8) n = bit c n"
      using n by (simp only: TOHOST_CMD_def bit_unsigned_iff bit_or_iff) auto
  qed
  have "bit (TOHOST_CMD 1 1 (ucast c)) 56"
    by (simp add: TOHOST_CMD_def bit_simps)
  then show "TOHOST_CMD 1 1 (ucast c) \<noteq> 0" by auto
qed

lemma htif_console_putchar_console:
  assumes host: "console_host host scr delay" and "fromhost s = 0" "\<not> htif_lock s"
  shows "\<exists>s'. htif_console_putchar host c s = Inr s' \<and> fromhost s' = 0 \<and> \<not> htif_lock s' \<and> shown scr s' = shown scr s @ [c]"
proof -
  obtain s' where s': "set_tohost_loop host (TOHOST_CMD 1 1 (ucast c)) (s\<lparr>htif_lock := True\<rparr>) =
      Some (Inr (s'\<lparr>tohost := TOHOST_CMD 1 1 (ucast c)\<rparr>))" "tohost s' = 0" "fromhost s' = 0"
      "shown scr s' = shown scr (s\<lparr>htif_lock := True\<rparr>)"
    using set_tohost_loop_console [OF host, of "s\<lparr>htif_lock := True\<rparr>"] assms(2) by auto
  then show ?thesis
    using assms(3) by (simp add: htif_console_putchar_def take_lock_def set_tohost_def or_spin_def shown_def TOHOST_CMD_putchar)
qed

lemma putstring_console:
  assumes host: "console_host host scr delay" and "htif \<noteq> 0"
  shows "fromhost s = 0 \<Longrightarrow> \<not> htif_lock s \<Longrightarrow>
    \<exists>s'. putstring host htif cs s = Inr s' \<and> fromhost s' = 0 \<and> \<not> htif_lock s' \<and> shown scr s' = shown scr s @ cs"
proof (induction cs arbitrary: s)
  case (Cons c cs)
  obtain s1 where "htif_console_putchar host c s = Inr s1" "fromhost s1 = 0" "\<not> htif_lock s1" "shown scr s1 = shown scr s @ [c]"
    using htif_console_putchar_console [OF host Cons.prems] by blast
  then show ?case
    using Cons.IH [of s1] assms(2) by (simp add: mcall_console_putchar_def)
qed simp

section \<open>Properties\<close>

text \<open>C21: A system call to the host returns, when the host answers requests after any number of polls: its
  result is what the host computes from the number and the arguments in \<^verbatim>\<open>magic_mem\<close>, the host has executed
  the call exactly once, and both registers and both locks are as before, ready for the next call.\<close>

theorem frontend_syscall_answers:
  assumes host: "frontend_host host addr fe"
    and "tohost s = 0" "fromhost s = 0" "\<not> htif_lock s" "\<not> frontend_lock s" "req \<noteq> []"
  shows "htif_frontend_syscall host addr req s =
    Inr (fst (fe req (htif_host s)),
         s\<lparr>magic_mem := req[0 := fst (fe req (htif_host s))], htif_host := snd (fe req (htif_host s))\<rparr>)"
proof -
  let ?s = "s\<lparr>frontend_lock := True, magic_mem := req, htif_lock := True\<rparr>"
  obtain k reply where k: "serves host k reply (answer fe) (?s\<lparr>tohost := addr\<rparr>)" "reply \<noteq> 0"
      "FROMHOST_DEV reply = 0" "FROMHOST_CMD reply = 0"
    using host [unfolded frontend_host_def, THEN conjunct2, rule_format, of "?s\<lparr>tohost := addr\<rparr>"] assms(3) by auto
  have "idle host ?s"
    using host assms(2,3) by (simp add: frontend_host_def idle_def)
  from frontend_roundtrip [OF this assms(5,4) k]
  show ?thesis
    using assms(2-6) by (cases req) (simp_all add: answer_def)
qed

definition demo_fe :: "u64 list \<Rightarrow> bool \<times> u64 list list \<Rightarrow> u64 \<times> bool \<times> u64 list list" where
  "demo_fe req h = (sum_list req, False, snd h @ [req])"

definition demo_host :: "(bool \<times> u64 list list) host_step" where
  \<comment> \<open>waits for one poll before it answers\<close>
  "demo_host s =
     (if tohost s = 0 \<or> fromhost s \<noteq> 0 then s
      else if \<not> fst (htif_host s) then s\<lparr>htif_host := (True, snd (htif_host s))\<rparr>
      else (answer demo_fe s)\<lparr>tohost := 0, fromhost := 1\<rparr>)"

lemma demo_host_serves: "frontend_host demo_host 0x80001000 demo_fe"
proof -
  have "serves demo_host (if fst (htif_host t) then 0 else 1) 1 (answer demo_fe) t"
    if "tohost t = 0x80001000" "fromhost t = 0" for t
    using that by (auto simp: serves_def demo_host_def answer_def demo_fe_def)
  then show ?thesis
    unfolding frontend_host_def
    by (force simp: demo_host_def FROMHOST_DEV_def FROMHOST_CMD_def)
qed

definition demo_regs :: "(bool \<times> u64 list list) htif_regs" where
  "demo_regs = \<lparr>tohost = 0, fromhost = 0, magic_mem = replicate 8 0, htif_host = (False, []), htif_console_buf = 0,
     htif_lock = False, frontend_lock = False\<rparr>"

theorem frontend_syscall_answers_witness:
  "frontend_host demo_host 0x80001000 demo_fe \<and>
   htif_frontend_syscall demo_host 0x80001000 [64, 2, 100, 5, 0, 0, 0, 0] demo_regs =
   Inr (171, demo_regs\<lparr>magic_mem := [171, 2, 100, 5, 0, 0, 0, 0], htif_host := (False, [[64, 2, 100, 5, 0, 0, 0, 0]])\<rparr>)"
  using frontend_syscall_answers [OF demo_host_serves, of demo_regs "[64, 2, 100, 5, 0, 0, 0, 0]"] demo_host_serves
  by (simp add: demo_regs_def demo_fe_def)

text \<open>C37: With a host that takes the characters of the console after any delay, \<^verbatim>\<open>putstring\<close> ends and the
  characters of the string appear in order after what was printed before, none lost or repeated.\<close>

theorem putstring_prints:
  assumes "console_host host scr delay" "htif \<noteq> 0" "fromhost s = 0" "\<not> htif_lock s"
  shows "\<exists>s'. putstring host htif cs s = Inr s' \<and> fromhost s' = 0 \<and> \<not> htif_lock s' \<and> shown scr s' = shown scr s @ cs"
  using putstring_console assms by blast

definition demo_console :: "(nat \<times> u8 list) host_step" where
  "demo_console s =
     (if tohost s = 0 then s
      else if fst (htif_host s) > 0 then s\<lparr>htif_host := (fst (htif_host s) - 1, snd (htif_host s))\<rparr>
      else s\<lparr>tohost := 0, htif_host := (3, snd (htif_host s) @ [ucast (tohost s)])\<rparr>)"

lemma demo_console_host: "console_host demo_console snd fst"
  by (simp add: console_host_def demo_console_def shown_def)

theorem putstring_prints_witness:
  "console_host demo_console snd fst \<and>
   (\<exists>s'. putstring demo_console 1 [72, 105]
      \<lparr>tohost = 0, fromhost = 0, magic_mem = [], htif_host = (2, [10]), htif_console_buf = 0, htif_lock = False, frontend_lock = False\<rparr> = Inr s' \<and>
      shown snd s' = [10, 72, 105])"
  using putstring_prints [OF demo_console_host, of 1
    "\<lparr>tohost = 0, fromhost = 0, magic_mem = [], htif_host = (2, [10]), htif_console_buf = 0, htif_lock = False, frontend_lock = False\<rparr>" "[72, 105]"]
    demo_console_host by (auto simp: shown_def)

end
