(* ===== verification/Console.thy ===== *)
theory Console
  imports Snprintf SpikeFile Htif
begin

text \<open>
  Console output and the end of the machine (\<^verbatim>\<open>spike_interface/spike_utils.c\<close>): \<^verbatim>\<open>sprint\<close> formats a text and
  writes it to the host's standard error; \<^verbatim>\<open>vprintm\<close> sends it character by character.  Both fill a local
  buffer of 256 bytes, whose initial contents never reach the host.
\<close>

section \<open>Operations\<close>

definition stderr :: "('h, 'z) hfs_scheme \<Rightarrow> u64" where
  "stderr s = file_ptr s 2"

definition vprintk :: "'h frontend \<Rightarrow> cstring \<Rightarrow> varg list \<Rightarrow> ('h, 'z) hfs_scheme \<Rightarrow> kerr + ('h, 'z) hfs_scheme" where
  "vprintk fe fmt vl s =
     kbind (vsnprintf (\<lambda>_. 0) 256 fmt vl) (\<lambda>(res, out).
       let n = (if res < 256 then res else 256) in
       kbind (spike_file_write fe (stderr s) (map out [0..<n]) (int n) s) (\<lambda>(_, s). Inr s))"

definition printk :: "'h frontend \<Rightarrow> cstring \<Rightarrow> varg list \<Rightarrow> ('h, 'z) hfs_scheme \<Rightarrow> kerr + ('h, 'z) hfs_scheme" where
  "printk fe fmt vl s = vprintk fe fmt vl s"

definition sprint :: "'h frontend \<Rightarrow> cstring \<Rightarrow> varg list \<Rightarrow> ('h, 'z) hfs_scheme \<Rightarrow> kerr + ('h, 'z) hfs_scheme" where
  "sprint fe fmt vl s = vprintk fe fmt vl s"

definition vprintm :: "'g host_step \<Rightarrow> u64 \<Rightarrow> cstring \<Rightarrow> varg list \<Rightarrow> 'g htif_regs \<Rightarrow> kerr + 'g htif_regs" where
  \<comment> \<open>\<^verbatim>\<open>putstring\<close> stops at the NUL that ends the text in the buffer\<close>
  "vprintm host htif fmt vl s =
     kbind (vsnprintf (\<lambda>_. 0) 256 fmt vl) (\<lambda>(_, buf). putstring host htif (takeWhile (\<lambda>c. c \<noteq> 0) (map buf [0..<256])) s)"

definition shutdown :: "'h frontend \<Rightarrow> int \<Rightarrow> ('h, 'z) hfs_scheme \<Rightarrow> kerr + ('h, 'z) hfs_scheme" where
  \<comment> \<open>\<^verbatim>\<open>"System is shutting down with exit code %d.\n"\<close>; the host ends the machine with the exit call\<close>
  "shutdown fe code s =
     kbind (sprint fe (map of_char ''System is shutting down with exit code %d.'' @ [10]) [Num (word_of_int code)] s) (\<lambda>_.
       Inl (Halt code))"

definition do_panic :: "'h frontend \<Rightarrow> u64 \<Rightarrow> cstring \<Rightarrow> varg list \<Rightarrow> ('h, 'z) hfs_scheme \<Rightarrow> kerr + ('h, 'z) hfs_scheme" where
  \<comment> \<open>\<^verbatim>\<open>sprint(s, vl)\<close> passes the argument list itself, at the address \<open>vlp\<close>, as the first argument; the arguments \<open>vl\<close> are lost\<close>
  "do_panic fe vlp fmt vl s = kbind (sprint fe fmt [Num vlp] s) (\<lambda>s. shutdown fe (- 1) s)"

section \<open>Initialised standard files\<close>

lemma spike_file_init_std:
  assumes "\<forall>i<MAX_FILES. refcnt (spike_files s i) = 0" "\<forall>i. 0 \<le> i \<longrightarrow> i < MAX_FDS \<longrightarrow> spike_fds s i = 0"
    and "file_ptr s 0 \<noteq> 0" "file_ptr s 1 \<noteq> 0" "file_ptr s 2 \<noteq> 0"
  shows "\<exists>s'. spike_file_init s = Inr s' \<and> s' = s\<lparr>spike_fds := spike_fds s', spike_files := spike_files s'\<rparr> \<and>
    spike_base s' = spike_base s \<and> hst s' = hst s \<and>
    kfd (spike_files s' 0) = 0 \<and> kfd (spike_files s' 1) = 1 \<and> kfd (spike_files s' 2) = 2"
proof -
  have up: "[0..<MAX_FILES] = 0 # 1 # 2 # [3..<MAX_FILES]" "map int [0..<nat MAX_FDS] = 0 # 1 # 2 # map int [3..<nat MAX_FDS]"
    by (simp_all add: spike_defs upt_conv_Cons)
  have r: "refcnt (spike_files s 0) = 0" "refcnt (spike_files s (Suc 0)) = 0" "refcnt (spike_files s 2) = 0"
      "spike_fds s 0 = 0" "spike_fds s 1 = 0" "spike_fds s 2 = 0"
    using assms(1,2) by (auto simp: spike_defs)
  have lt: "0 < MAX_FILES" "Suc 0 < MAX_FILES" "2 < MAX_FILES"
    by (simp_all add: MAX_FILES_def)
  show ?thesis
    using assms(3-5) r
    by (simp add: lt spike_file_init_def spike_file_get_free_def spike_file_dup_def spike_file_incref_def up
        upd_spike_def file_ptr_def file_index_def INIT_FILE_REF_def Let_def kassert_def)
qed

end
