(* ===== verification/Syscall.thy ===== *)
theory Syscall
  imports BlockAlloc Console
begin

text \<open>
  The system calls (\<^verbatim>\<open>kernel/syscall.c\<close>).  Pointers of the caller are translated with \<^verbatim>\<open>user_va_to_pa\<close> and the
  strings and buffers behind them are bytes of physical memory.  The result \<open>None\<close> stands for a call that
  switches to a process and does not return.  Messages of the kernel itself are not modelled; the text of a process goes to the host.
\<close>

section \<open>User memory\<close>

abbreviation user_ptr :: "nat \<Rightarrow> u64 \<Rightarrow> ('h, 'z) kernel_scheme \<Rightarrow> kerr + u64" where
  \<comment> \<open>\<^verbatim>\<open>user_va_to_pa((pagetable_t)(current[readtp()]->pagetable), va)\<close>\<close>
  "user_ptr cpu va s \<equiv> user_va_to_pa (pagetable (cur cpu s)) va s"

definition user_string :: "nat \<Rightarrow> u64 \<Rightarrow> ('h, 'z) kernel_scheme \<Rightarrow> kerr + cstring" where
  "user_string cpu va s = kbind (user_ptr cpu va s) (\<lambda>pa. read_cstring pa s)"

definition returns :: "kerr + (int \<times> 's) \<Rightarrow> kerr + (int option \<times> 's)" where
  "returns m = kbind m (\<lambda>(r, s). Inr (Some r, s))"

definition int_bytes :: "int \<Rightarrow> u8 list" where
  \<comment> \<open>the bytes of a C \<^verbatim>\<open>int\<close>\<close>
  "int_bytes n = map (\<lambda>k. ucast (drop_bit (8 * k) (word_of_int n :: u32))) [0..<4]"

definition istat_bytes :: "istat \<Rightarrow> u8 list" where
  "istat_bytes st = concat (map int_bytes [st_inum st, st_size st, st_type st, st_nlinks st, st_blocks st])"

section \<open>Semaphores\<close>

definition sem_ok :: "int \<Rightarrow> kerr + unit" where
  \<comment> \<open>an index into \<^verbatim>\<open>l[100]\<close>\<close>
  "sem_ok i = (if 0 \<le> i \<and> i < 100 then Inr () else Inl (Fault ''l''))"

definition sys_user_sem_new :: "int \<Rightarrow> ('h, 'z) kernel_scheme \<Rightarrow> kerr + (int \<times> ('h, 'z) kernel_scheme)" where
  "sys_user_sem_new a1 s =
     (let n = sem_len s + 1 in
      kbind (sem_ok n) (\<lambda>_. Inr (n, s\<lparr>sem_len := n, sem_l := (sem_l s)(n := a1)\<rparr>)))"

definition sys_user_sem_P ::
  "nat \<Rightarrow> int \<Rightarrow> ('h, 'z) kernel_scheme \<Rightarrow> kerr + (int option \<times> ('h, 'z) kernel_scheme)" where
  "sys_user_sem_P cpu a1 s =
     kbind (sem_ok a1) (\<lambda>_.
     let v = sem_l s a1; s = s\<lparr>sem_l := (sem_l s)(a1 := v - 1)\<rparr> in
     if v - 1 \<ge> 0 then Inr (Some 1, s)
     else block_current cpu (upd_cur cpu (\<lambda>p. p\<lparr>sem := a1\<rparr>) s))"

definition sys_user_sem_V :: "int \<Rightarrow> ('h, 'z) kernel_scheme \<Rightarrow> kerr + (int \<times> ('h, 'z) kernel_scheme)" where
  "sys_user_sem_V a1 s =
     kbind (sem_ok a1) (\<lambda>_.
     kbind (wake_wait_queue a1 (s\<lparr>sem_s := 1, sem_l := (sem_l s)(a1 := sem_l s a1 + 1)\<rparr>)) (\<lambda>s. Inr (1, s)))"

section \<open>Processes\<close>

definition barrier_alone :: "int \<Rightarrow> kerr + int" where
  \<comment> \<open>\<^verbatim>\<open>sync_barrier\<close> on the only hart: the new value of the counter\<close>
  "barrier_alone c = (if c + 1 < int NCPU then Inl Spin else Inr (c + 1))"

definition sys_user_exit ::
  "nat \<Rightarrow> u64 \<Rightarrow> ('h, 'z) sysk_scheme \<Rightarrow> kerr + (int option \<times> ('h, 'z) sysk_scheme)" where
  "sys_user_exit cpu code s =
     kbind (barrier_alone (count_4 s)) (\<lambda>c.
     let (_, s) = free_process (current s cpu) (s\<lparr>count_4 := c\<rparr>) in
     if cpu = 0 then kbind (schedule 1 cpu s) (\<lambda>s. Inr (None, s))
     else kbind (barrier_alone (count_7 s)) (\<lambda>_. Inl (Halt (to_i32 code))))"

definition sys_user_allocate_page :: "nat \<Rightarrow> ('h, 'z) kernel_scheme \<Rightarrow> kerr + (u64 \<times> ('h, 'z) kernel_scheme)" where
  "sys_user_allocate_page cpu s =
     kbind (alloc_page s) (\<lambda>(pa, s).
     let h = user_heap (cur cpu s) in
     kbind (if free_pages_count h > 0 then
              let c = free_pages_count h - 1 in
              if unat c \<ge> MAX_HEAP_PAGES then Inl (Fault ''free_pages_address'')
              else let va = free_pages_address h (unat c) in
                kbind (kassert (va < heap_top h) ''va < heap_top'') (\<lambda>_.
                  Inr (va, upd_cur cpu (\<lambda>p. p\<lparr>user_heap := h\<lparr>free_pages_count := c\<rparr>\<rparr>) s))
            else
              kbind (get_region (mapped_info (cur cpu s)) 3 s) (\<lambda>r.
              kbind (set_npages (mapped_info (cur cpu s)) 3 (mr_npages r + 1) s) (\<lambda>s.
                Inr (heap_top h, upd_cur cpu (\<lambda>p. p\<lparr>user_heap := h\<lparr>heap_top := heap_top h + PGSIZE\<rparr>\<rparr>) s)))) (\<lambda>(va, s).
     kbind (user_vm_map (pagetable (cur cpu s)) va PGSIZE pa (prot_to_type (PROT_WRITE OR PROT_READ) True) s) (\<lambda>s.
       Inr (va, s))))"

definition sys_user_free_page :: "nat \<Rightarrow> u64 \<Rightarrow> ('h, 'z) kernel_scheme \<Rightarrow> kerr + (u64 \<times> ('h, 'z) kernel_scheme)" where
  \<comment> \<open>nothing bounds the index into \<^verbatim>\<open>free_pages_address[MAX_HEAP_PAGES]\<close>\<close>
  "sys_user_free_page cpu va s =
     kbind (user_vm_unmap (pagetable (cur cpu s)) va PGSIZE True s) (\<lambda>s.
     let h = user_heap (cur cpu s); c = free_pages_count h in
     if unat c \<ge> MAX_HEAP_PAGES then Inl (Fault ''free_pages_address'')
     else Inr (0, upd_cur cpu (\<lambda>p. p\<lparr>user_heap := h\<lparr>free_pages_address := (free_pages_address h)(unat c := va),
                                                     free_pages_count := c + 1\<rparr>\<rparr>) s))"

definition sys_user_fork ::
  "nat \<Rightarrow> (nat \<Rightarrow> int) \<Rightarrow> ('h, 'z) kernel_scheme \<Rightarrow> kerr + (int \<times> ('h, 'z) kernel_scheme)" where
  "sys_user_fork cpu junk s = do_fork cpu junk (current s cpu) s"

definition sys_user_wait ::
  "nat \<Rightarrow> int \<Rightarrow> ('h, 'z) kernel_scheme \<Rightarrow> kerr + (int option \<times> ('h, 'z) kernel_scheme)" where
  "sys_user_wait cpu n s = process_wait cpu n s"

definition sys_user_yield :: "nat \<Rightarrow> ('h, 'z) kernel_scheme \<Rightarrow> kerr + (int option \<times> ('h, 'z) kernel_scheme)" where
  "sys_user_yield cpu s =
     kbind (insert_to_ready_queue (current s cpu) s) (\<lambda>s. kbind (schedule 0 cpu s) (\<lambda>s. Inr (None, s)))"

section \<open>Files\<close>

definition relative_path :: "cstring \<Rightarrow> cstring \<Rightarrow> cstring" where
  \<comment> \<open>\<^verbatim>\<open>pathb\<close> of \<^verbatim>\<open>sys_user_open\<close> for the name of the working directory and the path\<close>
  "relative_path cwd pth =
     (if char_at pth 0 = 46 \<and> char_at pth 1 = 46 then cwd
      else if char_at pth 0 = 46 then (if cwd = [47] then tl pth else cwd @ tl pth)
      else pth)"

definition cwd_name :: "nat \<Rightarrow> ('h, 'z) kernel_scheme \<Rightarrow> kerr + cstring" where
  "cwd_name cpu s =
     (let cwd = pf_cwd s (pfiles (cur cpu s)) in kbind (nonnull cwd) (\<lambda>_. Inr (d_name (dentries s cwd))))"

definition sys_user_open ::
  "'h frontend \<Rightarrow> nat \<Rightarrow> u64 \<Rightarrow> int \<Rightarrow> ('h, 'z) kernel_scheme \<Rightarrow> kerr + (int \<times> ('h, 'z) kernel_scheme)" where
  "sys_user_open fe cpu pathva flags s =
     kbind (user_string cpu pathva s) (\<lambda>pth.
     kbind (if char_at pth 0 = 46 then cwd_name cpu s else Inr []) (\<lambda>cwd.
     let pathb = relative_path cwd pth in
     if length pathb \<ge> 30 then Inl (Fault ''pathb'') else do_open fe cpu pathb flags s))"

definition chunk :: "u64 \<Rightarrow> u64 \<Rightarrow> u64 \<times> u64" where
  \<comment> \<open>\<^verbatim>\<open>off\<close> and \<^verbatim>\<open>len\<close>: offset in the page of \<^verbatim>\<open>addr\<close> and how much of the \<open>left\<close> bytes fits into it\<close>
  "chunk addr left =
     (let off = addr - ROUNDDOWN addr PGSIZE in
      (off, if left < PGSIZE - off then left else PGSIZE - off))"

definition read_chunk ::
  "'h frontend \<Rightarrow> nat \<Rightarrow> (int \<Rightarrow> bytes) \<Rightarrow> int \<Rightarrow> u64 \<Rightarrow> u64 \<Rightarrow> int \<Rightarrow> ('h, 'z) kernel_scheme \<Rightarrow>
     kerr + (u64 \<times> u64 \<times> ('h, 'z) kernel_scheme)" where
  \<comment> \<open>one turn of the loop: \<^verbatim>\<open>r\<close>, \<^verbatim>\<open>len\<close> and the state; \<open>stk i\<close> is what the buffer of \<^verbatim>\<open>do_read\<close> holds before\<close>
  "read_chunk fe cpu stk fd bufva cnt i s =
     (let addr = bufva + word_of_int i; (off, len) = chunk addr (cnt - word_of_int i) in
      kbind (lookup_pa (pagetable (cur cpu s)) addr s) (\<lambda>pa.
      kbind (do_read fe cpu (stk i) fd (unat len) s) (\<lambda>(r, out, s).
      kbind (write_bytes (pa + off) out s) (\<lambda>s. Inr (word_of_int r, len, s)))))"

partial_function (option) read_loop ::
  "'h frontend \<Rightarrow> nat \<Rightarrow> (int \<Rightarrow> bytes) \<Rightarrow> int \<Rightarrow> u64 \<Rightarrow> u64 \<Rightarrow> int \<Rightarrow> ('h, 'z) kernel_scheme \<Rightarrow>
     (kerr + (int \<times> ('h, 'z) kernel_scheme)) option" where
  "read_loop fe cpu stk fd bufva cnt i s =
     (if word_of_int i < cnt then
        (case read_chunk fe cpu stk fd bufva cnt i s of
           Inl e \<Rightarrow> Some (Inl e)
         | Inr (r, len, s) \<Rightarrow>
             if r < len then Some (Inr (to_i32 (word_of_int i + r), s))
             else read_loop fe cpu stk fd bufva cnt (to_i32 (word_of_int i + r)) s)
      else Some (Inr (sint cnt, s)))"

definition sys_user_read ::
  "'h frontend \<Rightarrow> nat \<Rightarrow> (int \<Rightarrow> bytes) \<Rightarrow> int \<Rightarrow> u64 \<Rightarrow> u64 \<Rightarrow> ('h, 'z) kernel_scheme \<Rightarrow>
     kerr + (int \<times> ('h, 'z) kernel_scheme)" where
  "sys_user_read fe cpu stk fd bufva cnt s =
     (case read_loop fe cpu stk fd bufva cnt 0 s of None \<Rightarrow> Inl Spin | Some r \<Rightarrow> r)"

definition write_chunk ::
  "'h frontend \<Rightarrow> nat \<Rightarrow> int \<Rightarrow> u64 \<Rightarrow> u64 \<Rightarrow> int \<Rightarrow> ('h, 'z) kernel_scheme \<Rightarrow>
     kerr + (u64 \<times> u64 \<times> ('h, 'z) kernel_scheme)" where
  "write_chunk fe cpu fd bufva cnt i s =
     (let addr = bufva + word_of_int i; (off, len) = chunk addr (cnt - word_of_int i) in
      kbind (lookup_pa (pagetable (cur cpu s)) addr s) (\<lambda>pa.
      kbind (read_bytes (unat len) (pa + off) s) (\<lambda>w.
      kbind (do_write fe cpu fd w s) (\<lambda>(r, s). Inr (word_of_int r, len, s)))))"

partial_function (option) write_loop ::
  "'h frontend \<Rightarrow> nat \<Rightarrow> int \<Rightarrow> u64 \<Rightarrow> u64 \<Rightarrow> int \<Rightarrow> ('h, 'z) kernel_scheme \<Rightarrow>
     (kerr + (int \<times> ('h, 'z) kernel_scheme)) option" where
  "write_loop fe cpu fd bufva cnt i s =
     (if word_of_int i < cnt then
        (case write_chunk fe cpu fd bufva cnt i s of
           Inl e \<Rightarrow> Some (Inl e)
         | Inr (r, len, s) \<Rightarrow>
             if r < len then Some (Inr (to_i32 (word_of_int i + r), s))
             else write_loop fe cpu fd bufva cnt (to_i32 (word_of_int i + r)) s)
      else Some (Inr (sint cnt, s)))"

definition sys_user_write ::
  "'h frontend \<Rightarrow> nat \<Rightarrow> int \<Rightarrow> u64 \<Rightarrow> u64 \<Rightarrow> ('h, 'z) kernel_scheme \<Rightarrow> kerr + (int \<times> ('h, 'z) kernel_scheme)" where
  "sys_user_write fe cpu fd bufva cnt s =
     (case write_loop fe cpu fd bufva cnt 0 s of None \<Rightarrow> Inl Spin | Some r \<Rightarrow> r)"

definition sys_user_lseek ::
  "'h frontend \<Rightarrow> nat \<Rightarrow> int \<Rightarrow> int \<Rightarrow> int \<Rightarrow> ('h, 'z) kernel_scheme \<Rightarrow> kerr + (int \<times> ('h, 'z) kernel_scheme)" where
  "sys_user_lseek fe cpu fd offset whence s = do_lseek fe cpu fd offset whence s"

definition sys_user_stat :: "nat \<Rightarrow> int \<Rightarrow> u64 \<Rightarrow> ('h, 'z) kernel_scheme \<Rightarrow> kerr + (int \<times> ('h, 'z) kernel_scheme)" where
  "sys_user_stat cpu fd istat s =
     kbind (user_ptr cpu istat s) (\<lambda>pistat.
     kbind (do_stat cpu fd s) (\<lambda>(r, st).
     kbind (write_bytes pistat (istat_bytes st) s) (\<lambda>s. Inr (r, s))))"

definition sys_user_disk_stat ::
  "nat \<Rightarrow> int \<Rightarrow> u64 \<Rightarrow> ('h, 'z) kernel_scheme \<Rightarrow> kerr + (int \<times> ('h, 'z) kernel_scheme)" where
  "sys_user_disk_stat cpu fd istat s =
     kbind (user_ptr cpu istat s) (\<lambda>pistat.
     kbind (do_disk_stat cpu fd s) (\<lambda>(r, st, s).
     kbind (case st of None \<Rightarrow> Inr s | Some st \<Rightarrow> write_bytes pistat (istat_bytes st) s) (\<lambda>s. Inr (r, s))))"

definition sys_user_close ::
  "'h frontend \<Rightarrow> nat \<Rightarrow> int \<Rightarrow> ('h, 'z) kernel_scheme \<Rightarrow> kerr + (int \<times> ('h, 'z) kernel_scheme)" where
  "sys_user_close fe cpu fd s = do_close fe cpu fd s"

section \<open>Directories\<close>

definition sys_user_opendir ::
  "'h frontend \<Rightarrow> nat \<Rightarrow> u64 \<Rightarrow> ('h, 'z) kernel_scheme \<Rightarrow> kerr + (int \<times> ('h, 'z) kernel_scheme)" where
  "sys_user_opendir fe cpu pathva s = kbind (user_string cpu pathva s) (\<lambda>pth. do_opendir fe cpu pth s)"

definition sys_user_readdir ::
  "nat \<Rightarrow> int \<Rightarrow> u64 \<Rightarrow> ('h, 'z) kernel_scheme \<Rightarrow> kerr + (int \<times> ('h, 'z) kernel_scheme)" where
  "sys_user_readdir cpu fd vdir s =
     kbind (user_ptr cpu vdir s) (\<lambda>pdir.
     kbind (do_readdir cpu fd s) (\<lambda>(r, dir, s).
     kbind (case dir of None \<Rightarrow> Inr s
            | Some (name, inum) \<Rightarrow>
                kbind (write_bytes pdir (name @ [0]) s) (\<lambda>s. write_bytes (pdir + 32) (int_bytes inum) s)) (\<lambda>s.
       Inr (r, s))))"

definition sys_user_mkdir ::
  "'h frontend \<Rightarrow> nat \<Rightarrow> u64 \<Rightarrow> ('h, 'z) kernel_scheme \<Rightarrow> kerr + (int \<times> ('h, 'z) kernel_scheme)" where
  "sys_user_mkdir fe cpu pathva s = kbind (user_string cpu pathva s) (\<lambda>pth. do_mkdir fe pth s)"

definition sys_user_closedir :: "nat \<Rightarrow> int \<Rightarrow> ('h, 'z) kernel_scheme \<Rightarrow> kerr + (int \<times> ('h, 'z) kernel_scheme)" where
  "sys_user_closedir cpu fd s = do_closedir cpu fd s"

definition sys_user_link ::
  "'h frontend \<Rightarrow> nat \<Rightarrow> u64 \<Rightarrow> u64 \<Rightarrow> ('h, 'z) kernel_scheme \<Rightarrow> kerr + (int \<times> ('h, 'z) kernel_scheme)" where
  "sys_user_link fe cpu vfn1 vfn2 s =
     kbind (user_string cpu vfn1 s) (\<lambda>fn1. kbind (user_string cpu vfn2 s) (\<lambda>fn2. do_link fe fn1 fn2 s))"

definition sys_user_unlink ::
  "'h frontend \<Rightarrow> nat \<Rightarrow> u64 \<Rightarrow> ('h, 'z) kernel_scheme \<Rightarrow> kerr + (int \<times> ('h, 'z) kernel_scheme)" where
  "sys_user_unlink fe cpu vfn s = kbind (user_string cpu vfn s) (\<lambda>fn. do_unlink fe fn s)"

definition new_cwd :: "cstring \<Rightarrow> cstring" where
  "new_cwd pth =
     (if char_at pth 0 = 46 \<and> char_at pth 1 = 46 then [47]
      else if char_at pth 0 = 46 \<and> char_at pth 1 = 47 then tl pth else pth)"

definition sys_user_ccwd :: "nat \<Rightarrow> u64 \<Rightarrow> ('h, 'z) kernel_scheme \<Rightarrow> kerr + (int \<times> ('h, 'z) kernel_scheme)" where
  \<comment> \<open>the name of the dentry itself is overwritten\<close>
  "sys_user_ccwd cpu pathva s =
     kbind (user_string cpu pathva s) (\<lambda>pth.
     let cwd = pf_cwd s (pfiles (cur cpu s)) in
     kbind (nonnull cwd) (\<lambda>_.
       if length (new_cwd pth) \<ge> MAX_DENTRY_NAME_LEN then Inl (Fault ''strcpy'')
       else Inr (0, upd_dentry cwd (\<lambda>d. d\<lparr>d_name := new_cwd pth\<rparr>) s)))"

definition sys_user_rcwd :: "nat \<Rightarrow> u64 \<Rightarrow> ('h, 'z) kernel_scheme \<Rightarrow> kerr + (int \<times> ('h, 'z) kernel_scheme)" where
  "sys_user_rcwd cpu pth s =
     kbind (user_ptr cpu pth s) (\<lambda>pa.
     kbind (cwd_name cpu s) (\<lambda>name.
     kbind (write_bytes pa (name @ [0]) s) (\<lambda>s. Inr (0, s))))"

section \<open>Console and backtrace\<close>

definition sys_user_print ::
  "'h frontend \<Rightarrow> nat \<Rightarrow> u64 \<Rightarrow> ('h, 'z) kernel_scheme \<Rightarrow> kerr + (int \<times> ('h, 'z) kernel_scheme)" where
  \<comment> \<open>the string of the user program is the format of \<^verbatim>\<open>sprint\<close>, without arguments\<close>
  "sys_user_print fe cpu buf s =
     kbind (kassert (current s cpu \<noteq> Null) ''current'') (\<lambda>_.
     kbind (user_string cpu buf s) (\<lambda>str.
     kbind (sprint fe str [] s) (\<lambda>s. Inr (0, s))))"

partial_function (option) gets_loop ::
  "'h frontend \<Rightarrow> u64 \<Rightarrow> ('h, 'z) hfs_scheme \<Rightarrow> (kerr + ('h, 'z) hfs_scheme) option" where
  "gets_loop fe pa s =
     (case vgetc fe (file_ptr s 0) s of Inl e \<Rightarrow> Some (Inl e) | Inr (c, s) \<Rightarrow>
        if c = 10 then Some (store_byte pa 0 s)
        else (case store_byte pa c s of Inl e \<Rightarrow> Some (Inl e) | Inr s \<Rightarrow> gets_loop fe (pa + 1) s))"

definition sys_user_gets ::
  "'h frontend \<Rightarrow> nat \<Rightarrow> u64 \<Rightarrow> ('h, 'z) kernel_scheme \<Rightarrow> kerr + (int \<times> ('h, 'z) kernel_scheme)" where
  "sys_user_gets fe cpu str s =
     kbind (kassert (current s cpu \<noteq> Null) ''current'') (\<lambda>_.
     kbind (user_ptr cpu str s) (\<lambda>pa.
     case gets_loop fe pa s of None \<Rightarrow> Inl Spin | Some r \<Rightarrow> kbind r (\<lambda>s. Inr (0, s))))"

definition sys_user_printpa :: "nat \<Rightarrow> u64 \<Rightarrow> ('h, 'z) kernel_scheme \<Rightarrow> kerr + (int \<times> ('h, 'z) kernel_scheme)" where
  "sys_user_printpa cpu va s = kbind (user_ptr cpu va s) (\<lambda>_. Inr (0, s))"

definition symbol_at :: "(nat \<Rightarrow> symbol) \<Rightarrow> u64 \<Rightarrow> kerr + cstring option" where
  \<comment> \<open>the search in \<^verbatim>\<open>sh\<close>: the name that is printed, if any\<close>
  "symbol_at sh a =
     (case find (\<lambda>i. sy_offset (sh i) = 1 \<or> sy_offset (sh i) \<le> a \<and> a < sy_offset (sh (i + 1))) [0..<63] of
        None \<Rightarrow> if sy_offset (sh 63) = 1 then Inr None else Inl (Fault ''sh'')
      | Some i \<Rightarrow> Inr (if sy_offset (sh i) = 1 then None else Some (sy_nm (sh i))))"

fun backtrace ::
  "nat \<Rightarrow> nat \<Rightarrow> u64 \<Rightarrow> u64 \<Rightarrow> ('h, 'z) elfk_scheme \<Rightarrow> kerr + cstring list" where
  \<comment> \<open>the names printed for the next \<open>n\<close> frames; \<open>ar\<close> is the return address read at \<open>va\<close>\<close>
  "backtrace 0 cpu va ar s = Inr []"
| "backtrace (Suc n) cpu va ar s =
     kbind (symbol_at (sh_tab s) ar) (\<lambda>name.
     kbind (user_ptr cpu (va + 16) s) (\<lambda>pa.
     kbind (load pa s) (\<lambda>ar.
     kbind (backtrace n cpu (va + 16) ar s) (\<lambda>names.
       Inr (case name of None \<Rightarrow> names | Some x \<Rightarrow> x # names)))))"

definition sys_user_lab1_challenge1 ::
  "nat \<Rightarrow> u64 \<Rightarrow> ('h, 'z) elfk_scheme \<Rightarrow> kerr + (int \<times> cstring list \<times> ('h, 'z) elfk_scheme)" where
  "sys_user_lab1_challenge1 cpu a1 s =
     kbind (kassert (current s cpu \<noteq> Null) ''current'') (\<lambda>_.
     kbind (load (trapframe (cur cpu s) + TF_sp) s) (\<lambda>sp.
     kbind (user_ptr cpu (sp + 24) s) (\<lambda>pa.
     kbind (load pa s) (\<lambda>ar.
     kbind (backtrace (unat a1) cpu (sp + 24) ar s) (\<lambda>names. Inr (0, names, s))))))"


section \<open>Exec\<close>

definition adopt_process :: "process \<Rightarrow> process \<Rightarrow> process" where
  \<comment> \<open>the assignments of \<^verbatim>\<open>do_exec\<close> from \<^verbatim>\<open>p\<close> to the current process\<close>
  "adopt_process p c = c\<lparr>kstack := kstack p, pagetable := pagetable p, trapframe := trapframe p,
     total_mapped_region := total_mapped_region p, mapped_info := mapped_info p, user_heap := user_heap p,
     p_line := p_line p, p_file := p_file p, p_dir := p_dir p, debugline := debugline p,
     queue_next := queue_next p, tick_count := tick_count p, pfiles := pfiles p, pid := pid p\<rparr>"

definition push_arg :: "u64 \<Rightarrow> u64 \<Rightarrow> u8 list \<Rightarrow> 'z pmm_scheme \<Rightarrow> kerr + 'z pmm_scheme" where
  \<comment> \<open>copy the bytes \<open>arg\<close> 8 below the stack pointer \<open>sp\<close> and put a pointer to them 8 below that\<close>
  "push_arg pt sp arg s =
     kbind (user_va_to_pa pt (sp - 8) s) (\<lambda>p1.
     kbind (write_bytes p1 arg s) (\<lambda>s.
     kbind (user_va_to_pa pt (sp - 16) s) (\<lambda>p2. store p2 (sp - 8) s)))"

definition do_exec ::
  "'h frontend \<Rightarrow> nat \<Rightarrow> u64 \<Rightarrow> u64 \<Rightarrow> ('h, 'z) elfk_scheme \<Rightarrow> kerr + ('h, 'z) elfk_scheme" where
  "do_exec fe cpu str para s =
     kbind (user_ptr cpu str s) (\<lambda>fpa.
     kbind (user_ptr cpu para s) (\<lambda>argv.
     kbind (alloc_process s) (\<lambda>(i, s).
     kbind (read_cstring fpa s) (\<lambda>filename.
     kbind (load_bincode_from_host_elf fe cpu (Proc i) filename s) (\<lambda>s.
     let (_, s) = free_p (current s cpu) s;
         s = upd_cur cpu (adopt_process (pcb s (Proc i))) s in
     kbind (alloc_page s) (\<lambda>(pa, s).
     let va = heap_top (user_heap (cur cpu s));
         s = upd_cur cpu (\<lambda>p. p\<lparr>user_heap := (user_heap p)\<lparr>heap_top := va + PGSIZE\<rparr>\<rparr>) s in
     kbind (get_region (mapped_info (cur cpu s)) 3 s) (\<lambda>r.
     kbind (set_npages (mapped_info (cur cpu s)) 3 (mr_npages r + 1) s) (\<lambda>s.
     kbind (user_vm_map (pagetable (cur cpu s)) va PGSIZE pa (prot_to_type (PROT_WRITE OR PROT_READ) True) s) (\<lambda>s.
     kbind (memset_page pa s) (\<lambda>s.
     kbind (load (trapframe (pcb s (Proc i)) + TF_sp) s) (\<lambda>sp.
     kbind (read_cstring argv s) (\<lambda>arg.
     kbind (push_arg (pagetable (pcb s (Proc i))) sp (arg @ [0]) s) (\<lambda>s.
     kbind (load (trapframe (cur cpu s) + TF_sp) s) (\<lambda>csp.
     kbind (store (trapframe (cur cpu s) + TF_sp) (csp - 16) s) (\<lambda>s.
     kbind (store (trapframe (cur cpu s) + TF_a1) (sp - 16) s) (\<lambda>s.
     kbind (store (trapframe (cur cpu s) + TF_a0) 1 s) (\<lambda>s.
       switch_to cpu (current s cpu) s)))))))))))))))))"

definition sys_user_exec ::
  "'h frontend \<Rightarrow> nat \<Rightarrow> u64 \<Rightarrow> u64 \<Rightarrow> ('h, 'z) elfk_scheme \<Rightarrow> kerr + (int option \<times> ('h, 'z) elfk_scheme)" where
  "sys_user_exec fe cpu str para s = kbind (do_exec fe cpu str para s) (\<lambda>s. Inr (None, s))"

definition syscall_load_bincode_from_host_elf ::
  "'h frontend \<Rightarrow> pref \<Rightarrow> u64 \<Rightarrow> u64 \<Rightarrow> ('h, 'z) elfk_scheme \<Rightarrow> kerr + ('h, 'z) elfk_scheme" where
  \<comment> \<open>the argument is copied without its NUL, before the path is read\<close>
  "syscall_load_bincode_from_host_elf fe p str para s =
     (let pt = pagetable (pcb s p); tf = trapframe (pcb s p) in
      kbind (user_va_to_pa pt str s) (\<lambda>ppa.
      kbind (read_cstring ppa s) (\<lambda>_.
      kbind (user_va_to_pa pt para s) (\<lambda>pa.
      kbind (load (tf + TF_sp) s) (\<lambda>sp.
      kbind (read_cstring pa s) (\<lambda>arg.
      kbind (push_arg pt sp arg s) (\<lambda>s.
      kbind (store (tf + TF_sp) (sp - 16) s) (\<lambda>s.
      kbind (store (tf + TF_a0) 1 s) (\<lambda>s.
      kbind (store (tf + TF_a1) (sp - 16) s) (\<lambda>s.
      kbind (read_cstring ppa s) (\<lambda>pth.
      kbind (vfs_open fe pth O_RDONLY s) (\<lambda>(f, s).
      kbind (load_elf fe f p s) (\<lambda>(ehdr, s).
      kbind (store (trapframe (pcb s p) + TF_epc) (eh_entry ehdr) s) (\<lambda>s.
      kbind (vfs_close fe f s) (\<lambda>(_, s). Inr s)))))))))))))))"

definition sys_user_exec1 ::
  "'h frontend \<Rightarrow> nat \<Rightarrow> u64 \<Rightarrow> u64 \<Rightarrow> ('h, 'z) elfk_scheme \<Rightarrow> kerr + (int \<times> ('h, 'z) elfk_scheme)" where
  "sys_user_exec1 fe cpu str para s =
     kbind (syscall_load_bincode_from_host_elf fe (current s cpu) str para s) (\<lambda>s. Inr (- 1, s))"

section \<open>Dispatch\<close>

definition SYS_user_base :: u64 where "SYS_user_base = 64"
definition SYS_user_print :: u64 where "SYS_user_print = SYS_user_base + 0"
definition SYS_user_exit :: u64 where "SYS_user_exit = SYS_user_base + 1"
definition SYS_user_allocate_page :: u64 where "SYS_user_allocate_page = SYS_user_base + 2"
definition SYS_user_free_page :: u64 where "SYS_user_free_page = SYS_user_base + 3"
definition SYS_user_fork :: u64 where "SYS_user_fork = SYS_user_base + 4"
definition SYS_user_yield :: u64 where "SYS_user_yield = SYS_user_base + 5"
definition SYS_user_open :: u64 where "SYS_user_open = SYS_user_base + 17"
definition SYS_user_read :: u64 where "SYS_user_read = SYS_user_base + 18"
definition SYS_user_write :: u64 where "SYS_user_write = SYS_user_base + 19"
definition SYS_user_lseek :: u64 where "SYS_user_lseek = SYS_user_base + 20"
definition SYS_user_stat :: u64 where "SYS_user_stat = SYS_user_base + 21"
definition SYS_user_disk_stat :: u64 where "SYS_user_disk_stat = SYS_user_base + 22"
definition SYS_user_close :: u64 where "SYS_user_close = SYS_user_base + 23"
definition SYS_user_opendir :: u64 where "SYS_user_opendir = SYS_user_base + 24"
definition SYS_user_readdir :: u64 where "SYS_user_readdir = SYS_user_base + 25"
definition SYS_user_mkdir :: u64 where "SYS_user_mkdir = SYS_user_base + 26"
definition SYS_user_closedir :: u64 where "SYS_user_closedir = SYS_user_base + 27"
definition SYS_user_link :: u64 where "SYS_user_link = SYS_user_base + 28"
definition SYS_user_unlink :: u64 where "SYS_user_unlink = SYS_user_base + 29"
definition SYS_user_wait :: u64 where "SYS_user_wait = SYS_user_base + 30"
definition SYS_user_exec :: u64 where "SYS_user_exec = SYS_user_base + 31"
definition SYS_user_lab1_challenge1 :: u64 where "SYS_user_lab1_challenge1 = SYS_user_base + 32"
definition SYS_user_rcwd :: u64 where "SYS_user_rcwd = SYS_user_base + 33"
definition SYS_user_ccwd :: u64 where "SYS_user_ccwd = SYS_user_base + 34"
definition SYS_user_free :: u64 where "SYS_user_free = SYS_user_base + 35"
definition SYS_user_allocate :: u64 where "SYS_user_allocate = SYS_user_base + 36"
definition SYS_user_sem_new :: u64 where "SYS_user_sem_new = SYS_user_base + 37"
definition SYS_user_sem_P :: u64 where "SYS_user_sem_P = SYS_user_base + 38"
definition SYS_user_sem_V :: u64 where "SYS_user_sem_V = SYS_user_base + 39"
definition SYS_user_printpa :: u64 where "SYS_user_printpa = SYS_user_base + 40"
definition SYS_user_gets :: u64 where "SYS_user_gets = SYS_user_base + 41"
definition SYS_user_exec1 :: u64 where "SYS_user_exec1 = SYS_user_base + 42"

lemmas SYS_defs = SYS_user_base_def SYS_user_print_def SYS_user_exit_def SYS_user_allocate_page_def
  SYS_user_free_page_def SYS_user_fork_def SYS_user_yield_def SYS_user_open_def SYS_user_read_def
  SYS_user_write_def SYS_user_lseek_def SYS_user_stat_def SYS_user_disk_stat_def SYS_user_close_def
  SYS_user_opendir_def SYS_user_readdir_def SYS_user_mkdir_def SYS_user_closedir_def SYS_user_link_def
  SYS_user_unlink_def SYS_user_wait_def SYS_user_exec_def SYS_user_lab1_challenge1_def SYS_user_rcwd_def
  SYS_user_ccwd_def SYS_user_free_def SYS_user_allocate_def SYS_user_sem_new_def SYS_user_sem_P_def
  SYS_user_sem_V_def SYS_user_printpa_def SYS_user_gets_def SYS_user_exec1_def

definition unsig :: "kerr + (u64 \<times> 's) \<Rightarrow> kerr + (int option \<times> 's)" where
  "unsig m = kbind m (\<lambda>(r, s). Inr (Some (uint r), s))"

definition do_syscall ::
  "'h frontend \<Rightarrow> nat \<Rightarrow> (nat \<Rightarrow> int) \<Rightarrow> (int \<Rightarrow> bytes) \<Rightarrow> u64 \<Rightarrow> u64 \<Rightarrow> u64 \<Rightarrow> u64 \<Rightarrow> ('h, 'z) sysk_scheme \<Rightarrow>
     kerr + (int option \<times> ('h, 'z) sysk_scheme)" where
  \<comment> \<open>\<open>junk\<close> and \<open>stk\<close> are uninitialised local arrays of \<^verbatim>\<open>do_fork\<close> and \<^verbatim>\<open>do_read\<close>; \<^verbatim>\<open>a4\<close> to \<^verbatim>\<open>a7\<close> are not used\<close>
  "do_syscall fe cpu junk stk a0 a1 a2 a3 s =
     (let i1 = to_i32 a1; i2 = to_i32 a2; i3 = to_i32 a3 in
      if a0 = SYS_user_print then returns (sys_user_print fe cpu a1 s)
      else if a0 = SYS_user_exit then sys_user_exit cpu a1 s
      else if a0 = SYS_user_allocate_page then unsig (sys_user_allocate_page cpu s)
      else if a0 = SYS_user_free_page then unsig (sys_user_free_page cpu a1 s)
      else if a0 = SYS_user_fork then returns (sys_user_fork cpu junk s)
      else if a0 = SYS_user_yield then sys_user_yield cpu s
      else if a0 = SYS_user_open then returns (sys_user_open fe cpu a1 i2 s)
      else if a0 = SYS_user_read then returns (sys_user_read fe cpu stk i1 a2 a3 s)
      else if a0 = SYS_user_write then returns (sys_user_write fe cpu i1 a2 a3 s)
      else if a0 = SYS_user_lseek then returns (sys_user_lseek fe cpu i1 i2 i3 s)
      else if a0 = SYS_user_stat then returns (sys_user_stat cpu i1 a2 s)
      else if a0 = SYS_user_disk_stat then returns (sys_user_disk_stat cpu i1 a2 s)
      else if a0 = SYS_user_close then returns (sys_user_close fe cpu i1 s)
      else if a0 = SYS_user_opendir then returns (sys_user_opendir fe cpu a1 s)
      else if a0 = SYS_user_readdir then returns (sys_user_readdir cpu i1 a2 s)
      else if a0 = SYS_user_mkdir then returns (sys_user_mkdir fe cpu a1 s)
      else if a0 = SYS_user_closedir then returns (sys_user_closedir cpu i1 s)
      else if a0 = SYS_user_link then returns (sys_user_link fe cpu a1 a2 s)
      else if a0 = SYS_user_unlink then returns (sys_user_unlink fe cpu a1 s)
      else if a0 = SYS_user_wait then sys_user_wait cpu i1 s
      else if a0 = SYS_user_exec then sys_user_exec fe cpu a1 a2 s
      else if a0 = SYS_user_lab1_challenge1 then returns (kbind (sys_user_lab1_challenge1 cpu a1 s) (\<lambda>(r, _, s). Inr (r, s)))
      else if a0 = SYS_user_ccwd then returns (sys_user_ccwd cpu a1 s)
      else if a0 = SYS_user_rcwd then returns (sys_user_rcwd cpu a1 s)
      else if a0 = SYS_user_allocate then unsig (sys_user_better_allocate_page cpu a1 s)
      else if a0 = SYS_user_free then unsig (sys_user_better_free_page a1 s)
      else if a0 = SYS_user_sem_new then returns (sys_user_sem_new i1 s)
      else if a0 = SYS_user_sem_P then sys_user_sem_P cpu i1 s
      else if a0 = SYS_user_sem_V then returns (sys_user_sem_V i1 s)
      else if a0 = SYS_user_printpa then returns (sys_user_printpa cpu a1 s)
      else if a0 = SYS_user_gets then returns (sys_user_gets fe cpu a1 s)
      else if a0 = SYS_user_exec1 then returns (sys_user_exec1 fe cpu a1 a2 s)
      else Inl (Panic ''Unknown syscall''))"

end
