(* ===== verification/Strap.thy ===== *)
theory Strap
  imports Syscall
begin

text \<open>
  Traps from user mode (\<^verbatim>\<open>kernel/strap.c\<close>).  \<^verbatim>\<open>smode_trap_handler\<close> is entered with the registers of the user
  program saved in its trapframe and the cause and address of the trap in \<^verbatim>\<open>scause\<close> and \<^verbatim>\<open>stval\<close>; it always
  ends by entering user mode again.
\<close>

definition CAUSE_USER_ECALL :: u64 where "CAUSE_USER_ECALL = 0x8"
definition CAUSE_LOAD_PAGE_FAULT :: u64 where "CAUSE_LOAD_PAGE_FAULT = 0xd"
definition CAUSE_STORE_PAGE_FAULT :: u64 where "CAUSE_STORE_PAGE_FAULT = 0xf"
definition CAUSE_MTIMER_S_TRAP :: u64 where "CAUSE_MTIMER_S_TRAP = 0x8000000000000001"
definition TF_a2 :: u64 where "TF_a2 = 88"
definition TF_a3 :: u64 where "TF_a3 = 96"

lemmas cause_defs = CAUSE_USER_ECALL_def CAUSE_LOAD_PAGE_FAULT_def CAUSE_STORE_PAGE_FAULT_def CAUSE_MTIMER_S_TRAP_def

definition handle_syscall ::
  "'h frontend \<Rightarrow> nat \<Rightarrow> (nat \<Rightarrow> int) \<Rightarrow> (int \<Rightarrow> bytes) \<Rightarrow> u64 \<Rightarrow> ('h, 'z) sysk_scheme \<Rightarrow>
     kerr + (bool \<times> ('h, 'z) sysk_scheme)" where
  \<comment> \<open>\<open>True\<close> when the call returns; the result then goes to \<^verbatim>\<open>a0\<close> of the trapframe \<open>tf\<close>\<close>
  "handle_syscall fe cpu junk stk tf s =
     kbind (load (tf + TF_epc) s) (\<lambda>epc.
     kbind (store (tf + TF_epc) (epc + 4) s) (\<lambda>s.
     kbind (load (tf + TF_a0) s) (\<lambda>a0.
     kbind (load (tf + TF_a1) s) (\<lambda>a1.
     kbind (load (tf + TF_a2) s) (\<lambda>a2.
     kbind (load (tf + TF_a3) s) (\<lambda>a3.
     kbind (do_syscall fe cpu junk stk a0 a1 a2 a3 s) (\<lambda>(r, s).
       case r of None \<Rightarrow> Inr (False, s)
       | Some v \<Rightarrow> kbind (store (tf + TF_a0) (word_of_int v) s) (\<lambda>s. Inr (True, s)))))))))"

definition handle_mtimer_trap :: "nat \<Rightarrow> ('h, 'z) kernel_scheme \<Rightarrow> ('h, 'z) kernel_scheme" where
  "handle_mtimer_trap cpu s = s\<lparr>g_ticks := g_ticks s + 1, csr_sip := (csr_sip s)(cpu := 0)\<rparr>"

definition handle_user_page_fault ::
  "nat \<Rightarrow> u64 \<Rightarrow> u64 \<Rightarrow> ('h, 'z) kernel_scheme \<Rightarrow> kerr + ('h, 'z) kernel_scheme" where
  \<comment> \<open>\<^verbatim>\<open>*pte&&0x100!=0\<close> is \<^verbatim>\<open>*pte && (0x100 != 0)\<close>: the entry is not 0\<close>
  "handle_user_page_fault cpu mcause stval s =
     (let pt = pagetable (cur cpu s) in
      kbind (lookup_pa pt stval s) (\<lambda>pa.
      kbind (load (trapframe (cur cpu s) + TF_sp) s) (\<lambda>sp.
      if stval < sp \<and> pa = 0 then Inl (Panic ''this address is not available!'')
      else if mcause = CAUSE_STORE_PAGE_FAULT then
        kbind (alloc_page s) (\<lambda>(pa, s).
        kbind (page_walk pt stval True s) (\<lambda>(pte, s).
        kbind (load pte s) (\<lambda>v.
        kbind (if v \<noteq> 0 then store pte (v AND 0xffffeffe) s else Inr s) (\<lambda>s.
        kbind (map_pages pt stval 1 pa (prot_to_type (PROT_WRITE OR PROT_READ) True) s) (\<lambda>(_, s). Inr s)))))
      else Inr s)))"

definition rrsched :: "nat \<Rightarrow> ('h, 'z) kernel_scheme \<Rightarrow> kerr + (bool \<times> ('h, 'z) kernel_scheme)" where
  \<comment> \<open>\<open>True\<close> when it returns\<close>
  "rrsched cpu s =
     (if tick_count (cur cpu s) + 1 \<ge> 2 then
        let s = upd_cur cpu (\<lambda>p. p\<lparr>tick_count := 0\<rparr>) s in
        kbind (insert_to_ready_queue (current s cpu) s) (\<lambda>s.
        kbind (schedule 0 cpu s) (\<lambda>s. Inr (False, s)))
      else Inr (True, upd_cur cpu (\<lambda>p. p\<lparr>tick_count := tick_count p + 1\<rparr>) s))"

definition smode_trap_handler ::
  "'h frontend \<Rightarrow> nat \<Rightarrow> (nat \<Rightarrow> int) \<Rightarrow> (int \<Rightarrow> bytes) \<Rightarrow> u64 \<Rightarrow> u64 \<Rightarrow> ('h, 'z) sysk_scheme \<Rightarrow>
     kerr + ('h, 'z) sysk_scheme" where
  "smode_trap_handler fe cpu junk stk cause stval s =
     (if csr_sstatus s cpu AND SSTATUS_SPP \<noteq> 0 then Inl (Panic ''usertrap: not from user mode'')
      else
        kbind (kassert (current s cpu \<noteq> Null) ''current[tp]'') (\<lambda>_.
        kbind (store (trapframe (cur cpu s) + TF_epc) (csr_sepc s cpu) s) (\<lambda>s.
        kbind (if cause = CAUSE_USER_ECALL then handle_syscall fe cpu junk stk (trapframe (cur cpu s)) s
               else if cause = CAUSE_MTIMER_S_TRAP then rrsched cpu (handle_mtimer_trap cpu s)
               else if cause = CAUSE_STORE_PAGE_FAULT \<or> cause = CAUSE_LOAD_PAGE_FAULT then
                 kbind (handle_user_page_fault cpu cause stval s) (\<lambda>s. Inr (True, s))
               else Inl (Panic ''unexpected exception happened.'')) (\<lambda>(r, s).
          if r then switch_to cpu (current s cpu) s else Inr s))))"

end
