(* ===== verification/HeapProps.thy ===== *)
theory HeapProps
  imports Strap SchedProps
begin

text \<open>
  The memory of a user process: what the page fault handler and the system calls that grow and shrink
  the heap do to its address space.
\<close>

section \<open>Page faults\<close>

lemma map_pages_one:
  \<comment> \<open>mapping one byte is mapping its page\<close>
  assumes "va < MAXVA"
  shows "map_pages pd va 1 pa perm s = map_pages pd (ROUNDDOWN va PGSIZE) PGSIZE pa perm s"
proof -
  let ?r = "ROUNDDOWN va PGSIZE"
  have u: "unat ?r = unat va div 4096 * 4096" by (rule unat_ROUNDDOWN)
  have lt: "unat va < 2 ^ 38" using assms by (simp add: word_less_nat_alt)
  have r: "?r < MAXVA" using u lt by (simp add: word_less_nat_alt)
  have "va div PGSIZE = ?r div PGSIZE" by (simp add: word_unat_eq_iff unat_div_distrib u)
  then have px: "PX 2 ?r = PX 2 va" "PX 1 ?r = PX 1 va" "PX 0 ?r = PX 0 va"
    using same_page_PX [OF assms r] by auto
  have wl: "walk_level 2 ?r True = walk_level 2 va True" "walk_level 1 ?r True = walk_level 1 va True"
    by (simp_all only: fun_eq_iff walk_level_def px) simp_all
  have "(MAXVA \<le> ?r) = (MAXVA \<le> va)" using assms r by (simp only: linorder_not_le [symmetric])
  then have w: "page_walk pd ?r True s = page_walk pd va True s" by (simp only: page_walk_def px wl)
  have "unat ?r + 4096 < 2 ^ 64" using u lt by simp
  then have p: "unat (?r + PGSIZE) = unat ?r + 4096" by (subst unat_plus_small) simp_all
  then have "?r + PGSIZE \<noteq> 0" by auto
  then have "unat (?r + PGSIZE - 1) = unat va div 4096 * 4096 + 4095"
    using p u by (simp add: unat_minus_one)
  then have "ROUNDDOWN (?r + PGSIZE - 1) PGSIZE = ?r"
    by (simp add: word_unat_eq_iff unat_ROUNDDOWN u)
  then show ?thesis by (simp add: map_pages_def w Let_def)
qed

lemma in_page_unique: "ram_page p \<Longrightarrow> ram_page q \<Longrightarrow> in_page a p \<Longrightarrow> in_page a q \<Longrightarrow> p = q"
proof -
  assume r: "ram_page p" "ram_page q" and a: "in_page a p" "in_page a q"
  obtain k k' where k: "unat p = 4096 * k" "unat q = 4096 * k'"
    using r by (auto simp: ram_page_unat mod_eq_0_iff_dvd dvd_def)
  have "k = k'" using a k unfolding in_page_unat [OF r(1)] in_page_unat [OF r(2)] by linarith
  then show ?thesis using k by (simp add: word_unat_eq_iff)
qed

lemma vframe_keeps:
  \<comment> \<open>a page that is neither a table nor free keeps its contents\<close>
  assumes "vframe s s' pd xs ys" "ram_page x" "x \<notin> tables (mem s) pd \<union> set xs" "\<forall>u \<in> tables (mem s) pd \<union> set xs. ram_page u"
  shows "\<forall>b. in_page b x \<longrightarrow> mem s' b = mem s b"
proof (intro allI impI, rule ccontr)
  fix b assume b: "in_page b x" "mem s' b \<noteq> mem s b"
  then obtain u where "u \<in> tables (mem s) pd \<union> set xs" "in_page b u" using assms(1) unfolding vframe_def by auto
  then show False using in_page_unique b(1) assms(2-4) by blast
qed

lemma user_rw_perm: "prot_to_type (PROT_WRITE OR PROT_READ) True = 0xd6"
  by (simp add: prot_to_type_def PROT_defs PTE_defs)

lemma user_rw_ok: "(0xd6 :: u64) < 1024" "accessible 0xd6"
  by (simp_all add: accessible_def PTE_defs)

lemma user_va_to_pa_cong:
  assumes "pt_ok (mem s) pd xs" "pt_ok (mem s') pd ys" "pte_of (mem s') pd v = pte_of (mem s) pd v"
  shows "user_va_to_pa pd v s' = user_va_to_pa pd v s"
  by (simp only: user_va_to_pa_def lookup_pa_spec [OF assms(1)] lookup_pa_spec [OF assms(2)] assms(3))

lemma same_page_range:
  assumes "va < MAXVA"
  shows "ROUNDDOWN va PGSIZE \<le> v \<and> unat v < unat (ROUNDDOWN va PGSIZE) + unat PGSIZE \<longleftrightarrow> v div PGSIZE = va div PGSIZE"
proof -
  have "unat va div 4096 * 4096 \<le> unat v \<and> unat v < unat va div 4096 * 4096 + 4096 \<longleftrightarrow> unat v div 4096 = unat va div 4096"
    by auto
  then show ?thesis by (simp add: word_le_nat_alt unat_ROUNDDOWN word_unat_eq_iff unat_div_distrib)
qed

lemma clear_leaf:
  \<comment> \<open>the page fault handler clears the valid bit of the entry of \<open>va\<close>, if there is one\<close>
  assumes rel: "pmm_rel s xs" and ok: "pt_ok (mem s) pd xs" and len: "2 \<le> length xs" and va: "va < MAXVA"
  defines "e \<equiv> pte_of (mem s) pd va"
  shows "\<exists>pte s1 s2 ys. page_walk pd va True s = Inr (pte, s1) \<and> load pte s1 = Inr e \<and>
     (if e \<noteq> 0 then store pte (e AND 0xffffeffe) s1 else Inr s1) = Inr s2 \<and> vframe s s2 pd xs ys \<and>
     length xs \<le> length ys + 2 \<and> (\<forall>v < MAXVA. pte_of (mem s2) pd v =
       (if v div PGSIZE = va div PGSIZE then e AND 0xffffeffe else pte_of (mem s) pd v))"
proof -
  from page_walk_alloc [OF rel ok len va] obtain s1 t ys where
    w: "page_walk pd va True s = Inr (entry t (PX 0 va), s1)" "grown s s1 pd xs ys"
      "tab (mem s1) pd [PX 2 va, PX 1 va] = Some t" "length xs \<le> length ys + 2" by blast
  let ?pte = "entry t (PX 0 va)"
  have g: "pmm_rel s1 ys" "pt_ok (mem s1) pd ys" "vframe s s1 pd xs ys" "\<forall>v. pte_of (mem s1) pd v = pte_of (mem s) pd v"
    using w(2) grownD [OF w(2)] by (simp_all add: grown_def)
  have rt: "mem_ok ?pte" using pt_okD(1) [OF g(2) _ w(3)] by (simp add: path_def)
  have ld: "mem s1 ?pte = e" using mem_leaf [OF w(3)] g(4) by (simp add: e_def)
  have l: "load ?pte s1 = Inr e" using ld rt by simp
  define s2 where "s2 = s1\<lparr>mem := (mem s1)(?pte := e AND 0xffffeffe)\<rparr>"
  have st: "(if e \<noteq> 0 then store ?pte (e AND 0xffffeffe) s1 else Inr s1) = Inr s2"
  proof (cases "e = 0")
    case True
    then have "(mem s1)(?pte := e AND 0xffffeffe) = mem s1" using ld by (auto simp: fun_eq_iff)
    then show ?thesis using True by (simp add: s2_def)
  qed (use rt in \<open>simp add: s2_def\<close>)
  have "vframe s s2 pd xs ys" unfolding s2_def by (rule vframe_trans [OF g(3) leaf_store_vframe [OF g(1,2) w(3)]])
  moreover have "pte_of (mem s2) pd v = (if v div PGSIZE = va div PGSIZE then e AND 0xffffeffe else pte_of (mem s) pd v)"
    if "v < MAXVA" for v
    using leaf_pte_of [OF g(2) w(3), of "e AND 0xffffeffe" v] same_page_PX [OF va that] g(4) by (auto simp: s2_def)
  ultimately show ?thesis using w(1,4) l st by blast
qed

lemma map_one_page:
  assumes "pmm_rel s xs" "pt_ok (mem s) pd xs" "4 \<le> length xs" "va < MAXVA" "page_aligned x"
    and un: "\<And>v. v < MAXVA \<Longrightarrow> v div PGSIZE = va div PGSIZE \<Longrightarrow> \<not> bit (pte_of (mem s) pd v) 0"
  shows "\<exists>s' ys. user_vm_map pd (ROUNDDOWN va PGSIZE) PGSIZE x 0xd6 s = Inr s' \<and> vframe s s' pd xs ys \<and>
     (\<forall>v < MAXVA. user_va_to_pa pd v s' =
        (if v div PGSIZE = va div PGSIZE then Inr (x + (v AND 0xfff)) else user_va_to_pa pd v s))"
proof -
  let ?r = "ROUNDDOWN va PGSIZE"
  have "unat ?r = unat va div 4096 * 4096" "unat va < 2 ^ 38" using assms(4) by (simp_all add: unat_ROUNDDOWN word_less_nat_alt)
  then have u: "unat ?r + unat PGSIZE \<le> 2 ^ 38" "unat ?r mod 4096 = 0" by simp_all
  have "\<exists>s' ys. user_vm_map pd ?r PGSIZE x 0xd6 s = Inr s' \<and> vframe s s' pd xs ys \<and>
     (\<forall>v < MAXVA. user_va_to_pa pd v s' =
        (if ROUNDDOWN ?r PGSIZE \<le> v \<and> unat v < unat ?r + unat PGSIZE
         then Inr (x + (ROUNDDOWN v PGSIZE - ROUNDDOWN ?r PGSIZE) + (v AND 0xfff)) else user_va_to_pa pd v s))"
  proof (rule user_vm_map_spec [OF assms(1,2), where n = 1])
    fix v assume "v < MAXVA" "ROUNDDOWN ?r PGSIZE \<le> v" "unat v < unat ?r + unat PGSIZE"
    then show "\<not> bit (pte_of (mem s) pd v) 0" using un same_page_range [OF assms(4), of v] by simp
  qed (use assms(3,5) user_rw_ok u in simp_all)
  then obtain s' ys where s': "user_vm_map pd ?r PGSIZE x 0xd6 s = Inr s'" "vframe s s' pd xs ys"
    "\<forall>v < MAXVA. user_va_to_pa pd v s' =
        (if ROUNDDOWN ?r PGSIZE \<le> v \<and> unat v < unat ?r + unat PGSIZE
         then Inr (x + (ROUNDDOWN v PGSIZE - ROUNDDOWN ?r PGSIZE) + (v AND 0xfff)) else user_va_to_pa pd v s)" by blast
  have "user_va_to_pa pd v s' =
      (if v div PGSIZE = va div PGSIZE then Inr (x + (v AND 0xfff)) else user_va_to_pa pd v s)" if "v < MAXVA" for v
  proof -
    have "v div PGSIZE = va div PGSIZE \<Longrightarrow> ROUNDDOWN v PGSIZE - ROUNDDOWN ?r PGSIZE = 0"
      by (simp only: ROUNDDOWN_id [OF ROUNDDOWN_aligned]) (simp add: ROUNDDOWN_def)
    then show ?thesis
      using s'(3) [rule_format, OF that] same_page_range [OF assms(4), of v] by (simp split: if_splits)
  qed
  then show ?thesis using s'(1,2) by blast
qed

text \<open>C17: a store fault at an address of the stack, or of a page that is mapped, maps a fresh page there.  The
  new page translates every address of the faulting page and no other translation changes.  The
  contents of the new page are those it had as a free page: for a page shared after a fork the
  contents of the shared page are not copied.\<close>

theorem store_fault_maps:
  assumes rel: "pmm_rel s (x # xs)" and ok: "pt_ok (mem s) pd (x # xs)" and len: "6 \<le> length xs"
    and pd: "pd = pagetable (cur cpu s)" and va: "va < MAXVA"
    and tf: "ram_page (trapframe (cur cpu s))"
    and avail: "mem s (trapframe (cur cpu s) + TF_sp) \<le> va \<or> lookup_pa pd va s \<noteq> Inr 0"
  shows "\<exists>s'. handle_user_page_fault cpu CAUSE_STORE_PAGE_FAULT va s = Inr s' \<and>
     (\<forall>v < MAXVA. user_va_to_pa pd v s' =
        (if v div PGSIZE = va div PGSIZE then Inr (x + (v AND 0xfff)) else user_va_to_pa pd v s)) \<and>
     (\<forall>a. in_page a x \<longrightarrow> mem s' a = mem s a)"
proof -
  define s1 where "s1 = s\<lparr>g_free_mem_list := mem s x\<rparr>"
  have a: "alloc_page s = Inr (x, s1)" "pmm_rel s1 xs" and m1: "mem s1 = mem s"
    using alloc_page_Cons [OF rel] by (simp_all add: s1_def)
  have ok1: "pt_ok (mem s1) pd xs" unfolding m1 by (rule pt_ok_subset [OF ok]) auto
  have l2: "2 \<le> length xs" using len by simp
  define e where "e = pte_of (mem s) pd va"
  from clear_leaf [OF a(2) ok1 l2 va] obtain pte s2 s3 ys where
    w: "page_walk pd va True s1 = Inr (pte, s2)" "load pte s2 = Inr e"
      "(if e \<noteq> 0 then store pte (e AND 0xffffeffe) s2 else Inr s2) = Inr s3" "vframe s1 s3 pd xs ys"
      "length xs \<le> length ys + 2" and
    p3: "\<forall>v < MAXVA. pte_of (mem s3) pd v = (if v div PGSIZE = va div PGSIZE then e AND 0xffffeffe else pte_of (mem s) pd v)"
    unfolding m1 e_def by blast
  have rel3: "pmm_rel s3 ys" "pt_ok (mem s3) pd ys" using w(4) by (simp_all add: vframe_def)
  have un: "v < MAXVA \<Longrightarrow> v div PGSIZE = va div PGSIZE \<Longrightarrow> \<not> bit (pte_of (mem s3) pd v) 0" for v
    using p3 by (simp add: bit_0 even_and_iff)
  have l4: "4 \<le> length ys" using len w(5) by simp
  have al: "page_aligned x" using rel by (auto simp: pmm_rel_def managed_def ram_page_def)
  from map_one_page [OF rel3 l4 va al un] obtain s' zs where
    s': "user_vm_map pd (ROUNDDOWN va PGSIZE) PGSIZE x 0xd6 s3 = Inr s'" "vframe s3 s' pd ys zs" and
    tr: "\<forall>v < MAXVA. user_va_to_pa pd v s' =
        (if v div PGSIZE = va div PGSIZE then Inr (x + (v AND 0xfff)) else user_va_to_pa pd v s3)" by auto
  have "map_pages pd va 1 x 0xd6 s3 = Inr (0, s')"
    using s'(1) by (auto simp: map_pages_one [OF va] user_vm_map_def kbind_eq_Inr split: if_splits)
  moreover obtain q where "lookup_pa pd va s = Inr q" using lookup_pa_spec [OF ok, of va] by blast
  moreover from this have "\<not> (va < mem s (trapframe (cur cpu s) + TF_sp) \<and> q = 0)" using avail by auto
  moreover have "mem_ok (trapframe (cur cpu s) + TF_sp)"
    using mem_ok_entry [OF tf, of 1] by (simp add: TF_sp_def)
  ultimately have h: "handle_user_page_fault cpu CAUSE_STORE_PAGE_FAULT va s = Inr s'"
    using a(1) w(1-3)
    by (simp only: handle_user_page_fault_def pd [symmetric] Let_def user_rw_perm load_ok kbind_Inr
        prod.case if_False if_True simp_thms)
  have "vframe s1 s' pd xs zs" by (rule vframe_trans [OF w(4) s'(2)])
  then have keep: "\<forall>b. in_page b x \<longrightarrow> mem s' b = mem s b" unfolding m1 [symmetric]
    using ok rel m1 by (intro vframe_keeps) (auto simp: pt_ok_def pmm_rel_def managed_def)
  have "user_va_to_pa pd v s3 = user_va_to_pa pd v s" if "v < MAXVA" "v div PGSIZE \<noteq> va div PGSIZE" for v
    using p3 that by (intro user_va_to_pa_cong [OF ok rel3(2)]) (simp only: if_False)
  then show ?thesis using h keep tr by (simp cong: if_cong)
qed

section \<open>The heap\<close>

lemma pmm_rel_upd_proc [simp]: "pmm_rel (upd_proc p f s) = pmm_rel s"
  by (simp add: fun_eq_iff pmm_rel_def managed_def upd_proc_def)

lemma lookup_upd_proc [simp]: "user_va_to_pa pd v (upd_proc p f s) = user_va_to_pa pd v s"
  by (simp add: user_va_to_pa_def lookup_pa_def page_walk_def walk_level_def load_def upd_proc_def Let_def kbind_def
      split: sum.splits option.splits)

text \<open>C9: heap pages are recycled: after \<^verbatim>\<open>sys_user_free_page\<close> of a mapped heap page the address is unmapped,
  and the next \<^verbatim>\<open>sys_user_allocate_page\<close> returns the same address and maps the same frame there, so
  every address translates as before the two calls and the heap has the same size.\<close>

theorem heap_free_allocate:
  assumes rel: "pmm_rel s xs" and ok: "pt_ok (mem s) pd xs" and len: "4 \<le> length xs"
    and pd: "pd = pagetable (cur cpu s)" and h: "h = user_heap (cur cpu s)"
    and va: "va < heap_top h" "va < MAXVA" "page_aligned va"
    and pte: "pte_of (mem s) pd va = PA2PTE pa OR bits" "bits < 1024" "bit bits 0" "accessible bits"
    and pa: "managed s pa" "pa \<notin> set xs" "pa \<notin> tables (mem s) pd"
    and room: "unat (free_pages_count h) < MAX_HEAP_PAGES"
  shows "\<exists>s1 s2. sys_user_free_page cpu va s = Inr (0, s1) \<and> lookup_pa pd va s1 = Inr 0 \<and>
     sys_user_allocate_page cpu s1 = Inr (va, s2) \<and> heap_top (user_heap (cur cpu s2)) = heap_top h \<and>
     free_pages_count (user_heap (cur cpu s2)) = free_pages_count h \<and>
     (\<forall>v < MAXVA. user_va_to_pa pd v s2 = user_va_to_pa pd v s)"
proof -
  let ?c = "free_pages_count h"
  let ?h1 = "h\<lparr>free_pages_address := (free_pages_address h)(unat ?c := va), free_pages_count := ?c + 1\<rparr>"
  let ?h2 = "?h1\<lparr>free_pages_count := ?c\<rparr>"
  from user_vm_unmap_spec [OF rel ok va(2,3) pte pa, of PGSIZE] obtain s0 m0 h0 where
    u: "user_vm_unmap pd va PGSIZE True s = Inr s0" "pmm_rel s0 (pa # xs)" "pt_ok (mem s0) pd (pa # xs)"
      "s0 = s\<lparr>mem := m0, g_free_mem_list := h0\<rparr>" and
    p0: "\<forall>v < MAXVA. pte_of (mem s0) pd v = (if v div PGSIZE = va div PGSIZE
        then (PA2PTE pa OR bits) AND NOT PTE_V else pte_of (mem s) pd v)" by blast
  define s1 where "s1 = upd_cur cpu (\<lambda>p. p\<lparr>user_heap := ?h1\<rparr>) s0"
  have c0: "cur cpu s0 = cur cpu s" "current s0 = current s" using u(4) by simp_all
  have f: "sys_user_free_page cpu va s = Inr (0, s1)"
    using u(1) c0 room by (simp add: sys_user_free_page_def pd [symmetric] h s1_def Let_def)
  have m1: "mem s1 = mem s0" by (simp add: s1_def)
  have ok1: "pt_ok (mem s1) pd (pa # xs)" and r1: "pmm_rel s1 (pa # xs)" using u(2,3) m1 by (simp_all add: s1_def)
  have lk: "lookup_pa pd va s1 = Inr 0"
    using p0 va(2) by (simp add: lookup_pa_spec [OF ok1] m1 Let_def and.assoc)
  define s2 where "s2 = upd_cur cpu (\<lambda>p. p\<lparr>user_heap := ?h2\<rparr>) (s1\<lparr>g_free_mem_list := mem s1 pa\<rparr>)"
  have r2: "pmm_rel s2 xs" and m2: "mem s2 = mem s0" using alloc_page_Cons [OF r1] m1 by (simp_all add: s2_def)
  have ok2: "pt_ok (mem s2) pd xs" unfolding m2 using u(3) by (rule pt_ok_subset) auto
  have un: "v < MAXVA \<Longrightarrow> v div PGSIZE = va div PGSIZE \<Longrightarrow> \<not> bit (pte_of (mem s2) pd v) 0" for v
    using p0 by (simp add: m2 bit_and_iff bit_not_iff) (simp add: PTE_V_def)
  have al: "page_aligned pa" using pa(1) by (auto simp: managed_def ram_page_def)
  from map_one_page [OF r2 ok2 len va(2) al un] obtain s3 ys where
    s3: "user_vm_map pd va PGSIZE pa 0xd6 s2 = Inr s3" "vframe s2 s3 pd xs ys" and
    tr: "\<forall>v < MAXVA. user_va_to_pa pd v s3 =
        (if v div PGSIZE = va div PGSIZE then Inr (pa + (v AND 0xfff)) else user_va_to_pa pd v s2)" using va(3) by auto
  have "?c + 1 \<noteq> 0" using room by (auto simp: MAX_HEAP_PAGES_def word_unat_eq_iff unat_word_ariths)
  then have "sys_user_allocate_page cpu s1 = Inr (va, s3)"
    using alloc_page_Cons(1) [OF r1] s3(1) room va(1) c0
    by (simp add: sys_user_allocate_page_def s2_def s1_def Let_def user_rw_perm kassert_def pd [symmetric] word_neq_0_conv)
  moreover have "user_heap (cur cpu s3) = ?h2" using s3(2) by (auto simp: vframe_def s2_def s1_def)
  moreover have "user_va_to_pa pd v s3 = user_va_to_pa pd v s" if "v < MAXVA" for v
  proof (cases "v div PGSIZE = va div PGSIZE")
    case True
    then show ?thesis using tr that lookup_valid_page [OF ok va(2) that True pte al] by (metis (full_types))
  next
    case False
    then have "pte_of (mem s2) pd v = pte_of (mem s) pd v" using p0 that by (simp only: m2 if_False)
    then show ?thesis using tr that False user_va_to_pa_cong [OF ok ok2, of v] by (simp only: if_False)
  qed
  ultimately show ?thesis using f lk by auto
qed

section \<open>Witnesses\<close>

definition demo_user :: "unit kernel" where
  \<comment> \<open>process 0 runs on the empty directory at \<open>0x80300000\<close> of \<open>demo_vm\<close>\<close>
  "demo_user = upd_proc (Proc 0) (\<lambda>p. p\<lparr>pagetable := 0x80300000\<rparr>)
     (demo_kernel\<lparr>mem := mem demo_vm, free_mem_start_addr := 0x80200000, free_mem_end_addr := 0x88000000,
        g_free_mem_list := 0x80206000, count_5 := 1\<rparr>)"

lemma demo_user_simps [simp]:
  "mem demo_user = mem demo_vm" "current demo_user cpu = Proc 0"
  "pcb demo_user (Proc 0) = (demo_proc 0)\<lparr>pagetable := 0x80300000\<rparr>"
  by (simp_all add: demo_user_def upd_proc_def)

lemma demo_user_rel: "pmm_rel demo_user demo_free"
  using demo_vm_rel by (simp add: pmm_rel_def managed_def demo_user_def demo_vm_def)

theorem store_fault_maps_witness:
  "\<exists>s'. handle_user_page_fault 0 CAUSE_STORE_PAGE_FAULT 0x7ffff008 demo_user = Inr s' \<and>
     user_va_to_pa 0x80300000 0x7ffff123 s' = Inr 0x80206123"
proof -
  have "\<exists>s'. handle_user_page_fault 0 CAUSE_STORE_PAGE_FAULT 0x7ffff008 demo_user = Inr s' \<and>
     (\<forall>v < MAXVA. user_va_to_pa 0x80300000 v s' =
        (if v div PGSIZE = 0x7ffff008 div PGSIZE then Inr (0x80206000 + (v AND 0xfff))
         else user_va_to_pa 0x80300000 v demo_user)) \<and>
     (\<forall>a. in_page a 0x80206000 \<longrightarrow> mem s' a = mem demo_user a)"
  proof (rule store_fault_maps [where xs = "tl demo_free"])
    show "pmm_rel demo_user (0x80206000 # tl demo_free)" using demo_user_rel by (simp add: demo_free_def)
    show "pt_ok (mem demo_user) 0x80300000 (0x80206000 # tl demo_free)"
      using demo_vm_dir(1) [of "0x80300000"] by (simp add: demo_free_def)
    show "mem demo_user (trapframe (cur 0 demo_user) + TF_sp) \<le> 0x7ffff008 \<or> lookup_pa 0x80300000 0x7ffff008 demo_user \<noteq> Inr 0"
      by (simp add: demo_vm_def demo_proc_def TF_sp_def)
  qed (use demo_tf in \<open>simp_all add: demo_free_def MAXVA_def\<close>)
  then obtain s' where s': "handle_user_page_fault 0 CAUSE_STORE_PAGE_FAULT 0x7ffff008 demo_user = Inr s'"
    "\<forall>v < MAXVA. user_va_to_pa 0x80300000 v s' =
        (if v div PGSIZE = 0x7ffff008 div PGSIZE then Inr (0x80206000 + (v AND 0xfff))
         else user_va_to_pa 0x80300000 v demo_user)" by blast
  then show ?thesis using s'(2) [rule_format, of "0x7ffff123"] by (simp add: MAXVA_def PGSIZE_def)
qed

theorem heap_free_allocate_witness:
  "\<exists>pte s0 s s1 s2. page_walk 0x80300000 0x3ff000 True demo_user = Inr (pte, s0) \<and>
     s = s0\<lparr>mem := (mem s0)(pte := PA2PTE 0x80500000 OR 0xd7)\<rparr> \<and>
     sys_user_free_page 0 0x3ff000 s = Inr (0, s1) \<and> sys_user_allocate_page 0 s1 = Inr (0x3ff000, s2) \<and>
     user_va_to_pa 0x80300000 0x3ff123 s2 = user_va_to_pa 0x80300000 0x3ff123 s"
proof -
  let ?pd = "0x80300000 :: u64" and ?va = "0x3ff000 :: u64" and ?pa = "0x80500000 :: u64"
  have ok: "pt_ok (mem demo_user) ?pd demo_free" using demo_vm_dir(1) [of ?pd] by simp
  have va: "?va < MAXVA" by (simp add: MAXVA_def)
  have "2 \<le> length demo_free" by (simp add: demo_free_def)
  from page_walk_alloc [OF demo_user_rel ok this va] obtain s0 t ys where
    w: "page_walk ?pd ?va True demo_user = Inr (entry t (PX 0 ?va), s0)" "grown demo_user s0 ?pd demo_free ys"
      "tab (mem s0) ?pd [PX 2 ?va, PX 1 ?va] = Some t" "length demo_free \<le> length ys + 2" by blast
  define s where "s = s0\<lparr>mem := (mem s0)(entry t (PX 0 ?va) := PA2PTE ?pa OR 0xd7)\<rparr>"
  note g = grownD [OF w(2)]
  have v: "vframe demo_user s ?pd demo_free ys"
    using vframe_trans [OF _ leaf_store_vframe [OF _ _ w(3)]] w(2) g by (auto simp: grown_def s_def)
  then obtain m h where s: "s = demo_user\<lparr>mem := m, g_free_mem_list := h\<rparr>" by (auto simp: vframe_def)
  have "tables (mem demo_user) ?pd = {?pd}" using demo_vm_dir(2) [of ?pd] by simp
  then have "tables (mem s) ?pd \<subseteq> {?pd} \<union> set demo_free" using v by (simp add: vframe_def)
  moreover obtain zs where "demo_free = zs @ ys" using v by (auto simp: vframe_def)
  moreover from this have "set ys \<subseteq> set demo_free" by (metis Un_upper2 set_append)
  moreover have "?pa \<notin> {?pd} \<union> set demo_free" by (simp add: demo_free_def)
  ultimately have new: "?pa \<notin> set ys" "?pa \<notin> tables (mem s) ?pd" by blast+
  have p: "pte_of (mem s) ?pd ?va = PA2PTE ?pa OR 0xd7"
    using leaf_pte_of [of "mem s0" ?pd ys ?va t "PA2PTE ?pa OR 0xd7" ?va] g w(3) by (simp add: s_def)
  have mg: "managed s ?pa"
    by (simp add: s managed_def demo_user_def ram_page_def page_aligned_def layout_defs upd_proc_def)
  have cu: "cur 0 s = (demo_proc 0)\<lparr>pagetable := ?pd\<rparr>" by (simp add: s)
  have "\<exists>s1 s2. sys_user_free_page 0 ?va s = Inr (0, s1) \<and> lookup_pa ?pd ?va s1 = Inr 0 \<and>
     sys_user_allocate_page 0 s1 = Inr (?va, s2) \<and> heap_top (user_heap (cur 0 s2)) = heap_top (user_heap (cur 0 s)) \<and>
     free_pages_count (user_heap (cur 0 s2)) = free_pages_count (user_heap (cur 0 s)) \<and>
     (\<forall>v < MAXVA. user_va_to_pa ?pd v s2 = user_va_to_pa ?pd v s)"
    by (rule heap_free_allocate [where xs = ys and pa = ?pa and bits = "0xd7"])
      (use v w(4) p mg new va in \<open>simp_all add: vframe_def cu demo_proc_def demo_free_def page_aligned_def MAX_HEAP_PAGES_def
         accessible_def PTE_defs\<close>)
  then obtain s1 s2 where "sys_user_free_page 0 ?va s = Inr (0, s1)" "sys_user_allocate_page 0 s1 = Inr (?va, s2)"
    "\<forall>v < MAXVA. user_va_to_pa ?pd v s2 = user_va_to_pa ?pd v s" by blast
  then show ?thesis using w(1) s_def by (auto simp: MAXVA_def)
qed

end
