(* ===== verification/UserLib.thy ===== *)
theory UserLib
  imports Strap
begin

text \<open>
  The library of the applications (\<^verbatim>\<open>user/user_lib.c\<close>).  A routine puts the number of a system call and its
  arguments into the registers \<^verbatim>\<open>a0\<close> to \<^verbatim>\<open>a7\<close> and executes \<^verbatim>\<open>ecall\<close>.  The instruction is the parameter \<open>ec\<close> of
  every routine; \<open>kernel_ecall\<close> is the kernel behind it.  The result is \<open>None\<close> when the kernel switches to
  another process instead of returning.  An argument of type int is a word of 32 bits.
\<close>

section \<open>Calls\<close>

type_synonym 's ecall = "u64 list \<Rightarrow> 's \<Rightarrow> kerr + (u64 option \<times> 's)"

definition do_user_call ::
  "'s ecall \<Rightarrow> u64 \<Rightarrow> u64 \<Rightarrow> u64 \<Rightarrow> u64 \<Rightarrow> u64 \<Rightarrow> u64 \<Rightarrow> u64 \<Rightarrow> u64 \<Rightarrow> 's \<Rightarrow> kerr + (u64 option \<times> 's)" where
  \<comment> \<open>\<^verbatim>\<open>sw a0\<close> stores the low half of the register in an int, which is widened again\<close>
  "do_user_call ec sysnum a1 a2 a3 a4 a5 a6 a7 s =
     kbind (ec [sysnum, a1, a2, a3, a4, a5, a6, a7] s) (\<lambda>(r, s). Inr (map_option (\<lambda>r. scast (ucast r :: u32)) r, s))"

definition to_int :: "kerr + (u64 option \<times> 's) \<Rightarrow> kerr + (int option \<times> 's)" where
  \<comment> \<open>the conversion of the result to int\<close>
  "to_int m = kbind m (\<lambda>(r, s). Inr (map_option to_i32 r, s))"

definition gets :: "'s ecall \<Rightarrow> u64 \<Rightarrow> 's \<Rightarrow> kerr + (int option \<times> 's)" where
  "gets ec str s = to_int (do_user_call ec SYS_user_gets str 0 0 0 0 0 0 s)"

definition printpa :: "'s ecall \<Rightarrow> u64 \<Rightarrow> 's \<Rightarrow> kerr + (unit option \<times> 's)" where
  "printpa ec va s = kbind (do_user_call ec SYS_user_printpa va 0 0 0 0 0 0 s) (\<lambda>(r, s). Inr (map_option (\<lambda>_. ()) r, s))"

definition sem_new :: "'s ecall \<Rightarrow> u32 \<Rightarrow> 's \<Rightarrow> kerr + (int option \<times> 's)" where
  "sem_new ec i s = to_int (do_user_call ec SYS_user_sem_new (scast i) 0 0 0 0 0 0 s)"

definition sem_P :: "'s ecall \<Rightarrow> u32 \<Rightarrow> 's \<Rightarrow> kerr + (int option \<times> 's)" where
  "sem_P ec a1 s = to_int (do_user_call ec SYS_user_sem_P (scast a1) 0 0 0 0 0 0 s)"

definition sem_V :: "'s ecall \<Rightarrow> u32 \<Rightarrow> 's \<Rightarrow> kerr + (int option \<times> 's)" where
  "sem_V ec a1 s = to_int (do_user_call ec SYS_user_sem_V (scast a1) 0 0 0 0 0 0 s)"

definition better_malloc :: "'s ecall \<Rightarrow> u32 \<Rightarrow> 's \<Rightarrow> kerr + (u64 option \<times> 's)" where
  "better_malloc ec n s = do_user_call ec SYS_user_allocate (scast n) 0 0 0 0 0 0 s"

definition better_free :: "'s ecall \<Rightarrow> u64 \<Rightarrow> 's \<Rightarrow> kerr + (unit option \<times> 's)" where
  "better_free ec va s = kbind (do_user_call ec SYS_user_free va 0 0 0 0 0 0 s) (\<lambda>(r, s). Inr (map_option (\<lambda>_. ()) r, s))"

definition print_backtrace :: "'s ecall \<Rightarrow> u32 \<Rightarrow> 's \<Rightarrow> kerr + (int option \<times> 's)" where
  "print_backtrace ec n s = to_int (do_user_call ec SYS_user_lab1_challenge1 (scast n) 0 0 0 0 0 0 s)"

definition exit :: "'s ecall \<Rightarrow> u32 \<Rightarrow> 's \<Rightarrow> kerr + (int option \<times> 's)" where
  "exit ec code s = to_int (do_user_call ec SYS_user_exit (scast code) 0 0 0 0 0 0 s)"

definition naive_malloc :: "'s ecall \<Rightarrow> 's \<Rightarrow> kerr + (u64 option \<times> 's)" where
  "naive_malloc ec s = do_user_call ec SYS_user_allocate_page 0 0 0 0 0 0 0 s"

definition naive_free :: "'s ecall \<Rightarrow> u64 \<Rightarrow> 's \<Rightarrow> kerr + (unit option \<times> 's)" where
  "naive_free ec va s = kbind (do_user_call ec SYS_user_free_page va 0 0 0 0 0 0 s) (\<lambda>(r, s). Inr (map_option (\<lambda>_. ()) r, s))"

definition fork :: "'s ecall \<Rightarrow> 's \<Rightarrow> kerr + (int option \<times> 's)" where
  "fork ec s = to_int (do_user_call ec SYS_user_fork 0 0 0 0 0 0 0 s)"

definition yield :: "'s ecall \<Rightarrow> 's \<Rightarrow> kerr + (unit option \<times> 's)" where
  "yield ec s = kbind (do_user_call ec SYS_user_yield 0 0 0 0 0 0 0 s) (\<lambda>(r, s). Inr (map_option (\<lambda>_. ()) r, s))"

definition open_u :: "'s ecall \<Rightarrow> u64 \<Rightarrow> u32 \<Rightarrow> 's \<Rightarrow> kerr + (int option \<times> 's)" where
  "open_u ec pathname flags s = to_int (do_user_call ec SYS_user_open pathname (scast flags) 0 0 0 0 0 s)"

definition read_u :: "'s ecall \<Rightarrow> u32 \<Rightarrow> u64 \<Rightarrow> u64 \<Rightarrow> 's \<Rightarrow> kerr + (int option \<times> 's)" where
  "read_u ec fd buf cnt s = to_int (do_user_call ec SYS_user_read (scast fd) buf cnt 0 0 0 0 s)"

definition write_u :: "'s ecall \<Rightarrow> u32 \<Rightarrow> u64 \<Rightarrow> u64 \<Rightarrow> 's \<Rightarrow> kerr + (int option \<times> 's)" where
  "write_u ec fd buf cnt s = to_int (do_user_call ec SYS_user_write (scast fd) buf cnt 0 0 0 0 s)"

definition lseek_u :: "'s ecall \<Rightarrow> u32 \<Rightarrow> u32 \<Rightarrow> u32 \<Rightarrow> 's \<Rightarrow> kerr + (int option \<times> 's)" where
  "lseek_u ec fd offset whence s = to_int (do_user_call ec SYS_user_lseek (scast fd) (scast offset) (scast whence) 0 0 0 0 s)"

definition stat_u :: "'s ecall \<Rightarrow> u32 \<Rightarrow> u64 \<Rightarrow> 's \<Rightarrow> kerr + (int option \<times> 's)" where
  "stat_u ec fd istat s = to_int (do_user_call ec SYS_user_stat (scast fd) istat 0 0 0 0 0 s)"

definition disk_stat_u :: "'s ecall \<Rightarrow> u32 \<Rightarrow> u64 \<Rightarrow> 's \<Rightarrow> kerr + (int option \<times> 's)" where
  "disk_stat_u ec fd istat s = to_int (do_user_call ec SYS_user_disk_stat (scast fd) istat 0 0 0 0 0 s)"

definition opendir_u :: "'s ecall \<Rightarrow> u64 \<Rightarrow> 's \<Rightarrow> kerr + (int option \<times> 's)" where
  "opendir_u ec dirname s = to_int (do_user_call ec SYS_user_opendir dirname 0 0 0 0 0 0 s)"

definition readdir_u :: "'s ecall \<Rightarrow> u32 \<Rightarrow> u64 \<Rightarrow> 's \<Rightarrow> kerr + (int option \<times> 's)" where
  "readdir_u ec fd dir s = to_int (do_user_call ec SYS_user_readdir (scast fd) dir 0 0 0 0 0 s)"

definition mkdir_u :: "'s ecall \<Rightarrow> u64 \<Rightarrow> 's \<Rightarrow> kerr + (int option \<times> 's)" where
  "mkdir_u ec pathname s = to_int (do_user_call ec SYS_user_mkdir pathname 0 0 0 0 0 0 s)"

definition closedir_u :: "'s ecall \<Rightarrow> u32 \<Rightarrow> 's \<Rightarrow> kerr + (int option \<times> 's)" where
  "closedir_u ec fd s = to_int (do_user_call ec SYS_user_closedir (scast fd) 0 0 0 0 0 0 s)"

definition link_u :: "'s ecall \<Rightarrow> u64 \<Rightarrow> u64 \<Rightarrow> 's \<Rightarrow> kerr + (int option \<times> 's)" where
  "link_u ec fn1 fn2 s = to_int (do_user_call ec SYS_user_link fn1 fn2 0 0 0 0 0 s)"

definition unlink_u :: "'s ecall \<Rightarrow> u64 \<Rightarrow> 's \<Rightarrow> kerr + (int option \<times> 's)" where
  "unlink_u ec fn s = to_int (do_user_call ec SYS_user_unlink fn 0 0 0 0 0 0 s)"

definition close :: "'s ecall \<Rightarrow> u32 \<Rightarrow> 's \<Rightarrow> kerr + (int option \<times> 's)" where
  "close ec fd s = to_int (do_user_call ec SYS_user_close (scast fd) 0 0 0 0 0 0 s)"

definition wait :: "'s ecall \<Rightarrow> u32 \<Rightarrow> 's \<Rightarrow> kerr + (int option \<times> 's)" where
  "wait ec pd s = to_int (do_user_call ec SYS_user_wait (scast pd) 0 0 0 0 0 0 s)"

definition exec :: "'s ecall \<Rightarrow> u64 \<Rightarrow> u64 \<Rightarrow> 's \<Rightarrow> kerr + (int option \<times> 's)" where
  "exec ec str para s = to_int (do_user_call ec SYS_user_exec str para 0 0 0 0 0 s)"

definition exec1 :: "'s ecall \<Rightarrow> u64 \<Rightarrow> u64 \<Rightarrow> 's \<Rightarrow> kerr + (int option \<times> 's)" where
  "exec1 ec str para s = to_int (do_user_call ec SYS_user_exec1 str para 0 0 0 0 0 s)"

definition read_cwd :: "'s ecall \<Rightarrow> u64 \<Rightarrow> 's \<Rightarrow> kerr + (int option \<times> 's)" where
  "read_cwd ec pth s = to_int (do_user_call ec SYS_user_rcwd pth 0 0 0 0 0 0 s)"

definition change_cwd :: "'s ecall \<Rightarrow> u64 \<Rightarrow> 's \<Rightarrow> kerr + (int option \<times> 's)" where
  "change_cwd ec pth s = to_int (do_user_call ec SYS_user_ccwd pth 0 0 0 0 0 0 s)"

section \<open>Formatted output\<close>

fun user_write :: "nat \<Rightarrow> u64 \<Rightarrow> u8 list \<Rightarrow> ('h, 'z) kernel_scheme \<Rightarrow> kerr + ('h, 'z) kernel_scheme" where
  \<comment> \<open>stores of the running process, through its page table\<close>
  "user_write cpu va [] s = Inr s"
| "user_write cpu va (c # cs) s =
     kbind (user_ptr cpu va s) (\<lambda>pa. kbind (store_byte pa c s) (\<lambda>s. user_write cpu (va + 1) cs s))"

definition printu ::
  "('h, 'z) kernel_scheme ecall \<Rightarrow> nat \<Rightarrow> u64 \<Rightarrow> cstring \<Rightarrow> varg list \<Rightarrow> ('h, 'z) kernel_scheme \<Rightarrow>
     kerr + (int option \<times> ('h, 'z) kernel_scheme)" where
  \<comment> \<open>\<open>out\<close> is the address of the local array of 256 bytes, of which \<^verbatim>\<open>vsnprintf\<close> writes the text and its NUL\<close>
  "printu ec cpu out fmt vl s =
     kbind (vsnprintf (\<lambda>_. 0) 256 fmt vl) (\<lambda>(res, buf).
     kbind (user_write cpu out (map buf [0..<if res < 256 then res + 1 else 256]) s) (\<lambda>s.
     let n = (if res < 256 then res else 256) in
     to_int (do_user_call ec SYS_user_print out (of_nat n) 0 0 0 0 0 s)))"

section \<open>The kernel behind ecall\<close>

definition kernel_ecall ::
  "'h frontend \<Rightarrow> nat \<Rightarrow> (nat \<Rightarrow> int) \<Rightarrow> (int \<Rightarrow> bytes) \<Rightarrow> ('h, 'z) sysk_scheme ecall" where
  "kernel_ecall fe cpu junk stk rs s =
     kbind (do_syscall fe cpu junk stk (rs ! 0) (rs ! 1) (rs ! 2) (rs ! 3) s) (\<lambda>(r, s). Inr (map_option word_of_int r, s))"

definition as_int :: "int \<Rightarrow> int" where
  \<comment> \<open>a result of the kernel as the application sees it\<close>
  "as_int v = sint (word_of_int v :: u32)"

definition seen :: "kerr + (int option \<times> 's) \<Rightarrow> kerr + (int option \<times> 's)" where
  "seen m = kbind m (\<lambda>(r, s). Inr (map_option as_int r, s))"

end
