(* ===== verification/ConsoleProps.thy ===== *)
theory ConsoleProps
  imports Console VfsProps
begin

text \<open>
  What console output sends to the host: the text of \<open>Snprintf\<close> on the standard files of \<open>SpikeFile\<close>.
\<close>

definition console_text :: "cstring \<Rightarrow> cstring" where
  \<comment> \<open>the part of a text that fits the buffer, with its NUL when it does not\<close>
  "console_text t = (if length t < 256 then t else take 255 t @ [0])"

lemma vsnprintf_console_text:
  assumes "fmt_text False False fmt vl = Inr t" "\<forall>a. Num a \<in> set vl \<longrightarrow> sint a \<noteq> - (2 ^ 63)"
  shows "\<exists>out. vsnprintf (\<lambda>_. 0) 256 fmt vl = Inr (length t, out) \<and>
    map out [0..<if length t < 256 then length t else 256] = console_text t"
proof -
  obtain out where out: "vsnprintf (\<lambda>_. 0) 256 fmt vl = Inr (length t, out)"
      "\<forall>i. out i = (if i < length t \<and> i + 1 < 256 then t ! i
                else if i < 256 \<and> i = min (length t) (256 - 1) then 0 else 0)"
    using vsnprintf_spec [OF assms, of "\<lambda>_. 0" 256] by blast
  have "map out [0..<if length t < 256 then length t else 256] = console_text t"
    using out(2) by (auto intro!: nth_equalityI simp: console_text_def nth_append)
  then show ?thesis using out(1) by blast
qed

lemma sprint_text:
  assumes "fmt_text False False fmt vl = Inr t" "\<forall>a. Num a \<in> set vl \<longrightarrow> sint a \<noteq> - (2 ^ 63)"
  shows "sprint fe fmt vl s =
    kbind (spike_file_write fe (stderr s) (console_text t) (int (length (console_text t))) s) (\<lambda>(_, s). Inr s)"
proof -
  obtain out where out: "vsnprintf (\<lambda>_. 0) 256 fmt vl = Inr (length t, out)"
      "map out [0..<if length t < 256 then length t else 256] = console_text t"
    using vsnprintf_console_text [OF assms] by blast
  have "length (console_text t) = (if length t < 256 then length t else 256)"
    by (simp add: console_text_def)
  then show ?thesis
    using out by (simp add: sprint_def vprintk_def Let_def)
qed

text \<open>After \<^verbatim>\<open>spike_file_init\<close>, \<^verbatim>\<open>sprint\<close> sends one write call to the host: descriptor 2, the text that the
  format denotes for its arguments, cut to 255 bytes and a NUL when it does not fit the buffer, and its
  length.  Nothing but the host changes.\<close>

lemma sprint_writes_text:
  assumes "\<forall>i<MAX_FILES. refcnt (spike_files s i) = 0" "\<forall>i. 0 \<le> i \<longrightarrow> i < MAX_FDS \<longrightarrow> spike_fds s i = 0"
    and "file_ptr s 0 \<noteq> 0" "file_ptr s 1 \<noteq> 0" "file_ptr s 2 \<noteq> 0"
    and "fmt_text False False fmt vl = Inr t" "\<forall>a. Num a \<in> set vl \<longrightarrow> sint a \<noteq> - (2 ^ 63)"
  shows "\<exists>s'. spike_file_init s = Inr s' \<and> hst s' = hst s \<and>
    sprint fe fmt vl s' =
      Inr (s'\<lparr>hst := snd (snd (fe HTIFSYS_write [2, int (length (console_text t))] (console_text t) (hst s)))\<rparr>)"
proof -
  obtain s' where s': "spike_file_init s = Inr s'" "spike_base s' = spike_base s" "hst s' = hst s" "kfd (spike_files s' 2) = 2"
    using spike_file_init_std [OF assms(1-5)] by blast
  have "file_index (stderr s') s' = Inr 2"
    by (simp add: stderr_def file_index_def file_ptr_def MAX_FILES_def)
  then have "sprint fe fmt vl s' =
      Inr (s'\<lparr>hst := snd (snd (fe HTIFSYS_write [2, int (length (console_text t))] (console_text t) (hst s)))\<rparr>)"
    using s' by (simp add: sprint_text [OF assms(6,7)] spike_file_write_def frontend_syscall_def split_def Let_def)
  with s'(1,3) show ?thesis by blast
qed

definition demo_log :: "u8 list hfs" where
  \<comment> \<open>a host that keeps what is written\<close>
  "demo_log = fs.extend demo_fs (hfs.fields (\<lambda>_. 0) (\<lambda>_. \<lparr>kfd = - 1, refcnt = 0\<rparr>) 0x80010000 [])"

lemma sprint_writes_text_example:
  \<comment> \<open>\<^verbatim>\<open>"n=%d"\<close> with 7\<close>
  "\<exists>s'. spike_file_init demo_log = Inr s' \<and> hst s' = [] \<and>
     sprint (\<lambda>n args w h. (int (length w), [], h @ w)) [110, 61, 37, 100] [Num 7] s' = Inr (s'\<lparr>hst := [110, 61, 55]\<rparr>)"
proof -
  have "fmt_text False False [110, 61, 37, 100] [Num 7] = Inr [110, 61, 55]"
    by (simp add: va_num_def int_text_def dec_text.simps)
  moreover have "spike_files demo_log i = \<lparr>kfd = - 1, refcnt = 0\<rparr>" "spike_fds demo_log j = 0"
      "spike_base demo_log = 0x80010000" "hst demo_log = []" for i j
    by (simp_all add: demo_log_def fs.defs hfs.defs)
  ultimately show ?thesis
    using sprint_writes_text [of demo_log "[110, 61, 37, 100]" "[Num 7]" "[110, 61, 55]" "\<lambda>n args w h. (int (length w), [], h @ w)"]
    by (simp add: file_ptr_def console_text_def)
qed

end
