(* ===== verification/UserProps.thy ===== *)
theory UserProps
  imports UserLib HeapProps ConsoleProps
begin

text \<open>
  The library of the applications on top of the kernel: every routine reaches its system call with its
  arguments, and \<^verbatim>\<open>printu\<close> reaches the host.
\<close>

section \<open>Arguments and results\<close>

lemma ucast_scast: "ucast (scast x :: u64) = x" for x :: u32
proof (rule bit_word_eqI)
  fix n assume "n < LENGTH(32)"
  then show "bit (ucast (scast x :: u64) :: u32) n = bit x n"
    by (cases "n = 31") (auto simp: bit_simps min_def)
qed

lemma to_i32_scast [simp]: "to_i32 (scast x) = sint x" for x :: u32
  unfolding to_i32_def ucast_scast ..

lemma widen_result: "scast (ucast (word_of_int v :: u64) :: u32) = (word_of_int (as_int v) :: u64)"
  unfolding as_int_def
  by (rule bit_word_eqI) (auto simp: bit_simps bit_sint_iff min_def)

lemma to_i32_result [simp]: "to_i32 (word_of_int (as_int v)) = as_int v"
proof -
  have "to_i32 (word_of_int (as_int v)) = sint (ucast (word_of_int v :: u64) :: u32)"
    unfolding widen_result [symmetric] by simp
  also have "(ucast (word_of_int v :: u64) :: u32) = word_of_int v"
    by (rule bit_word_eqI) (auto simp: bit_simps)
  finally show ?thesis by (simp only: as_int_def)
qed

lemma do_user_call_kernel:
  "do_user_call (kernel_ecall fe cpu junk stk) n a1 a2 a3 a4 a5 a6 a7 s =
   kbind (do_syscall fe cpu junk stk n a1 a2 a3 s) (\<lambda>(r, s). Inr (map_option (\<lambda>v. word_of_int (as_int v)) r, s))"
  by (cases "do_syscall fe cpu junk stk n a1 a2 a3 s")
     (auto simp: do_user_call_def kernel_ecall_def option.map_comp comp_def widen_result)

lemma to_int_call:
  "to_int (do_user_call (kernel_ecall fe cpu junk stk) n a1 a2 a3 a4 a5 a6 a7 s) = seen (do_syscall fe cpu junk stk n a1 a2 a3 s)"
  by (cases "do_syscall fe cpu junk stk n a1 a2 a3 s")
     (auto simp: do_user_call_kernel to_int_def seen_def option.map_comp comp_def)

section \<open>Dispatch\<close>

definition low_half :: "u64 \<Rightarrow> u64" where
  "low_half r = scast (ucast r :: u32)"

lemma low_half_result: "word_of_int (as_int (uint r)) = low_half r"
  using widen_result [of "uint r"] by (simp add: low_half_def)

lemmas int_routines = gets_def sem_new_def sem_P_def sem_V_def exit_def fork_def wait_def exec_def
  exec1_def open_u_def read_u_def write_u_def lseek_u_def stat_u_def disk_stat_u_def close_def opendir_u_def
  readdir_u_def mkdir_u_def closedir_u_def link_u_def unlink_u_def read_cwd_def change_cwd_def print_backtrace_def

lemmas pointer_routines = yield_def naive_malloc_def naive_free_def better_malloc_def better_free_def printpa_def


section \<open>Text in user memory\<close>

lemma read_cstring_bytes:
  assumes "\<forall>i\<le>length t. byte_ok (a + of_nat i)" "\<forall>i<length t. byte_at (mem s) (a + of_nat i) = t ! i"
    and "byte_at (mem s) (a + of_nat (length t)) = 0" "0 \<notin> set t"
  shows "read_cstring a s = Inr t"
  using assms
proof (induction t arbitrary: a)
  case Nil
  then show ?case by (subst read_cstring.simps) (simp add: load_byte_eq)
next
  case (Cons c t)
  have "read_cstring (a + 1) s = Inr t"
  proof (rule Cons.IH)
    show "\<forall>i\<le>length t. byte_ok (a + 1 + of_nat i)" "\<forall>i<length t. byte_at (mem s) (a + 1 + of_nat i) = t ! i"
      using Cons.prems(1,2) by (auto simp: add.assoc dest: spec [of _ "Suc _"])
  qed (use Cons.prems in \<open>simp_all add: add.assoc\<close>)
  moreover have "byte_ok a" "byte_at (mem s) a = c" "c \<noteq> 0"
    using Cons.prems by (auto dest: spec [of _ 0])
  ultimately show ?case by (subst read_cstring.simps) (simp add: load_byte_eq)
qed

text \<open>A process writes to a range of addresses that its page table maps to one frame.\<close>

definition mapped_range :: "nat \<Rightarrow> u64 \<Rightarrow> nat \<Rightarrow> u64 \<Rightarrow> u64 \<Rightarrow> ('h, 'z) kernel_scheme \<Rightarrow> bool" where
  \<comment> \<open>the \<open>n\<close> bytes at \<open>va\<close> are those at \<open>a\<close> in the frame \<open>f\<close>, whatever the frame holds\<close>
  "mapped_range cpu va n a f s \<longleftrightarrow>
     (\<forall>i<n. byte_ok (a + of_nat i) \<and> in_page (word_addr (a + of_nat i)) f \<and>
       (\<forall>m. (\<forall>x. \<not> in_page x f \<longrightarrow> m x = mem s x) \<longrightarrow> user_ptr cpu (va + of_nat i) (s\<lparr>mem := m\<rparr>) = Inr (a + of_nat i)))"

lemma of_nat_eq_offset: "i < 4096 \<Longrightarrow> j < 4096 \<Longrightarrow> a + of_nat i = a + of_nat j \<longleftrightarrow> i = j" for a :: u64
proof -
  assume "i < 4096" "j < 4096"
  then have "(of_nat i :: u64) = of_nat j \<longleftrightarrow> i = j"
    by (simp add: word_unat_eq_iff unat_of_nat)
  then show ?thesis by simp
qed

lemma user_write_range:
  assumes map: "mapped_range cpu va n a f s" "n \<le> 4096"
  shows "k + length bs \<le> n \<Longrightarrow> \<forall>x. \<not> in_page x f \<longrightarrow> m x = mem s x \<Longrightarrow>
    \<exists>m'. user_write cpu (va + of_nat k) bs (s\<lparr>mem := m\<rparr>) = Inr (s\<lparr>mem := m'\<rparr>) \<and> (\<forall>x. \<not> in_page x f \<longrightarrow> m' x = mem s x) \<and>
      (\<forall>i<k. byte_at m' (a + of_nat i) = byte_at m (a + of_nat i)) \<and> (\<forall>i<length bs. byte_at m' (a + of_nat (k + i)) = bs ! i)"
proof (induction bs arbitrary: k m)
  case (Cons c bs)
  let ?a = "a + of_nat k :: u64"
  have k: "user_ptr cpu (va + of_nat k) (s\<lparr>mem := m\<rparr>) = Inr ?a" "byte_ok ?a" "in_page (word_addr ?a) f"
    using map(1) Cons.prems by (auto simp: mapped_range_def)
  obtain m1 where m1: "store_byte ?a c (s\<lparr>mem := m\<rparr>) = Inr (s\<lparr>mem := m1\<rparr>)" "byte_at m1 = (byte_at m)(?a := c)"
      "\<forall>x. x \<noteq> word_addr ?a \<longrightarrow> m1 x = m x"
    using store_byte_spec [OF k(2), of c "s\<lparr>mem := m\<rparr>"] by auto
  have "\<forall>x. \<not> in_page x f \<longrightarrow> m1 x = mem s x"
    using m1(3) k(3) Cons.prems(2) by metis
  then obtain m' where m': "user_write cpu (va + of_nat (Suc k)) bs (s\<lparr>mem := m1\<rparr>) = Inr (s\<lparr>mem := m'\<rparr>)"
      "\<forall>x. \<not> in_page x f \<longrightarrow> m' x = mem s x" "\<forall>i<Suc k. byte_at m' (a + of_nat i) = byte_at m1 (a + of_nat i)"
      "\<forall>i<length bs. byte_at m' (a + of_nat (Suc k + i)) = bs ! i"
    using Cons.IH [of "Suc k" m1] Cons.prems(1) by auto
  have "byte_at m' (a + of_nat i) = byte_at m (a + of_nat i)" if "i < k" for i
    using m'(3) m1(2) that of_nat_eq_offset [of i k a] Cons.prems(1) map(2) by simp
  moreover have "byte_at m' (a + of_nat (k + i)) = (c # bs) ! i" if "i < length (c # bs)" for i
  proof (cases i)
    case 0
    then show ?thesis using m'(3) m1(2) by simp
  next
    case (Suc j)
    then show ?thesis using m'(4) that by (simp add: add.assoc)
  qed
  moreover have "user_write cpu (va + of_nat k) (c # bs) (s\<lparr>mem := m\<rparr>) = Inr (s\<lparr>mem := m'\<rparr>)"
    using m'(1) k(1) m1(1) by (simp add: ac_simps)
  ultimately show ?case using m'(2) by blast
qed auto

lemma fmt_text_plain: "37 \<notin> set t \<Longrightarrow> fmt_text False False t vl = Inr t"
  by (induction t) auto

lemma unat_offset: "unat (va AND 0xfff) = unat va mod 4096" for va :: u64
proof -
  have "va AND 0xfff = take_bit 12 va"
    by (simp add: take_bit_eq_mask mask_eq_exp_minus_1)
  then show ?thesis
    by (simp add: take_bit_eq_mod unat_mod_distrib)
qed

lemma frame_byte:
  assumes f: "ram_page f" and x: "unat x = unat f + d" "d < 4096"
  shows "byte_ok x \<and> in_page (word_addr x) f"
proof -
  obtain k where k: "unat f = 4096 * k" using f by (auto simp: ram_page_unat)
  have "unat (word_addr x) = 4096 * k + d div 8 * 8"
  proof -
    have "(4096 * k + d) div 8 = 512 * k + d div 8"
      using div_mult_self2 [of 8 d "512 * k"] by (simp add: add.commute)
    then show ?thesis by (simp add: unat_word_addr x k add_mult_distrib)
  qed
  moreover have "d div 8 * 8 < 4096" "(4096 * k + d div 8 * 8) mod 8 = 0"
    using x(2) by (simp_all add: mod_eq_0_iff_dvd)
  moreover have "4096 * k + 4096 \<le> 2281701376" "2147483648 \<le> 4096 * k"
    using f k by (auto simp: ram_page_unat)
  ultimately show ?thesis
    unfolding in_page_unat [OF f] byte_ok_def
    by (simp add: k mem_ok_def word_unat_eq_iff unat_mod_distrib word_le_nat_alt word_less_nat_alt)
qed

lemma page_range_mapped:
  \<comment> \<open>a range inside a page that the tables map to a frame which is not one of them\<close>
  assumes ok: "pt_ok (mem s) pd [f]" "ram_page f" and pd: "pagetable (cur cpu s) = pd"
    and pte: "pte_of (mem s) pd va = PA2PTE f OR bits" "bits < 1024" "bit bits 0" "accessible bits"
    and va: "va < MAXVA" "unat (va AND 0xfff) + n \<le> 4096"
  shows "mapped_range cpu va n (f + (va AND 0xfff)) f s"
proof -
  define d where "d = unat va mod 4096"
  have d: "unat (va AND 0xfff) = d" "d + n \<le> 4096"
    using va(2) by (simp_all add: d_def unat_offset)
  have fb: "unat f + 4096 \<le> 2281701376"
    using ok(2) by (auto simp: ram_page_unat mod_eq_0_iff_dvd dvd_def)
  define q where "q = unat va div 4096"
  have v: "unat va = q * 4096 + d" by (simp add: q_def d_def)
  have "q < 67108864"
    using va(1) by (simp add: q_def word_less_nat_alt MAXVA_def div_less_iff_less_mult)
  have u: "unat (f + (va AND 0xfff) + of_nat i) = unat f + (d + i)" "unat ((va AND 0xfff) + of_nat i) = d + i"
      "unat (va + of_nat i) = q * 4096 + (d + i)" "d + i < 4096" if "i < n" for i
  proof -
    have i: "unat (of_nat i :: u64) = i" using that d(2) by (simp add: unat_of_nat)
    show "d + i < 4096" using that d(2) by simp
    show w: "unat ((va AND 0xfff) + of_nat i) = d + i"
      using that d i by (subst unat_plus_small) simp_all
    show "unat (f + (va AND 0xfff) + of_nat i) = unat f + (d + i)"
      unfolding add.assoc using that d(2) fb by (subst unat_plus_small) (simp_all add: w)
    show "unat (va + of_nat i) = q * 4096 + (d + i)"
      using that d(2) v i \<open>q < 67108864\<close> by (subst unat_plus_small) simp_all
  qed
  have tr: "user_ptr cpu (va + of_nat i) (s\<lparr>mem := m\<rparr>) = Inr (f + (va AND 0xfff) + of_nat i)"
    if i: "i < n" and m: "\<forall>x. \<not> in_page x f \<longrightarrow> m x = mem s x" for i m
  proof -
    have "\<forall>u \<in> tables (mem s) pd. \<forall>k < 512. m (entry u k) = mem s (entry u k)"
      using ok m by (auto simp: pt_ok_def)
    note ag = pt_agree [OF this]
    have "user_va_to_pa pd (va + of_nat i) (s\<lparr>mem := m\<rparr>) = Inr (f + (va + of_nat i AND 0xfff))"
    proof (rule lookup_valid_page)
      show "pt_ok (mem (s\<lparr>mem := m\<rparr>)) pd [f]" using ag(4) ok(1) by simp
      show "pte_of (mem (s\<lparr>mem := m\<rparr>)) pd va = PA2PTE f OR bits" using ag(3) pte(1) by simp
      show "va + of_nat i < MAXVA"
        using u(3,4) [OF i] \<open>q < 67108864\<close> by (simp add: word_less_nat_alt MAXVA_def)
      show "(va + of_nat i) div PGSIZE = va div PGSIZE"
        using u(3,4) [OF i] v d(2) i by (simp add: word_unat_eq_iff unat_div_distrib PGSIZE_def)
      show "page_aligned f" using ok(2) by (simp add: ram_page_def)
    qed (use pte va in auto)
    moreover have "va + of_nat i AND 0xfff = (va AND 0xfff) + of_nat i"
      using u(2-4) [OF i] by (simp add: word_unat_eq_iff unat_offset)
    ultimately show ?thesis using pd by (simp add: add.assoc)
  qed
  show ?thesis
    unfolding mapped_range_def using frame_byte [OF ok(2) u(1) u(4)] tr by blast
qed

section \<open>From printu to the host\<close>

lemma vsnprintf_buffer:
  assumes "fmt_text False False fmt vl = Inr t" "\<forall>a. Num a \<in> set vl \<longrightarrow> sint a \<noteq> - (2 ^ 63)" "length t < 256"
  shows "\<exists>out. vsnprintf (\<lambda>_. 0) 256 fmt vl = Inr (length t, out) \<and> map out [0..<Suc (length t)] = t @ [0]"
proof -
  obtain out where out: "vsnprintf (\<lambda>_. 0) 256 fmt vl = Inr (length t, out)"
      "\<forall>i. out i = (if i < length t \<and> i + 1 < 256 then t ! i else if i < 256 \<and> i = min (length t) (256 - 1) then 0 else 0)"
    using vsnprintf_spec [OF assms(1,2), of "\<lambda>_. 0" 256] by blast
  have "map out [0..<Suc (length t)] = t @ [0]"
    using out(2) assms(3) by (intro nth_equalityI) (auto simp: nth_append simp del: upt_Suc)
  then show ?thesis using out(1) by blast
qed

text \<open>C13: \<^verbatim>\<open>printu\<close> prints: the text that its format denotes is formatted into the local buffer of the
  application, reaches the kernel through the page table of the process and is written, byte for byte,
  to the standard error of the host.  This holds for a text of fewer than 256 bytes without NUL and
  without a percent sign, which the kernel would take for a directive.  Apart from the host only the
  frame that holds the buffer changes.\<close>

theorem printu_prints:
  assumes "pt_ok (mem s) (pagetable (cur cpu s)) [f]" "ram_page f" "current s cpu \<noteq> Null"
    and "pte_of (mem s) (pagetable (cur cpu s)) out = PA2PTE f OR bits" "bits < 1024" "bit bits 0" "accessible bits"
    and "out < MAXVA" "unat (out AND 0xfff) + length t + 1 \<le> 4096"
    and "fmt_text False False fmt vl = Inr t" "\<forall>a. Num a \<in> set vl \<longrightarrow> sint a \<noteq> - (2 ^ 63)"
    and "length t < 256" "0 \<notin> set t" "37 \<notin> set t"
  shows "\<exists>m. printu (kernel_ecall fe cpu junk stk) cpu out fmt vl s =
      Inr (Some 0, s\<lparr>mem := m, hst := snd (snd (fe HTIFSYS_write [kfd (spike_files s 2), int (length t)] t (hst s)))\<rparr>) \<and>
    (\<forall>x. \<not> in_page x f \<longrightarrow> m x = mem s x)"
proof -
  let ?a = "f + (out AND 0xfff)" and ?n = "length t + 1"
  have mr: "mapped_range cpu out ?n ?a f s"
    using page_range_mapped [OF assms(1,2) refl assms(4-8), of ?n] assms(9) by simp
  obtain buf where buf: "vsnprintf (\<lambda>_. 0) 256 fmt vl = Inr (length t, buf)" "map buf [0..<Suc (length t)] = t @ [0]"
    using vsnprintf_buffer [OF assms(10-12)] by blast
  obtain m where m: "user_write cpu out (t @ [0]) s = Inr (s\<lparr>mem := m\<rparr>)" "\<forall>x. \<not> in_page x f \<longrightarrow> m x = mem s x"
      "\<forall>i<?n. byte_at m (?a + of_nat i) = (t @ [0]) ! i"
    using user_write_range [OF mr, of 0 "t @ [0]" "mem s"] assms(12) by auto
  let ?s = "s\<lparr>mem := m\<rparr>"
  have "user_ptr cpu out ?s = Inr ?a"
    using mr [unfolded mapped_range_def, rule_format, of 0] m(2) by simp
  moreover have "read_cstring ?a ?s = Inr t"
  proof (rule read_cstring_bytes)
    show "\<forall>i\<le>length t. byte_ok (?a + of_nat i)" using mr by (auto simp: mapped_range_def)
    show "\<forall>i<length t. byte_at (mem ?s) (?a + of_nat i) = t ! i" using m(3) by (simp add: nth_append)
    show "byte_at (mem ?s) (?a + of_nat (length t)) = 0" using m(3) by (simp add: nth_append)
  qed (rule assms(13))
  ultimately have str: "user_string cpu out ?s = Inr t"
    by (simp add: user_string_def)
  have "file_index (stderr ?s) ?s = Inr 2"
    by (simp add: stderr_def file_index_def file_ptr_def MAX_FILES_def)
  then have "sprint fe t [] ?s =
      Inr (?s\<lparr>hst := snd (snd (fe HTIFSYS_write [kfd (spike_files s 2), int (length t)] t (hst s)))\<rparr>)"
    using assms(12) sprint_text [OF fmt_text_plain [OF assms(14)], of "[]" fe ?s]
    by (simp add: console_text_def spike_file_write_def frontend_syscall_def split_def Let_def)
  then have "sys_user_print fe cpu out ?s =
      Inr (0, ?s\<lparr>hst := snd (snd (fe HTIFSYS_write [kfd (spike_files s 2), int (length t)] t (hst s)))\<rparr>)"
    using str assms(3) by (simp add: sys_user_print_def kassert_def)
  then have "printu (kernel_ecall fe cpu junk stk) cpu out fmt vl s =
      Inr (Some 0, ?s\<lparr>hst := snd (snd (fe HTIFSYS_write [kfd (spike_files s 2), int (length t)] t (hst s)))\<rparr>)"
    using buf m(1) assms(12)
    by (simp add: printu_def to_int_call do_syscall_def seen_def returns_def as_int_def del: upt_Suc)
  then show ?thesis using m(2) by auto
qed

definition demo_app :: "u8 list sysk" where
  \<comment> \<open>the processes of \<open>demo_kernel\<close> on the empty directory at \<open>0x80300000\<close>; the host keeps what is written\<close>
  "demo_app = elfk.extend (kernel.extend
      (hfs.extend (demo_log\<lparr>spike_files := (\<lambda>i. \<lparr>kfd = int i, refcnt = 4\<rparr>)\<rparr>)
        (kernel.fields (\<lambda>q. (case q of Proc i \<Rightarrow> demo_proc i | _ \<Rightarrow> demo_proc 31)\<lparr>pagetable := 0x80300000\<rparr>) (\<lambda>_. Proc 0) (Proc 1) (Proc 3)
          1 (\<lambda>_. 0) 7 0 0 (\<lambda>_. 0x80221000) (\<lambda>_. 0) (\<lambda>_. 0) (\<lambda>_. 0) (\<lambda>_. 0) (\<lambda>_. 0) (\<lambda>_. 0) (\<lambda>_. 0)
          0x80007000 0x80003000 0x80007000))
      (elfk.fields (\<lambda>_. \<lparr>sy_nm = [], sy_offset = 0\<rparr>) (\<lambda>_. 0) (\<lambda>_. 0) 0x80020000 0 \<lparr>lt_dir = [], lt_file = [], lt_line = []\<rparr>))
    (sysk.fields 0 0 (\<lambda>_. \<lparr>p_b = \<lambda>_. \<lparr>b_flag = 0, b_start = 0, b_end = 0, b_index = 0\<rparr>,
       p_c = \<lambda>_. \<lparr>b_flag = 0, b_start = 0, b_end = 0, b_index = 0\<rparr>, p_n = 0, p_vaild = 0\<rparr>) 0x400000 0x400000 0 0)"

lemma demo_app_simps [simp]:
  "mem demo_app = mem demo_vm" "current demo_app cpu = Proc 0" "pcb demo_app (Proc i) = (demo_proc i)\<lparr>pagetable := 0x80300000\<rparr>"
  "ready_queue_head demo_app = Proc 1" "wait_queue_head demo_app = Proc 3" "csr_sstatus demo_app cpu = 0"
  "hst demo_app = []" "spike_files demo_app i = \<lparr>kfd = int i, refcnt = 4\<rparr>"
  by (simp_all add: demo_app_def demo_log_def demo_fs_def fs.defs hfs.defs kernel.defs elfk.defs sysk.defs)

lemma demo_app_rel: "pmm_rel demo_app demo_free"
  using demo_vm_rel
  by (simp add: pmm_rel_def managed_def demo_app_def demo_log_def demo_fs_def fs.defs hfs.defs kernel.defs elfk.defs sysk.defs)

abbreviation log_host :: "u8 list frontend" where
  "log_host \<equiv> \<lambda>n args w h. (int (length w), [], h @ w)"

theorem printu_prints_witness:
  \<comment> \<open>\<^verbatim>\<open>printu("n=%d", 7)\<close> with the buffer on the user stack at \<open>0x7fffef00\<close>\<close>
  "\<exists>s m. user_vm_map 0x80300000 0x7fffe000 0x1000 0x80500000 demo_perm demo_app = Inr s \<and>
     printu (kernel_ecall log_host 0 (\<lambda>_. 0) (\<lambda>_ _. 0)) 0 0x7fffef00 [110, 61, 37, 100] [Num 7] s =
     Inr (Some 0, s\<lparr>mem := m, hst := [110, 61, 55]\<rparr>)"
proof -
  let ?pd = "0x80300000 :: u64" and ?f = "0x80500000 :: u64"
  have ok: "pt_ok (mem demo_app) ?pd demo_free" using demo_vm_dir(1) [of ?pd] by simp
  obtain s ys where s: "map_pages ?pd 0x7fffe000 0x1000 ?f demo_perm demo_app = Inr (0, s)" "vframe demo_app s ?pd demo_free ys"
      "\<forall>v < MAXVA. pte_of (mem s) ?pd v =
        (if ROUNDDOWN 0x7fffe000 PGSIZE \<le> v \<and> unat v < unat (0x7fffe000 :: u64) + unat (0x1000 :: u64)
         then PA2PTE (?f + (ROUNDDOWN v PGSIZE - ROUNDDOWN 0x7fffe000 PGSIZE)) OR
              (demo_perm OR PTE_V OR (if pte_of (mem demo_app) ?pd 0x7fffe000 = 0x100 then 0x100 else 0))
         else pte_of (mem demo_app) ?pd v)"
    using map_pages_spec [OF demo_app_rel ok, of "0x7fffe000" "0x1000" 1 demo_perm ?f] demo_vm_dir(3) [of ?pd] demo_perm_ok
    by (auto simp: demo_free_def)
  have pte: "pte_of (mem s) ?pd 0x7fffef00 = PA2PTE ?f OR 0xd7"
    using s(3) [rule_format, of "0x7fffef00"] demo_vm_dir(3) [of ?pd]
    by (simp add: MAXVA_def ROUNDDOWN_def PGSIZE_def demo_perm_eq PTE_defs)
  obtain m h where sm: "s = demo_app\<lparr>mem := m, g_free_mem_list := h\<rparr>" using s(2) by (auto simp: vframe_def)
  have "tables (mem demo_app) ?pd = {?pd}" using demo_vm_dir(2) [of ?pd] by simp
  then have "?f \<notin> tables (mem s) ?pd" using s(2) by (auto simp: vframe_def demo_free_def)
  then have pt: "pt_ok (mem s) ?pd [?f]" using s(2) by (auto simp: vframe_def pt_ok_def)
  have tx: "fmt_text False False [110, 61, 37, 100] [Num 7] = Inr [110, 61, 55]"
    by (simp add: va_num_def int_text_def dec_text.simps)
  have "\<exists>m. printu (kernel_ecall log_host 0 (\<lambda>_. 0) (\<lambda>_ _. 0)) 0 0x7fffef00 [110, 61, 37, 100] [Num 7] s =
      Inr (Some 0, s\<lparr>mem := m, hst := snd (snd (log_host HTIFSYS_write [kfd (spike_files s 2), int (length [110 :: u8, 61, 55])] [110, 61, 55] (hst s)))\<rparr>) \<and>
    (\<forall>x. \<not> in_page x ?f \<longrightarrow> m x = mem s x)"
    by (rule printu_prints [where bits = "0xd7", OF _ _ _ _ _ _ _ _ _ tx])
       (use pt pte in \<open>simp_all add: sm ram_page_def page_aligned_def layout_defs accessible_def PTE_defs MAXVA_def\<close>)
  then show ?thesis using s(1) by (auto simp: user_vm_map_def sm)
qed

end
