(* ===== verification/BlockProps.thy ===== *)
theory BlockProps
  imports HeapProps UserProps
begin

text \<open>
  The allocator of parts of pages (\<open>BlockAlloc\<close>) on a fresh table: which addresses the calls of
  \<^verbatim>\<open>app_singlepageheap_challengex.c\<close> get.
\<close>

section \<open>Sizes\<close>

lemma to_i32_small: "a < 4096 \<Longrightarrow> word_of_int (to_i32 a) = a"
proof -
  assume "a < 4096"
  then have u: "uint a < 4096" by (simp add: word_less_def)
  have "uint (ucast a :: u32) = uint a" using u by (simp add: unsigned_ucast_eq take_bit_int_eq_self)
  then have "to_i32 a = signed_take_bit 31 (uint a)" unfolding to_i32_def sint_uint by simp
  moreover have "signed_take_bit 31 (uint a) = uint a"
    using u order_trans [of "- (2 ^ 31)" 0 "uint a"] by (intro signed_take_bit_int_eq_self) simp_all
  ultimately show ?thesis by simp
qed

lemma size_less: "a < 4096 \<Longrightarrow> (4096 :: u64) > a \<and> (4096 :: u64) \<noteq> a"
  by auto

lemma rest_less:
  assumes "(a :: u64) + b < 4096" "a < 4096" "b < 4096"
  shows "4096 - a > b" "4096 - a \<noteq> b"
proof -
  have "unat (4096 - a) = 4096 - unat a" using unat_sub [of a 4096] assms(2) by simp
  moreover have "unat (a + b) = unat a + unat b" using assms(2,3) by (simp add: unat_add_lem [THEN iffD1] word_less_nat_alt)
  ultimately have "unat b < unat (4096 - a)" using assms(1) by (simp add: word_less_nat_alt)
  then show "4096 - a > b" by (simp add: word_less_nat_alt)
  then show "4096 - a \<noteq> b" by auto
qed

lemma page_aligned_ge: "page_aligned u \<Longrightarrow> 0 < u \<Longrightarrow> 4096 \<le> u"
proof -
  assume "page_aligned u" "0 < u"
  then have "uint u mod 4096 = 0" "0 < uint u" by (simp_all add: page_aligned_uint word_less_def)
  then have "4096 \<le> uint u" by (cases "uint u < 4096") simp_all
  then show ?thesis by (simp add: word_le_def)
qed

lemma heap_sum:
  assumes "4096 \<le> u" "(u :: u64) < MAXVA" "a + b < 4096" "a < 4096" "b < 4096"
  shows "4096 \<le> u + a + b"
proof -
  have "unat (u + a + b) = unat u + unat a + unat b"
    using assms(2,4,5) by (simp add: unat_word_ariths word_less_nat_alt MAXVA_def)
  then show ?thesis using assms(1) by (simp add: word_le_nat_alt)
qed

section \<open>Scans\<close>

lemma upt_100: "[Suc 0..<100] = Suc 0 # 2 # [3..<100]"
  by (simp add: upt_conv_Cons)

lemma alloc_va_first:
  assumes "p_vaild (page_p s 1) = 1"
  shows "block_alloc_va_at a 1 1 s = Inr (Some v, t) \<Longrightarrow> block_alloc_va a s = Inr (v, t)"
    and "b_flag (p_c (page_p s 1) 1) \<noteq> 0 \<Longrightarrow> block_alloc_va_at a 1 2 s = Inr (Some v, t) \<Longrightarrow> block_alloc_va a s = Inr (v, t)"
  using assms by (simp_all add: block_alloc_va_def upt_100 block_alloc_va_at_def [of a "Suc 0" "Suc 0"] Let_def)

lemma alloc_first:
  assumes "p_vaild (page_p s 1) = 1" "block_alloc_at a 1 1 s = Inr (Some v, t)"
  shows "block_alloc a s = Inr (v, t)"
  using assms by (simp add: block_alloc_def upt_100)

lemma free_scan_unused: "\<forall>i \<in> set is. p_vaild (page_p s i) = 0 \<Longrightarrow> free_scan va is j s = Inr s"
  by (induction "is") auto

section \<open>One page\<close>

abbreviation B :: "int \<Rightarrow> u64 \<Rightarrow> u64 \<Rightarrow> int \<Rightarrow> block" where
  "B f b e n \<equiv> \<lparr>b_flag = f, b_start = b, b_end = e, b_index = n\<rparr>"

definition one_page :: "(nat \<Rightarrow> page) \<Rightarrow> int \<Rightarrow> block \<Rightarrow> block \<Rightarrow> block \<Rightarrow> block \<Rightarrow> bool" where
  \<comment> \<open>only entry 1 is in use; the first two blocks of virtual and of physical addresses\<close>
  "one_page P n c1 c2 b1 b2 \<longleftrightarrow> p_vaild (P 1) = 1 \<and> p_n (P 1) = n \<and> p_c (P 1) 1 = c1 \<and> p_c (P 1) 2 = c2 \<and>
     p_b (P 1) 1 = b1 \<and> p_b (P 1) 2 = b2 \<and> (\<forall>i \<ge> 2. p_vaild (P i) = 0)"

lemmas block_steps = upd_b_def upd_c_def upd_page_def split_b_def split_c_def both_def copy_end_def copy_index_def blk_def Let_def

abbreviation blank :: page where
  "blank \<equiv> \<lparr>p_b = \<lambda>_. B 0 0 0 0, p_c = \<lambda>_. B 0 0 0 0, p_n = 0, p_vaild = 0\<rparr>"

lemma first_step:
  assumes "page_p s = (\<lambda>_. blank)" "a < 4096" "u = g_ufree_page s" "u \<noteq> 5"
  shows "\<exists>P. first_pages x [1..<100] a s = Inr (1, s\<lparr>page_p := P, g_ufree_page := u + a, leave_m := 0\<rparr>) \<and>
     one_page P 1 (B 1 u (u + a) 2) (B 0 (u + a) (u + 4096) 2) (B 0 x (x + 4096) 1) (B 0 0 0 0)"
proof -
  let ?b = "(\<lambda>_. B 0 0 0 0)(1 := B 0 x (x + 4096) 1)" and ?z = "\<lambda>_. B 0 0 0 0"
  let ?c = "?z(1 := B 1 u (u + a) 2, 2 := B 0 (u + a) (u + 4096) 2)"
  let ?P = "(\<lambda>_. blank)(1 := \<lparr>p_b = ?b, p_c = ?c, p_n = 1, p_vaild = 1\<rparr>)"
  let ?t = "upd_b 1 1 (\<lambda>b. b\<lparr>b_start := x, b_end := x + PGSIZE, b_index := 1\<rparr>) (new_page 1 a s)"
  have t: "?t = s\<lparr>page_p := (\<lambda>_. blank)(1 := \<lparr>p_b = ?b, p_c = ?z(1 := B 0 u (u + 4096) 1), p_n = 1, p_vaild = 1\<rparr>), g_ufree_page := u + a\<rparr>"
    using assms(1,3) by (simp add: block_steps new_page_def PGSIZE_def)
  have at: "block_alloc_va_at (to_i32 a) 1 1 ?t = Inr (Some u, s\<lparr>page_p := ?P, g_ufree_page := u + a, leave_m := 0\<rparr>)"
    unfolding t using size_less [OF assms(2)]
    by (simp add: block_alloc_va_at_def block_steps to_i32_small [OF assms(2)] fun_upd_def fun_eq_iff)
  have "block_alloc_va (to_i32 a) ?t = Inr (u, s\<lparr>page_p := ?P, g_ufree_page := u + a, leave_m := 0\<rparr>)"
    by (rule alloc_va_first(1) [OF _ at]) (subst t, simp)
  then have "first_pages x [1..<100] a s = Inr (1, s\<lparr>page_p := ?P, g_ufree_page := u + a, leave_m := 0\<rparr>)"
    using assms(1,4) by (simp add: upt_100 Let_def) (simp add: block_steps new_page_def)
  moreover have "one_page ?P 1 (B 1 u (u + a) 2) (B 0 (u + a) (u + 4096) 2) (B 0 x (x + 4096) 1) (B 0 0 0 0)"
    by (simp add: one_page_def)
  ultimately show ?thesis by blast
qed

lemma second_step:
  assumes P: "one_page (page_p s) 1 (B 1 u (u + a) 2) (B 0 (u + a) (u + 4096) 2) (B 0 x (x + 4096) 1) b2"
    and ab: "a < 4096" "b < 4096" "a + b < 4096"
  shows "\<exists>t t'. block_alloc_va (to_i32 b) s = Inr (u + a + b, t) \<and> block_alloc (to_i32 b) t = Inr (x, t') \<and>
     first_m t' = first_m s \<and> one_page (page_p t') 2 (B 1 u (u + a) 2) (B 0 (u + a + b) (u + a + b) 2) (B 1 x (x + b) 2) (B 0 (x + b) (x + 4096) 2)"
proof -
  define t where "t = (upd_c 1 2 (\<lambda>_. B 0 (u + a + b) (u + a + b) 2) s)\<lparr>leave_m := 0\<rparr>"
  define t' where "t' = (upd_page 1 (\<lambda>g. g\<lparr>p_n := 2\<rparr>) (upd_b 1 2 (\<lambda>_. B 0 (x + b) (x + 4096) 2) (upd_b 1 1 (\<lambda>_. B 1 x (x + b) 2) t)))\<lparr>leave_m := 0\<rparr>"
  have r: "u + 4096 - (u + a) > b" "u + 4096 - (u + a) \<noteq> b" using rest_less [OF ab(3,1,2)] by simp_all
  have c: "p_n (page_p s 1) = 1" "p_c (page_p s 1) 1 = B 1 u (u + a) 2" "p_c (page_p s 1) 2 = B 0 (u + a) (u + 4096) 2" "p_vaild (page_p s 1) = 1"
    using P by (simp_all add: one_page_def)
  have "block_alloc_va_at (to_i32 b) 1 2 s = Inr (Some (u + a + b), t)"
    using c r by (simp add: block_alloc_va_at_def block_steps to_i32_small [OF ab(2)] t_def fun_upd_def fun_eq_iff)
  then have 1: "block_alloc_va (to_i32 b) s = Inr (u + a + b, t)" using c by (intro alloc_va_first(2)) simp_all
  have d: "p_n (page_p t 1) = 1" "p_b (page_p t 1) 1 = B 0 x (x + 4096) 1" "p_vaild (page_p t 1) = 1"
    using P by (simp_all add: one_page_def t_def block_steps)
  have "block_alloc_at (to_i32 b) 1 1 t = Inr (Some x, t')"
    using d size_less [OF ab(2)] by (simp add: block_alloc_at_def block_steps to_i32_small [OF ab(2)] t'_def fun_upd_def fun_eq_iff)
  then have 2: "block_alloc (to_i32 b) t = Inr (x, t')" using d by (intro alloc_first) simp_all
  have "one_page (page_p t') 2 (B 1 u (u + a) 2) (B 0 (u + a + b) (u + a + b) 2) (B 1 x (x + b) 2) (B 0 (x + b) (x + 4096) 2)" "first_m t' = first_m s"
    using P by (simp_all add: one_page_def t_def t'_def block_steps)
  with 1 2 show ?thesis by blast
qed

lemma free_step:
  assumes "one_page (page_p s) 2 (B 1 u m 2) (B 0 e e 2) (B 1 x y 2) (B 0 y z 2)"
  shows "\<exists>t. sys_user_better_free_page u s = Inr (0, t) \<and> first_m t = first_m s \<and>
    one_page (page_p t) 2 (B 0 u e 2) (B 0 e e 2) (B 0 x z 2) (B 0 y z 2)"
proof -
  let ?t = "upd_b 1 1 (\<lambda>_. B 0 x z 2) (upd_c 1 1 (\<lambda>_. B 0 u e 2) s)"
  have c: "p_c (page_p s 1) 1 = B 1 u m 2" "p_c (page_p s 1) 2 = B 0 e e 2" "p_b (page_p s 1) 1 = B 1 x y 2" "p_b (page_p s 1) 2 = B 0 y z 2"
      "p_vaild (page_p s 1) = 1" "\<forall>i \<ge> 2. p_vaild (page_p s i) = 0"
    using assms by (simp_all add: one_page_def)
  have "free_block_at 1 1 s = Inr ?t" using c(1-4) by (simp add: free_block_at_def block_steps)
  then have f: "free_scan u (1 # is) 1 s = free_scan u is 2 ?t" for "is"
    using c(1,5) by simp (simp add: block_steps)
  have "free_scan u [2..<100] 2 ?t = Inr ?t" using c(6) by (intro free_scan_unused ballI) (simp add: block_steps del: upt_rec_numeral)
  moreover have "[1..<100] = 1 # [2..<100]" by (simp add: upt_conv_Cons)
  ultimately have "sys_user_better_free_page u s = Inr (0, ?t)"
    by (simp only: sys_user_better_free_page_def block_free_va_def f kbind_Inr prod.case)
  moreover have "one_page (page_p ?t) 2 (B 0 u e 2) (B 0 e e 2) (B 0 x z 2) (B 0 y z 2)" "first_m ?t = first_m s"
    using assms by (simp_all add: one_page_def block_steps)
  ultimately show ?thesis by blast
qed

lemma again_step:
  assumes P: "one_page (page_p s) 2 (B 0 u (u + e) 2) (B 0 (u + e) (u + e) 2) (B 0 x (x + 4096) 2) b2" and f: "b_flag b2 = 0"
    and c: "c < e" "e < 4096"
  shows "\<exists>t t'. block_alloc_va (to_i32 c) s = Inr (u, t) \<and> block_alloc (to_i32 c) t = Inr (x, t')"
proof -
  have c4: "c < 4096" using c by (rule less_trans)
  define t where "t = (upd_c 1 1 (\<lambda>_. B 1 u (u + c) 2) s)\<lparr>leave_m := 0\<rparr>"
  have g: "p_n (page_p s 1) = 2" "p_c (page_p s 1) 1 = B 0 u (u + e) 2" "p_c (page_p s 1) 2 = B 0 (u + e) (u + e) 2" "p_vaild (page_p s 1) = 1"
    using P by (simp_all add: one_page_def)
  have "block_alloc_va_at (to_i32 c) 1 1 s = Inr (Some u, t)"
    using g c by (auto simp: block_alloc_va_at_def block_steps to_i32_small [OF c4] t_def fun_upd_def fun_eq_iff)
  then have 1: "block_alloc_va (to_i32 c) s = Inr (u, t)" using g by (intro alloc_va_first(1)) simp_all
  have d: "p_n (page_p t 1) = 2" "p_b (page_p t 1) 1 = B 0 x (x + 4096) 2" "p_b (page_p t 1) 2 = b2" "p_vaild (page_p t 1) = 1"
    using P by (simp_all add: one_page_def t_def block_steps)
  obtain t' where "block_alloc_at (to_i32 c) 1 1 t = Inr (Some x, t')"
    using d f size_less [OF c4] by (simp add: block_alloc_at_def block_steps to_i32_small [OF c4])
  then have "block_alloc (to_i32 c) t = Inr (x, t')" using d by (intro alloc_first) simp_all
  with 1 show ?thesis by blast
qed

section \<open>The system calls\<close>

lemma user_va_to_pa_frame: "mem s' = mem s \<Longrightarrow> user_va_to_pa pd v s' = user_va_to_pa pd v s"
  by (simp add: user_va_to_pa_def lookup_pa_def page_walk_def walk_level_def load_def Let_def kbind_def split: sum.splits option.splits)

lemma alloc_page_any: "pmm_rel s xs \<Longrightarrow> \<exists>p h. alloc_page s = Inr (p, s\<lparr>g_free_mem_list := h\<rparr>)"
proof (cases xs)
  case Nil
  assume "pmm_rel s xs"
  then have "alloc_page s = Inr (0, s\<lparr>g_free_mem_list := g_free_mem_list s\<rparr>)" using alloc_page_Nil Nil by simp
  then show ?thesis by blast
qed (use alloc_page_Cons(1) in blast)

lemma later_call:
  assumes "first_m s \<noteq> 0" "block_alloc_va (to_i32 a) s = Inr (v, t)" "block_alloc (to_i32 a) t = Inr (w, t')" "v \<noteq> 0" "v \<noteq> 5"
  shows "sys_user_better_allocate_page cpu a s = Inr (v, t')"
  using assms by (simp add: sys_user_better_allocate_page_def allocate_loop.simps)

lemma map_first_one:
  assumes rel: "pmm_rel s xs" "pt_ok (mem s) pd xs" "6 \<le> length xs" and pd: "pd = pagetable (cur cpu s)"
    and u: "g_malloc_page s = u" "u < MAXVA" "page_aligned u" "\<not> bit (pte_of (mem s) pd u) 0" and x: "page_aligned x"
  shows "\<exists>s'. map_first 1 cpu x s = Inr s' \<and> page_p s' = page_p s \<and> first_m s' = first_m s \<and>
    (\<forall>v < MAXVA. user_va_to_pa pd v s' = (if v div PGSIZE = u div PGSIZE then Inr (x + (v AND 0xfff)) else user_va_to_pa pd v s))"
proof -
  have l2: "2 \<le> length xs" using rel(3) by simp
  from page_walk_alloc [OF rel(1,2) l2 u(2)] obtain s1 t ys where
    w: "page_walk pd u True s = Inr (entry t (PX 0 u), s1)" "grown s s1 pd xs ys" "tab (mem s1) pd [PX 2 u, PX 1 u] = Some t"
      "length xs \<le> length ys + 2" by blast
  have g: "pmm_rel s1 ys" "pt_ok (mem s1) pd ys" "\<forall>v. pte_of (mem s1) pd v = pte_of (mem s) pd v"
    using w(2) grownD [OF w(2)] by (simp_all add: grown_def)
  have "mem_ok (entry t (PX 0 u))" using pt_okD(1) [OF g(2) _ w(3)] by (simp add: path_def)
  then have l: "load (entry t (PX 0 u)) s1 = Inr (pte_of (mem s) pd u)" using mem_leaf [OF w(3)] g(3) by simp
  have v: "pte_of (mem s) pd u AND PTE_V = 0" using u(4) and_PTE_V by blast
  have un: "\<not> bit (pte_of (mem s1) pd v) 0" if "v < MAXVA" "v div PGSIZE = u div PGSIZE" for v
  proof -
    have "PX 2 v = PX 2 u" "PX 1 v = PX 1 u" "PX 0 v = PX 0 u" using same_page_PX [OF that(1) u(2)] that(2) by auto
    then have "pte_of m pd v = pte_of m pd u" for m by (simp only: pte_of_def)
    then show ?thesis using u(4) g(3) by metis
  qed
  have "4 \<le> length ys" using rel(3) w(4) by simp
  from map_one_page [OF g(1,2) this u(2) x un] obtain s2 zs where
    m: "user_vm_map pd u PGSIZE x 0xd6 s1 = Inr s2" "vframe s1 s2 pd ys zs"
      "\<forall>v < MAXVA. user_va_to_pa pd v s2 = (if v div PGSIZE = u div PGSIZE then Inr (x + (v AND 0xfff)) else user_va_to_pa pd v s1)"
    using u(3) by auto
  obtain m1 h1 m2 h2 where e: "s1 = s\<lparr>mem := m1, g_free_mem_list := h1\<rparr>" "s2 = s1\<lparr>mem := m2, g_free_mem_list := h2\<rparr>"
    using w(2) m(2) by (auto simp: grown_def vframe_def)
  let ?s3 = "s2\<lparr>g_malloc_page := g_malloc_page s2 + PGSIZE\<rparr>"
  have "pmm_rel ?s3 zs" using m(2) by (simp add: vframe_def pmm_rel_def managed_def)
  then obtain p h where a: "alloc_page ?s3 = Inr (p, ?s3\<lparr>g_free_mem_list := h\<rparr>)"
    using alloc_page_any by blast
  have "map_first 1 cpu x s = Inr (?s3\<lparr>g_free_mem_list := h\<rparr>)"
    using w(1) l v m(1) a u(1) pd by (simp add: e user_rw_perm)
  moreover have "user_va_to_pa pd v (?s3\<lparr>g_free_mem_list := h\<rparr>) = user_va_to_pa pd v s2" for v
    by (rule user_va_to_pa_frame) simp
  moreover have "user_va_to_pa pd v s1 = user_va_to_pa pd v s" for v
    using user_va_to_pa_cong [OF rel(2) g(2)] g(3) by blast
  ultimately show ?thesis using m(3) by (intro exI [of _ "?s3\<lparr>g_free_mem_list := h\<rparr>"]) (simp add: e)
qed

text \<open>C10: the calls of \<^verbatim>\<open>app_singlepageheap_challengex.c\<close>: the first \<^verbatim>\<open>better_malloc\<close> maps one page at the top of the heap
  and returns its start; the second returns an address in the same page, but not the one right after
  the first block: it is off by its own size; after the first block has been freed, a third block that fits
  into the space up to the second one is at the start of the page again.\<close>

theorem single_page_heap:
  assumes rel: "pmm_rel s (x # xs)" "pt_ok (mem s) pd (x # xs)" "6 \<le> length xs" and pd: "pd = pagetable (cur cpu s)"
    and u: "u = g_ufree_page s" "0 < u" "u < MAXVA" "page_aligned u" "\<not> bit (pte_of (mem s) pd u) 0"
    and fresh: "first_m s = 0" "page_p s = (\<lambda>_. blank)"
    and sz: "a < 4096" "b < 4096" "a + b < 4096" "c < a + b"
  shows "\<exists>s1 s2 s3 s4. sys_user_better_allocate_page cpu a s = Inr (u, s1) \<and>
    (\<forall>v < MAXVA. user_va_to_pa pd v s1 = (if v div PGSIZE = u div PGSIZE then Inr (x + (v AND 0xfff)) else user_va_to_pa pd v s)) \<and>
    sys_user_better_allocate_page cpu b s1 = Inr (u + a + b, s2) \<and>
    sys_user_better_free_page u s2 = Inr (0, s3) \<and>
    sys_user_better_allocate_page cpu c s3 = Inr (u, s4)"
proof -
  have "4096 \<le> u" using u(2,4) page_aligned_ge by blast
  then have n: "u \<noteq> 0" "u \<noteq> 5" "u + a + b \<noteq> 0" "u + a + b \<noteq> 5" using u(3) sz(1-3) heap_sum [of u a b] by auto
  let ?t = "s\<lparr>g_free_mem_list := mem s x, g_malloc_page := u, first_m := 1\<rparr>"
  have al: "alloc_page s = Inr (x, s\<lparr>g_free_mem_list := mem s x\<rparr>)" "pmm_rel (s\<lparr>g_free_mem_list := mem s x\<rparr>) xs"
    using alloc_page_Cons [OF rel(1)] by blast+
  have x: "page_aligned x" using rel(1) by (auto simp: pmm_rel_def managed_def ram_page_def)
  obtain P where P: "first_pages x [1..<100] a ?t = Inr (1, ?t\<lparr>page_p := P, g_ufree_page := u + a, leave_m := 0\<rparr>)"
    "one_page P 1 (B 1 u (u + a) 2) (B 0 (u + a) (u + 4096) 2) (B 0 x (x + 4096) 1) (B 0 0 0 0)"
    using first_step [of ?t a u x] fresh(2) sz(1) u(1) n(2) by auto
  let ?t1 = "?t\<lparr>page_p := P, g_ufree_page := u + a, leave_m := 0\<rparr>"
  have "pmm_rel ?t1 xs" "pt_ok (mem ?t1) pd xs"
    using al(2) pt_ok_subset [OF rel(2), of xs] by (auto simp: pmm_rel_def managed_def)
  from map_first_one [OF this rel(3), of cpu u x] obtain s1 where
    s1: "map_first 1 cpu x ?t1 = Inr s1" "page_p s1 = P" "first_m s1 = 1"
      "\<forall>v < MAXVA. user_va_to_pa pd v s1 = (if v div PGSIZE = u div PGSIZE then Inr (x + (v AND 0xfff)) else user_va_to_pa pd v ?t1)"
    using pd u x by auto
  have 1: "sys_user_better_allocate_page cpu a s = Inr (u, s1)"
    using al(1) P(1) s1(1) fresh(1) u(1) by (simp add: sys_user_better_allocate_page_def Let_def del: upt_rec_numeral)
  obtain t2 s2 where t2: "block_alloc_va (to_i32 b) s1 = Inr (u + a + b, t2)" "block_alloc (to_i32 b) t2 = Inr (x, s2)" "first_m s2 = 1"
    "one_page (page_p s2) 2 (B 1 u (u + a) 2) (B 0 (u + a + b) (u + a + b) 2) (B 1 x (x + b) 2) (B 0 (x + b) (x + 4096) 2)"
    using second_step [of s1 u a x _ b] P(2) s1(2,3) sz(1-3) by metis
  have 2: "sys_user_better_allocate_page cpu b s1 = Inr (u + a + b, s2)"
    using s1(3) n(3,4) by (intro later_call [OF _ t2(1,2)]) simp_all
  obtain s3 where s3: "sys_user_better_free_page u s2 = Inr (0, s3)" "first_m s3 = 1"
    "one_page (page_p s3) 2 (B 0 u (u + (a + b)) 2) (B 0 (u + (a + b)) (u + (a + b)) 2) (B 0 x (x + 4096) 2) (B 0 (x + b) (x + 4096) 2)"
    using free_step [OF t2(4)] t2(3) by (auto simp: add.assoc)
  obtain t4 s4 where "block_alloc_va (to_i32 c) s3 = Inr (u, t4)" "block_alloc (to_i32 c) t4 = Inr (x, s4)"
    using again_step [OF s3(3) _ sz(4,3)] by auto
  then have 4: "sys_user_better_allocate_page cpu c s3 = Inr (u, s4)" using s3(2) n(1,2) by (intro later_call) simp_all
  have "user_va_to_pa pd v ?t1 = user_va_to_pa pd v s" for v by (rule user_va_to_pa_frame) simp
  then show ?thesis using 1 2 s3(1) 4 s1(4) by auto
qed

theorem single_page_heap_witness:
  \<comment> \<open>the sizes of the application; its heap starts at \<open>0x400000\<close>\<close>
  "\<exists>s1 s2 s3 s4. sys_user_better_allocate_page 0 100 demo_app = Inr (0x400000, s1) \<and> user_va_to_pa 0x80300000 0x400000 s1 = Inr 0x80206000 \<and>
    sys_user_better_allocate_page 0 50 s1 = Inr (0x400096, s2) \<and> sys_user_better_free_page 0x400000 s2 = Inr (0, s3) \<and>
    sys_user_better_allocate_page 0 50 s3 = Inr (0x400000, s4)"
proof -
  have "g_ufree_page demo_app = 0x400000" "first_m demo_app = 0" "page_p demo_app = (\<lambda>_. blank)"
    by (simp_all add: demo_app_def sysk.defs elfk.defs kernel.defs hfs.defs)
  then have "\<exists>s1 s2 s3 s4. sys_user_better_allocate_page 0 100 demo_app = Inr (0x400000, s1) \<and>
    (\<forall>v < MAXVA. user_va_to_pa 0x80300000 v s1 = (if v div PGSIZE = 0x400000 div PGSIZE then Inr (0x80206000 + (v AND 0xfff))
       else user_va_to_pa 0x80300000 v demo_app)) \<and>
    sys_user_better_allocate_page 0 50 s1 = Inr (0x400000 + 100 + 50, s2) \<and> sys_user_better_free_page 0x400000 s2 = Inr (0, s3) \<and>
    sys_user_better_allocate_page 0 50 s3 = Inr (0x400000, s4)"
    using demo_app_rel demo_vm_dir(1,3) [of "0x80300000"]
    by (intro single_page_heap [where xs = "tl demo_free"]) (simp_all add: demo_free_def page_aligned_def MAXVA_def)
  then show ?thesis by (auto dest: spec [of _ "0x400000"] simp: MAXVA_def)
qed

end
