(* ===== verification/DeviceTree.thy ===== *)
theory DeviceTree
  imports KPrelude
begin

text \<open>
  The flattened device tree (\<^verbatim>\<open>spike_interface/dts_parse.c\<close>) and its two users, which look for the host
  interface (\<^verbatim>\<open>spike_htif.c\<close>) and for the size of the memory (\<^verbatim>\<open>spike_memory.c\<close>).  The tree is a block of
  bytes; a pointer into it is the index of a 32-bit word, and a read outside the block is a fault.  A
  node is passed with its ancestors, the list that the \<^verbatim>\<open>parent\<close> fields link.
\<close>

type_synonym blob = "(nat \<Rightarrow> u8) \<times> nat"   \<comment> \<open>the bytes and their number\<close>

section \<open>Words and strings of the block\<close>

definition bswap :: "u32 \<Rightarrow> u32" where
  "bswap x =
     (let y = push_bit 8 (x AND 0x00FF00FF) OR drop_bit 8 (x AND 0xFF00FF00)
      in push_bit 16 (y AND 0x0000FFFF) OR drop_bit 16 (y AND 0xFFFF0000))"

definition lex_word :: "blob \<Rightarrow> int \<Rightarrow> kerr + u32" where
  \<comment> \<open>the (little-endian) load of \<^verbatim>\<open>lex[0]\<close>\<close>
  "lex_word b p =
     (if 0 \<le> p \<and> 4 * p + 4 \<le> int (snd b) then
        let k = 4 * nat p in
        Inr (ucast (fst b k) OR push_bit 8 (ucast (fst b (k + 1))) OR push_bit 16 (ucast (fst b (k + 2))) OR
             push_bit 24 (ucast (fst b (k + 3))))
      else Inl (Fault ''fdt''))"

definition be_word :: "blob \<Rightarrow> int \<Rightarrow> kerr + u32" where
  "be_word b p = kbind (lex_word b p) (\<lambda>w. Inr (bswap w))"

definition put_word :: "u32 \<Rightarrow> int \<Rightarrow> blob \<Rightarrow> kerr + blob" where
  "put_word w p b =
     (if 0 \<le> p \<and> 4 * p + 4 \<le> int (snd b) then
        let k = 4 * nat p in
        Inr ((fst b)(k := ucast w, k + 1 := ucast (drop_bit 8 w), k + 2 := ucast (drop_bit 16 w),
                     k + 3 := ucast (drop_bit 24 w)), snd b)
      else Inl (Fault ''fdt''))"

function cstr_at :: "blob \<Rightarrow> nat \<Rightarrow> kerr + cstring" where
  "cstr_at b k =
     (if snd b \<le> k then Inl (Fault ''fdt'')
      else if fst b k = 0 then Inr [] else kbind (cstr_at b (k + 1)) (\<lambda>s. Inr (fst b k # s)))"
  by pat_completeness auto
termination by (relation "measure (\<lambda>(b, k). snd b - k)") auto

declare cstr_at.simps [simp del]

section \<open>The scanner\<close>

definition FDT_MAGIC :: u32 where "FDT_MAGIC = 0xd00dfeed"
definition FDT_VERSION :: u32 where "FDT_VERSION = 17"
definition FDT_BEGIN_NODE :: u32 where "FDT_BEGIN_NODE = 1"
definition FDT_END_NODE :: u32 where "FDT_END_NODE = 2"
definition FDT_PROP :: u32 where "FDT_PROP = 3"
definition FDT_NOP :: u32 where "FDT_NOP = 4"
definition FDT_END :: u32 where "FDT_END = 9"

lemmas FDT_defs = FDT_BEGIN_NODE_def FDT_END_NODE_def FDT_PROP_def FDT_NOP_def FDT_END_def

record fdt_scan_node =
  nd_name :: cstring
  address_cells :: int
  size_cells :: int

record fdt_scan_prop =
  pr_name :: cstring
  pr_value :: int
  pr_len :: int

record 'e fdt_cb =
  cb_open :: "(blob \<Rightarrow> fdt_scan_node list \<Rightarrow> 'e \<Rightarrow> kerr + 'e) option"
  cb_prop :: "blob \<Rightarrow> fdt_scan_node list \<Rightarrow> fdt_scan_prop \<Rightarrow> 'e \<Rightarrow> kerr + 'e"
  cb_done :: "(blob \<Rightarrow> fdt_scan_node list \<Rightarrow> 'e \<Rightarrow> kerr + 'e) option"
  cb_close :: "(blob \<Rightarrow> fdt_scan_node list \<Rightarrow> 'e \<Rightarrow> kerr + (int \<times> 'e)) option"

definition call_done :: "'e fdt_cb \<Rightarrow> bool \<Rightarrow> blob \<Rightarrow> fdt_scan_node list \<Rightarrow> 'e \<Rightarrow> kerr + 'e" where
  \<comment> \<open>\<^verbatim>\<open>if (!last && node && cb->done) cb->done(node, cb->extra)\<close>\<close>
  "call_done cb last' b nds e =
     (if \<not> last' \<and> nds \<noteq> [] then (case cb_done cb of Some f \<Rightarrow> f b nds e | None \<Rightarrow> Inr e) else Inr e)"

definition call_open :: "'e fdt_cb \<Rightarrow> blob \<Rightarrow> fdt_scan_node list \<Rightarrow> 'e \<Rightarrow> kerr + 'e" where
  "call_open cb b nds e = (case cb_open cb of Some f \<Rightarrow> f b nds e | None \<Rightarrow> Inr e)"

definition set_cells :: "cstring \<Rightarrow> int \<Rightarrow> fdt_scan_node list \<Rightarrow> fdt_scan_node list" where
  \<comment> \<open>\<^verbatim>\<open>"#address-cells"\<close> and \<^verbatim>\<open>"#size-cells"\<close> are properties of the node itself\<close>
  "set_cells nm v nds =
     (case nds of [] \<Rightarrow> [] | nd # up \<Rightarrow>
        (if nm = [35, 97, 100, 100, 114, 101, 115, 115, 45, 99, 101, 108, 108, 115] then nd\<lparr>address_cells := v\<rparr>
         else if nm = [35, 115, 105, 122, 101, 45, 99, 101, 108, 108, 115] then nd\<lparr>size_cells := v\<rparr> else nd) # up)"

definition is_cells :: "cstring \<Rightarrow> bool" where
  "is_cells nm \<longleftrightarrow> nm = [35, 97, 100, 100, 114, 101, 115, 115, 45, 99, 101, 108, 108, 115] \<or>
     nm = [35, 115, 105, 122, 101, 45, 99, 101, 108, 108, 115]"

definition scan_prop ::
  "'e fdt_cb \<Rightarrow> int \<Rightarrow> blob \<Rightarrow> fdt_scan_node list \<Rightarrow> int \<Rightarrow> 'e \<Rightarrow> kerr + (int \<times> fdt_scan_node list \<times> 'e)" where
  \<comment> \<open>the case \<^verbatim>\<open>FDT_PROP\<close>: the next \<^verbatim>\<open>lex\<close>, the node and the state of the callbacks.  \<open>strs\<close> is the offset of \<^verbatim>\<open>strings\<close>\<close>
  "scan_prop cb strs b nds p e =
     kbind (be_word b (p + 2)) (\<lambda>off.
     kbind (be_word b (p + 1)) (\<lambda>l.
     kbind (cstr_at b (nat (strs + uint off))) (\<lambda>nm.
     let len = sint l in
     kbind (if nds \<noteq> [] \<and> is_cells nm then kbind (be_word b (p + 3)) (\<lambda>v. Inr (set_cells nm (sint v) nds)) else Inr nds) (\<lambda>nds.
     kbind (cb_prop cb b nds \<lparr>pr_name = nm, pr_value = p + 3, pr_len = len\<rparr> e) (\<lambda>e.
       Inr (p + (3 + cdiv (len + 3) 4), nds, e))))))"

partial_function (option) fill_nops :: "int \<Rightarrow> int \<Rightarrow> blob \<Rightarrow> (kerr + blob) option" where
  \<comment> \<open>\<^verbatim>\<open>while (lex != lex_next) *lex++ = bswap(FDT_NOP)\<close>\<close>
  "fill_nops p q b =
     (if p = q then Some (Inr b)
      else case put_word (bswap FDT_NOP) p b of Inl e \<Rightarrow> Some (Inl e) | Inr b \<Rightarrow> fill_nops (p + 1) q b)"

definition close_node ::
  "'e fdt_cb \<Rightarrow> int \<Rightarrow> int \<Rightarrow> blob \<Rightarrow> fdt_scan_node list \<Rightarrow> 'e \<Rightarrow> (kerr + (blob \<times> 'e)) option" where
  "close_node cb p q b nds e =
     (case cb_close cb of None \<Rightarrow> Some (Inr (b, e))
      | Some f \<Rightarrow> (case f b nds e of Inl er \<Rightarrow> Some (Inl er)
          | Inr (r, e) \<Rightarrow> if r = - 1 then map_option (map_sum id (\<lambda>b. (b, e))) (fill_nops p q b) else Some (Inr (b, e))))"

partial_function (option) fdt_scan_helper ::
  "'e fdt_cb \<Rightarrow> int \<Rightarrow> fdt_scan_node list \<Rightarrow> bool \<Rightarrow> fdt_scan_node \<Rightarrow> int \<Rightarrow> blob \<Rightarrow> 'e \<Rightarrow>
     (kerr + (int \<times> fdt_scan_node list \<times> blob \<times> 'e)) option" where
  \<comment> \<open>the loop with \<^verbatim>\<open>last\<close> and \<^verbatim>\<open>child\<close>; \<open>nds\<close> is \<^verbatim>\<open>node\<close> with its ancestors, empty for NULL.  Siblings
     share \<^verbatim>\<open>child\<close>, so the cell counts of one are the initial ones of the next\<close>
  "fdt_scan_helper cb strs nds last' child p b e =
     (case be_word b p of Inl er \<Rightarrow> Some (Inl er)
      | Inr tok \<Rightarrow>
        if tok = FDT_NOP then fdt_scan_helper cb strs nds last' child (p + 1) b e
        else if tok = FDT_PROP then
          (if last' then Some (Inl (Panic ''!last''))
           else case scan_prop cb strs b nds p e of Inl er \<Rightarrow> Some (Inl er)
             | Inr (p, nds, e) \<Rightarrow> fdt_scan_helper cb strs nds last' child p b e)
        else if tok = FDT_BEGIN_NODE then
          (case kbind (call_done cb last' b nds e) (\<lambda>e.
                kbind (cstr_at b (4 * nat (p + 1))) (\<lambda>nm.
                kbind (call_open cb b (child\<lparr>nd_name := nm\<rparr> # nds) e) (\<lambda>e. Inr (nm, e)))) of
             Inl er \<Rightarrow> Some (Inl er)
           | Inr (nm, e) \<Rightarrow>
               Option.bind (fdt_scan_helper cb strs (child\<lparr>nd_name := nm\<rparr> # nds) False
                              \<lparr>nd_name = [], address_cells = 2, size_cells = 1\<rparr> (p + 2 + int (length nm div 4)) b e) (\<lambda>r.
                 case r of Inl er \<Rightarrow> Some (Inl er)
                 | Inr (q, nds', b, e) \<Rightarrow>
                     Option.bind (close_node cb p q b nds' e) (\<lambda>r. case r of Inl er \<Rightarrow> Some (Inl er)
                       | Inr (b, e) \<Rightarrow> fdt_scan_helper cb strs (tl nds') True (hd nds') q b e)))
        else if tok = FDT_END_NODE then
          (case call_done cb last' b nds e of Inl er \<Rightarrow> Some (Inl er) | Inr e \<Rightarrow> Some (Inr (p + 1, nds, b, e)))
        else
          (case call_done cb last' b nds e of Inl er \<Rightarrow> Some (Inl er) | Inr e \<Rightarrow> Some (Inr (p, nds, b, e))))"

definition fdt_scan :: "'e fdt_cb \<Rightarrow> blob \<Rightarrow> 'e \<Rightarrow> kerr + (blob \<times> 'e)" where
  \<comment> \<open>a structure block that is not aligned to words cannot be loaded from; a scan that does not end is \<open>Spin\<close>\<close>
  "fdt_scan cb b e =
     kbind (be_word b 0) (\<lambda>magic.
     kbind (be_word b 6) (\<lambda>ver.
     if magic \<noteq> FDT_MAGIC \<or> ver > FDT_VERSION then Inr (b, e)
     else
       kbind (be_word b 3) (\<lambda>strs.
       kbind (be_word b 2) (\<lambda>str.
       if uint str mod 4 \<noteq> 0 then Inl (Fault ''align'')
       else case fdt_scan_helper cb (uint strs) [] False \<lparr>nd_name = [], address_cells = 2, size_cells = 1\<rparr> (uint str div 4) b e of
         None \<Rightarrow> Inl Spin
       | Some r \<Rightarrow> kbind r (\<lambda>(_, _, b, e). Inr (b, e))))))"

section \<open>Addresses and sizes\<close>

fun get_cells :: "blob \<Rightarrow> nat \<Rightarrow> int \<Rightarrow> u64 \<Rightarrow> kerr + (int \<times> u64)" where
  "get_cells b 0 v r = Inr (v, r)"
| "get_cells b (Suc n) v r = kbind (be_word b v) (\<lambda>w. get_cells b n (v + 1) (push_bit 32 r + ucast w))"

definition fdt_get_address :: "blob \<Rightarrow> fdt_scan_node list \<Rightarrow> int \<Rightarrow> kerr + (int \<times> u64)" where
  "fdt_get_address b nds v = (case nds of [] \<Rightarrow> Inl (Fault ''NULL'') | nd # _ \<Rightarrow> get_cells b (nat (address_cells nd)) v 0)"

definition fdt_get_size :: "blob \<Rightarrow> fdt_scan_node list \<Rightarrow> int \<Rightarrow> kerr + (int \<times> u64)" where
  "fdt_get_size b nds v = (case nds of [] \<Rightarrow> Inl (Fault ''NULL'') | nd # _ \<Rightarrow> get_cells b (nat (size_cells nd)) v 0)"

fun streq_at :: "blob \<Rightarrow> nat \<Rightarrow> cstring \<Rightarrow> kerr + bool" where
  \<comment> \<open>\<^verbatim>\<open>!strcmp(value, str)\<close>, which stops at the first difference\<close>
  "streq_at b k [] = (if k < snd b then Inr (fst b k = 0) else Inl (Fault ''fdt''))"
| "streq_at b k (c # cs) =
     (if k < snd b then if fst b k = c then streq_at b (k + 1) cs else Inr False else Inl (Fault ''fdt''))"

section \<open>The memory\<close>

record mem_scan =
  ms_memory :: bool
  ms_reg_value :: "int option"   \<comment> \<open>NULL is \<open>None\<close>\<close>
  ms_reg_len :: int

definition mem_open :: "blob \<Rightarrow> fdt_scan_node list \<Rightarrow> mem_scan \<times> u64 \<Rightarrow> kerr + (mem_scan \<times> u64)" where
  "mem_open b nds e = Inr (\<lparr>ms_memory = False, ms_reg_value = None, ms_reg_len = 0\<rparr>, snd e)"

definition mem_prop :: "blob \<Rightarrow> fdt_scan_node list \<Rightarrow> fdt_scan_prop \<Rightarrow> mem_scan \<times> u64 \<Rightarrow> kerr + (mem_scan \<times> u64)" where
  \<comment> \<open>\<^verbatim>\<open>device_type\<close>, \<^verbatim>\<open>memory\<close> and \<^verbatim>\<open>reg\<close>\<close>
  "mem_prop b nds pr e =
     (case e of (sc, g) \<Rightarrow>
        kbind (if pr_name pr = [100, 101, 118, 105, 99, 101, 95, 116, 121, 112, 101]
               then streq_at b (4 * nat (pr_value pr)) [109, 101, 109, 111, 114, 121] else Inr False) (\<lambda>m.
          if m then Inr (sc\<lparr>ms_memory := True\<rparr>, g)
          else if pr_name pr = [114, 101, 103] then Inr (sc\<lparr>ms_reg_value := Some (pr_value pr), ms_reg_len := pr_len pr\<rparr>, g)
          else Inr (sc, g)))"

function mem_regions :: "u64 \<Rightarrow> blob \<Rightarrow> fdt_scan_node list \<Rightarrow> int \<Rightarrow> int \<Rightarrow> u64 \<Rightarrow> kerr + u64" where
  \<comment> \<open>the loop of \<^verbatim>\<open>mem_done\<close> with the closing assertion; a turn that reads no cell repeats for ever\<close>
  "mem_regions self b up fin v g =
     (if fin - v > 0 then
        (case kbind (fdt_get_address b up v) (\<lambda>(v, base). kbind (fdt_get_size b up v) (\<lambda>(v, sz). Inr (v, base, sz))) of
           Inl er \<Rightarrow> Inl er
         | Inr (v', base, sz) \<Rightarrow>
             if v' \<le> v then Inl Spin
             else mem_regions self b up fin v' (if base \<le> self \<and> self \<le> base + sz then sz else g))
      else if fin = v then Inr g else Inl (Panic ''end == value''))"
  by pat_completeness auto
termination by (relation "measure (\<lambda>(self, b, up, fin, v, g). nat (fin - v))") auto

declare mem_regions.simps [simp del]

definition mem_done :: "u64 \<Rightarrow> blob \<Rightarrow> fdt_scan_node list \<Rightarrow> mem_scan \<times> u64 \<Rightarrow> kerr + (mem_scan \<times> u64)" where
  \<comment> \<open>\<open>self\<close> is the address of the function\<close>
  "mem_done self b nds e =
     (case e of (sc, g) \<Rightarrow>
        if \<not> ms_memory sc then Inr e
        else case ms_reg_value sc of None \<Rightarrow> Inl (Panic ''scan->reg_value'')
          | Some v \<Rightarrow>
              if cmod (ms_reg_len sc) 4 \<noteq> 0 then Inl (Panic ''scan->reg_len'')
              else kbind (mem_regions self b (tl nds) (v + cdiv (ms_reg_len sc) 4) v g) (\<lambda>g. Inr (sc, g)))"

definition mem_cb :: "u64 \<Rightarrow> (mem_scan \<times> u64) fdt_cb" where
  "mem_cb self = \<lparr>cb_open = Some mem_open, cb_prop = mem_prop, cb_done = Some (mem_done self), cb_close = None\<rparr>"

definition query_mem :: "u64 \<Rightarrow> mem_scan \<Rightarrow> blob \<Rightarrow> kerr + u64" where
  \<comment> \<open>\<^verbatim>\<open>g_mem_size\<close>; \<open>junk\<close> is the uninitialised local \<^verbatim>\<open>scan\<close>\<close>
  "query_mem self junk b =
     kbind (fdt_scan (mem_cb self) b (junk, 0)) (\<lambda>(_, _, g). if g > 0 then Inr g else Inl (Panic ''g_mem_size > 0''))"

section \<open>The host interface\<close>

definition htif_open :: "blob \<Rightarrow> fdt_scan_node list \<Rightarrow> bool \<times> u64 \<Rightarrow> kerr + (bool \<times> u64)" where
  \<comment> \<open>\<^verbatim>\<open>struct htif_scan\<close> has the one field \<^verbatim>\<open>compat\<close>; the second component is the global \<^verbatim>\<open>htif\<close>\<close>
  "htif_open b nds e = Inr (False, snd e)"

definition htif_prop :: "blob \<Rightarrow> fdt_scan_node list \<Rightarrow> fdt_scan_prop \<Rightarrow> bool \<times> u64 \<Rightarrow> kerr + (bool \<times> u64)" where
  \<comment> \<open>\<^verbatim>\<open>compatible\<close> and \<^verbatim>\<open>ucb,htif0\<close>\<close>
  "htif_prop b nds pr e =
     (if pr_name pr = [99, 111, 109, 112, 97, 116, 105, 98, 108, 101] then
        kbind (streq_at b (4 * nat (pr_value pr)) [117, 99, 98, 44, 104, 116, 105, 102, 48]) (\<lambda>c.
          Inr (if c then (True, snd e) else e))
      else Inr e)"

definition htif_done :: "blob \<Rightarrow> fdt_scan_node list \<Rightarrow> bool \<times> u64 \<Rightarrow> kerr + (bool \<times> u64)" where
  "htif_done b nds e = Inr (if fst e then (fst e, 1) else e)"

definition htif_cb :: "(bool \<times> u64) fdt_cb" where
  "htif_cb = \<lparr>cb_open = Some htif_open, cb_prop = htif_prop, cb_done = Some htif_done, cb_close = None\<rparr>"

definition query_htif :: "bool \<Rightarrow> blob \<Rightarrow> u64 \<Rightarrow> kerr + u64" where
  "query_htif junk b h = kbind (fdt_scan htif_cb b (junk, h)) (\<lambda>(_, _, h). Inr h)"

end
