(* ===== verification/Machine.thy ===== *)
theory Machine
  imports Strap DeviceTree
begin

text \<open>
  Machine mode (\<^verbatim>\<open>kernel/machine/minit.c\<close>, \<^verbatim>\<open>kernel/machine/mtrap.c\<close>): start-up, the delegation of traps to the
  supervisor, the timer, and the handler of the traps that are not delegated.  The registers of a hart
  are fields of the state.  A delegation register keeps the bits that the hart implements, which are
  the fields \<open>mideleg_legal\<close> and \<open>medeleg_legal\<close>; addresses of code and of \<^verbatim>\<open>g_itrframe\<close> are parameters.
\<close>

section \<open>State\<close>

record 'h mach = "'h sysk" +
  csr_misa :: u64
  csr_mstatus :: "nat \<Rightarrow> u64"
  csr_mepc :: "nat \<Rightarrow> u64"
  csr_mtvec :: "nat \<Rightarrow> u64"
  csr_mscratch :: "nat \<Rightarrow> u64"
  csr_mideleg :: "nat \<Rightarrow> u64"
  csr_medeleg :: "nat \<Rightarrow> u64"
  csr_mie :: "nat \<Rightarrow> u64"
  csr_sie :: "nat \<Rightarrow> u64"
  reg_tp :: "nat \<Rightarrow> u64"
  mideleg_legal :: u64
  medeleg_legal :: u64
  clint_mtime :: u64
  clint_mtimecmp :: "nat \<Rightarrow> u64"
  htif_avail :: u64                   \<comment> \<open>the global \<^verbatim>\<open>htif\<close>\<close>
  boot_count :: int                   \<comment> \<open>\<^verbatim>\<open>count\<close> of \<^verbatim>\<open>minit.c\<close>\<close>
  boot_barrier :: int                 \<comment> \<open>\<^verbatim>\<open>barrier\<close> of \<^verbatim>\<open>kernel.c\<close>\<close>
  vm_alloc_stage :: "nat \<Rightarrow> int"

definition MSTATUS_MPP_MASK :: u64 where "MSTATUS_MPP_MASK = push_bit 11 3"
definition MSTATUS_MPP_S :: u64 where "MSTATUS_MPP_S = push_bit 11 1"
definition MSTATUS_MIE :: u64 where "MSTATUS_MIE = push_bit 3 1"
definition MIP_SEIP :: u64 where "MIP_SEIP = push_bit 9 1"
definition MIP_SSIP :: u64 where "MIP_SSIP = push_bit 1 1"
definition MIP_STIP :: u64 where "MIP_STIP = push_bit 5 1"
definition SIP_SSIP :: u64 where "SIP_SSIP = push_bit 1 1"
definition SIE_SEIE :: u64 where "SIE_SEIE = push_bit 9 1"
definition SIE_STIE :: u64 where "SIE_STIE = push_bit 5 1"
definition SIE_SSIE :: u64 where "SIE_SSIE = push_bit 1 1"
definition MIE_MTIE :: u64 where "MIE_MTIE = push_bit 7 1"
definition TIMER_INTERVAL :: u64 where "TIMER_INTERVAL = 1000000"
definition CAUSE_MISALIGNED_FETCH :: u64 where "CAUSE_MISALIGNED_FETCH = 0x0"
definition CAUSE_FETCH_ACCESS :: u64 where "CAUSE_FETCH_ACCESS = 0x1"
definition CAUSE_ILLEGAL_INSTRUCTION :: u64 where "CAUSE_ILLEGAL_INSTRUCTION = 0x2"
definition CAUSE_BREAKPOINT :: u64 where "CAUSE_BREAKPOINT = 0x3"
definition CAUSE_MISALIGNED_LOAD :: u64 where "CAUSE_MISALIGNED_LOAD = 0x4"
definition CAUSE_LOAD_ACCESS :: u64 where "CAUSE_LOAD_ACCESS = 0x5"
definition CAUSE_MISALIGNED_STORE :: u64 where "CAUSE_MISALIGNED_STORE = 0x6"
definition CAUSE_STORE_ACCESS :: u64 where "CAUSE_STORE_ACCESS = 0x7"
definition CAUSE_FETCH_PAGE_FAULT :: u64 where "CAUSE_FETCH_PAGE_FAULT = 0xc"
definition CAUSE_MTIMER :: u64 where "CAUSE_MTIMER = 0x8000000000000007"

lemmas mstatus_defs = MSTATUS_MPP_MASK_def MSTATUS_MPP_S_def MSTATUS_MIE_def MIP_SEIP_def MIP_SSIP_def MIP_STIP_def
  SIP_SSIP_def SIE_SEIE_def SIE_STIE_def SIE_SSIE_def MIE_MTIE_def

lemmas mcause_defs = CAUSE_MISALIGNED_FETCH_def CAUSE_FETCH_ACCESS_def CAUSE_ILLEGAL_INSTRUCTION_def CAUSE_BREAKPOINT_def
  CAUSE_MISALIGNED_LOAD_def CAUSE_LOAD_ACCESS_def CAUSE_MISALIGNED_STORE_def CAUSE_STORE_ACCESS_def
  CAUSE_FETCH_PAGE_FAULT_def CAUSE_MTIMER_def

section \<open>Start-up (minit.c)\<close>

definition supports_extension :: "nat \<Rightarrow> ('h, 'z) mach_scheme \<Rightarrow> bool" where
  \<comment> \<open>the letter is given by its distance from A; the result of type int keeps the low half of the register\<close>
  "supports_extension ext s \<longleftrightarrow> (ucast (csr_misa s AND push_bit ext 1) :: u32) \<noteq> 0"

definition init_dtb ::
  "'h frontend \<Rightarrow> u64 \<Rightarrow> bool \<Rightarrow> mem_scan \<Rightarrow> blob \<Rightarrow> ('h, 'z) mach_scheme \<Rightarrow> kerr + ('h, 'z) mach_scheme" where
  \<comment> \<open>\<open>self\<close> is the address of \<^verbatim>\<open>mem_done\<close>, \<open>j1\<close> and \<open>j2\<close> are the uninitialised scan records\<close>
  "init_dtb fe self j1 j2 dtb s =
     kbind (query_htif j1 dtb (htif_avail s)) (\<lambda>h.
     let s = s\<lparr>htif_avail := h\<rparr> in
     kbind (if h \<noteq> 0 then sprint fe (map of_char ''HTIF is available!'' @ [13, 10]) [] s else Inr s) (\<lambda>s.
     kbind (query_mem self j2 dtb) (\<lambda>g.
     let s = s\<lparr>g_mem_size := g\<rparr> in
       sprint fe (map of_char ''(Emulated) memory size: %ld MB'' @ [10]) [Num (drop_bit 20 g)] s)))"

definition delegate_traps :: "nat \<Rightarrow> ('h, 'z) mach_scheme \<Rightarrow> kerr + ('h, 'z) mach_scheme" where
  \<comment> \<open>the message of the first branch is not modelled\<close>
  "delegate_traps cpu s =
     (if \<not> supports_extension 18 s then Inr s
      else
        let interrupts = MIP_SSIP OR MIP_STIP OR MIP_SEIP;
            exceptions = push_bit (unat CAUSE_MISALIGNED_FETCH) 1 OR push_bit (unat CAUSE_FETCH_PAGE_FAULT) 1 OR
              push_bit (unat CAUSE_BREAKPOINT) 1 OR push_bit (unat CAUSE_LOAD_PAGE_FAULT) 1 OR
              push_bit (unat CAUSE_STORE_PAGE_FAULT) 1 OR push_bit (unat CAUSE_USER_ECALL) 1;
            s = s\<lparr>csr_mideleg := (csr_mideleg s)(cpu := interrupts AND mideleg_legal s)\<rparr>;
            s = s\<lparr>csr_medeleg := (csr_medeleg s)(cpu := exceptions AND medeleg_legal s)\<rparr> in
        kbind (kassert (csr_mideleg s cpu = interrupts) ''read_csr(mideleg) == interrupts'') (\<lambda>_.
        kbind (kassert (csr_medeleg s cpu = exceptions) ''read_csr(medeleg) == exceptions'') (\<lambda>_. Inr s)))"

definition timerinit :: "nat \<Rightarrow> ('h, 'z) mach_scheme \<Rightarrow> ('h, 'z) mach_scheme" where
  "timerinit cpu s =
     s\<lparr>clint_mtimecmp := (clint_mtimecmp s)(cpu := clint_mtime s + TIMER_INTERVAL),
       csr_mie := (csr_mie s)(cpu := csr_mie s cpu OR MIE_MTIE)\<rparr>"

definition m_start ::
  "'h frontend \<Rightarrow> u64 \<Rightarrow> bool \<Rightarrow> mem_scan \<Rightarrow> u64 \<Rightarrow> u64 \<Rightarrow> u64 \<Rightarrow> nat \<Rightarrow> blob \<Rightarrow> ('h, 'z) mach_scheme \<Rightarrow> kerr + ('h, 'z) mach_scheme" where
  \<comment> \<open>\<open>itrframe\<close>, \<open>sstart\<close> and \<open>mtrapvec\<close> are the addresses of \<^verbatim>\<open>g_itrframe\<close>, \<^verbatim>\<open>s_start\<close> and \<^verbatim>\<open>mtrapvec\<close>; the
     state is the one in which \<^verbatim>\<open>mret\<close> enters \<^verbatim>\<open>s_start\<close>\<close>
  "m_start fe self j1 j2 itrframe sstart mtrapvec cpu dtb s =
     kbind (if cpu = 0 then kbind (spike_file_init s) (\<lambda>s. init_dtb fe self j1 j2 dtb s) else Inr s) (\<lambda>s.
     kbind (barrier_alone (boot_count s)) (\<lambda>c.
     let s = s\<lparr>boot_count := c\<rparr> in
     kbind (sprint fe (map of_char ''In m_start, hartid:%d'' @ [10]) [Num (of_nat cpu)] s) (\<lambda>s.
     let s = s\<lparr>reg_tp := (reg_tp s)(cpu := of_nat cpu), csr_mscratch := (csr_mscratch s)(cpu := itrframe),
               csr_mstatus := (csr_mstatus s)(cpu := csr_mstatus s cpu AND NOT MSTATUS_MPP_MASK OR MSTATUS_MPP_S),
               csr_mepc := (csr_mepc s)(cpu := sstart), csr_mtvec := (csr_mtvec s)(cpu := mtrapvec)\<rparr>;
         s = s\<lparr>csr_mstatus := (csr_mstatus s)(cpu := csr_mstatus s cpu OR MSTATUS_MIE)\<rparr> in
     kbind (delegate_traps cpu s) (\<lambda>s.
     let s = s\<lparr>csr_sie := (csr_sie s)(cpu := csr_sie s cpu OR SIE_SEIE OR SIE_STIE OR SIE_SSIE)\<rparr> in
       Inr (timerinit cpu s)))))"

section \<open>The line of an illegal instruction (mtrap.c)\<close>

definition debug_name :: "bytes \<Rightarrow> nat \<Rightarrow> cstring" where
  "debug_name b off = takeWhile (\<lambda>c. c \<noteq> 0) (map b [off..<DEBUG_SIZE])"

definition line_row :: "line_table \<Rightarrow> nat \<Rightarrow> addr_line" where
  \<comment> \<open>\<^verbatim>\<open>line[i]\<close>; the static array is zero behind the table\<close>
  "line_row t i = (if i < length (lt_line t) then lt_line t ! i else \<lparr>al_addr = 0, al_line = 0, al_file = 0\<rparr>)"

function find_row :: "line_table \<Rightarrow> u64 \<Rightarrow> nat \<Rightarrow> nat \<times> u64" where
  \<comment> \<open>the index at which the first loop stops and \<^verbatim>\<open>line1\<close>\<close>
  "find_row t pc i =
     (if al_addr (line_row t i) = 0 then (i, 0)
      else if al_addr (line_row t i) = pc then (i, al_line (line_row t i))
      else find_row t pc (Suc i))"
  by pat_completeness auto
termination
  by (relation "measure (\<lambda>(t, pc, i). length (lt_line t) - i)") (auto simp: line_row_def split: if_splits)

declare find_row.simps [simp del]

definition next_byte :: "'h frontend \<Rightarrow> u64 \<Rightarrow> u8 \<Rightarrow> ('h, 'z) hfs_scheme \<Rightarrow> kerr + (u8 \<times> ('h, 'z) hfs_scheme)" where
  \<comment> \<open>\<^verbatim>\<open>spike_file_read(fn, (void *)&buf, 1)\<close>, which leaves \<^verbatim>\<open>buf\<close> alone at the end of the file\<close>
  "next_byte fe f buf s = kbind (spike_file_read fe f 1 s) (\<lambda>(_, out, s). Inr (if out \<noteq> [] then hd out else buf, s))"

partial_function (option) skip_lines ::
  "'h frontend \<Rightarrow> u64 \<Rightarrow> int \<Rightarrow> u8 \<Rightarrow> ('h, 'z) hfs_scheme \<Rightarrow> (kerr + (u8 \<times> ('h, 'z) hfs_scheme)) option" where
  \<comment> \<open>\<open>n\<close> lines are left to skip\<close>
  "skip_lines fe f n buf s =
     (if 0 < n then
        (case next_byte fe f buf s of Inl e \<Rightarrow> Some (Inl e)
         | Inr (buf, s) \<Rightarrow> skip_lines fe f (if buf = 10 then n - 1 else n) buf s)
      else Some (Inr (buf, s)))"

partial_function (option) read_line ::
  "'h frontend \<Rightarrow> u64 \<Rightarrow> cstring \<Rightarrow> u8 \<Rightarrow> ('h, 'z) hfs_scheme \<Rightarrow> (kerr + (cstring \<times> ('h, 'z) hfs_scheme)) option" where
  \<comment> \<open>\<open>l\<close> is what \<^verbatim>\<open>s3\<close>, an array of 1000 bytes, holds so far\<close>
  "read_line fe f l buf s =
     (case next_byte fe f buf s of Inl e \<Rightarrow> Some (Inl e)
      | Inr (buf, s) \<Rightarrow>
          if 1000 \<le> length l then Some (Inl (Fault ''s3''))
          else if buf = 10 then Some (Inr (l, s))
          else read_line fe f (l @ [buf]) buf s)"

definition source_line ::
  "'h frontend \<Rightarrow> u64 \<Rightarrow> int \<Rightarrow> u8 \<Rightarrow> ('h, 'z) hfs_scheme \<Rightarrow> kerr + (cstring \<times> ('h, 'z) hfs_scheme)" where
  \<comment> \<open>the two reading loops\<close>
  "source_line fe fn line1 buf s =
     kbind (or_spin (skip_lines fe fn (line1 - 1) buf s)) (\<lambda>(buf, s). or_spin (read_line fe fn [] buf s))"

definition error_place :: "bytes \<Rightarrow> line_table \<Rightarrow> u64 \<Rightarrow> kerr + (cstring \<times> cstring \<times> int)" where
  \<comment> \<open>\<^verbatim>\<open>s2\<close>, \<^verbatim>\<open>s1\<close> and \<^verbatim>\<open>line1\<close>: directory, file and line of the address\<close>
  "error_place b t pc =
     (let (i, l) = find_row t pc 0; fi = unat (al_file (line_row t i)) in
      if fi \<ge> length (lt_file t) then Inl (Fault ''file'')
      else let (d, nm) = lt_file t ! fi; dir1 = to_i32 d; s1 = debug_name b nm in
        if dir1 < 0 \<or> int (length (lt_dir t)) \<le> dir1 then Inl (Fault ''dir'')
        else let s2 = debug_name b (lt_dir t ! nat dir1) in
          if length s1 \<ge> 1000 \<or> length s2 \<ge> 1000 then Inl (Fault ''strcpy'')
          else Inr (s2, s1, to_i32 l))"

definition report_illegal ::
  "'h frontend \<Rightarrow> nat \<Rightarrow> u64 \<Rightarrow> u8 \<Rightarrow> ('h, 'z) elfk_scheme \<Rightarrow> kerr + ('h, 'z) elfk_scheme" where
  \<comment> \<open>the first part of \<^verbatim>\<open>handle_mtrap\<close>; \<open>buf\<close> is the uninitialised \<^verbatim>\<open>buf\<close>.  A process without tables has no rows to read\<close>
  "report_illegal fe cpu mepc buf s =
     kbind (kassert (current s cpu \<noteq> Null) ''current[tp]'') (\<lambda>_.
     if debugline (cur cpu s) \<noteq> debug_addr s \<or> debug_addr s = 0 then Inl (Fault ''line'')
     else
       kbind (error_place (debug_buf s) (debug_tab s) mepc) (\<lambda>(s2, s1, line1).
       kbind (sprint fe (map of_char ''Runtime error at %s/%s:%d'' @ [10]) [Str s2, Str s1, Num (word_of_int line1)] s) (\<lambda>s.
       let pth = s2 @ [47] @ s1 in
       if length pth \<ge> 1000 then Inl (Fault ''strcpy'')
       else
         kbind (spike_file_open fe pth O_RDONLY 0 s) (\<lambda>(fn, s).
         kbind (source_line fe fn line1 buf s) (\<lambda>(s3, s).
         kbind (spike_file_close fe fn s) (\<lambda>(_, s).
           sprint fe (map of_char ''%s'' @ [10]) [Str s3] s))))))"

section \<open>Traps to machine mode\<close>

definition handle_timer :: "('h, 'z) mach_scheme \<Rightarrow> ('h, 'z) mach_scheme" where
  \<comment> \<open>\<^verbatim>\<open>cpuid\<close> is 0\<close>
  "handle_timer s =
     s\<lparr>clint_mtimecmp := (clint_mtimecmp s)(0 := clint_mtimecmp s 0 + TIMER_INTERVAL),
       csr_sip := (csr_sip s)(0 := SIP_SSIP)\<rparr>"

definition handle_mtrap :: "'h frontend \<Rightarrow> nat \<Rightarrow> u64 \<Rightarrow> u8 \<Rightarrow> ('h, 'z) mach_scheme \<Rightarrow> kerr + ('h, 'z) mach_scheme" where
  \<comment> \<open>a panic does not return, so the missing break of \<^verbatim>\<open>CAUSE_LOAD_ACCESS\<close> has no effect\<close>
  "handle_mtrap fe cpu mcause buf s =
     kbind (if mcause = CAUSE_ILLEGAL_INSTRUCTION then report_illegal fe cpu (csr_mepc s cpu) buf s else Inr s) (\<lambda>s.
       if mcause = CAUSE_MTIMER then Inr (handle_timer s)
       else if mcause = CAUSE_FETCH_ACCESS then Inl (Panic ''Instruction access fault!'')
       else if mcause = CAUSE_LOAD_ACCESS then Inl (Panic ''Load access fault!'')
       else if mcause = CAUSE_STORE_ACCESS then Inl (Panic ''Store/AMO access fault!'')
       else if mcause = CAUSE_ILLEGAL_INSTRUCTION then Inl (Panic ''Illegal instruction!'')
       else if mcause = CAUSE_MISALIGNED_LOAD then Inl (Panic ''Misaligned Load!'')
       else if mcause = CAUSE_MISALIGNED_STORE then Inl (Panic ''Misaligned AMO!'')
       else Inl (Panic ''unexpected exception happened in M-mode.''))"

end
