(* ===== verification/Boot.thy ===== *)
theory Boot
  imports Machine
begin

text \<open>
  The start of the kernel in supervisor mode (\<^verbatim>\<open>kernel/kernel.c\<close>): the memory, the file systems and the first
  process, from the command line to user mode.  The buffer of the command line, on the stack at the
  address \<open>ab\<close>, is an array of bytes that the host fills with the number of arguments, pointers and
  strings; \<open>junk\<close> is what it holds before.
\<close>

section \<open>The command line\<close>

definition MAX_CMDLINE_ARGS :: nat where "MAX_CMDLINE_ARGS = 64"
definition HTIFSYS_getmainvars :: int where "HTIFSYS_getmainvars = 2011"
definition TF_tp :: u64 where "TF_tp = 24"

definition put_dd :: "bytes \<Rightarrow> nat \<Rightarrow> u64 \<Rightarrow> bytes" where
  \<comment> \<open>\<^verbatim>\<open>arg_bug_msg->argv[i] = ...\<close>, a store of 8 bytes at \<open>p\<close>\<close>
  "put_dd b p v = (\<lambda>k. if p \<le> k \<and> k < p + 8 then ucast (drop_bit (8 * (k - p)) v) else b k)"

fun shift_args :: "nat \<Rightarrow> nat \<Rightarrow> bytes \<Rightarrow> kerr + bytes" where
  \<comment> \<open>the loop of \<^verbatim>\<open>parse_args\<close>, \<open>n\<close> turns from \<open>i\<close>; \<^verbatim>\<open>pk_argv\<close> is the second word of the buffer\<close>
  "shift_args 0 i b = Inr b"
| "shift_args (Suc n) i b =
     (if i + 2 < MAX_CMDLINE_ARGS then shift_args n (i + 1) (put_dd b (8 * i) (rdd b (8 * (i + 2))))
      else Inl (Fault ''arg_buf''))"

definition parse_args ::
  "'h frontend \<Rightarrow> bytes \<Rightarrow> ('h, 'z) hfs_scheme \<Rightarrow> kerr + (u64 \<times> bytes \<times> ('h, 'z) hfs_scheme)" where
  "parse_args fe junk s =
     (let (r, out, s) = frontend_syscall fe HTIFSYS_getmainvars [8 * int MAX_CMDLINE_ARGS] [] s in
      kbind (kassert (r = 0) ''r == 0'') (\<lambda>_.
      let b = (\<lambda>k. if k < length out then out ! k else junk k); pk_argc = rdd b 0 in
      kbind (shift_args (unat pk_argc - 1) 0 b) (\<lambda>b. Inr (pk_argc - 1, b, s))))"

definition arg_string :: "u64 \<Rightarrow> bytes \<Rightarrow> u64 \<Rightarrow> kerr + cstring" where
  \<comment> \<open>the string at a pointer into the buffer\<close>
  "arg_string ab b p =
     (let off = unat (p - ab); str = takeWhile (\<lambda>c. c \<noteq> 0) (map b [off..<8 * MAX_CMDLINE_ARGS]) in
      if off + length str < 8 * MAX_CMDLINE_ARGS then Inr str else Inl (Fault ''argv''))"

section \<open>Starting the first process\<close>

definition load_user_program ::
  "'h frontend \<Rightarrow> nat \<Rightarrow> u64 \<Rightarrow> bytes \<Rightarrow> ('h, 'z) mach_scheme \<Rightarrow> kerr + (nat \<times> ('h, 'z) mach_scheme)" where
  "load_user_program fe cpu ab junk s =
     kbind (alloc_process s) (\<lambda>(i, s).
     kbind (store (trapframe (pcb s (Proc i)) + TF_tp) (of_nat cpu) s) (\<lambda>s.
     kbind (sprint fe (map of_char ''hartid = %d:User application is loading.'' @ [10]) [Num (of_nat cpu)] s) (\<lambda>s.
     kbind (parse_args fe junk s) (\<lambda>(argc, b, s).
     if argc = 0 then Inl (Panic ''You need to specify the application program!'')
     else
       kbind (arg_string ab b (rdd b (8 * cpu))) (\<lambda>name.
       kbind (load_bincode_from_host_elf fe cpu (Proc i) name s) (\<lambda>s. Inr (i, s)))))))"

definition enable_paging :: "nat \<Rightarrow> ('h, 'z) kernel_scheme \<Rightarrow> ('h, 'z) kernel_scheme" where
  "enable_paging cpu s = s\<lparr>csr_satp := (csr_satp s)(cpu := MAKE_SATP (g_kernel_pagetable s))\<rparr>"

definition s_start ::
  "'h frontend \<Rightarrow> nat \<Rightarrow> u64 \<Rightarrow> u64 \<Rightarrow> (int \<Rightarrow> bytes) \<Rightarrow> bytes \<Rightarrow> int list \<Rightarrow> u64 \<Rightarrow> bytes \<Rightarrow> ('h, 'z) mach_scheme \<Rightarrow>
     kerr + ('h, 'z) mach_scheme" where
  \<comment> \<open>\<open>kend\<close> and \<open>etext\<close> are linker symbols, \<open>disk\<close>, \<open>iob\<close> and \<open>rj\<close> the arguments of \<open>fs_init\<close>\<close>
  "s_start fe cpu kend etext disk iob rj ab junk s =
     kbind (sprint fe (map of_char ''Enter supervisor mode...'' @ [10]) [] s) (\<lambda>s.
     let s = s\<lparr>csr_satp := (csr_satp s)(cpu := 0)\<rparr> in
     kbind (if reg_tp s cpu = 0 then
              kbind (pmm_init kend s) (\<lambda>s.
              kbind (kern_vm_init etext s) (\<lambda>s.
                fs_init disk iob rj (init_proc_pool (enable_paging cpu s))))
            else Inr s) (\<lambda>s.
     kbind (barrier_alone (boot_barrier s)) (\<lambda>c.
     let s = s\<lparr>boot_barrier := c\<rparr> in
     kbind (sprint fe (map of_char ''Hartid = %d:Switch to user mode...'' @ [10]) [Num (reg_tp s cpu)] s) (\<lambda>s.
     kbind (load_user_program fe cpu ab junk s) (\<lambda>(i, s).
     kbind (insert_to_ready_queue (Proc i) s) (\<lambda>s.
       schedule 0 cpu (s\<lparr>vm_alloc_stage := (vm_alloc_stage s)(cpu := 1)\<rparr>)))))))"

section \<open>Arguments\<close>

lemma four_bytes:
  "ucast (ucast (drop_bit k v) :: u8) OR push_bit 8 (ucast (ucast (drop_bit (k + 8) v) :: u8)) OR
   push_bit 16 (ucast (ucast (drop_bit (k + 16) v) :: u8)) OR push_bit 24 (ucast (ucast (drop_bit (k + 24) v) :: u8)) =
   (ucast (drop_bit k v) :: u32)" for v :: u64
proof (rule bit_word_eqI)
  fix n assume n: "n < LENGTH(32)"
  consider "n < 8" | "8 \<le> n" "n < 16" | "16 \<le> n" "n < 24" | "24 \<le> n" by linarith
  then show "bit (ucast (ucast (drop_bit k v) :: u8) OR push_bit 8 (ucast (ucast (drop_bit (k + 8) v) :: u8)) OR
      push_bit 16 (ucast (ucast (drop_bit (k + 16) v) :: u8)) OR push_bit 24 (ucast (ucast (drop_bit (k + 24) v) :: u8)) :: u32) n =
      bit (ucast (drop_bit k v) :: u32) n"
    using n by cases (auto simp: bit_simps dest: bit_imp_le_length)
qed

lemma rdd_put_dd: "rdd (put_dd b p v) p = v"
proof -
  have "rdw (put_dd b p v) p = ucast (drop_bit 0 v)" "rdw (put_dd b p v) (p + 4) = ucast (drop_bit 32 v)"
    unfolding rdw_def put_dd_def using four_bytes [of 0 v] four_bytes [of 32 v] by simp_all
  then have "rdd (put_dd b p v) p = ucast (ucast (drop_bit 0 v) :: u32) OR push_bit 32 (ucast (ucast (drop_bit 32 v) :: u32))"
    by (simp only: rdd_def)
  also have "\<dots> = v"
    by (rule bit_word_eqI) (auto simp: bit_simps)
  finally show ?thesis .
qed

lemma rdd_cong: "(\<forall>k. p \<le> k \<and> k < p + 8 \<longrightarrow> b k = b' k) \<Longrightarrow> rdd b p = rdd b' p"
  by (simp add: rdd_def rdw_def)

lemma rdd_put_other: "p + 8 \<le> q \<or> q + 8 \<le> p \<Longrightarrow> rdd (put_dd b p v) q = rdd b q"
  by (rule rdd_cong) (auto simp: put_dd_def)

lemma shift_args_spec:
  "i + n + 2 \<le> MAX_CMDLINE_ARGS \<Longrightarrow>
   \<exists>b'. shift_args n i b = Inr b' \<and> (\<forall>j. i \<le> j \<and> j < i + n \<longrightarrow> rdd b' (8 * j) = rdd b (8 * (j + 2))) \<and>
     (\<forall>k. k < 8 * i \<or> 8 * (i + n) \<le> k \<longrightarrow> b' k = b k)"
proof (induction n arbitrary: i b)
  case (Suc n)
  let ?b = "put_dd b (8 * i) (rdd b (8 * (i + 2)))"
  obtain b' where b': "shift_args n (i + 1) ?b = Inr b'" "\<forall>j. i + 1 \<le> j \<and> j < i + 1 + n \<longrightarrow> rdd b' (8 * j) = rdd ?b (8 * (j + 2))"
      "\<forall>k. k < 8 * (i + 1) \<or> 8 * (i + 1 + n) \<le> k \<longrightarrow> b' k = ?b k"
    using Suc.IH [of "i + 1" ?b] Suc.prems by auto
  have "rdd b' (8 * j) = rdd b (8 * (j + 2))" if "i \<le> j" "j < i + Suc n" for j
  proof (cases "j = i")
    case True
    have "rdd b' (8 * i) = rdd ?b (8 * i)" using b'(3) by (intro rdd_cong) auto
    then show ?thesis using True by (simp add: rdd_put_dd)
  next
    case False
    then show ?thesis using b'(2) that by (simp add: rdd_put_other)
  qed
  moreover have "b' k = b k" if "k < 8 * i \<or> 8 * (i + Suc n) \<le> k" for k
    using b'(3) that by (auto simp: put_dd_def)
  ultimately show ?case using b'(1) Suc.prems by (auto simp del: mult_Suc_right)
qed auto

end
