(* ===== verification/ProcProps.thy ===== *)
theory ProcProps
  imports Strap SchedProps
begin

text \<open>
  Properties of processes and system calls: round-robin under yield, semaphores, wait, the heap and the
  page fault handler.
\<close>

section \<open>Yield\<close>

definition run_state :: "nat \<Rightarrow> ('h, 'z) kernel_scheme \<Rightarrow> pref list \<Rightarrow> pref list \<Rightarrow> bool" where
  \<comment> \<open>the processes \<open>qs\<close> can run, the first of them does, the others are in the ready queue in this order;
     \<open>ws\<close> are the waiting ones\<close>
  "run_state cpu s qs ws \<longleftrightarrow> qs \<noteq> [] \<and> current s cpu = hd qs \<and> hd qs \<noteq> Null \<and> distinct (qs @ ws) \<and>
     ready_queue s (tl qs) \<and> wait_queue s ws \<and> (\<forall>p \<in> set qs. ram_page (trapframe (pcb s p)))"

lemma insert_queue_frame:
  "insert_to_ready_queue p s = Inr s' \<Longrightarrow> trapframe (pcb s' q) = trapframe (pcb s q) \<and> wait_queue_head s' = wait_queue_head s"
  "insert_to_wait_queue p s = Inr s' \<Longrightarrow> trapframe (pcb s' q) = trapframe (pcb s q) \<and>
     ready_queue_head s' = ready_queue_head s \<and> sem (pcb s' q) = sem (pcb s q) \<and> sem_l s' = sem_l s"
  by (auto simp: insert_to_ready_queue_def insert_to_wait_queue_def split: if_splits option.splits)

lemma dispatch_frame:
  "dispatch cpu s = Inr s' \<Longrightarrow> trapframe (pcb s' q) = trapframe (pcb s q) \<and> sem (pcb s' q) = sem (pcb s q) \<and> sem_l s' = sem_l s"
  by (auto simp: dispatch_def switch_to_def store_def kbind_eq_Inr Let_def nonnull_proc_def split: if_splits)

lemma insert_ready_spec:
  assumes "ready_queue s xs" "wait_queue s ys" "p \<noteq> Null" "p \<notin> set xs" "p \<notin> set ys" "set xs \<inter> set ys = {}"
  shows "\<exists>s'. insert_to_ready_queue p s = Inr s' \<and> ready_queue s' (xs @ [p]) \<and> wait_queue s' ys"
proof -
  obtain s' where s': "insert_to_ready_queue p s = Inr s'" "queue_rel READY (ready_queue_head s') s' (xs @ [p])"
    "\<forall>x. x \<noteq> p \<longrightarrow> x \<notin> set xs \<longrightarrow> pcb s' x = pcb s x"
    using rq.insert_spec [of s xs p] assms(1,3,4) by (auto simp: ready_queue_def)
  have "\<forall>x \<in> set ys. pcb s' x = pcb s x" using s'(3) assms(5,6) by auto
  then have "wait_queue s' ys"
    using assms(2) queue_rel_cong [of ys s' s] insert_queue_frame(1) [OF s'(1)] by (simp add: wait_queue_def)
  then show ?thesis using s'(1,2) by (simp add: ready_queue_def)
qed

lemma insert_wait_spec:
  assumes "ready_queue s xs" "wait_queue s ys" "p \<noteq> Null" "p \<notin> set xs" "p \<notin> set ys" "set xs \<inter> set ys = {}"
  shows "\<exists>s'. insert_to_wait_queue p s = Inr s' \<and> ready_queue s' xs \<and> wait_queue s' (ys @ [p])"
proof -
  obtain s' where s': "insert_to_wait_queue p s = Inr s'" "queue_rel BLOCKED (wait_queue_head s') s' (ys @ [p])"
    "\<forall>x. x \<noteq> p \<longrightarrow> x \<notin> set ys \<longrightarrow> pcb s' x = pcb s x"
    using wq.insert_spec [of s ys p] assms(2,3,5) by (auto simp: wait_queue_def)
  have "\<forall>x \<in> set xs. pcb s' x = pcb s x" using s'(3) assms(4,6) by auto
  then have "ready_queue s' xs"
    using assms(1) queue_rel_cong [of xs s' s] insert_queue_frame(2) [OF s'(1)] by (simp add: ready_queue_def)
  then show ?thesis using s'(1,2) by (simp add: wait_queue_def)
qed

lemma schedule_0_dispatch: "ready_queue s (x # xs) \<Longrightarrow> schedule 0 cpu s = dispatch cpu s"
  by (auto simp: schedule_def ready_queue_def queue_rel_def)

lemma schedule_run_state:
  assumes "ready_queue s (x # xs)" "wait_queue s ws" "set (x # xs) \<inter> set ws = {}"
    "\<forall>q \<in> set (x # xs). ram_page (trapframe (pcb s q))"
  shows "\<exists>s'. schedule 0 cpu s = Inr s' \<and> run_state cpu s' (x # xs) ws \<and>
     (\<forall>q. sem (pcb s' q) = sem (pcb s q)) \<and> sem_l s' = sem_l s"
proof -
  from dispatch_spec [OF assms(1,2), of cpu] assms(3,4) obtain s' where
    s': "dispatch cpu s = Inr s'" "enters_user cpu x s s'" "ready_queue s' xs" "wait_queue s' ws" by auto
  have "x \<noteq> Null" "distinct (x # xs)" "distinct ws" using assms(1,2) by (auto simp: queue_defs)
  then have "run_state cpu s' (x # xs) ws"
    using s'(2-4) assms(3,4) dispatch_frame [OF s'(1)] by (auto simp: run_state_def enters_user_def Let_def)
  then show ?thesis using s'(1) dispatch_frame [OF s'(1)] schedule_0_dispatch [OF assms(1)] by simp
qed

lemma run_stateE:
  assumes "run_state cpu s (p # xs) ws"
  obtains "current s cpu = p" "p \<noteq> Null" "p \<notin> set xs" "p \<notin> set ws" "set xs \<inter> set ws = {}"
    "ready_queue s xs" "wait_queue s ws" "\<forall>q \<in> set (p # xs). ram_page (trapframe (pcb s q))"
  using assms by (auto simp: run_state_def)

lemma reschedule_rotates:
  \<comment> \<open>the current process goes to the tail of the ready queue, its head runs\<close>
  assumes "run_state cpu s (p # xs) ws"
  shows "\<exists>s1 s'. insert_to_ready_queue (current s cpu) s = Inr s1 \<and> schedule 0 cpu s1 = Inr s' \<and>
     run_state cpu s' (xs @ [p]) ws"
  using assms
proof (rule run_stateE)
  assume r: "current s cpu = p" "p \<noteq> Null" "p \<notin> set xs" "p \<notin> set ws" "set xs \<inter> set ws = {}"
    "ready_queue s xs" "wait_queue s ws" and tf: "\<forall>q \<in> set (p # xs). ram_page (trapframe (pcb s q))"
  from insert_ready_spec [OF r(6,7,2-5)] obtain s1 where
    s1: "insert_to_ready_queue p s = Inr s1" "ready_queue s1 (xs @ [p])" "wait_queue s1 ws" by blast
  obtain x zs where x: "xs @ [p] = x # zs" by (cases xs) auto
  have st: "set (x # zs) = set (p # xs)" using arg_cong [OF x, of set] by auto
  have "set (x # zs) \<inter> set ws = {}" "\<forall>q \<in> set (x # zs). ram_page (trapframe (pcb s1 q))"
    unfolding st using r(4,5) tf insert_queue_frame(1) [OF s1(1)] by simp_all
  from schedule_run_state [OF s1(2) [unfolded x] s1(3) this] show ?thesis
    using s1(1) r(1) by (auto simp: x)
qed

lemma block_current_waits:
  \<comment> \<open>the current process goes to the tail of the wait queue, the head of the ready queue runs\<close>
  assumes "run_state cpu s (p # x # xs) ws"
  shows "\<exists>s'. block_current cpu s = Inr (None, s') \<and> run_state cpu s' (x # xs) (ws @ [p]) \<and>
     (\<forall>q. sem (pcb s' q) = sem (pcb s q)) \<and> sem_l s' = sem_l s"
  using assms
proof (rule run_stateE)
  assume r: "current s cpu = p" "p \<noteq> Null" "p \<notin> set (x # xs)" "p \<notin> set ws" "set (x # xs) \<inter> set ws = {}"
    "ready_queue s (x # xs)" "wait_queue s ws" and tf: "\<forall>q \<in> set (p # x # xs). ram_page (trapframe (pcb s q))"
  from insert_wait_spec [OF r(6,7,2-5)] obtain s1 where
    s1: "insert_to_wait_queue p s = Inr s1" "ready_queue s1 (x # xs)" "wait_queue s1 (ws @ [p])" by blast
  have "set (x # xs) \<inter> set (ws @ [p]) = {}" "\<forall>q \<in> set (x # xs). ram_page (trapframe (pcb s1 q))"
    using r(3,5) tf insert_queue_frame(2) [OF s1(1)] by auto
  from schedule_run_state [OF s1(2,3) this, of cpu] show ?thesis
    using s1(1) r(1) insert_queue_frame(2) [OF s1(1)] by (auto simp: block_current_def)
qed

fun yields :: "nat \<Rightarrow> nat \<Rightarrow> ('h, 'z) kernel_scheme \<Rightarrow> kerr + ('h, 'z) kernel_scheme" where
  \<comment> \<open>\<open>n\<close> times, the process that runs yields\<close>
  "yields 0 cpu s = Inr s"
| "yields (Suc n) cpu s = kbind (sys_user_yield cpu s) (\<lambda>(_, s). yields n cpu s)"

lemma yields_rotate:
  "run_state cpu s qs ws \<Longrightarrow> \<exists>s'. yields n cpu s = Inr s' \<and> run_state cpu s' (rotate n qs) ws"
proof (induction n arbitrary: s qs)
  case (Suc n)
  obtain p xs where "qs = p # xs" using Suc.prems by (cases qs) (auto simp: run_state_def)
  with reschedule_rotates [of cpu s p xs ws] Suc.prems obtain s' where
    "sys_user_yield cpu s = Inr (None, s')" "run_state cpu s' (rotate1 qs) ws"
    by (auto simp: sys_user_yield_def)
  then show ?case using Suc.IH [of s' "rotate1 qs"] by (simp add: rotate1_rotate_swap)
qed simp

text \<open>Round robin: when the processes that run yield, \<^verbatim>\<open>sys_user_yield\<close> lets all processes that can run have
  their turn in a fixed cyclic order: after \<open>n\<close> yields process number \<open>n\<close> modulo their count runs.  So
  every one of them runs again and again, and no waiting process is touched.\<close>

lemma yield_round_robin:
  assumes "run_state cpu s qs ws"
  shows "\<exists>s'. yields n cpu s = Inr s' \<and> current s' cpu = qs ! (n mod length qs) \<and> wait_queue s' ws"
proof -
  obtain s' where s': "yields n cpu s = Inr s'" "run_state cpu s' (rotate n qs) ws" using yields_rotate [OF assms] by blast
  have "hd (rotate n qs) = qs ! (n mod length qs)" using assms by (intro hd_rotate_conv_nth) (simp add: run_state_def)
  then show ?thesis using s' by (auto simp: run_state_def)
qed

section \<open>Semaphores\<close>

lemma run_state_sem [simp]:
  "run_state cpu (upd_proc p (\<lambda>p. p\<lparr>sem := a\<rparr>) s) qs ws = run_state cpu s qs ws" (is "run_state cpu ?s qs ws = _")
proof -
  have "queue_rel st h ?s xs = queue_rel st h s xs" for st h xs by (rule queue_rel_cong) auto
  then show ?thesis by (auto simp: run_state_def ready_queue_def wait_queue_def)
qed

text \<open>\<^verbatim>\<open>sys_user_sem_P\<close> on a positive counter decrements it and returns; otherwise it still decrements it, and
  the caller goes to the tail of the wait queue, marked with the semaphore, while the head of the
  ready queue runs.\<close>

lemma sem_P_blocks:
  assumes r: "run_state cpu s (p # x # xs) ws" and a: "0 \<le> a" "a < 100"
  shows "\<exists>ret s'. sys_user_sem_P cpu a s = Inr (ret, s') \<and> sem_l s' = (sem_l s)(a := sem_l s a - 1) \<and>
     (if 0 < sem_l s a then ret = Some 1 \<and> run_state cpu s' (p # x # xs) ws
      else ret = None \<and> run_state cpu s' (x # xs) (ws @ [p]) \<and> sem (pcb s' p) = a)"
proof -
  define s1 where "s1 = s\<lparr>sem_l := (sem_l s)(a := sem_l s a - 1)\<rparr>"
  have r1: "run_state cpu s1 (p # x # xs) ws" using r by (simp add: s1_def run_state_def queue_defs)
  show ?thesis
  proof (cases "0 < sem_l s a")
    case True
    then show ?thesis using r1 a by (simp add: sys_user_sem_P_def sem_ok_def s1_def Let_def)
  next
    case False
    let ?s = "upd_cur cpu (\<lambda>p. p\<lparr>sem := a\<rparr>) s1"
    have c: "current s1 cpu = p" using r1 by (simp add: run_state_def)
    have "run_state cpu ?s (p # x # xs) ws" using r1 by simp
    from block_current_waits [OF this] obtain s' where
      "block_current cpu ?s = Inr (None, s')" "run_state cpu s' (x # xs) (ws @ [p])" "sem (pcb s' p) = a" "sem_l s' = sem_l s1"
      using c by auto
    then show ?thesis using False a by (simp add: sys_user_sem_P_def sem_ok_def s1_def [symmetric] Let_def) (simp add: s1_def)
  qed
qed

text \<open>C23: \<^verbatim>\<open>sys_user_sem_V\<close> increments the counter of the semaphore and wakes the first waiter only when the
  new counter is not negative.  After two processes have blocked on a semaphore of value 0 the counter
  is -2, so the first \<^verbatim>\<open>V\<close> wakes nobody although processes wait for it.\<close>

theorem sem_V_wakes:
  assumes "ready_queue s rs" and "wait_queue s (xs @ w # ys)" and "set rs \<inter> set (xs @ w # ys) = {}"
    and "\<forall>x \<in> set xs. sem (pcb s x) \<noteq> a" and "sem (pcb s w) = a" and "0 \<le> a" "a < 100"
  shows "\<exists>s'. sys_user_sem_V a s = Inr (1, s') \<and> sem_l s' a = sem_l s a + 1 \<and>
     (if sem_l s a < - 1 then ready_queue s' rs \<and> wait_queue s' (xs @ w # ys)
      else ready_queue s' (w # rs) \<and> wait_queue s' (xs @ ys))"
proof -
  let ?s = "s\<lparr>sem_s := 1, sem_l := (sem_l s)(a := sem_l s a + 1)\<rparr>"
  have q: "ready_queue ?s rs" "wait_queue ?s (xs @ w # ys)"
    using assms(1,2) by (simp_all add: queue_defs)
  have "\<forall>x \<in> set xs. sem (pcb ?s x) \<noteq> a" "sem (pcb ?s w) = a" using assms(4,5) by simp_all
  from wake_wait_queue_moves [OF q assms(3) this assms(6,7)] obtain s' where
    s': "wake_wait_queue a ?s = Inr s'" "if sem_l ?s a < 0 then s' = ?s
      else ready_queue s' (w # rs) \<and> wait_queue s' (xs @ ys)" by (auto split: if_splits)
  have "sem_l s' = sem_l ?s"
    using s'(1) by (auto simp: wake_wait_queue_def insert_to_ready_queue_head_def unlink_waiter_def
        split: if_splits option.splits)
  then show ?thesis using s' q assms(6,7) by (auto simp: sys_user_sem_V_def sem_ok_def split: if_splits)
qed

section \<open>Wait\<close>

text \<open>C40: \<^verbatim>\<open>process_wait\<close> returns only the identifier of a zombie child of the caller or -1, and a call that
  returns changes nothing: the assignment that should free the process structure of the child is a
  comparison, so the structure stays a zombie and \<^verbatim>\<open>alloc_process\<close> can never use it again.\<close>

theorem process_wait_returns:
  assumes "process_wait cpu n s = Inr (Some r, s')"
  shows "s' = s \<and> (r = - 1 \<or> (\<exists>i < NPROC. parent (pcb s (Proc i)) \<noteq> Null \<and>
     pid (pcb s (parent (pcb s (Proc i)))) = pid (cur cpu s) \<and> status (pcb s (Proc i)) = ZOMBIE \<and>
     pid (pcb s (Proc i)) = word_of_int r))"
proof -
  have f: "find P [0..<NPROC] = Some i \<Longrightarrow> i < NPROC \<and> P i" for P i
    by (metis atLeastLessThan_iff find_Some_iff nth_mem set_upt)
  show ?thesis
    using assms by (auto simp: process_wait_def block_current_def kbind_eq_Inr split: if_splits option.splits dest!: f)
qed

section \<open>Witnesses\<close>

lemma demo_run_state: "run_state 0 demo_kernel [Proc 0, Proc 1, Proc 2] [Proc 3, Proc 4]"
  using demo_kernel_queues demo_tf by (simp add: run_state_def)

lemma yield_round_robin_example:
  "\<exists>s'. yields 4 0 demo_kernel = Inr s' \<and> current s' 0 = Proc 1 \<and> wait_queue s' [Proc 3, Proc 4]"
  using yield_round_robin [OF demo_run_state, of 4] by simp

lemma sem_P_blocks_example:
  "\<exists>s'. sys_user_sem_P 0 6 demo_kernel = Inr (None, s') \<and> current s' 0 = Proc 1 \<and>
     wait_queue s' [Proc 3, Proc 4, Proc 0] \<and> sem_l s' 6 = - 1"
  using sem_P_blocks [OF demo_run_state, of 6] by (auto simp: run_state_def)

theorem sem_V_wakes_witness:
  "\<exists>s'. sys_user_sem_V 6 demo_kernel = Inr (1, s') \<and> ready_queue s' [Proc 4, Proc 1, Proc 2] \<and> wait_queue s' [Proc 3]"
  using sem_V_wakes [of demo_kernel "[Proc 1, Proc 2]" "[Proc 3]" "Proc 4" "[]" 6] demo_kernel_queues
  by (fastforce simp: demo_proc_def)

definition demo_zombie :: "unit kernel" where
  \<comment> \<open>process 3 runs and its child, process 0, has exited\<close>
  "demo_zombie = upd_proc (Proc 0) (\<lambda>p. p\<lparr>status := ZOMBIE\<rparr>) (demo_kernel\<lparr>current := \<lambda>_. Proc 3\<rparr>)"

theorem process_wait_returns_witness:
  "process_wait 0 (- 1) demo_zombie = Inr (Some 0, demo_zombie) \<and>
     (\<exists>i < NPROC. parent (pcb demo_zombie (Proc i)) \<noteq> Null \<and> status (pcb demo_zombie (Proc i)) = ZOMBIE)"
proof -
  have "process_wait 0 (- 1) demo_zombie = Inr (Some 0, demo_zombie)"
    by (simp add: process_wait_def demo_zombie_def upd_proc_def NPROC_def upt_rec [of 0] demo_proc_def)
  with process_wait_returns [OF this] show ?thesis by auto
qed

end
