(* ===== verification/FdtProps.thy ===== *)
theory FdtProps
  imports DeviceTree
begin

text \<open>
  The scanner of the device tree visits the tree that the block encodes.  The encoding is a grammar
  (\<open>props_at\<close>, \<open>tree_at\<close>, \<open>forest_at\<close>, with padding anywhere between items), the tree a datatype, and the
  reference a recursion over the tree that calls the callbacks in document order.
\<close>

datatype dt_node = Dt_node cstring "fdt_scan_prop list" "dt_node list"

section \<open>The reference traversal\<close>

fun visit_props :: "'e fdt_cb \<Rightarrow> int \<Rightarrow> blob \<Rightarrow> fdt_scan_node list \<Rightarrow> fdt_scan_prop list \<Rightarrow> 'e \<Rightarrow> kerr + (fdt_scan_node list \<times> 'e)" where
  "visit_props cb strs b nds [] e = Inr (nds, e)"
| "visit_props cb strs b nds (pr # ps) e =
     kbind (if is_cells (pr_name pr) then kbind (be_word b (pr_value pr)) (\<lambda>v. Inr (set_cells (pr_name pr) (sint v) nds))
            else Inr nds) (\<lambda>nds.
     kbind (cb_prop cb b nds pr e) (\<lambda>e. visit_props cb strs b nds ps e))"

definition fresh_child :: fdt_scan_node where
  "fresh_child = \<lparr>nd_name = [], address_cells = 2, size_cells = 1\<rparr>"

fun visit :: "'e fdt_cb \<Rightarrow> int \<Rightarrow> blob \<Rightarrow> fdt_scan_node list \<Rightarrow> fdt_scan_node \<Rightarrow> dt_node \<Rightarrow> 'e \<Rightarrow> kerr + (fdt_scan_node \<times> 'e)"
  and visits :: "'e fdt_cb \<Rightarrow> int \<Rightarrow> blob \<Rightarrow> fdt_scan_node list \<Rightarrow> fdt_scan_node \<Rightarrow> dt_node list \<Rightarrow> 'e \<Rightarrow> kerr + (fdt_scan_node \<times> 'e)" where
  "visit cb strs b up child (Dt_node nm ps ts) e =
     kbind (call_open cb b (child\<lparr>nd_name := nm\<rparr> # up) e) (\<lambda>e.
     kbind (visit_props cb strs b (child\<lparr>nd_name := nm\<rparr> # up) ps e) (\<lambda>(nds, e).
     kbind (call_done cb False b nds e) (\<lambda>e.
     kbind (visits cb strs b nds fresh_child ts e) (\<lambda>(_, e). Inr (hd nds, e)))))"
| "visits cb strs b up child [] e = Inr (child, e)"
| "visits cb strs b up child (t # ts) e =
     kbind (visit cb strs b up child t e) (\<lambda>(child, e). visits cb strs b up child ts e)"

section \<open>The encoding\<close>

inductive props_at :: "blob \<Rightarrow> int \<Rightarrow> int \<Rightarrow> fdt_scan_prop list \<Rightarrow> int \<Rightarrow> bool" for b strs where
  props_nil: "props_at b strs p [] p"
| props_nop: "be_word b p = Inr FDT_NOP \<Longrightarrow> props_at b strs (p + 1) ps q \<Longrightarrow> props_at b strs p ps q"
| props_cons: "be_word b p = Inr FDT_PROP \<Longrightarrow> be_word b (p + 1) = Inr l \<Longrightarrow> be_word b (p + 2) = Inr off \<Longrightarrow>
    cstr_at b (nat (strs + uint off)) = Inr nm \<Longrightarrow>
    props_at b strs (p + (3 + cdiv (sint l + 3) 4)) ps q \<Longrightarrow>
    props_at b strs p (\<lparr>pr_name = nm, pr_value = p + 3, pr_len = sint l\<rparr> # ps) q"

inductive tree_at :: "blob \<Rightarrow> int \<Rightarrow> int \<Rightarrow> dt_node \<Rightarrow> int \<Rightarrow> bool"
  and forest_at :: "blob \<Rightarrow> int \<Rightarrow> int \<Rightarrow> dt_node list \<Rightarrow> int \<Rightarrow> bool" for b strs where
  tree_node: "be_word b p = Inr FDT_BEGIN_NODE \<Longrightarrow> cstr_at b (4 * nat (p + 1)) = Inr nm \<Longrightarrow>
    props_at b strs (p + 2 + int (length nm div 4)) ps q \<Longrightarrow> forest_at b strs q ts r \<Longrightarrow>
    be_word b r = Inr FDT_END_NODE \<Longrightarrow> tree_at b strs p (Dt_node nm ps ts) (r + 1)"
| forest_nil: "forest_at b strs p [] p"
| forest_nop: "be_word b p = Inr FDT_NOP \<Longrightarrow> forest_at b strs (p + 1) ts q \<Longrightarrow> forest_at b strs p ts q"
| forest_cons: "tree_at b strs p t q \<Longrightarrow> forest_at b strs q ts r \<Longrightarrow> forest_at b strs p (t # ts) r"

definition obind :: "kerr + 'a \<Rightarrow> ('a \<Rightarrow> (kerr + 'b) option) \<Rightarrow> (kerr + 'b) option" where
  "obind m f = (case m of Inl er \<Rightarrow> Some (Inl er) | Inr x \<Rightarrow> f x)"

lemma obind_simps [simp]: "obind (Inl er) f = Some (Inl er)" "obind (Inr x) f = f x"
  by (simp_all add: obind_def)

lemma obind_kbind: "obind (kbind m f) g = obind m (\<lambda>x. obind (f x) g)"
  by (cases m) simp_all

section \<open>The scanner follows the encoding\<close>

lemma helper_nop:
  "be_word b p = Inr FDT_NOP \<Longrightarrow>
   fdt_scan_helper cb strs nds lst child p b e = fdt_scan_helper cb strs nds lst child (p + 1) b e"
  by (subst fdt_scan_helper.simps) simp

lemma helper_props:
  "props_at b strs p ps q \<Longrightarrow> nds \<noteq> [] \<Longrightarrow>
   fdt_scan_helper cb strs nds False child p b e =
   obind (visit_props cb strs b nds ps e) (\<lambda>(nds, e). fdt_scan_helper cb strs nds False child q b e)"
proof (induction arbitrary: nds e rule: props_at.induct)
  case (props_nil p)
  show ?case by simp
next
  case (props_nop p ps q)
  then show ?case by (simp add: helper_nop)
next
  case (props_cons p l off nm ps q)
  have ne: "set_cells nm v nds \<noteq> []" for v
    using \<open>nds \<noteq> []\<close> by (cases nds) (auto simp: set_cells_def)
  show ?case
    apply (subst fdt_scan_helper.simps)
    using props_cons ne
    apply (auto simp: scan_prop_def FDT_defs obind_kbind Let_def obind_def kbind_def split: sum.splits)
    done
qed

lemma visit_props_tl:
  "visit_props cb strs b nds ps e = Inr (nds', e') \<Longrightarrow> nds \<noteq> [] \<Longrightarrow> nds' \<noteq> [] \<and> tl nds' = tl nds"
proof (induction ps arbitrary: nds e)
  case (Cons pr ps)
  have "set_cells nm v nds \<noteq> [] \<and> tl (set_cells nm v nds) = tl nds" for nm v
    using \<open>nds \<noteq> []\<close> by (cases nds) (auto simp: set_cells_def)
  then show ?case using Cons
    by (force simp: kbind_eq_Inr split: if_splits)
qed simp

definition ends_at :: "blob \<Rightarrow> int \<Rightarrow> int \<Rightarrow> bool" where
  "ends_at b q fin \<longleftrightarrow> be_word b q = Inr FDT_END_NODE \<and> fin = q + 1 \<or> be_word b q = Inr FDT_END \<and> fin = q"

lemma helper_end:
  "ends_at b q fin \<Longrightarrow>
   fdt_scan_helper cb strs nds lst child q b e = obind (call_done cb lst b nds e) (\<lambda>e. Some (Inr (fin, nds, b, e)))"
  by (subst fdt_scan_helper.simps) (auto simp: ends_at_def FDT_defs obind_def)

lemma helper_begin:
  assumes "be_word b p = Inr FDT_BEGIN_NODE" "cstr_at b (4 * nat (p + 1)) = Inr nm" "cb_close cb = None"
    and kids: "\<And>e. fdt_scan_helper cb strs (child\<lparr>nd_name := nm\<rparr> # nds) False fresh_child (p + 2 + int (length nm div 4)) b e =
      obind (f e) (\<lambda>(nds', e). Some (Inr (q, nds', b, e)))"
  shows "fdt_scan_helper cb strs nds lst child p b e =
      obind (call_done cb lst b nds e) (\<lambda>e.
      obind (call_open cb b (child\<lparr>nd_name := nm\<rparr> # nds) e) (\<lambda>e.
      obind (f e) (\<lambda>(nds', e). fdt_scan_helper cb strs (tl nds') True (hd nds') q b e)))"
  apply (subst fdt_scan_helper.simps)
  using assms(1-3)
  apply (auto simp: FDT_defs obind_def kbind_def close_node_def kids[unfolded fresh_child_def] split: sum.splits)
  done

lemma visit_done_mono:
  "visit_props cb strs b (child\<lparr>nd_name := nm\<rparr> # nds) ps e = Inr (nds', e') \<Longrightarrow> tl nds' = nds"
  by (drule visit_props_tl) auto

text \<open>A tree, and a forest with the token that ends it, after the properties of the parent or after a sibling.\<close>

lemma helper_tree:
  fixes cb :: "'e fdt_cb"
  assumes close: "cb_close cb = None"
  shows "tree_at b strs p t q \<Longrightarrow>
      \<forall>nds lst child e. fdt_scan_helper cb strs nds lst child p b e =
        obind (call_done cb lst b nds e) (\<lambda>e.
        obind (visit cb strs b nds child t e) (\<lambda>(child, e). fdt_scan_helper cb strs nds True child q b e))"
    and "forest_at b strs p ts q \<Longrightarrow>
      \<forall>nds lst child e fin. ends_at b q fin \<longrightarrow> fdt_scan_helper cb strs nds lst child p b e =
        obind (call_done cb lst b nds e) (\<lambda>e.
        obind (visits cb strs b nds child ts e) (\<lambda>(_, e). Some (Inr (fin, nds, b, e))))"
proof (induction rule: tree_at_forest_at.inducts)
  case (tree_node p nm ps q ts r)
  have fin: "ends_at b r (r + 1)"
    using tree_node by (simp add: ends_at_def)
  let ?f = "\<lambda>child nds e. kbind (visit_props cb strs b (child\<lparr>nd_name := nm\<rparr> # nds) ps e) (\<lambda>(nds, e).
      kbind (call_done cb False b nds e) (\<lambda>e. kbind (visits cb strs b nds fresh_child ts e) (\<lambda>(_, e). Inr (nds, e))))"
  have kids: "fdt_scan_helper cb strs (child\<lparr>nd_name := nm\<rparr> # nds) False fresh_child (p + 2 + int (length nm div 4)) b e =
      obind (?f child nds e) (\<lambda>(nds', e). Some (Inr (r + 1, nds', b, e)))" for child nds e
    using tree_node(5) fin
    by (subst helper_props [OF tree_node(3)]) (auto simp: obind_def kbind_def split: sum.splits)
  show ?case
    using helper_begin [OF tree_node(1,2) close kids]
    by (auto simp: obind_def kbind_def split: sum.splits dest: visit_done_mono)
next
  case (forest_nil p)
  show ?case by (auto simp: helper_end)
next
  case (forest_nop p ts q)
  then show ?case by (simp add: helper_nop)
next
  case (forest_cons p t q ts r)
  have "call_done cb True b nds e = Inr e" for nds e
    by (simp add: call_done_def)
  then show ?case using forest_cons
    by (auto simp: obind_kbind obind_def kbind_def split: sum.splits)
qed

definition fdt_encodes :: "blob \<Rightarrow> int \<Rightarrow> dt_node list \<Rightarrow> bool" where
  \<comment> \<open>header, structure block and offset of the strings\<close>
  "fdt_encodes b strs ts \<longleftrightarrow>
     be_word b 0 = Inr FDT_MAGIC \<and> (\<exists>ver. be_word b 6 = Inr ver \<and> ver \<le> FDT_VERSION) \<and>
     (\<exists>off. be_word b 3 = Inr off \<and> strs = uint off) \<and>
     (\<exists>st q. be_word b 2 = Inr st \<and> uint st mod 4 = 0 \<and> forest_at b strs (uint st div 4) ts q \<and> be_word b q = Inr FDT_END)"

lemma fdt_scan_visit:
  assumes "fdt_encodes b strs ts" "cb_close cb = None"
  shows "fdt_scan cb b e = kbind (visits cb strs b [] fresh_child ts e) (\<lambda>(_, e). Inr (b, e))"
proof -
  obtain st q off ver where h: "be_word b 0 = Inr FDT_MAGIC" "be_word b 6 = Inr ver" "ver \<le> FDT_VERSION"
    "be_word b 3 = Inr off" "strs = uint off" "be_word b 2 = Inr st" "uint st mod 4 = 0"
    "forest_at b strs (uint st div 4) ts q" "be_word b q = Inr FDT_END"
    using assms(1) by (auto simp: fdt_encodes_def)
  have "ends_at b q q"
    using h by (simp add: ends_at_def)
  then have "fdt_scan_helper cb strs [] False fresh_child (uint st div 4) b e =
      obind (visits cb strs b [] fresh_child ts e) (\<lambda>(_, e). Some (Inr (q, [], b, e)))"
    using helper_tree(2) [OF assms(2) h(8)] by (simp add: call_done_def)
  then show ?thesis
    using h by (auto simp: fdt_scan_def fresh_child_def obind_def kbind_def split: sum.splits)
qed

section \<open>Finding the host interface\<close>

abbreviation "compatible_nm \<equiv> [99, 111, 109, 112, 97, 116, 105, 98, 108, 101] :: cstring"
abbreviation "htif_nm \<equiv> [117, 99, 98, 44, 104, 116, 105, 102, 48] :: cstring"

definition compat_prop :: "blob \<Rightarrow> fdt_scan_prop \<Rightarrow> bool" where
  "compat_prop b pr \<longleftrightarrow> pr_name pr = compatible_nm \<and> streq_at b (4 * nat (pr_value pr)) htif_nm = Inr True"

definition readable_prop :: "blob \<Rightarrow> fdt_scan_prop \<Rightarrow> bool" where
  \<comment> \<open>the values that the kernel reads end inside the block\<close>
  "readable_prop b pr \<longleftrightarrow>
     (is_cells (pr_name pr) \<longrightarrow> (\<exists>v. be_word b (pr_value pr) = Inr v)) \<and>
     (pr_name pr = compatible_nm \<longrightarrow> (\<exists>c. streq_at b (4 * nat (pr_value pr)) htif_nm = Inr c))"

fun node_props :: "dt_node \<Rightarrow> fdt_scan_prop list" where
  "node_props (Dt_node nm ps ts) = ps @ concat (map node_props ts)"

abbreviation forest_props :: "dt_node list \<Rightarrow> fdt_scan_prop list" where
  "forest_props ts \<equiv> concat (map node_props ts)"

lemma htif_visit_props:
  assumes "\<forall>pr\<in>set ps. readable_prop b pr"
  shows "\<exists>nds'. visit_props htif_cb strs b nds ps (c, h) = Inr (nds', c \<or> (\<exists>pr\<in>set ps. compat_prop b pr), h)"
  using assms
proof (induction ps arbitrary: nds c)
  case (Cons pr ps)
  obtain nds1 where 1: "(if is_cells (pr_name pr) then kbind (be_word b (pr_value pr)) (\<lambda>v. Inr (set_cells (pr_name pr) (sint v) nds))
            else Inr nds) = Inr nds1"
    using Cons.prems unfolding readable_prop_def by (metis kbind_Inr list.set_intros(1))
  have 2: "htif_prop b n pr (c, h) = Inr (c \<or> compat_prop b pr, h)" for n
    using Cons.prems by (auto simp: htif_prop_def compat_prop_def readable_prop_def simp del: streq_at.simps)
  obtain nds' where "visit_props htif_cb strs b nds1 ps (c \<or> compat_prop b pr, h) =
      Inr (nds', (c \<or> compat_prop b pr) \<or> (\<exists>pr\<in>set ps. compat_prop b pr), h)"
    using Cons.IH [of nds1 "c \<or> compat_prop b pr"] Cons.prems by (meson list.set_intros(2))
  moreover have "cb_prop htif_cb = htif_prop"
    by (simp add: htif_cb_def)
  ultimately show ?case
    by (simp add: 1 2 disj_assoc)
qed simp

definition finds_htif :: "int \<Rightarrow> blob \<Rightarrow> dt_node \<Rightarrow> bool" where
  "finds_htif strs b t \<longleftrightarrow>
     (\<forall>up child c h. \<exists>child' c'. visit htif_cb strs b up child t (c, h) =
        Inr (child', c', if \<exists>pr\<in>set (node_props t). compat_prop b pr then 1 else h))"

lemma htif_visits:
  assumes "\<forall>t\<in>set ts. finds_htif strs b t"
  shows "\<exists>child' c'. visits htif_cb strs b up child ts (c, h) =
      Inr (child', c', if \<exists>pr\<in>set (forest_props ts). compat_prop b pr then 1 else h)"
  using assms
proof (induction ts arbitrary: child c h)
  case (Cons t ts)
  let ?h = "if \<exists>pr\<in>set (node_props t). compat_prop b pr then 1 else h"
  obtain child' c' where "visit htif_cb strs b up child t (c, h) = Inr (child', c', ?h)"
    using Cons.prems unfolding finds_htif_def by (meson list.set_intros(1))
  moreover obtain child'' c'' where "visits htif_cb strs b up child' ts (c', ?h) =
      Inr (child'', c'', if \<exists>pr\<in>set (forest_props ts). compat_prop b pr then 1 else ?h)"
    using Cons.IH [of child' c' ?h] Cons.prems by auto
  ultimately show ?case by auto
qed simp

lemma htif_visit:
  "\<forall>pr\<in>set (node_props t). readable_prop b pr \<Longrightarrow> finds_htif strs b t"
proof (induction t)
  case (Dt_node nm ps ts)
  have kids: "\<forall>t\<in>set ts. finds_htif strs b t"
    using Dt_node by auto
  have ps: "\<forall>pr\<in>set ps. readable_prop b pr"
    using Dt_node.prems by auto
  show ?case
    unfolding finds_htif_def
  proof (intro allI)
    fix up and child :: fdt_scan_node and c h
    let ?c = "\<exists>pr\<in>set ps. compat_prop b pr"
    let ?nds = "child\<lparr>nd_name := nm\<rparr> # up"
    obtain nds' where 1: "visit_props htif_cb strs b ?nds ps (False, h) = Inr (nds', ?c, h)"
      using htif_visit_props [OF ps, of strs ?nds False h] by auto
    have 2: "call_done htif_cb False b nds' (?c, h) = Inr (?c, if ?c then 1 else h)"
      using visit_props_tl [OF 1] by (auto simp: call_done_def htif_cb_def htif_done_def)
    have 3: "call_open htif_cb b ?nds (c, h) = Inr (False, h)"
      by (simp add: call_open_def htif_cb_def htif_open_def)
    obtain child' c' where 4: "visits htif_cb strs b nds' fresh_child ts (?c, if ?c then 1 else h) =
        Inr (child', c', if \<exists>pr\<in>set (forest_props ts). compat_prop b pr then 1 else if ?c then 1 else h)"
      using htif_visits [OF kids] by blast
    have 5: "(if \<exists>pr\<in>set (forest_props ts). compat_prop b pr then 1 else if ?c then 1 else h) =
        (if \<exists>pr\<in>set (node_props (Dt_node nm ps ts)). compat_prop b pr then 1 else h)"
      by (auto simp del: set_concat)
    have "visit htif_cb strs b up child (Dt_node nm ps ts) (c, h) =
        Inr (hd nds', c', if \<exists>pr\<in>set (node_props (Dt_node nm ps ts)). compat_prop b pr then 1 else h)"
      by (simp only: visit.simps 3 kbind_Inr 1 2 4 5 prod.case)
    then show "\<exists>child' c'. visit htif_cb strs b up child (Dt_node nm ps ts) (c, h) =
        Inr (child', c', if \<exists>pr\<in>set (node_props (Dt_node nm ps ts)). compat_prop b pr then 1 else h)"
      by blast
  qed
qed

lemma query_htif_visit:
  assumes "fdt_encodes b strs ts" "\<forall>pr\<in>set (forest_props ts). readable_prop b pr"
  shows "query_htif junk b h = Inr (if \<exists>pr\<in>set (forest_props ts). compat_prop b pr then 1 else h)"
proof -
  have "\<forall>t\<in>set ts. finds_htif strs b t"
    using assms(2) by (auto intro: htif_visit)
  from htif_visits [OF this, of "[]" fresh_child junk h] show ?thesis
    by (auto simp: query_htif_def fdt_scan_visit [OF assms(1)] htif_cb_def)
qed

section \<open>A device tree\<close>

definition demo_bytes :: "u8 list" where
  "demo_bytes =
    [208, 13, 254, 237, 0, 0, 0, 250, 0, 0, 0, 40, 0, 0, 0, 196, 0, 0, 0, 0, 0, 0, 0, 17, 0, 0, 0, 16, 0, 0, 0, 0,
     0, 0, 0, 54, 0, 0, 0, 156, 0, 0, 0, 1, 0, 0, 0, 0, 0, 0, 0, 3, 0, 0, 0, 4, 0, 0, 0, 0, 0, 0, 0, 2, 0, 0, 0, 3,
     0, 0, 0, 4, 0, 0, 0, 15, 0, 0, 0, 2, 0, 0, 0, 4, 0, 0, 0, 1, 109, 101, 109, 111, 114, 121, 0, 0, 0, 0, 0, 3,
     0, 0, 0, 7, 0, 0, 0, 27, 109, 101, 109, 111, 114, 121, 0, 0, 0, 0, 0, 3, 0, 0, 0, 16, 0, 0, 0, 39, 0, 0, 0, 0,
     128, 0, 0, 0, 0, 0, 0, 0, 128, 0, 0, 0, 0, 0, 0, 2, 0, 0, 0, 1, 104, 116, 105, 102, 0, 0, 0, 0, 0, 0, 0, 3, 0,
     0, 0, 10, 0, 0, 0, 43, 117, 99, 98, 44, 104, 116, 105, 102, 48, 0, 0, 0, 0, 0, 0, 2, 0, 0, 0, 2, 0, 0, 0, 9,
     35, 97, 100, 100, 114, 101, 115, 115, 45, 99, 101, 108, 108, 115, 0, 35, 115, 105, 122, 101, 45, 99, 101, 108,
     108, 115, 0, 100, 101, 118, 105, 99, 101, 95, 116, 121, 112, 101, 0, 114, 101, 103, 0, 99, 111, 109, 112, 97,
     116, 105, 98, 108, 101, 0]"

definition demo_dtb :: blob where
  "demo_dtb = ((!) demo_bytes, length demo_bytes)"

lemma demo_words:
  "be_word demo_dtb 0 = Inr 3490578157"
  "be_word demo_dtb 2 = Inr 40"
  "be_word demo_dtb 3 = Inr 196"
  "be_word demo_dtb 6 = Inr 16"
  "be_word demo_dtb 10 = Inr 1"
  "be_word demo_dtb 11 = Inr 0"
  "be_word demo_dtb 12 = Inr 3"
  "be_word demo_dtb 13 = Inr 4"
  "be_word demo_dtb 14 = Inr 0"
  "be_word demo_dtb 15 = Inr 2"
  "be_word demo_dtb 16 = Inr 3"
  "be_word demo_dtb 17 = Inr 4"
  "be_word demo_dtb 18 = Inr 15"
  "be_word demo_dtb 19 = Inr 2"
  "be_word demo_dtb 20 = Inr 4"
  "be_word demo_dtb 21 = Inr 1"
  "be_word demo_dtb 22 = Inr 1835363695"
  "be_word demo_dtb 23 = Inr 1920532480"
  "be_word demo_dtb 24 = Inr 3"
  "be_word demo_dtb 25 = Inr 7"
  "be_word demo_dtb 26 = Inr 27"
  "be_word demo_dtb 27 = Inr 1835363695"
  "be_word demo_dtb 28 = Inr 1920532480"
  "be_word demo_dtb 29 = Inr 3"
  "be_word demo_dtb 30 = Inr 16"
  "be_word demo_dtb 31 = Inr 39"
  "be_word demo_dtb 32 = Inr 0"
  "be_word demo_dtb 33 = Inr 2147483648"
  "be_word demo_dtb 34 = Inr 0"
  "be_word demo_dtb 35 = Inr 2147483648"
  "be_word demo_dtb 36 = Inr 2"
  "be_word demo_dtb 37 = Inr 1"
  "be_word demo_dtb 38 = Inr 1752459622"
  "be_word demo_dtb 39 = Inr 0"
  "be_word demo_dtb 40 = Inr 3"
  "be_word demo_dtb 41 = Inr 10"
  "be_word demo_dtb 42 = Inr 43"
  "be_word demo_dtb 43 = Inr 1969447468"
  "be_word demo_dtb 44 = Inr 1752459622"
  "be_word demo_dtb 45 = Inr 805306368"
  "be_word demo_dtb 46 = Inr 2"
  "be_word demo_dtb 47 = Inr 2"
  "be_word demo_dtb 48 = Inr 9"
  by (simp_all add: be_word_def lex_word_def demo_dtb_def demo_bytes_def bswap_def Let_def)

lemma demo_strings:
  "cstr_at demo_dtb 196 = Inr [35, 97, 100, 100, 114, 101, 115, 115, 45, 99, 101, 108, 108, 115]"
  "cstr_at demo_dtb 211 = Inr [35, 115, 105, 122, 101, 45, 99, 101, 108, 108, 115]"
  "cstr_at demo_dtb 223 = Inr [100, 101, 118, 105, 99, 101, 95, 116, 121, 112, 101]"
  "cstr_at demo_dtb 235 = Inr [114, 101, 103]"
  "cstr_at demo_dtb 239 = Inr [99, 111, 109, 112, 97, 116, 105, 98, 108, 101]"
  "cstr_at demo_dtb 44 = Inr []"
  "cstr_at demo_dtb 88 = Inr [109, 101, 109, 111, 114, 121]"
  "cstr_at demo_dtb 152 = Inr [104, 116, 105, 102]"
  by code_simp+

definition demo_tree :: "dt_node list" where
  "demo_tree = [Dt_node []
     [\<lparr>pr_name = [35, 97, 100, 100, 114, 101, 115, 115, 45, 99, 101, 108, 108, 115], pr_value = 15, pr_len = 4\<rparr>,
      \<lparr>pr_name = [35, 115, 105, 122, 101, 45, 99, 101, 108, 108, 115], pr_value = 19, pr_len = 4\<rparr>]
     [Dt_node [109, 101, 109, 111, 114, 121]
        [\<lparr>pr_name = [100, 101, 118, 105, 99, 101, 95, 116, 121, 112, 101], pr_value = 27, pr_len = 7\<rparr>,
         \<lparr>pr_name = [114, 101, 103], pr_value = 32, pr_len = 16\<rparr>] [],
      Dt_node [104, 116, 105, 102] [\<lparr>pr_name = compatible_nm, pr_value = 43, pr_len = 10\<rparr>] []]]"

lemma props_nopI:
  "be_word b p = Inr FDT_NOP \<Longrightarrow> p' = p + 1 \<Longrightarrow> props_at b strs p' ps q \<Longrightarrow> props_at b strs p ps q"
  by (simp add: props_nop)

lemma props_consI:
  assumes "be_word b p = Inr FDT_PROP" "be_word b (p + 1) = Inr l" "be_word b (p + 2) = Inr off"
    "cstr_at b (nat (strs + uint off)) = Inr (pr_name pr)" "pr_value pr = p + 3" "pr_len pr = sint l"
    "p' = p + (3 + cdiv (sint l + 3) 4)" "props_at b strs p' ps q"
  shows "props_at b strs p (pr # ps) q"
  using props_cons [OF assms(1-4), of ps q] assms(5-8) by (cases pr) simp

lemma tree_nodeI:
  assumes "be_word b p = Inr FDT_BEGIN_NODE" "cstr_at b (4 * nat (p + 1)) = Inr nm" "p' = p + 2 + int (length nm div 4)"
    "props_at b strs p' ps q" "forest_at b strs q ts r" "be_word b r = Inr FDT_END_NODE" "r' = r + 1"
  shows "tree_at b strs p (Dt_node nm ps ts) r'"
  using tree_node [OF assms(1,2), of strs ps q ts r] assms(3-7) by simp

lemma demo_root_props:
  "props_at demo_dtb 196 12
     [\<lparr>pr_name = [35, 97, 100, 100, 114, 101, 115, 115, 45, 99, 101, 108, 108, 115], pr_value = 15, pr_len = 4\<rparr>,
      \<lparr>pr_name = [35, 115, 105, 122, 101, 45, 99, 101, 108, 108, 115], pr_value = 19, pr_len = 4\<rparr>] 21"
proof (rule props_consI [where l = 4 and off = 0 and p' = 16])
  have "props_at demo_dtb 196 20 [] 21"
    by (rule props_nopI [where p' = 21]) (simp_all add: demo_words FDT_defs props_nil)
  then show "props_at demo_dtb 196 16
      [\<lparr>pr_name = [35, 115, 105, 122, 101, 45, 99, 101, 108, 108, 115], pr_value = 19, pr_len = 4\<rparr>] 21"
    by (rule props_consI [rotated 7, where l = 4 and off = 15]) (simp_all add: demo_words demo_strings FDT_defs)
qed (simp_all add: demo_words demo_strings FDT_defs)

lemma demo_memory:
  "tree_at demo_dtb 196 21 (Dt_node [109, 101, 109, 111, 114, 121]
        [\<lparr>pr_name = [100, 101, 118, 105, 99, 101, 95, 116, 121, 112, 101], pr_value = 27, pr_len = 7\<rparr>,
         \<lparr>pr_name = [114, 101, 103], pr_value = 32, pr_len = 16\<rparr>] []) 37"
proof (rule tree_nodeI [where p' = 24 and q = 36 and r = 36])
  show "props_at demo_dtb 196 24
     [\<lparr>pr_name = [100, 101, 118, 105, 99, 101, 95, 116, 121, 112, 101], pr_value = 27, pr_len = 7\<rparr>,
      \<lparr>pr_name = [114, 101, 103], pr_value = 32, pr_len = 16\<rparr>] 36"
    by (rule props_consI [where l = 7 and off = 27 and p' = 29]; (simp add: demo_words demo_strings FDT_defs)?)
       (rule props_consI [where l = 16 and off = 39 and p' = 36]; (simp add: demo_words demo_strings FDT_defs props_nil)?)
qed (simp_all add: demo_words demo_strings FDT_defs forest_nil)

lemma demo_htif:
  "tree_at demo_dtb 196 37 (Dt_node [104, 116, 105, 102] [\<lparr>pr_name = compatible_nm, pr_value = 43, pr_len = 10\<rparr>] []) 47"
proof (rule tree_nodeI [where p' = 40 and q = 46 and r = 46])
  show "props_at demo_dtb 196 40 [\<lparr>pr_name = compatible_nm, pr_value = 43, pr_len = 10\<rparr>] 46"
    by (rule props_consI [where l = 10 and off = 43 and p' = 46]; (simp add: demo_words demo_strings FDT_defs props_nil)?)
qed (simp_all add: demo_words demo_strings FDT_defs forest_nil)

lemma demo_encodes: "fdt_encodes demo_dtb 196 demo_tree"
proof -
  have "tree_at demo_dtb 196 10 (hd demo_tree) 48"
    unfolding demo_tree_def list.sel
    by (rule tree_nodeI [where p' = 12 and r = 47, OF _ _ _ demo_root_props forest_cons [OF demo_memory forest_cons [OF demo_htif forest_nil]]])
       (simp_all add: demo_words demo_strings FDT_defs)
  then have "forest_at demo_dtb 196 10 demo_tree 48"
    using forest_cons [OF _ forest_nil] by (fastforce simp: demo_tree_def)
  then show ?thesis
    by (auto simp: fdt_encodes_def demo_words FDT_MAGIC_def FDT_VERSION_def FDT_defs intro!: exI [of _ 48])
qed

section \<open>Properties\<close>

text \<open>C20: The scan of a block that encodes a device tree, with padding anywhere between its items, ends and
  calls the callbacks exactly as a traversal of the tree in document order does: open, the
  properties with the cell counts they set, done before the children, then the children.  Errors of a
  callback stop it, and without a close callback the block is unchanged.\<close>

theorem fdt_scan_traverses:
  assumes "fdt_encodes b strs ts" "cb_close cb = None"
  shows "fdt_scan cb b e = kbind (visits cb strs b [] fresh_child ts e) (\<lambda>(_, e). Inr (b, e))"
  using assms by (rule fdt_scan_visit)

lemma mem_cb_close [simp]: "cb_close (mem_cb self) = None"
  by (simp add: mem_cb_def)

lemma demo_visit_mem:
  "visits (mem_cb 0x80000100) 196 demo_dtb [] fresh_child demo_tree (\<lparr>ms_memory = True, ms_reg_value = None, ms_reg_len = 1\<rparr>, 0) =
   Inr (\<lparr>nd_name = [], address_cells = 2, size_cells = 2\<rparr>, \<lparr>ms_memory = False, ms_reg_value = None, ms_reg_len = 0\<rparr>, 0x80000000)"
  by code_simp

theorem fdt_scan_traverses_witness:
  "fdt_encodes demo_dtb 196 demo_tree \<and> cb_close (mem_cb 0x80000100) = None \<and>
   query_mem 0x80000100 \<lparr>ms_memory = True, ms_reg_value = None, ms_reg_len = 1\<rparr> demo_dtb = Inr 0x80000000"
  using fdt_scan_traverses [OF demo_encodes, of "mem_cb 0x80000100"] demo_encodes
  by (simp add: query_mem_def demo_visit_mem)

text \<open>On a block that encodes a device tree, \<^verbatim>\<open>query_htif\<close> sets \<^verbatim>\<open>htif\<close> to 1 exactly when some node of the tree
  has a property \<^verbatim>\<open>compatible\<close> with the value \<^verbatim>\<open>ucb,htif0\<close>, and leaves it alone otherwise, whatever the
  uninitialised scan record holds.\<close>

lemma query_htif_finds:
  assumes "fdt_encodes b strs ts" "\<forall>pr\<in>set (forest_props ts). readable_prop b pr"
  shows "query_htif junk b h = Inr (if \<exists>pr\<in>set (forest_props ts). compat_prop b pr then 1 else h)"
  using assms by (rule query_htif_visit)

lemma demo_readable:
  "\<forall>pr\<in>set (forest_props demo_tree). readable_prop demo_dtb pr"
  "\<exists>pr\<in>set (forest_props demo_tree). compat_prop demo_dtb pr"
proof -
  have v: "streq_at demo_dtb 172 htif_nm = Inr True"
    by code_simp
  show "\<forall>pr\<in>set (forest_props demo_tree). readable_prop demo_dtb pr"
    using v by (auto simp: demo_tree_def readable_prop_def demo_words simp del: streq_at.simps)
  show "\<exists>pr\<in>set (forest_props demo_tree). compat_prop demo_dtb pr"
    using v by (auto simp: demo_tree_def compat_prop_def simp del: streq_at.simps)
qed

lemma query_htif_finds_example:
  "fdt_encodes demo_dtb 196 demo_tree \<and> query_htif True demo_dtb 0 = Inr 1"
  using query_htif_finds [OF demo_encodes demo_readable(1)] demo_readable(2) demo_encodes by auto

end
