(* ===== verification/MachineProps.thy ===== *)
theory MachineProps
  imports Boot UserProps ProcProps FdtProps
begin

text \<open>
  Properties of machine mode and of the boot: what start-up leaves in the registers, the way of a timer
  interrupt into the scheduler, the source line that is printed for an illegal instruction and the
  command line.
\<close>

section \<open>Reading a source file\<close>

fun reads_as :: "'h frontend \<Rightarrow> int \<Rightarrow> 'h \<Rightarrow> u8 list \<Rightarrow> 'h \<Rightarrow> bool" where
  \<comment> \<open>reads of one byte from the descriptor give these bytes, one after the other\<close>
  "reads_as fe fd h [] h' \<longleftrightarrow> h' = h"
| "reads_as fe fd h (c # cs) h' \<longleftrightarrow> (case fe HTIFSYS_read [fd, 1] [] h of (_, out, h1) \<Rightarrow> out = [c] \<and> reads_as fe fd h1 cs h')"

lemma reads_as_append:
  "reads_as fe fd h (cs @ ds) h' \<longleftrightarrow> (\<exists>h1. reads_as fe fd h cs h1 \<and> reads_as fe fd h1 ds h')"
  by (induction cs arbitrary: h) (simp_all add: split_def)

lemma next_byte_reads:
  assumes "file_index f s = Inr i" "kfd (spike_files s i) = fd" "reads_as fe fd (hst s) (c # cs) h'"
  obtains h1 where "next_byte fe f b0 s = Inr (c, s\<lparr>hst := h1\<rparr>)" "reads_as fe fd h1 cs h'"
  using assms by (auto simp: next_byte_def spike_file_read_def frontend_syscall_def split: prod.splits)

lemma file_index_hst [simp]: "file_index f (s\<lparr>hst := h\<rparr>) = file_index f s"
  by (simp add: file_index_def)

lemma skip_lines_one:
  assumes "file_index f s = Inr i" "kfd (spike_files s i) = fd" "0 < n" "10 \<notin> set l"
    and "reads_as fe fd (hst s) (l @ [10]) h'"
  shows "skip_lines fe f n b0 s = skip_lines fe f (n - 1) 10 (s\<lparr>hst := h'\<rparr>)"
  using assms
proof (induction l arbitrary: s b0)
  case Nil
  obtain h1 where "next_byte fe f b0 s = Inr (10, s\<lparr>hst := h1\<rparr>)" "reads_as fe fd h1 [] h'"
    using next_byte_reads [OF Nil.prems(1,2), of fe 10 "[]" h' b0] Nil.prems(5) by auto
  then show ?case using Nil by (subst skip_lines.simps) simp
next
  case (Cons c l)
  obtain h1 where "next_byte fe f b0 s = Inr (c, s\<lparr>hst := h1\<rparr>)" "reads_as fe fd h1 (l @ [10]) h'"
    using next_byte_reads [OF Cons.prems(1,2), of fe c "l @ [10]" h' b0] Cons.prems(5) by auto
  then show ?case using Cons.prems Cons.IH [of "s\<lparr>hst := h1\<rparr>" c] by (subst skip_lines.simps) simp
qed

abbreviation file_text :: "cstring list \<Rightarrow> u8 list" where
  "file_text ls \<equiv> concat (map (\<lambda>l. l @ [10]) ls)"

lemma skip_lines_all:
  assumes "file_index f s = Inr i" "kfd (spike_files s i) = fd" "\<forall>l\<in>set ls. 10 \<notin> set l"
    and "reads_as fe fd (hst s) (file_text ls) h'"
  shows "\<exists>b1. skip_lines fe f (int (length ls)) b0 s = Some (Inr (b1, s\<lparr>hst := h'\<rparr>))"
  using assms
proof (induction ls arbitrary: s b0)
  case Nil
  then show ?case by (subst skip_lines.simps) simp
next
  case (Cons l ls)
  have "reads_as fe fd (hst s) ((l @ [10]) @ file_text ls) h'" using Cons.prems(4) by simp
  then obtain h1 where h1: "reads_as fe fd (hst s) (l @ [10]) h1" "reads_as fe fd h1 (file_text ls) h'"
    unfolding reads_as_append [of fe fd "hst s" "l @ [10]"] by blast
  have "skip_lines fe f (int (length (l # ls))) b0 s = skip_lines fe f (int (length ls)) 10 (s\<lparr>hst := h1\<rparr>)"
    using skip_lines_one [OF Cons.prems(1,2) _ _ h1(1), of "int (length (l # ls))"] Cons.prems(3) by simp
  then show ?case
    using Cons.IH [of "s\<lparr>hst := h1\<rparr>" 10] Cons.prems(1-3) h1(2) by simp
qed

lemma read_line_reads:
  assumes "file_index f s = Inr i" "kfd (spike_files s i) = fd" "10 \<notin> set l" "length acc + length l < 1000"
    and "reads_as fe fd (hst s) (l @ [10]) h'"
  shows "read_line fe f acc b0 s = Some (Inr (acc @ l, s\<lparr>hst := h'\<rparr>))"
  using assms
proof (induction l arbitrary: s b0 acc)
  case Nil
  obtain h1 where "next_byte fe f b0 s = Inr (10, s\<lparr>hst := h1\<rparr>)" "reads_as fe fd h1 [] h'"
    using next_byte_reads [OF Nil.prems(1,2), of fe 10 "[]" h' b0] Nil.prems(5) by auto
  then show ?case using Nil by (subst read_line.simps) simp
next
  case (Cons c l)
  obtain h1 where "next_byte fe f b0 s = Inr (c, s\<lparr>hst := h1\<rparr>)" "reads_as fe fd h1 (l @ [10]) h'"
    using next_byte_reads [OF Cons.prems(1,2), of fe c "l @ [10]" h' b0] Cons.prems(5) by auto
  then show ?case using Cons.prems Cons.IH [of "s\<lparr>hst := h1\<rparr>" "acc @ [c]" c] by (subst read_line.simps) simp
qed


definition disk_host :: "u8 list frontend" where
  \<comment> \<open>the host state is what is left to read\<close>
  "disk_host n args w h = (if h = [] then (0, [], h) else (1, [hd h], tl h))"


section \<open>The timer\<close>

definition timer_tick ::
  "'h frontend \<Rightarrow> (nat \<Rightarrow> int) \<Rightarrow> (int \<Rightarrow> bytes) \<Rightarrow> u8 \<Rightarrow> ('h, 'z) mach_scheme \<Rightarrow> kerr + ('h, 'z) mach_scheme" where
  \<comment> \<open>the machine interrupt and the supervisor interrupt that it raises\<close>
  "timer_tick fe junk stk b0 s =
     kbind (handle_mtrap fe 0 CAUSE_MTIMER b0 s) (\<lambda>s. smode_trap_handler fe 0 junk stk CAUSE_MTIMER_S_TRAP 0 s)"

definition same_clock :: "('h, 'z) mach_scheme \<Rightarrow> ('h, 'z) mach_scheme \<Rightarrow> bool" where
  "same_clock s s' \<longleftrightarrow> g_ticks s' = g_ticks s \<and> csr_sip s' = csr_sip s \<and> clint_mtimecmp s' = clint_mtimecmp s"

lemma insert_same_clock: "insert_to_ready_queue p s = Inr s' \<Longrightarrow> same_clock s s'"
  by (auto simp: same_clock_def insert_to_ready_queue_def upd_proc_def split: if_splits option.splits)

lemma switch_to_same_clock: "switch_to cpu p s = Inr s' \<Longrightarrow> same_clock s s'"
  by (auto simp: same_clock_def switch_to_def store_def kbind_eq_Inr Let_def split: if_splits)

lemma dispatch_same_clock: "dispatch cpu s = Inr s' \<Longrightarrow> same_clock s s'"
  by (auto simp: same_clock_def dispatch_def switch_to_def store_def kbind_eq_Inr Let_def nonnull_proc_def upd_proc_def split: if_splits)

lemma schedule_same_clock: "schedule 0 cpu s = Inr s' \<Longrightarrow> same_clock s s'"
  by (auto simp: schedule_def dispatch_same_clock split: if_splits)

lemma run_state_frame:
  assumes "run_state cpu s qs ws" "pcb s' = pcb s" "current s' cpu = current s cpu"
    "ready_queue_head s' = ready_queue_head s" "wait_queue_head s' = wait_queue_head s"
  shows "run_state cpu s' qs ws"
  using assms by (simp add: run_state_def ready_queue_def wait_queue_def queue_rel_other [OF assms(2)])

lemma run_state_tick_count:
  assumes "run_state cpu s qs ws"
  shows "run_state cpu (upd_proc p (\<lambda>q. q\<lparr>tick_count := n q\<rparr>) s) qs ws"
proof -
  have "queue_rel st h (upd_proc p (\<lambda>q. q\<lparr>tick_count := n q\<rparr>) s) xs = queue_rel st h s xs" for st h xs
    by (rule queue_rel_cong) simp
  then show ?thesis
    using assms by (auto simp: run_state_def ready_queue_def wait_queue_def)
qed

definition ticked :: "('h, 'z) mach_scheme \<Rightarrow> ('h, 'z) mach_scheme" where
  \<comment> \<open>both handlers have run up to \<^verbatim>\<open>rrsched\<close>\<close>
  "ticked s = handle_mtimer_trap 0
     ((handle_timer s)\<lparr>mem := (mem s)(trapframe (cur 0 s) + TF_epc := csr_sepc s 0)\<rparr>)"

lemma ticked_simps [simp]:
  "g_ticks (ticked s) = g_ticks s + 1" "csr_sip (ticked s) 0 = 0" "clint_mtimecmp (ticked s) 0 = clint_mtimecmp s 0 + TIMER_INTERVAL"
  "pcb (ticked s) = pcb s" "current (ticked s) = current s" "ready_queue_head (ticked s) = ready_queue_head s"
  "wait_queue_head (ticked s) = wait_queue_head s" "sem_l (ticked s) = sem_l s" "sem_len (ticked s) = sem_len s"
  "csr_sstatus (ticked s) = csr_sstatus s"
  by (simp_all add: ticked_def handle_mtimer_trap_def handle_timer_def)

lemma timer_tick_rrsched:
  assumes "current s 0 \<noteq> Null" "ram_page (trapframe (cur 0 s))" "csr_sstatus s 0 AND SSTATUS_SPP = 0"
  shows "timer_tick fe junk stk b0 s = kbind (rrsched 0 (ticked s)) (\<lambda>(r, s). if r then switch_to 0 (current s 0) s else Inr s)"
  using assms trapframe_words(4) [OF assms(2)]
  by (simp add: timer_tick_def handle_mtrap_def smode_trap_handler_def mcause_defs cause_defs kassert_def store_def
      handle_timer_def ticked_def)

lemma demo_app_run: "run_state 0 demo_app [Proc 0, Proc 1, Proc 2] [Proc 3, Proc 4]"
  using demo_tf by (simp add: run_state_def queue_defs demo_proc_def)

text \<open>C15: A timer interrupt in user mode, taken in machine mode and passed on to the supervisor, counts one tick,
  arms the timer for the next interval and clears the pending bit.  A process in the first tick of
  its slice goes on; one that has used its slice goes to the tail of the ready queue and the head of
  the queue runs.  So no process keeps the hart for more than two ticks.\<close>

theorem timer_preempts:
  assumes run: "run_state 0 s (p # xs) ws" and user: "csr_sstatus s 0 AND SSTATUS_SPP = 0"
  shows "\<exists>s'. timer_tick fe junk stk b0 s = Inr s' \<and> g_ticks s' = g_ticks s + 1 \<and> csr_sip s' 0 = 0 \<and>
    clint_mtimecmp s' 0 = clint_mtimecmp s 0 + TIMER_INTERVAL \<and>
    (if 1 \<le> tick_count (pcb s p) then run_state 0 s' (xs @ [p]) ws
     else run_state 0 s' (p # xs) ws \<and> tick_count (pcb s' p) = tick_count (pcb s p) + 1)"
proof -
  have p: "current s 0 = p" "p \<noteq> Null" "ram_page (trapframe (pcb s p))"
    using run by (auto simp: run_state_def)
  let ?u = "ticked s"
  have run_t: "run_state 0 ?u (p # xs) ws"
    using run_state_frame [OF run, of ?u] by simp
  have tick: "timer_tick fe junk stk b0 s = kbind (rrsched 0 ?u) (\<lambda>(r, s). if r then switch_to 0 (current s 0) s else Inr s)"
    using p user by (intro timer_tick_rrsched) simp_all
  show ?thesis
  proof (cases "1 \<le> tick_count (pcb s p)")
    case True
    let ?t = "upd_cur 0 (\<lambda>q. q\<lparr>tick_count := 0\<rparr>) ?u"
    have "run_state 0 ?t (p # xs) ws"
      using run_state_tick_count [OF run_t, of _ "\<lambda>_. 0"] by simp
    then obtain s1 s' where s': "insert_to_ready_queue (current ?t 0) ?t = Inr s1" "schedule 0 0 s1 = Inr s'" "run_state 0 s' (xs @ [p]) ws"
      using reschedule_rotates by blast
    have "same_clock ?t s1" "same_clock s1 s'"
      using insert_same_clock [OF s'(1)] schedule_same_clock [OF s'(2)] .
    then have "same_clock ?u s'" by (simp add: same_clock_def upd_proc_def)
    then show ?thesis
      using True s' p(1) by (simp add: tick rrsched_def Let_def same_clock_def)
  next
    case False
    let ?t = "upd_cur 0 (\<lambda>q. q\<lparr>tick_count := tick_count q + 1\<rparr>) ?u"
    have r: "run_state 0 ?t (p # xs) ws"
      using run_state_tick_count [OF run_t, of _ "\<lambda>q. tick_count q + 1"] by simp
    obtain s' where s': "switch_to 0 p ?t = Inr s'" "enters_user 0 p ?t s'" "pcb s' = pcb ?t"
        "ready_queue_head s' = ready_queue_head ?t" "wait_queue_head s' = wait_queue_head ?t"
      using switch_to_spec [of p ?t 0] p by auto
    have "run_state 0 s' (p # xs) ws"
      using run_state_frame [OF r s'(3) _ s'(4,5)] s'(2) p(1) by (simp add: enters_user_def Let_def)
    moreover have "same_clock ?u s'"
      using switch_to_same_clock [OF s'(1)] by (simp add: same_clock_def upd_proc_def)
    ultimately show ?thesis
      using False s' p(1) by (simp add: tick rrsched_def same_clock_def)
  qed
qed

definition demo_mach :: "u8 list mach" where
  "demo_mach = sysk.extend demo_app
     (mach.fields 0x8000000000141105 (\<lambda>_. 0x1800) (\<lambda>_. 0) (\<lambda>_. 0) (\<lambda>_. 0) (\<lambda>_. 0) (\<lambda>_. 0) (\<lambda>_. 0) (\<lambda>_. 0) (\<lambda>_. 0)
        0x222 0xb1ff 5000 (\<lambda>_. 1005000) 0 0 0 (\<lambda>_. 0))"

lemma demo_mach_simps [simp]:
  "pcb demo_mach = pcb demo_app" "current demo_mach = current demo_app" "ready_queue_head demo_mach = ready_queue_head demo_app"
  "wait_queue_head demo_mach = wait_queue_head demo_app" "csr_sstatus demo_mach = csr_sstatus demo_app" "g_ticks demo_mach = 0"
  "clint_mtimecmp demo_mach cpu = 1005000"
  by (simp_all add: demo_mach_def demo_app_def sysk.defs mach.defs elfk.defs kernel.defs hfs.defs)

lemma demo_mach_run: "run_state 0 demo_mach [Proc 0, Proc 1, Proc 2] [Proc 3, Proc 4]"
  by (rule run_state_frame [OF demo_app_run]) simp_all

theorem timer_preempts_witness:
  "\<exists>s'. timer_tick log_host (\<lambda>_. 0) (\<lambda>_ _. 0) 0 (upd_proc (Proc 0) (\<lambda>p. p\<lparr>tick_count := 1\<rparr>) demo_mach) = Inr s' \<and>
     run_state 0 s' [Proc 1, Proc 2, Proc 0] [Proc 3, Proc 4] \<and> g_ticks s' = 1"
proof -
  let ?s = "upd_proc (Proc 0) (\<lambda>p. p\<lparr>tick_count := 1\<rparr>) demo_mach"
  have "run_state 0 ?s [Proc 0, Proc 1, Proc 2] [Proc 3, Proc 4]"
    using run_state_tick_count [OF demo_mach_run, of _ "\<lambda>_. 1"] by simp
  moreover have "csr_sstatus ?s 0 AND SSTATUS_SPP = 0" "g_ticks ?s = 0"
    by (simp_all add: upd_proc_def)
  ultimately show ?thesis
    using timer_preempts [of ?s "Proc 0" "[Proc 1, Proc 2]" "[Proc 3, Proc 4]" log_host "\<lambda>_. 0" "\<lambda>_ _. 0" 0] by auto
qed

section \<open>Start-up\<close>

lemma bit_mask_word: "bit (push_bit k 1 :: u64) n \<longleftrightarrow> n = k \<and> n < 64"
  by (auto simp: bit_exp_iff possible_bit_word)

lemma delegated_exceptions: "bit (0xb109 :: u64) n \<longleftrightarrow> n \<in> {0, 3, 8, 12, 13, 15}"
proof -
  have "(0xb109 :: u64) = push_bit 0 1 OR push_bit 3 1 OR push_bit 8 1 OR push_bit 12 1 OR push_bit 13 1 OR push_bit 15 1"
    by simp
  then show ?thesis by (simp only: bit_or_iff bit_mask_word) auto
qed

lemma delegated_interrupts: "bit (0x222 :: u64) n \<longleftrightarrow> n \<in> {1, 5, 9}"
proof -
  have "(0x222 :: u64) = push_bit 1 1 OR push_bit 5 1 OR push_bit 9 1"
    by simp
  then show ?thesis by (simp only: bit_or_iff bit_mask_word) auto
qed

lemma mpp_mask: "(push_bit 11 3 :: u64) = push_bit 11 1 OR push_bit 12 1"
  by simp

lemma mstatus_supervisor:
  "(x AND NOT MSTATUS_MPP_MASK OR MSTATUS_MPP_S OR MSTATUS_MIE) AND MSTATUS_MPP_MASK = MSTATUS_MPP_S"
  "bit (x AND NOT MSTATUS_MPP_MASK OR MSTATUS_MPP_S OR MSTATUS_MIE) 3"
proof -
  have "bit ((x AND NOT MSTATUS_MPP_MASK OR MSTATUS_MPP_S OR MSTATUS_MIE) AND MSTATUS_MPP_MASK) n = bit MSTATUS_MPP_S n" for n
    by (auto simp only: MSTATUS_MPP_MASK_def MSTATUS_MPP_S_def MSTATUS_MIE_def mpp_mask bit_and_iff bit_or_iff bit_not_iff bit_mask_word)
  then show "(x AND NOT MSTATUS_MPP_MASK OR MSTATUS_MPP_S OR MSTATUS_MIE) AND MSTATUS_MPP_MASK = MSTATUS_MPP_S"
    by (intro bit_word_eqI) blast
  show "bit (x AND NOT MSTATUS_MPP_MASK OR MSTATUS_MPP_S OR MSTATUS_MIE) 3"
    by (simp add: MSTATUS_MIE_def bit_or_iff)
qed

lemma delegate_traps_spec:
  assumes "supports_extension 18 s" "mideleg_legal s AND 0x222 = 0x222" "medeleg_legal s AND 0xb109 = 0xb109"
  shows "delegate_traps cpu s = Inr (s\<lparr>csr_mideleg := (csr_mideleg s)(cpu := 0x222), csr_medeleg := (csr_medeleg s)(cpu := 0xb109)\<rparr>)"
  using assms by (simp add: delegate_traps_def mcause_defs cause_defs mstatus_defs kassert_def and.commute)

lemma sprint_ok:
  assumes "fmt_text False False fmt vl = Inr t" "\<forall>a. Num a \<in> set vl \<longrightarrow> sint a \<noteq> - (2 ^ 63)"
  shows "\<exists>h. sprint fe fmt vl s = Inr (s\<lparr>hst := h\<rparr>)"
  using sprint_text [OF assms, of fe s]
  by (auto simp: spike_file_write_def frontend_syscall_def stderr_def file_index_def file_ptr_def MAX_FILES_def split_def Let_def)

text \<open>C38: When the devices are found and the hart implements supervisor mode and the delegation bits, \<^verbatim>\<open>m_start\<close>
  enters \<^verbatim>\<open>s_start\<close> in supervisor mode with machine interrupts on and the timer armed one interval ahead;
  exactly the exceptions misaligned fetch, breakpoint, user call and the three page faults and exactly
  the supervisor interrupts are delegated, all others trap to \<^verbatim>\<open>mtrapvec\<close>.\<close>

theorem m_start_delegates:
  assumes dev: "kbind (spike_file_init s) (\<lambda>s. init_dtb fe self j1 j2 dtb s) = Inr s1"
    and "boot_count s1 = 0" "supports_extension 18 s1"
    and "mideleg_legal s1 AND 0x222 = 0x222" "medeleg_legal s1 AND 0xb109 = 0xb109"
  shows "\<exists>s'. m_start fe self j1 j2 itrframe sstart mtrapvec 0 dtb s = Inr s' \<and>
    csr_mepc s' 0 = sstart \<and> csr_mtvec s' 0 = mtrapvec \<and> csr_mscratch s' 0 = itrframe \<and> reg_tp s' 0 = 0 \<and>
    csr_mstatus s' 0 AND MSTATUS_MPP_MASK = MSTATUS_MPP_S \<and> bit (csr_mstatus s' 0) 3 \<and>
    (\<forall>c. bit (csr_medeleg s' 0) c \<longleftrightarrow> c \<in> {0, 3, 8, 12, 13, 15}) \<and> (\<forall>c. bit (csr_mideleg s' 0) c \<longleftrightarrow> c \<in> {1, 5, 9}) \<and>
    bit (csr_mie s' 0) 7 \<and> clint_mtimecmp s' 0 = clint_mtime s1 + TIMER_INTERVAL \<and> g_mem_size s' = g_mem_size s1"
proof -
  have "fmt_text False False (map of_char ''In m_start, hartid:%d'' @ [10]) [Num (of_nat 0)] =
      Inr (map of_char ''In m_start, hartid:0'' @ [10])"
    by (simp add: va_num_def int_text_def dec_text.simps)
  from sprint_ok [OF this] obtain h where
    h: "sprint fe (map of_char ''In m_start, hartid:%d'' @ [10]) [Num (of_nat 0)] (s1\<lparr>boot_count := 1\<rparr>) = Inr (s1\<lparr>boot_count := 1, hst := h\<rparr>)"
    by fastforce
  define m where "m = csr_mstatus s1 0 AND NOT MSTATUS_MPP_MASK OR MSTATUS_MPP_S OR MSTATUS_MIE"
  define t where "t = s1\<lparr>boot_count := 1, hst := h, reg_tp := (reg_tp s1)(0 := 0), csr_mscratch := (csr_mscratch s1)(0 := itrframe),
    csr_mepc := (csr_mepc s1)(0 := sstart), csr_mtvec := (csr_mtvec s1)(0 := mtrapvec), csr_mstatus := (csr_mstatus s1)(0 := m)\<rparr>"
  have d: "delegate_traps 0 t = Inr (t\<lparr>csr_mideleg := (csr_mideleg t)(0 := 0x222), csr_medeleg := (csr_medeleg t)(0 := 0xb109)\<rparr>)"
    by (rule delegate_traps_spec) (use assms(3-5) in \<open>simp_all add: t_def supports_extension_def\<close>)
  define s' where "s' = timerinit 0 (t\<lparr>csr_mideleg := (csr_mideleg t)(0 := 0x222), csr_medeleg := (csr_medeleg t)(0 := 0xb109),
    csr_sie := (csr_sie t)(0 := csr_sie t 0 OR SIE_SEIE OR SIE_STIE OR SIE_SSIE)\<rparr>)"
  have "m_start fe self j1 j2 itrframe sstart mtrapvec 0 dtb s = Inr s'"
    using dev assms(2) h d by (simp add: m_start_def barrier_alone_def NCPU_def s'_def t_def m_def or.assoc)
  moreover have "csr_mstatus s' 0 = m" "csr_medeleg s' 0 = 0xb109" "csr_mideleg s' 0 = 0x222" "csr_mie s' 0 = csr_mie s1 0 OR push_bit 7 1"
    by (simp_all add: s'_def t_def timerinit_def MIE_MTIE_def)
  moreover have "csr_mepc s' 0 = sstart" "csr_mtvec s' 0 = mtrapvec" "csr_mscratch s' 0 = itrframe" "reg_tp s' 0 = 0"
      "clint_mtimecmp s' 0 = clint_mtime s1 + TIMER_INTERVAL" "g_mem_size s' = g_mem_size s1"
    by (simp_all add: s'_def t_def timerinit_def)
  moreover have "bit (csr_mie s1 0 OR push_bit 7 1) 7"
    unfolding bit_or_iff bit_mask_word by simp
  ultimately show ?thesis
    using mstatus_supervisor [of "csr_mstatus s1 0"] delegated_exceptions delegated_interrupts by (metis m_def)
qed

lemma demo_query:
  "query_htif True demo_dtb 0 = Inr 1"
  "query_mem 0x80000100 \<lparr>ms_memory = True, ms_reg_value = None, ms_reg_len = 1\<rparr> demo_dtb = Inr 0x80000000"
  using query_htif_visit [OF demo_encodes demo_readable(1)] demo_readable(2)
    fdt_scan_visit [OF demo_encodes, of "mem_cb 0x80000100"] by (auto simp: query_mem_def demo_visit_mem)

definition demo_reset :: "u8 list mach" where
  "demo_reset = demo_mach\<lparr>spike_fds := (\<lambda>_. 0), spike_files := (\<lambda>_. \<lparr>kfd = - 1, refcnt = 0\<rparr>)\<rparr>"

lemma demo_reset_simps [simp]:
  "spike_fds demo_reset i = 0" "spike_files demo_reset j = \<lparr>kfd = - 1, refcnt = 0\<rparr>" "spike_base demo_reset = 0x80010000"
  "boot_count demo_reset = 0" "csr_misa demo_reset = 0x8000000000141105" "mideleg_legal demo_reset = 0x222"
  "medeleg_legal demo_reset = 0xb1ff" "htif_avail demo_reset = 0" "clint_mtime demo_reset = 5000"
  by (simp_all add: demo_reset_def demo_mach_def demo_app_def demo_log_def sysk.defs mach.defs elfk.defs kernel.defs hfs.defs fs.defs)

lemma demo_devices:
  "\<exists>s1. kbind (spike_file_init demo_reset) (\<lambda>s. init_dtb log_host 0x80000100 True
       \<lparr>ms_memory = True, ms_reg_value = None, ms_reg_len = 1\<rparr> demo_dtb s) = Inr s1 \<and> boot_count s1 = 0 \<and>
     csr_misa s1 = 0x8000000000141105 \<and> mideleg_legal s1 = 0x222 \<and> medeleg_legal s1 = 0xb1ff \<and> clint_mtime s1 = 5000 \<and>
     g_mem_size s1 = 0x80000000"
proof -
  obtain s0 where s0: "spike_file_init demo_reset = Inr s0" "s0 = demo_reset\<lparr>spike_fds := spike_fds s0, spike_files := spike_files s0\<rparr>"
    using spike_file_init_std [of demo_reset] by (auto simp: file_ptr_def)
  have s0s: "boot_count s0 = 0" "csr_misa s0 = 0x8000000000141105" "mideleg_legal s0 = 0x222" "medeleg_legal s0 = 0xb1ff"
      "clint_mtime s0 = 5000" "htif_avail s0 = 0"
    by (subst s0(2); simp)+
  have "fmt_text False False (map of_char ''HTIF is available!'' @ [13, 10]) [] = Inr (map of_char ''HTIF is available!'' @ [13, 10])"
    by simp
  from sprint_ok [OF this, of log_host "s0\<lparr>htif_avail := 1\<rparr>"] obtain h1 where
    h1: "sprint log_host (map of_char ''HTIF is available!'' @ [13, 10]) [] (s0\<lparr>htif_avail := 1\<rparr>) = Inr (s0\<lparr>htif_avail := 1, hst := h1\<rparr>)"
    by fastforce
  have "fmt_text False False (map of_char ''(Emulated) memory size: %ld MB'' @ [10]) [Num (drop_bit 20 0x80000000)] =
      Inr (map of_char ''(Emulated) memory size: 2048 MB'' @ [10])"
    by (simp add: va_num_def int_text_def dec_text.simps)
  from sprint_ok [OF this, of log_host "s0\<lparr>htif_avail := 1, hst := h1, g_mem_size := 0x80000000\<rparr>"] obtain h2 where
    h2: "sprint log_host (map of_char ''(Emulated) memory size: %ld MB'' @ [10]) [Num (drop_bit 20 0x80000000)]
        (s0\<lparr>htif_avail := 1, hst := h1, g_mem_size := 0x80000000\<rparr>) =
        Inr (s0\<lparr>htif_avail := 1, hst := h1, g_mem_size := 0x80000000, hst := h2\<rparr>)"
    by fastforce
  show ?thesis
    using s0(1) s0s h1 h2 by (simp add: init_dtb_def demo_query del: map_append list.map)
qed

theorem m_start_delegates_witness:
  "\<exists>s'. m_start log_host 0x80000100 True \<lparr>ms_memory = True, ms_reg_value = None, ms_reg_len = 1\<rparr> 0x80030000 0x80000400 0x80000500
       0 demo_dtb demo_reset = Inr s' \<and>
     csr_mepc s' 0 = 0x80000400 \<and> clint_mtimecmp s' 0 = 1005000 \<and> g_mem_size s' = 0x80000000 \<and> bit (csr_medeleg s' 0) 8"
proof -
  obtain s1 where s1: "kbind (spike_file_init demo_reset) (\<lambda>s. init_dtb log_host 0x80000100 True
       \<lparr>ms_memory = True, ms_reg_value = None, ms_reg_len = 1\<rparr> demo_dtb s) = Inr s1" "boot_count s1 = 0"
      "csr_misa s1 = 0x8000000000141105" "mideleg_legal s1 = 0x222" "medeleg_legal s1 = 0xb1ff" "clint_mtime s1 = 5000"
      "g_mem_size s1 = 0x80000000"
    using demo_devices by blast
  have "supports_extension 18 s1" "mideleg_legal s1 AND 0x222 = 0x222" "medeleg_legal s1 AND 0xb109 = 0xb109"
    using s1(3-5) by (simp_all add: supports_extension_def)
  from m_start_delegates [OF s1(1,2) this, of "0x80030000" "0x80000400" "0x80000500"] show ?thesis
    using s1(6,7) by (auto simp: TIMER_INTERVAL_def)
qed

section \<open>The command line\<close>

text \<open>\<^verbatim>\<open>parse_args\<close> drops the name of the kernel from the command line: for up to 62 arguments after it, the
  result is their number, \<^verbatim>\<open>argv[i]\<close> is the pointer to the argument number \<open>i\<close> after the kernel, although the
  loop moves the pointers inside the buffer it reads them from, and the strings behind the pointers are
  untouched.\<close>

lemma parse_args_shifts:
  assumes "fe HTIFSYS_getmainvars [512] [] (hst s) = (0, out, h)" "length out = 512"
    and "rdd ((!) out) 0 = argc" "1 \<le> argc" "argc \<le> 63"
  shows "\<exists>b. parse_args fe junk s = Inr (argc - 1, b, s\<lparr>hst := h\<rparr>) \<and>
    (\<forall>i < unat argc - 1. rdd b (8 * i) = rdd ((!) out) (8 * (i + 2))) \<and>
    (\<forall>k. 8 * (unat argc - 1) \<le> k \<and> k < 512 \<longrightarrow> b k = out ! k)"
proof -
  let ?b = "\<lambda>k. if k < length out then out ! k else junk k"
  have eq: "rdd ?b (8 * j) = rdd ((!) out) (8 * j)" if "j < 64" for j
    using that assms(2) by (intro rdd_cong) auto
  have n: "unat argc - 1 + 2 \<le> MAX_CMDLINE_ARGS"
    using assms(4,5) by (simp add: word_le_nat_alt MAX_CMDLINE_ARGS_def)
  obtain b where b: "shift_args (unat argc - 1) 0 ?b = Inr b" "\<forall>j. j < unat argc - 1 \<longrightarrow> rdd b (8 * j) = rdd ?b (8 * (j + 2))"
      "\<forall>k. 8 * (unat argc - 1) \<le> k \<longrightarrow> b k = ?b k"
    using shift_args_spec [of 0 "unat argc - 1" ?b] n by auto
  have "parse_args fe junk s = Inr (argc - 1, b, s\<lparr>hst := h\<rparr>)"
    using assms(1,3) b(1) eq [of 0] by (simp add: parse_args_def frontend_syscall_def kassert_def MAX_CMDLINE_ARGS_def)
  moreover have "rdd b (8 * i) = rdd ((!) out) (8 * (i + 2))" if "i < unat argc - 1" for i
    using b(2) eq [of "i + 2"] that n by (simp add: MAX_CMDLINE_ARGS_def)
  moreover have "b k = out ! k" if "8 * (unat argc - 1) \<le> k" "k < 512" for k
    using b(3) that assms(2) by simp
  ultimately show ?thesis by blast
qed

definition demo_args :: "u8 list" where
  \<comment> \<open>two arguments, at \<open>0x80041010\<close> and \<open>0x80041020\<close>\<close>
  "demo_args = [2, 0, 0, 0, 0, 0, 0, 0, 16, 16, 4, 128, 0, 0, 0, 0, 32, 16, 4, 128, 0, 0, 0, 0] @ replicate 488 7"

lemma parse_args_shifts_example:
  "\<exists>b. parse_args (\<lambda>n args w h. (0, demo_args, h)) (\<lambda>_. 0) demo_log = Inr (1, b, demo_log\<lparr>hst := []\<rparr>) \<and> rdd b 0 = 0x80041020"
proof -
  have "hst demo_log = []"
    by (simp add: demo_log_def fs.defs hfs.defs)
  moreover have "length demo_args = 512" "rdd ((!) demo_args) 0 = 2" "rdd ((!) demo_args) 16 = 0x80041020"
    by (simp_all add: demo_args_def rdd_def rdw_def nth_append)
  ultimately show ?thesis
    using parse_args_shifts [of "\<lambda>n args w h. (0, demo_args, h)" demo_log demo_args "[]" 2 "\<lambda>_. 0"] by auto
qed

end
