(* ===== verification/SchedRefine.thy ===== *)
theory SchedRefine
  imports MachineProps
begin

text \<open>
  The scheduler as an abstract machine on two lists of processes, and the proof that every sequence of
  scheduling operations of the kernel (yield, the three semaphore calls, timer ticks) is one of its runs.
\<close>

section \<open>Simulation\<close>

fun oruns :: "('o \<Rightarrow> 'a \<Rightarrow> 'a option) \<Rightarrow> 'o list \<Rightarrow> 'a \<Rightarrow> 'a option" where
  \<comment> \<open>a sequence of operations of an abstract machine\<close>
  "oruns f [] a = Some a"
| "oruns f (x # xs) a = Option.bind (f x a) (oruns f xs)"

fun kruns :: "('o \<Rightarrow> 's \<Rightarrow> kerr + 's) \<Rightarrow> 'o list \<Rightarrow> 's \<Rightarrow> kerr + 's" where
  \<comment> \<open>a sequence of operations of the kernel\<close>
  "kruns f [] s = Inr s"
| "kruns f (x # xs) s = kbind (f x s) (kruns f xs)"

locale simulation =
  fixes kop :: "'o \<Rightarrow> 's \<Rightarrow> kerr + 's" and aop :: "'o \<Rightarrow> 'a \<Rightarrow> 'a option" and R :: "'s \<Rightarrow> 'a \<Rightarrow> bool"
  assumes step_ok: "R s a \<Longrightarrow> aop x a = Some a' \<Longrightarrow> \<exists>s'. kop x s = Inr s' \<and> R s' a'"
    and step_stops: "R s a \<Longrightarrow> aop x a = None \<Longrightarrow> \<exists>e. kop x s = Inl e"
begin

lemma runs_ok: "R s a \<Longrightarrow> oruns aop xs a = Some a' \<Longrightarrow> \<exists>s'. kruns kop xs s = Inr s' \<and> R s' a'"
proof (induction xs arbitrary: s a)
  case (Cons x xs)
  then obtain b where b: "aop x a = Some b" "oruns aop xs b = Some a'" by (auto simp: bind_eq_Some_conv)
  with step_ok Cons.prems(1) obtain t where "kop x s = Inr t" "R t b" by blast
  then show ?case using Cons.IH b(2) by auto
qed simp

lemma runs_stop: "R s a \<Longrightarrow> oruns aop xs a = None \<Longrightarrow> \<exists>e. kruns kop xs s = Inl e"
proof (induction xs arbitrary: s a)
  case (Cons x xs)
  show ?case
  proof (cases "aop x a")
    case None
    then obtain e where "kop x s = Inl e" using step_stops [OF Cons.prems(1)] by blast
    then show ?thesis by simp
  next
    case (Some b)
    with step_ok Cons.prems(1) obtain t where "kop x s = Inr t" "R t b" by blast
    then show ?thesis using Cons Some by auto
  qed
qed simp

lemma runs_refine:
  "R s a \<Longrightarrow> case oruns aop xs a of None \<Rightarrow> \<exists>e. kruns kop xs s = Inl e | Some a' \<Rightarrow> \<exists>s'. kruns kop xs s = Inr s' \<and> R s' a'"
  using runs_ok runs_stop by (cases "oruns aop xs a") auto

lemma runs_from: "R s a \<Longrightarrow> kruns kop xs s = Inr s' \<Longrightarrow> \<exists>a'. oruns aop xs a = Some a' \<and> R s' a'"
  using runs_refine [of s a xs] by (cases "oruns aop xs a") auto

end

section \<open>The abstract machine\<close>

record asched =
  a_run :: "pref list"          \<comment> \<open>the process that runs, then the ready queue\<close>
  a_wait :: "pref list"
  a_sem :: "pref \<Rightarrow> int"        \<comment> \<open>the semaphore a process blocked on last\<close>
  a_slice :: "pref \<Rightarrow> int"      \<comment> \<open>the ticks a process has used of its slice\<close>
  a_cnt :: "int \<Rightarrow> int"
  a_len :: int

datatype sched_op = Yield | Sem_new int | Sem_P int | Sem_V int | Tick

definition rotates :: "asched \<Rightarrow> asched" where
  "rotates a = a\<lparr>a_run := rotate1 (a_run a)\<rparr>"

definition wakes :: "int \<Rightarrow> asched \<Rightarrow> asched" where
  "wakes i a = (case find (\<lambda>p. a_sem a p = i) (a_wait a) of
     None \<Rightarrow> a
   | Some w \<Rightarrow> a\<lparr>a_run := hd (a_run a) # w # tl (a_run a), a_wait := remove1 w (a_wait a)\<rparr>)"

fun astep :: "sched_op \<Rightarrow> asched \<Rightarrow> asched option" where
  \<comment> \<open>\<open>None\<close> when a semaphore does not exist or the last process that can run would block\<close>
  "astep Yield a = Some (rotates a)"
| "astep (Sem_new v) a =
     (let n = a_len a + 1 in
      if 0 \<le> n \<and> n < 100 then Some (a\<lparr>a_len := n, a_cnt := (a_cnt a)(n := v)\<rparr>) else None)"
| "astep (Sem_P i) a =
     (let v = a_cnt a i; p = hd (a_run a); b = a\<lparr>a_cnt := (a_cnt a)(i := v - 1)\<rparr> in
      if i < 0 \<or> 100 \<le> i then None
      else if 0 < v then Some b
      else if tl (a_run a) = [] then None
      else Some (b\<lparr>a_sem := (a_sem a)(p := i), a_run := tl (a_run a), a_wait := a_wait a @ [p]\<rparr>))"
| "astep (Sem_V i) a =
     (let v = a_cnt a i + 1; b = a\<lparr>a_cnt := (a_cnt a)(i := v)\<rparr> in
      if i < 0 \<or> 100 \<le> i then None else if 0 \<le> v then Some (wakes i b) else Some b)"
| "astep Tick a =
     (let p = hd (a_run a); n = a_slice a p + 1 in
      if 2 \<le> n then Some (rotates (a\<lparr>a_slice := (a_slice a)(p := 0)\<rparr>)) else Some (a\<lparr>a_slice := (a_slice a)(p := n)\<rparr>))"

section \<open>The operations of the kernel\<close>

fun kstep ::
  "'h frontend \<Rightarrow> (nat \<Rightarrow> int) \<Rightarrow> (int \<Rightarrow> bytes) \<Rightarrow> u8 \<Rightarrow> sched_op \<Rightarrow> ('h, 'z) mach_scheme \<Rightarrow> kerr + ('h, 'z) mach_scheme" where
  "kstep fe junk stk b0 Yield s = kbind (sys_user_yield 0 s) (\<lambda>(_, s). Inr s)"
| "kstep fe junk stk b0 (Sem_new v) s = kbind (sys_user_sem_new v s) (\<lambda>(_, s). Inr s)"
| "kstep fe junk stk b0 (Sem_P i) s = kbind (sys_user_sem_P 0 i s) (\<lambda>(_, s). Inr s)"
| "kstep fe junk stk b0 (Sem_V i) s = kbind (sys_user_sem_V i s) (\<lambda>(_, s). Inr s)"
| "kstep fe junk stk b0 Tick s = timer_tick fe junk stk b0 s"

definition sched_rel :: "('h, 'z) kernel_scheme \<Rightarrow> asched \<Rightarrow> bool" where
  "sched_rel s a \<longleftrightarrow> run_state 0 s (a_run a) (a_wait a) \<and> (\<forall>p \<in> set (a_wait a). ram_page (trapframe (pcb s p))) \<and>
     (\<forall>p. sem (pcb s p) = a_sem a p) \<and> (\<forall>p. tick_count (pcb s p) = a_slice a p) \<and>
     sem_l s = a_cnt a \<and> sem_len s = a_len a \<and> csr_sstatus s 0 AND SSTATUS_SPP = 0"

lemma find_split: "find P xs = Some w \<Longrightarrow> \<exists>us vs. xs = us @ w # vs \<and> (\<forall>x \<in> set us. \<not> P x) \<and> P w"
proof (induction xs)
  case (Cons x xs)
  show ?case
  proof (cases "P x")
    case True
    then show ?thesis using Cons.prems by fastforce
  next
    case False
    then obtain us vs where "xs = us @ w # vs" "\<forall>x \<in> set us. \<not> P x" "P w" using Cons by auto
    then show ?thesis using False by (intro exI [of _ "x # us"] exI [of _ vs]) auto
  qed
qed simp

section \<open>What queues and switches leave alone\<close>

definition keeps :: "('h, 'z) kernel_scheme \<Rightarrow> ('h, 'z) kernel_scheme \<Rightarrow> bool" where
  "keeps s s' \<longleftrightarrow> (\<forall>p. trapframe (pcb s' p) = trapframe (pcb s p) \<and> sem (pcb s' p) = sem (pcb s p) \<and>
     tick_count (pcb s' p) = tick_count (pcb s p)) \<and> sem_l s' = sem_l s \<and> sem_len s' = sem_len s"

lemma keeps_trans [trans]: "keeps s t \<Longrightarrow> keeps t u \<Longrightarrow> keeps s u"
  by (simp add: keeps_def)

lemma insert_keeps:
  "insert_to_ready_queue p s = Inr s' \<Longrightarrow> keeps s s'" "insert_to_wait_queue p s = Inr s' \<Longrightarrow> keeps s s'"
  by (auto simp: keeps_def insert_to_ready_queue_def insert_to_wait_queue_def upd_proc_def split: if_splits option.splits)

lemma switch_to_keeps:
  "switch_to cpu p s = Inr s' \<Longrightarrow> keeps s s' \<and> csr_sstatus s' cpu AND SSTATUS_SPP = 0"
  by (auto simp: keeps_def switch_to_def store_def kbind_eq_Inr Let_def sstatus_user split: if_splits)

lemma schedule_keeps:
  assumes "schedule 0 cpu s = Inr s'"
  shows "keeps s s' \<and> csr_sstatus s' cpu AND SSTATUS_SPP = 0"
proof -
  let ?t = "upd_proc (ready_queue_head s) (\<lambda>q. q\<lparr>status := RUNNING\<rparr>)
     (s\<lparr>current := (current s)(cpu := ready_queue_head s), ready_queue_head := queue_next (pcb s (ready_queue_head s))\<rparr>)"
  have "switch_to cpu (ready_queue_head s) ?t = Inr s'"
    using assms by (auto simp: schedule_def dispatch_def kbind_eq_Inr Let_def split: if_splits)
  moreover have "keeps s ?t" by (simp add: keeps_def upd_proc_def)
  ultimately show ?thesis using switch_to_keeps keeps_trans by blast
qed

lemma sched_rel_keeps:
  assumes "sched_rel s a" "keeps s s'" "csr_sstatus s' 0 AND SSTATUS_SPP = 0" "run_state 0 s' qs ws" "set ws \<subseteq> set (a_run a @ a_wait a)"
  shows "sched_rel s' (a\<lparr>a_run := qs, a_wait := ws\<rparr>)"
  using assms by (auto simp: sched_rel_def keeps_def run_state_def)

section \<open>Each operation\<close>

lemma sched_rel_run:
  assumes "sched_rel s a"
  obtains p xs where "a_run a = p # xs" "run_state 0 s (p # xs) (a_wait a)" "current s 0 = p" "p \<noteq> Null"
    "ram_page (trapframe (pcb s p))"
  using assms by (cases "a_run a") (auto simp: sched_rel_def run_state_def)

lemma reschedule_rel:
  assumes "sched_rel s a"
  shows "\<exists>s1 s'. insert_to_ready_queue (current s 0) s = Inr s1 \<and> schedule 0 0 s1 = Inr s' \<and> sched_rel s' (rotates a)"
proof -
  obtain p xs where p: "a_run a = p # xs" "run_state 0 s (p # xs) (a_wait a)" using assms by (rule sched_rel_run)
  obtain s1 s' where s': "insert_to_ready_queue (current s 0) s = Inr s1" "schedule 0 0 s1 = Inr s'"
      "run_state 0 s' (xs @ [p]) (a_wait a)" using reschedule_rotates [OF p(2)] by blast
  have "sched_rel s' (a\<lparr>a_run := xs @ [p], a_wait := a_wait a\<rparr>)"
    using insert_keeps(1) [OF s'(1)] schedule_keeps [OF s'(2)] keeps_trans s'(3)
    by (intro sched_rel_keeps [OF assms]) auto
  then show ?thesis using s'(1,2) p(1) by (auto simp: rotates_def)
qed

lemma block_current_rel:
  assumes "sched_rel s a" "tl (a_run a) \<noteq> []"
  shows "\<exists>s'. block_current 0 s = Inr (None, s') \<and> sched_rel s' (a\<lparr>a_run := tl (a_run a), a_wait := a_wait a @ [hd (a_run a)]\<rparr>)"
proof -
  obtain p x xs where p: "a_run a = p # x # xs" "run_state 0 s (p # x # xs) (a_wait a)"
    using assms by (cases "a_run a"; cases "tl (a_run a)") (auto simp: sched_rel_def)
  obtain s' where s': "block_current 0 s = Inr (None, s')" "run_state 0 s' (x # xs) (a_wait a @ [p])"
    using block_current_waits [OF p(2)] by blast
  then obtain s1 where "insert_to_wait_queue (current s 0) s = Inr s1" "schedule 0 0 s1 = Inr s'"
    by (auto simp: block_current_def kbind_eq_Inr)
  from insert_keeps(2) [OF this(1)] schedule_keeps [OF this(2)] keeps_trans
  have "sched_rel s' (a\<lparr>a_run := x # xs, a_wait := a_wait a @ [p]\<rparr>)"
    using s'(2) p(1) by (intro sched_rel_keeps [OF assms(1)]) auto
  then show ?thesis using s'(1) p(1) by auto
qed

lemma block_current_last:
  \<comment> \<open>nobody is left to run\<close>
  assumes "run_state cpu s [p] ws"
  shows "\<exists>e. block_current cpu s = Inl e"
  using assms
proof (rule run_stateE)
  assume r: "current s cpu = p" "p \<noteq> Null" "p \<notin> set []" "p \<notin> set ws" "set [] \<inter> set ws = {}" "ready_queue s []" "wait_queue s ws"
  from insert_wait_spec [OF r(6,7,2-5)] obtain s1 where "insert_to_wait_queue p s = Inr s1" "ready_queue s1 []" by blast
  then show ?thesis
    using r(1) by (simp add: block_current_def schedule_def ready_queue_def queue_rel_def)
qed

lemma sem_new_rel:
  assumes "sched_rel s a"
  shows "case astep (Sem_new v) a of None \<Rightarrow> \<exists>e. sys_user_sem_new v s = Inl e
    | Some a' \<Rightarrow> \<exists>r s'. sys_user_sem_new v s = Inr (r, s') \<and> sched_rel s' a'"
  using assms by (auto simp: sys_user_sem_new_def sem_ok_def Let_def sched_rel_def run_state_def queue_defs)

lemma sem_P_rel:
  assumes "sched_rel s a"
  shows "case astep (Sem_P i) a of None \<Rightarrow> \<exists>e. sys_user_sem_P 0 i s = Inl e
    | Some a' \<Rightarrow> \<exists>r s'. sys_user_sem_P 0 i s = Inr (r, s') \<and> sched_rel s' a'"
proof -
  obtain p xs where p: "a_run a = p # xs" "current s 0 = p" using assms by (rule sched_rel_run)
  let ?c = "(a_cnt a)(i := a_cnt a i - 1)"
  let ?s = "s\<lparr>sem_l := ?c\<rparr>" and ?b = "a\<lparr>a_cnt := ?c\<rparr>"
  let ?t = "upd_cur 0 (\<lambda>q. q\<lparr>sem := i\<rparr>) ?s" and ?d = "?b\<lparr>a_sem := (a_sem a)(p := i)\<rparr>"
  have l: "sem_l s = a_cnt a" using assms by (simp add: sched_rel_def)
  have "run_state 0 ?s (a_run a) (a_wait a)" using assms by (simp add: sched_rel_def run_state_def queue_defs)
  then have b: "sched_rel ?s ?b" and r: "run_state 0 ?t (a_run a) (a_wait a)"
    using assms by (simp_all add: sched_rel_def)
  then have d: "sched_rel ?t ?d" using assms p(2) by (auto simp: sched_rel_def upd_proc_def)
  show ?thesis
    using b l block_current_rel [OF d] block_current_last [of 0 ?t p "a_wait a"] r p
    by (cases xs) (auto simp: sys_user_sem_P_def sem_ok_def Let_def)
qed

lemma wake_keeps:
  "wake_wait_queue i s = Inr s' \<Longrightarrow> keeps s s' \<and> current s' = current s \<and> csr_sstatus s' = csr_sstatus s"
  by (auto simp: keeps_def wake_wait_queue_def insert_to_ready_queue_head_def unlink_waiter_def upd_proc_def
      split: if_splits option.splits)

lemma wake_rel:
  assumes "sched_rel s a" "0 \<le> i" "i < 100" "0 \<le> a_cnt a i"
  shows "\<exists>s'. wake_wait_queue i s = Inr s' \<and> sched_rel s' (wakes i a)"
proof (cases "find (\<lambda>p. a_sem a p = i) (a_wait a)")
  case None
  then have "\<forall>x \<in> set (a_wait a). sem (pcb s x) \<noteq> i" using assms(1) by (auto simp: find_None_iff sched_rel_def)
  then have "find_waiter (pcb s) (\<lambda>p. sem p = i) Null (wait_queue_head s) = Some (Null, last (Null # a_wait a))"
    using assms(1) by (intro find_waiter_none) (auto simp: sched_rel_def run_state_def queue_defs)
  then show ?thesis using assms None by (simp add: wake_wait_queue_def sched_rel_def wakes_def)
next
  case (Some w)
  obtain p rs where p: "a_run a = p # rs" "run_state 0 s (p # rs) (a_wait a)" using assms(1) by (rule sched_rel_run)
  obtain xs ys where w: "a_wait a = xs @ w # ys" "\<forall>x \<in> set xs. a_sem a x \<noteq> i" "a_sem a w = i"
    using find_split [OF Some] by blast
  have q: "ready_queue s rs" "wait_queue s (xs @ w # ys)" "set rs \<inter> set (xs @ w # ys) = {}"
      "\<forall>x \<in> set xs. sem (pcb s x) \<noteq> i" "sem (pcb s w) = i" and d: "distinct (p # rs @ xs @ w # ys)"
    using p(2) w assms(1) by (auto simp: run_state_def sched_rel_def)
  have "\<not> sem_l s i < 0" using assms(1,4) by (simp add: sched_rel_def)
  then obtain s' where s': "wake_wait_queue i s = Inr s'" "ready_queue s' (w # rs)" "wait_queue s' (xs @ ys)"
    using wake_wait_queue_moves [OF q assms(2,3)] by auto
  have k: "keeps s s'" "current s' = current s" "csr_sstatus s' = csr_sstatus s" using wake_keeps [OF s'(1)] by simp_all
  have "run_state 0 s' (p # w # rs) (xs @ ys)"
    using p s'(2,3) k(1,2) d assms(1) w(1) by (auto simp: run_state_def keeps_def sched_rel_def)
  then have "sched_rel s' (a\<lparr>a_run := p # w # rs, a_wait := xs @ ys\<rparr>)"
    using w(1) k(3) assms(1) by (intro sched_rel_keeps [OF assms(1) k(1)]) (auto simp: sched_rel_def)
  then show ?thesis using s'(1) Some p(1) w d by (auto simp: wakes_def remove1_append)
qed

lemma sem_V_rel:
  assumes "sched_rel s a"
  shows "case astep (Sem_V i) a of None \<Rightarrow> \<exists>e. sys_user_sem_V i s = Inl e
    | Some a' \<Rightarrow> \<exists>r s'. sys_user_sem_V i s = Inr (r, s') \<and> sched_rel s' a'"
proof -
  let ?c = "(a_cnt a)(i := a_cnt a i + 1)"
  let ?s = "s\<lparr>sem_s := 1, sem_l := ?c\<rparr>" and ?b = "a\<lparr>a_cnt := ?c\<rparr>"
  have l: "sem_l s = a_cnt a" using assms by (simp add: sched_rel_def)
  have b: "sched_rel ?s ?b" using assms by (simp add: sched_rel_def run_state_def queue_defs)
  show ?thesis
    using wake_rel [OF b, of i] b l by (auto simp: sys_user_sem_V_def sem_ok_def Let_def wake_wait_queue_def)
qed

lemma sched_rel_slice:
  "sched_rel s a \<Longrightarrow> sched_rel (upd_proc p (\<lambda>q. q\<lparr>tick_count := n q\<rparr>) s) (a\<lparr>a_slice := (a_slice a)(p := n (pcb s p))\<rparr>)"
  using run_state_tick_count [of 0 s "a_run a" "a_wait a" p n] by (simp add: sched_rel_def upd_proc_def)

lemma tick_rel:
  assumes "sched_rel s a"
  shows "\<exists>s' a'. timer_tick fe junk stk b0 s = Inr s' \<and> astep Tick a = Some a' \<and> sched_rel s' a'"
proof -
  obtain p xs where p: "a_run a = p # xs" "current s 0 = p" "p \<noteq> Null" "ram_page (trapframe (pcb s p))"
    using assms by (rule sched_rel_run)
  have n: "tick_count (pcb s p) = a_slice a p" using assms by (simp add: sched_rel_def)
  have u: "sched_rel (ticked s) a"
    using assms run_state_frame [of 0 s "a_run a" "a_wait a" "ticked s"] by (simp add: sched_rel_def)
  have tick: "timer_tick fe junk stk b0 s =
      kbind (rrsched 0 (ticked s)) (\<lambda>(r, s). if r then switch_to 0 (current s 0) s else Inr s)"
    using p assms by (intro timer_tick_rrsched) (simp_all add: sched_rel_def)
  show ?thesis
  proof (cases "2 \<le> a_slice a p + 1")
    case True
    from reschedule_rel [OF sched_rel_slice [OF u, of p "\<lambda>_. 0"]] show ?thesis
      using True n p(1,2) by (auto simp: tick rrsched_def Let_def)
  next
    case False
    let ?t = "upd_proc p (\<lambda>q. q\<lparr>tick_count := tick_count q + 1\<rparr>) (ticked s)"
    have t: "sched_rel ?t (a\<lparr>a_slice := (a_slice a)(p := a_slice a p + 1)\<rparr>)"
      using sched_rel_slice [OF u, of p "\<lambda>q. tick_count q + 1"] n by simp
    obtain s' where s': "switch_to 0 p ?t = Inr s'" "enters_user 0 p ?t s'" "pcb s' = pcb ?t"
        "ready_queue_head s' = ready_queue_head ?t" "wait_queue_head s' = wait_queue_head ?t"
      using switch_to_spec [of p ?t 0] p by auto
    have "run_state 0 ?t (a_run a) (a_wait a)" using t by (simp add: sched_rel_def)
    then have "run_state 0 s' (a_run a) (a_wait a)"
      using run_state_frame [OF _ s'(3) _ s'(4,5)] s'(2) p(2) by (simp add: enters_user_def Let_def)
    then have "sched_rel s' (a\<lparr>a_slice := (a_slice a)(p := a_slice a p + 1)\<rparr>)"
      using sched_rel_keeps [OF t] switch_to_keeps [OF s'(1)] by fastforce
    then show ?thesis using False n p(1,2) s'(1) by (simp add: tick rrsched_def)
  qed
qed

section \<open>The kernel refines the scheduler\<close>

lemma kstep_refines:
  assumes "sched_rel s a"
  shows "case astep x a of None \<Rightarrow> \<exists>e. kstep fe junk stk b0 x s = Inl e
    | Some a' \<Rightarrow> \<exists>s'. kstep fe junk stk b0 x s = Inr s' \<and> sched_rel s' a'"
proof (cases x)
  case Yield
  then show ?thesis using reschedule_rel [OF assms] by (auto simp: sys_user_yield_def)
next
  case (Sem_new v)
  then show ?thesis using sem_new_rel [OF assms, of v] by (auto simp del: astep.simps split: option.splits)
next
  case (Sem_P i)
  then show ?thesis using sem_P_rel [OF assms, of i] by (auto simp del: astep.simps split: option.splits)
next
  case (Sem_V i)
  then show ?thesis using sem_V_rel [OF assms, of i] by (auto simp del: astep.simps split: option.splits)
next
  case Tick
  obtain s' a' where "timer_tick fe junk stk b0 s = Inr s'" "astep Tick a = Some a'" "sched_rel s' a'"
    using tick_rel [OF assms] by blast
  then show ?thesis using Tick by (simp del: astep.simps)
qed

interpretation ks: simulation "kstep fe junk stk b0" astep sched_rel for fe junk stk b0
  by unfold_locales (use kstep_refines in \<open>fastforce split: option.splits simp del: astep.simps\<close>)+

lemma astep_conserves:
  assumes "astep x a = Some b" "a_run a \<noteq> []"
  shows "a_run b \<noteq> [] \<and> mset (a_run b @ a_wait b) = mset (a_run a @ a_wait a)"
proof -
  obtain p xs where "a_run a = p # xs" using assms(2) by (cases "a_run a") auto
  then show ?thesis
    using assms(1) by (cases x) (auto simp: rotates_def wakes_def Let_def find_Some_iff split: if_splits option.splits)
qed

lemma oruns_conserves:
  "oruns astep xs a = Some b \<Longrightarrow> a_run a \<noteq> [] \<Longrightarrow> mset (a_run b @ a_wait b) = mset (a_run a @ a_wait a)"
proof (induction xs arbitrary: a)
  case (Cons x xs)
  then obtain c where "astep x a = Some c" "oruns astep xs c = Some b" by (auto simp: bind_eq_Some_conv)
  then show ?case using Cons.IH Cons.prems(2) astep_conserves by metis
qed simp

definition abs_of :: "pref list \<Rightarrow> pref list \<Rightarrow> ('h, 'z) kernel_scheme \<Rightarrow> asched" where
  "abs_of qs ws s = \<lparr>a_run = qs, a_wait = ws, a_sem = \<lambda>p. sem (pcb s p), a_slice = \<lambda>p. tick_count (pcb s p),
     a_cnt = sem_l s, a_len = sem_len s\<rparr>"

lemma sched_rel_abs:
  "run_state 0 s qs ws \<Longrightarrow> \<forall>p \<in> set ws. ram_page (trapframe (pcb s p)) \<Longrightarrow> csr_sstatus s 0 AND SSTATUS_SPP = 0 \<Longrightarrow>
     sched_rel s (abs_of qs ws s)"
  by (simp add: sched_rel_def abs_of_def)

text \<open>C4: every sequence of yields, semaphore calls and timer ticks does to the process structures, linked
  through \<^verbatim>\<open>queue_next\<close>, what the machine \<open>astep\<close> does to two lists: when the machine has a run the kernel succeeds and
  the results correspond, with the same process running, the same order in both queues and the same counters and slices;
  when the machine stops, because a semaphore index is outside the table or the last process that can run would block, the
  kernel stops with an error too.\<close>

theorem kernel_refines_scheduler:
  assumes "sched_rel s a"
  shows "case oruns astep ops a of None \<Rightarrow> \<exists>e. kruns (kstep fe junk stk b0) ops s = Inl e
    | Some a' \<Rightarrow> \<exists>s'. kruns (kstep fe junk stk b0) ops s = Inr s' \<and> sched_rel s' a'"
  by (rule ks.runs_refine [OF assms])

text \<open>C5: no sequence of yields, semaphore calls and timer ticks that succeeds loses a process, duplicates it or leaves
  it in two queues: afterwards the process that runs and the two well formed queues hold exactly the processes they held
  before.\<close>

theorem no_process_lost:
  assumes "run_state 0 s qs ws" "\<forall>p \<in> set ws. ram_page (trapframe (pcb s p))" "csr_sstatus s 0 AND SSTATUS_SPP = 0"
    and "kruns (kstep fe junk stk b0) ops s = Inr s'"
  shows "\<exists>qs' ws'. run_state 0 s' qs' ws' \<and> mset (qs' @ ws') = mset (qs @ ws)"
proof -
  obtain a' where a': "oruns astep ops (abs_of qs ws s) = Some a'" "sched_rel s' a'"
    using ks.runs_from [OF sched_rel_abs [OF assms(1-3)] assms(4)] by blast
  have "mset (a_run a' @ a_wait a') = mset (qs @ ws)"
    using oruns_conserves [OF a'(1)] assms(1) by (simp add: abs_of_def run_state_def)
  then show ?thesis using a'(2) by (auto simp: sched_rel_def)
qed

section \<open>Fairness of the timer\<close>

lemma oruns_append: "oruns f (xs @ ys) a = Option.bind (oruns f xs a) (oruns f ys)"
  by (induction xs arbitrary: a) (auto split: bind_split)

lemma ticks_rotate1:
  \<comment> \<open>the process that runs leaves the hart after one tick or two\<close>
  assumes "a_run a \<noteq> []" "\<forall>p \<in> set (a_run a). 0 \<le> a_slice a p"
  shows "\<exists>n b. n \<le> 2 \<and> oruns astep (replicate n Tick) a = Some b \<and> a_run b = rotate1 (a_run a) \<and> (\<forall>p \<in> set (a_run a). 0 \<le> a_slice b p)"
proof (cases "1 \<le> a_slice a (hd (a_run a))")
  case True
  then show ?thesis using assms by (intro exI [of _ 1]) (auto simp: rotates_def Let_def)
next
  case False
  then have "a_slice a (hd (a_run a)) = 0" using assms by (auto simp: not_le intro: order.antisym)
  then show ?thesis using assms by (intro exI [of _ 2]) (auto simp: rotates_def Let_def numeral_2_eq_2)
qed

lemma ticks_rotate:
  "a_run a \<noteq> [] \<Longrightarrow> \<forall>p \<in> set (a_run a). 0 \<le> a_slice a p \<Longrightarrow>
     \<exists>n b. n \<le> 2 * j \<and> oruns astep (replicate n Tick) a = Some b \<and> a_run b = rotate j (a_run a)"
proof (induction j arbitrary: a)
  case (Suc j)
  obtain n b where n: "n \<le> 2" "oruns astep (replicate n Tick) a = Some b" "a_run b = rotate1 (a_run a)" "\<forall>p \<in> set (a_run a). 0 \<le> a_slice b p"
    using ticks_rotate1 [OF Suc.prems] by blast
  obtain m c where "m \<le> 2 * j" "oruns astep (replicate m Tick) b = Some c" "a_run c = rotate j (a_run b)"
    using Suc.IH [of b] Suc.prems(1) n(3,4) by auto
  then have "n + m \<le> 2 * Suc j \<and> oruns astep (replicate (n + m) Tick) a = Some c \<and> a_run c = rotate (Suc j) (a_run a)"
    using n by (simp add: replicate_add oruns_append rotate1_rotate_swap)
  then show ?case by blast
qed simp

text \<open>C16: fairness without cooperation: when the processes only compute, the timer alone brings the process at
  position \<open>j\<close> (the one that runs is at position 0, the head of the ready queue at position 1) onto the hart
  within \<open>2 * j\<close> ticks.\<close>

theorem timer_fair:
  assumes "run_state 0 s qs ws" "\<forall>p \<in> set ws. ram_page (trapframe (pcb s p))" "csr_sstatus s 0 AND SSTATUS_SPP = 0"
    and "\<forall>p \<in> set qs. 0 \<le> tick_count (pcb s p)" "j < length qs"
  shows "\<exists>n s'. n \<le> 2 * j \<and> kruns (kstep fe junk stk b0) (replicate n Tick) s = Inr s' \<and> current s' 0 = qs ! j"
proof -
  have "a_run (abs_of qs ws s) \<noteq> []" "\<forall>p \<in> set (a_run (abs_of qs ws s)). 0 \<le> a_slice (abs_of qs ws s) p"
    using assms(4,5) by (auto simp: abs_of_def)
  from ticks_rotate [OF this, of j] obtain n b where
    n: "n \<le> 2 * j" "oruns astep (replicate n Tick) (abs_of qs ws s) = Some b" "a_run b = rotate j qs"
    by (auto simp: abs_of_def)
  obtain s' where s': "kruns (kstep fe junk stk b0) (replicate n Tick) s = Inr s'" "sched_rel s' b"
    using ks.runs_ok [OF sched_rel_abs [OF assms(1-3)] n(2)] by blast
  have "hd (rotate j qs) = qs ! j" using assms(5) by (subst hd_rotate_conv_nth) auto
  then show ?thesis using n s' by (auto simp: sched_rel_def run_state_def)
qed

section \<open>Witnesses\<close>

lemma demo_mach_waiters: "\<forall>p \<in> set [Proc 3, Proc 4]. ram_page (trapframe (pcb demo_mach p))"
  using demo_tf by (simp add: demo_app_def sysk.defs elfk.defs kernel.defs hfs.defs)

lemma demo_mach_user: "csr_sstatus demo_mach 0 AND SSTATUS_SPP = 0" "sem_l demo_mach = (\<lambda>_. 0)" "sem_len demo_mach = 7"
  by (simp_all add: demo_mach_def demo_app_def sysk.defs mach.defs elfk.defs kernel.defs hfs.defs)

lemmas demo_mach_ok = demo_mach_run demo_mach_waiters demo_mach_user(1)

definition demo_asched :: asched where
  "demo_asched = abs_of [Proc 0, Proc 1, Proc 2] [Proc 3, Proc 4] demo_mach"

theorem kernel_refines_scheduler_witness:
  \<comment> \<open>two processes block on the new semaphore 8 and one \<^verbatim>\<open>V\<close> wakes neither\<close>
  "\<exists>s'. kruns (kstep log_host (\<lambda>_. 0) (\<lambda>_ _. 0) 0) [Sem_new 0, Sem_P 8, Sem_P 8, Sem_V 8] demo_mach = Inr s' \<and>
     run_state 0 s' [Proc 2] [Proc 3, Proc 4, Proc 0, Proc 1] \<and> sem_l s' 8 = - 1"
proof -
  have "sched_rel demo_mach demo_asched" unfolding demo_asched_def by (rule sched_rel_abs [OF demo_mach_ok])
  from kernel_refines_scheduler [OF this, of log_host "\<lambda>_. 0" "\<lambda>_ _. 0" 0 "[Sem_new 0, Sem_P 8, Sem_P 8, Sem_V 8]"]
  show ?thesis by (auto simp: demo_asched_def abs_of_def demo_mach_user Let_def sched_rel_def)
qed

theorem no_process_lost_witness:
  "\<exists>s' qs ws. kruns (kstep log_host (\<lambda>_. 0) (\<lambda>_ _. 0) 0) [Tick, Sem_P 7, Tick, Yield] demo_mach = Inr s' \<and> run_state 0 s' qs ws \<and>
     mset (qs @ ws) = mset [Proc 0, Proc 1, Proc 2, Proc 3, Proc 4]"
proof -
  let ?ops = "[Tick, Sem_P 7, Tick, Yield]"
  have "\<exists>a'. oruns astep ?ops demo_asched = Some a'"
    by (simp add: demo_asched_def abs_of_def demo_mach_user demo_proc_def Let_def)
  then obtain s' where s': "kruns (kstep log_host (\<lambda>_. 0) (\<lambda>_ _. 0) 0) ?ops demo_mach = Inr s'"
    using ks.runs_ok [OF sched_rel_abs [OF demo_mach_ok], folded demo_asched_def] by blast
  from no_process_lost [OF demo_mach_ok this] s' show ?thesis by auto
qed

theorem timer_fair_witness:
  "\<exists>n s'. n \<le> 4 \<and> kruns (kstep log_host (\<lambda>_. 0) (\<lambda>_ _. 0) 0) (replicate n Tick) demo_mach = Inr s' \<and> current s' 0 = Proc 2"
proof -
  have "\<forall>p \<in> set [Proc 0, Proc 1, Proc 2]. 0 \<le> tick_count (pcb demo_mach p)"
    by (simp add: demo_app_def demo_proc_def sysk.defs elfk.defs kernel.defs hfs.defs)
  from timer_fair [OF demo_mach_ok this, of 2] show ?thesis by simp
qed

end
