(* ===== verification/Apps.thy ===== *)
theory Apps
  imports SchedRefine
begin

text \<open>
  The applications (\<^verbatim>\<open>user/app*.c\<close>) as trees of calls of the user library.  A program stops, or it makes a
  request and goes on with a function of the reply: an int (or a pointer) and the bytes that the call
  has stored for it.  What C passes by address is a value here; accesses of heap memory are requests too.
  A command gets the string \<^verbatim>\<open>argv[0]\<close> as its parameter.
\<close>

section \<open>Programs\<close>

datatype req =
    U_printu cstring "varg list"
  | U_exit int
  | U_sem_new int | U_sem_P int | U_sem_V int
  | U_fork | U_wait int | U_yield
  | U_exec cstring cstring | U_exec1 cstring cstring
  | U_open cstring int | U_read int nat | U_write int "u8 list" | U_close int
  | U_opendir cstring | U_readdir int | U_closedir int | U_mkdir cstring
  | U_read_cwd | U_change_cwd cstring | U_gets
  | U_naive_malloc | U_naive_free u64 | U_better_malloc int | U_better_free u64
  | U_printpa u64 | U_print_backtrace int
  | U_load_int u64                    \<comment> \<open>\<^verbatim>\<open>*p\<close> for a pointer to int\<close>
  | U_store_int u64 u32
  | U_load_string u64                 \<comment> \<open>the string behind a \<^verbatim>\<open>char *\<close>\<close>
  | U_store_bytes u64 "u8 list"
  | U_csrw_sscratch                   \<comment> \<open>a privileged instruction\<close>

codatatype prog = Stop | Call (request: req) (reply: "int \<Rightarrow> u8 list \<Rightarrow> prog")

definition does :: "req \<Rightarrow> prog \<Rightarrow> prog" where
  \<comment> \<open>a call whose result is not used\<close>
  "does r p = Call r (\<lambda>_ _. p)"

definition says :: "string \<Rightarrow> varg list \<Rightarrow> prog \<Rightarrow> prog" where
  \<comment> \<open>\<^verbatim>\<open>printu\<close> of a line\<close>
  "says t vl p = does (U_printu (map of_char t @ [10]) vl) p"

definition exits :: "int \<Rightarrow> prog" where
  "exits n = does (U_exit n) Stop"

definition int_arg :: "int \<Rightarrow> varg" where
  "int_arg n = Num (word_of_int n)"

definition ptr_of :: "int \<Rightarrow> u64" where
  "ptr_of v = word_of_int v"

primcorec behaves :: "('s \<Rightarrow> (req \<times> (int \<Rightarrow> u8 list \<Rightarrow> 's)) option) \<Rightarrow> 's \<Rightarrow> prog" where
  \<comment> \<open>the program of a loop that may run for ever: a state makes a request and the reply gives the next state\<close>
  "behaves step s = (case step s of None \<Rightarrow> Stop | Some (r, k) \<Rightarrow> Call r (\<lambda>v b. behaves step (k v b)))"

lemma behaves_simps [simp]:
  "step s = None \<Longrightarrow> behaves step s = Stop"
  "step s = Some (r, k) \<Longrightarrow> behaves step s = Call r (\<lambda>v b. behaves step (k v b))"
  by (subst behaves.code, simp)+

definition c_string :: "u8 list \<Rightarrow> cstring" where
  \<comment> \<open>what \<^verbatim>\<open>%s\<close> prints of an array\<close>
  "c_string b = takeWhile (\<lambda>c. c \<noteq> 0) b"

definition overlay :: "u8 list \<Rightarrow> u8 list \<Rightarrow> u8 list" where
  \<comment> \<open>the array \<open>b\<close> after a call has stored \<open>xs\<close> at its start\<close>
  "overlay xs b = xs @ drop (length xs) b"

section \<open>Heap\<close>

primrec heap_reads :: "string \<Rightarrow> u64 list \<Rightarrow> prog" where
  \<comment> \<open>the second loop: print and free each page\<close>
  "heap_reads t [] = exits 0"
| "heap_reads t (p # ps) = Call (U_load_int p) (\<lambda>v _. says t [int_arg v] (does (U_naive_free p) (heap_reads t ps)))"

primrec heap_allocs :: "nat \<Rightarrow> int \<Rightarrow> string \<Rightarrow> string \<Rightarrow> u64 list \<Rightarrow> prog" where
  \<comment> \<open>the first loop, \<open>n\<close> turns to go; \<open>ps\<close> are the pages so far, \<open>v\<close> is \<^verbatim>\<open>BASE + i\<close>\<close>
  "heap_allocs 0 v t u ps = heap_reads u ps"
| "heap_allocs (Suc n) v t u ps =
     Call U_naive_malloc (\<lambda>r _. let p = ptr_of r in
       does (U_store_int p (word_of_int v)) (says t [Num p] (heap_allocs n (v + 1) t u (ps @ [p]))))"

definition app0 :: prog where
  "app0 = heap_allocs 5 0 ''=== user alloc 0 @ vaddr 0x%x'' ''=== user0: %d'' []"

definition app1 :: prog where
  "app1 = heap_allocs 5 5 ''>>> user alloc 1 @ vaddr 0x%x'' ''>>> user 1: %d'' []"

definition app_cow :: prog where
  "app_cow =
     Call U_naive_malloc (\<lambda>r _. let heap_data = ptr_of r in
     does (U_printu (map of_char ''the physical address of parent process heap is: '') [])
    (does (U_printpa heap_data)
    (Call U_fork (\<lambda>npid _.
       if npid = 0 then
         does (U_printu (map of_char ''the physical address of child process heap before copy on write is: '') [])
        (does (U_printpa heap_data)
        (does (U_store_int heap_data 0)
        (does (U_printu (map of_char ''the physical address of child process heap after copy on write is: '') [])
        (does (U_printpa heap_data)
        (exits 0)))))
       else exits 0))))"

definition app_singlepageheap :: prog where
  "app_singlepageheap =
     Call (U_better_malloc 100) (\<lambda>r _. let m = ptr_of r in
     Call (U_better_malloc 50) (\<lambda>r _. let p = ptr_of r in
       if p - m > 512 then
         does (U_printu (map of_char ''you need to manage the vm space precisely!'') []) (exits (- 1))
       else
         does (U_better_free m)
        (does (U_store_bytes p (map of_char ''hello, world!!!'' @ [0]))
        (Call (U_load_string p) (\<lambda>_ t. says ''%s'' [Str t]
        (Call (U_better_malloc 50) (\<lambda>r _. let n = ptr_of r in
           if m \<noteq> n then says ''your malloc is not complete.'' [] (exits (- 1))
           else exits 0)))))))"

definition as_stored :: "u64 \<Rightarrow> u64" where
  \<comment> \<open>the value of the assignment of an \<^verbatim>\<open>uint64\<close> to an int, widened again\<close>
  "as_stored v = scast (ucast v :: u32)"

primrec sum_sequence :: "nat \<Rightarrow> u64 \<Rightarrow> (u64 \<Rightarrow> prog) \<Rightarrow> prog" where
  \<comment> \<open>the stores happen on the way back, the last element first\<close>
  "sum_sequence 0 p k = k 0"
| "sum_sequence (Suc n) p k =
     sum_sequence n (p + 4) (\<lambda>v. let r = v + of_nat (Suc n) in does (U_store_int p (ucast r)) (k (as_stored r)))"

definition app_sequence :: prog where
  "app_sequence =
     Call U_naive_malloc (\<lambda>r _. sum_sequence 1025 (ptr_of r) (\<lambda>v.
       says ''Summation of an arithmetic sequence from 0 to %ld is: %ld '' [Num 1024, Num v] (exits 0)))"

section \<open>Commands on files\<close>

definition app_cat :: "u8 list \<Rightarrow> cstring \<Rightarrow> prog" where
  \<comment> \<open>\<open>bf\<close> is what the local array of 512 bytes holds before\<close>
  "app_cat bf filename =
     does (U_printu ([10] @ map of_char ''======== cat command ========'' @ [10]) [])
    (says ''cat: %s'' [Str filename]
    (Call (U_open filename O_RDWR) (\<lambda>fd _.
     says ''file descriptor fd: %d'' [int_arg fd]
    (Call (U_read fd 512) (\<lambda>_ b.
     does (U_printu (map of_char ''read content: '' @ [10] @ map of_char ''%s'' @ [10]) [Str (c_string (overlay b bf))])
    (does (U_close fd)
    (exits 0)))))))"

definition app_echo :: "cstring \<Rightarrow> prog" where
  "app_echo filename =
     (let str = map of_char ''hello world'' in
     does (U_printu ([10] @ map of_char ''======== echo command ========'' @ [10]) [])
    (says ''echo: %s'' [Str filename]
    (Call (U_open filename (O_RDWR OR O_CREAT)) (\<lambda>fd _.
     says ''file descriptor fd: %d'' [int_arg fd]
    (does (U_write fd str)
    (does (U_printu (map of_char ''write content: '' @ [10] @ map of_char ''%s'' @ [10]) [Str str])
    (does (U_close fd)
    (exits 0))))))))"

definition app_touch :: "cstring \<Rightarrow> prog" where
  "app_touch filename =
     does (U_printu ([10] @ map of_char ''======== touch command ========'' @ [10]) [])
    (says ''touch: %s'' [Str filename]
    (Call (U_open filename O_CREAT) (\<lambda>fd _.
     says ''file descriptor fd: %d'' [int_arg fd]
    (does (U_close fd)
    (exits 0)))))"

definition app_mkdir :: "cstring \<Rightarrow> prog" where
  "app_mkdir new_dir =
     does (U_printu ([10] @ map of_char ''======== mkdir command ========'' @ [10]) [])
    (does (U_mkdir new_dir)
    (says ''mkdir: %s'' [Str new_dir]
    (exits 0)))"

definition dir_name :: "u8 list \<Rightarrow> cstring" where
  \<comment> \<open>the fields of the \<^verbatim>\<open>struct dir\<close> that \<^verbatim>\<open>readdir_u\<close> fills\<close>
  "dir_name d = c_string (take 32 d)"

definition dir_inum :: "u8 list \<Rightarrow> int" where
  "dir_inum d = rd32 ((!) d) 32"

definition ls_name :: "cstring \<Rightarrow> cstring" where
  \<comment> \<open>the array \<^verbatim>\<open>name\<close> of 21 bytes: blanks, a NUL at the end, then \<^verbatim>\<open>strcpy\<close> and a blank over its NUL\<close>
  "ls_name n =
     (if length n < 20 then
        let b = (replicate 21 32)[20 := 0]; b = overlay (n @ [0]) b; b = b[length n := 32] in c_string b
      else n)"

datatype ls_pc = Ls_open | Ls_head int nat | Ls_read int | Ls_line int "u8 list" | Ls_tail int | Ls_close int | Ls_exit | Ls_end

fun ls_step :: "cstring \<Rightarrow> ls_pc \<Rightarrow> (req \<times> (int \<Rightarrow> u8 list \<Rightarrow> ls_pc)) option" where
  "ls_step pth Ls_open = Some (U_opendir pth, \<lambda>fd _. Ls_head fd 0)"
| "ls_step pth (Ls_head fd n) =
     (if n = 0 then Some (U_printu (map of_char ''---------- ls command -----------'' @ [10]) [], \<lambda>_ _. Ls_head fd 1)
      else if n = 1 then Some (U_printu (map of_char ''ls \"%s\":'' @ [10]) [Str pth], \<lambda>_ _. Ls_head fd 2)
      else Some (U_printu (map of_char ''[name]               [inode_num]'' @ [10]) [], \<lambda>_ _. Ls_read fd))"
| "ls_step pth (Ls_read fd) = Some (U_readdir fd, \<lambda>r d. if r = 0 then Ls_line fd d else Ls_tail fd)"
| "ls_step pth (Ls_line fd d) =
     Some (U_printu (map of_char ''%s %d'' @ [10]) [Str (ls_name (dir_name d)), int_arg (dir_inum d)], \<lambda>_ _. Ls_read fd)"
| "ls_step pth (Ls_tail fd) = Some (U_printu (map of_char ''------------------------------'' @ [10]) [], \<lambda>_ _. Ls_close fd)"
| "ls_step pth (Ls_close fd) = Some (U_closedir fd, \<lambda>_ _. Ls_exit)"
| "ls_step pth Ls_exit = Some (U_exit 0, \<lambda>_ _. Ls_end)"
| "ls_step pth Ls_end = None"

definition app_ls :: "cstring \<Rightarrow> prog" where
  "app_ls pth = behaves (ls_step pth) Ls_open"

definition pwd :: "u8 list \<Rightarrow> prog \<Rightarrow> prog" where
  \<comment> \<open>\<open>pth\<close> is what the local array of 30 bytes holds before\<close>
  "pwd pth p = Call U_read_cwd (\<lambda>_ b. says ''cwd:%s'' [Str (c_string (overlay b pth))] p)"

definition cd :: "cstring \<Rightarrow> prog \<Rightarrow> prog" where
  "cd pth p = Call (U_change_cwd pth) (\<lambda>r _. if r \<noteq> 0 then says ''cd failed'' [] p else p)"

definition read_content :: "int \<Rightarrow> u8 list \<Rightarrow> (u8 list \<Rightarrow> prog) \<Rightarrow> prog" where
  \<comment> \<open>\<^verbatim>\<open>read_u\<close> into the array \<open>bf\<close>, print it and close\<close>
  "read_content fd bf k =
     Call (U_read fd 512) (\<lambda>_ b. let bf = overlay b bf in
     does (U_printu (map of_char ''read content: '' @ [10] @ map of_char ''%s'' @ [10]) [Str (c_string bf)])
    (does (U_close fd) (k bf)))"

definition app_relativepath :: "u8 list \<Rightarrow> u8 list \<Rightarrow> prog" where
  "app_relativepath pth bf =
     (let str = map of_char ''hello world'' in
     does (U_printu ([10] @ map of_char ''======== Test 1: change current directory  ========'' @ [10]) [])
    (pwd pth
    (cd (map of_char ''./RAMDISK0'')
    (says ''change current directory to ./RAMDISK0'' []
    (pwd pth
    (does (U_printu ([10] @ map of_char ''======== Test 2: write/read file by relative path  ========'' @ [10]) [])
    (says ''write: ./ramfile'' []
    (Call (U_open (map of_char ''./ramfile'') (O_RDWR OR O_CREAT)) (\<lambda>fd _.
     says ''file descriptor fd: %d'' [int_arg fd]
    (does (U_write fd str)
    (does (U_printu (map of_char ''write content: '' @ [10] @ map of_char ''%s'' @ [10]) [Str str])
    (does (U_close fd)
    (Call (U_open (map of_char ''./ramfile'') O_RDWR) (\<lambda>fd _.
     says ''read: ./ramfile'' []
    (read_content fd bf (\<lambda>bf.
     does (U_printu ([10] @ map of_char ''======== Test 3: Go to parent directory  ========'' @ [10]) [])
    (pwd pth
    (cd (map of_char ''..'')
    (says ''change current directory to ..'' []
    (pwd pth
    (says ''read: ./hostfile.txt'' []
    (Call (U_open (map of_char ''./hostfile.txt'') O_RDONLY) (\<lambda>fd _.
     says ''file descriptor fd: %d'' [int_arg fd]
    (read_content fd bf (\<lambda>bf.
     does (U_printu ([10] @ map of_char ''All tests passed!'' @ [10, 10]) [])
    (exits 0))))))))))))))))))))))))))"

section \<open>Processes\<close>

definition app_wait :: prog where
  \<comment> \<open>each process has its own copy of the global \<^verbatim>\<open>flag\<close>, which holds what it has stored there\<close>
  "app_wait =
     Call U_fork (\<lambda>npid _.
       if npid = 0 then
         Call U_fork (\<lambda>npid _.
           if npid = 0 then says ''Grandchild process end, flag = %d.'' [int_arg 2] (exits 0)
           else does (U_wait npid) (says ''Child process end, flag = %d.'' [int_arg 1] (exits 0)))
       else does (U_wait (- 1)) (says ''Parent process end, flag = %d.'' [int_arg 0] (exits 0)))"

primrec sem_parent :: "nat \<Rightarrow> int \<Rightarrow> int \<Rightarrow> prog" where
  \<comment> \<open>the loop of the parent with \<open>n\<close> turns to go\<close>
  "sem_parent 0 main_sem child0 = exits 0"
| "sem_parent (Suc n) main_sem child0 =
     does (U_sem_P main_sem)
    (says ''Parent print %d'' [int_arg (9 - int n)]
    (does (U_sem_V child0) (sem_parent n main_sem child0)))"

primrec sem_child :: "nat \<Rightarrow> int \<Rightarrow> int \<Rightarrow> int \<Rightarrow> int \<Rightarrow> prog" where
  \<comment> \<open>the loop of both children; \<open>npid\<close> is the result of the second fork\<close>
  "sem_child 0 npid main_sem child0 child1 = exits 0"
| "sem_child (Suc n) npid main_sem child0 child1 =
     does (U_sem_P (if npid = 0 then child1 else child0))
    (says ''Child%d print %d'' [int_arg (if npid = 0 then 1 else 0), int_arg (9 - int n)]
    (does (U_sem_V (if npid \<noteq> 0 then child1 else main_sem)) (sem_child n npid main_sem child0 child1)))"

definition app_semaphore :: prog where
  "app_semaphore =
     Call (U_sem_new 1) (\<lambda>main_sem _.
     Call (U_sem_new 0) (\<lambda>child0 _.
     Call (U_sem_new 0) (\<lambda>child1 _.
     Call U_fork (\<lambda>npid _.
       if npid = 0 then Call U_fork (\<lambda>npid _. sem_child 10 npid main_sem child0 child1)
       else sem_parent 10 main_sem child0))))"

definition app_exec :: prog where
  "app_exec =
     does (U_printu ([10] @ map of_char ''======== exec /bin/app_ls in app_exec ========'' @ [10]) [])
    (says ''call exec in main'' []
    (Call (U_exec1 (map of_char ''/bin/app_ls'') (map of_char ''/RAMDISK0'')) (\<lambda>ret _.
       if ret = - 1 then says ''exec failed!'' [] (exits 0) else exits 0)))"

datatype shell_pc = Sh_start cstring | Sh_prompt cstring | Sh_gets cstring | Sh_cd cstring | Sh_para | Sh_ccwd cstring
  | Sh_begin cstring cstring | Sh_fork cstring cstring | Sh_exec cstring cstring | Sh_failed cstring | Sh_wait int cstring
  | Sh_done cstring | Sh_exit | Sh_end

fun shell_step :: "shell_pc \<Rightarrow> (req \<times> (int \<Rightarrow> u8 list \<Rightarrow> shell_pc)) option" where
  \<comment> \<open>the string in the array \<^verbatim>\<open>para\<close> is carried along; \<^verbatim>\<open>cd\<close> sets it for all later commands.
     The two messages in Chinese are their bytes in UTF-8.\<close>
  "shell_step (Sh_start para) = Some (U_printu ([10] @ map of_char ''======== Shell Start ========'' @ [10, 10]) [], \<lambda>_ _. Sh_prompt para)"
| "shell_step (Sh_prompt para) =
     Some (U_printu [0xe6, 0x89, 0xa7, 0xe8, 0xa1, 0x8c, 0xe7, 0xa8, 0x8b, 0xe5, 0xba, 0x8f, 10] [], \<lambda>_ _. Sh_gets para)"
| "shell_step (Sh_gets para) =
     Some (U_gets, \<lambda>_ bf. if bf = map of_char ''exit'' then Sh_exit
       else if bf = map of_char ''cd'' then Sh_cd para else Sh_begin bf para)"
| "shell_step (Sh_cd para) =
     Some (U_printu [0xe7, 0x9b, 0xb8, 0xe5, 0xaf, 0xb9, 0xe8, 0xb7, 0xaf, 0xe5, 0xbe, 0x84, 10] [], \<lambda>_ _. Sh_para)"
| "shell_step Sh_para = Some (U_gets, \<lambda>_ para. Sh_ccwd para)"
| "shell_step (Sh_ccwd para) = Some (U_change_cwd para, \<lambda>_ _. Sh_prompt para)"
| "shell_step (Sh_begin bf para) =
     Some (U_printu ([10] @ map of_char ''==========Command Start============'' @ [10]) [], \<lambda>_ _. Sh_fork bf para)"
| "shell_step (Sh_fork bf para) = Some (U_fork, \<lambda>npid _. if npid = 0 then Sh_exec bf para else Sh_wait npid para)"
| "shell_step (Sh_exec bf para) = Some (U_exec bf para, \<lambda>ret _. if ret = - 1 then Sh_failed para else Sh_prompt para)"
| "shell_step (Sh_failed para) = Some (U_printu (map of_char ''exec failed!'' @ [10]) [], \<lambda>_ _. Sh_prompt para)"
| "shell_step (Sh_wait npid para) = Some (U_wait npid, \<lambda>_ _. Sh_done para)"
| "shell_step (Sh_done para) = Some (U_printu (map of_char ''==========Command End============'' @ [10, 10]) [], \<lambda>_ _. Sh_prompt para)"
| "shell_step Sh_exit = Some (U_exit 0, \<lambda>_ _. Sh_end)"
| "shell_step Sh_end = None"

definition app_shell :: "cstring \<Rightarrow> prog" where
  \<comment> \<open>\<open>para\<close> is what the local array holds before\<close>
  "app_shell para = behaves shell_step (Sh_start para)"

section \<open>Traps\<close>

definition app_backtrace_main :: prog where
  \<comment> \<open>\<^verbatim>\<open>f1\<close> to \<^verbatim>\<open>f7\<close> only call the next one\<close>
  "app_backtrace_main = says ''back trace the user app in the following:'' [] (does (U_print_backtrace 7) (exits 0))"

definition app_errorline_main :: prog where
  "app_errorline_main =
     says ''Going to hack the system by running privilege instructions.'' [] (does U_csrw_sscratch (exits 0))"

end
