(* ===== verification/ProcRefine.thy ===== *)
theory ProcRefine
  imports SchedRefine
begin

text \<open>
  Creation and end of processes on top of the abstract scheduler: what \<^verbatim>\<open>fork\<close> and \<^verbatim>\<open>exit\<close> do to the two queues, and that
  the other scheduling operations touch no process outside them.
\<close>

section \<open>Changes of memory only\<close>

definition mem_only :: "'z pmm_scheme \<Rightarrow> 'z pmm_scheme \<Rightarrow> bool" where
  "mem_only s s' \<longleftrightarrow> (\<exists>m f c. s' = s\<lparr>mem := m, g_free_mem_list := f, count_5 := c\<rparr>)"

lemma mem_onlyI [simp]:
  "mem_only s s" "mem_only s (s\<lparr>mem := m\<rparr>)" "mem_only s (s\<lparr>g_free_mem_list := f\<rparr>)" "mem_only s (s\<lparr>count_5 := c\<rparr>)"
proof -
  have *: "mem_only s (s\<lparr>mem := m', g_free_mem_list := f', count_5 := c'\<rparr>)" for m' f' c'
    unfolding mem_only_def by blast
  show "mem_only s s" using * [where m' = "mem s" and f' = "g_free_mem_list s" and c' = "count_5 s"] by simp
  show "mem_only s (s\<lparr>mem := m\<rparr>)" using * [where m' = m and f' = "g_free_mem_list s" and c' = "count_5 s"] by simp
  show "mem_only s (s\<lparr>g_free_mem_list := f\<rparr>)" using * [where m' = "mem s" and f' = f and c' = "count_5 s"] by simp
  show "mem_only s (s\<lparr>count_5 := c\<rparr>)" using * [where m' = "mem s" and f' = "g_free_mem_list s" and c' = c] by simp
qed

lemma mem_only_trans: "mem_only s t \<Longrightarrow> mem_only t u \<Longrightarrow> mem_only s u"
  unfolding mem_only_def by (elim exE) (simp, blast)

named_theorems memory_steps

lemma store_mem [memory_steps]: "store a v t = Inr u \<Longrightarrow> mem_only s t \<Longrightarrow> mem_only s u"
  by (auto simp: store_def split: if_splits intro: mem_only_trans)

lemma alloc_page_mem [memory_steps]: "alloc_page t = Inr (p, u) \<Longrightarrow> mem_only s t \<Longrightarrow> mem_only s u"
  by (auto simp: alloc_page_def sem_P_count_5_def sem_V_count_5_def kbind_eq_Inr Let_def split: if_splits
      elim!: mem_only_trans intro: mem_only_trans)

lemma block_mem [memory_steps]:
  "memset_page p t = Inr u \<Longrightarrow> mem_only s t \<Longrightarrow> mem_only s u"
  "zero_words p n t = Inr u \<Longrightarrow> mem_only s t \<Longrightarrow> mem_only s u"
  "copy_block d p n t = Inr u \<Longrightarrow> mem_only s t \<Longrightarrow> mem_only s u"
  by (auto simp: memset_page_def zero_words_def copy_block_def split: if_splits intro: mem_only_trans)

lemma set_region_mem [memory_steps]: "set_region p i r t = Inr u \<Longrightarrow> mem_only s t \<Longrightarrow> mem_only s u"
  by (auto simp: set_region_def kbind_eq_Inr dest: memory_steps)

lemma set_npages_mem [memory_steps]: "set_npages p i r t = Inr u \<Longrightarrow> mem_only s t \<Longrightarrow> mem_only s u"
  by (auto simp: set_npages_def kbind_eq_Inr dest: memory_steps)

lemma walk_level_mem [memory_steps]: "walk_level l va al pt t = Inr (r, u) \<Longrightarrow> mem_only s t \<Longrightarrow> mem_only s u"
  by (auto simp: walk_level_def kbind_eq_Inr Let_def split: if_splits dest: memory_steps)

lemma page_walk_mem [memory_steps]: "page_walk pd va al t = Inr (r, u) \<Longrightarrow> mem_only s t \<Longrightarrow> mem_only s u"
  by (auto simp: page_walk_def kbind_eq_Inr split: if_splits option.splits dest!: memory_steps)

lemma map_pages_loop_mem [memory_steps]:
  "map_pages_loop pd va l pa b t = Inr (r, u) \<Longrightarrow> mem_only s t \<Longrightarrow> mem_only s u"
proof (induction pd va l pa b t rule: map_pages_loop.induct)
  case (1 pd va l pa b t)
  show ?case
  proof (cases "va \<le> l")
    case True
    with 1(2) obtain pte t1 where w: "page_walk pd va True t = Inr (pte, t1)"
      by (subst (asm) map_pages_loop.simps) (auto simp: kbind_eq_Inr)
    have t1: "mem_only s t1" using w 1(3) by (rule page_walk_mem)
    show ?thesis
    proof (cases "pte = 0")
      case False
      with True w 1(2) obtain v t2 where v: "load pte t1 = Inr v" "v AND PTE_V = 0" "store pte (PA2PTE pa OR b) t1 = Inr t2"
        "map_pages_loop pd (va + PGSIZE) l (pa + PGSIZE) b t2 = Inr (r, u)"
        by (subst (asm) (2) map_pages_loop.simps) (auto simp: kbind_eq_Inr split: if_splits)
      from 1(1) [OF True w refl False v(1) _ v(3) v(4)] v(2) store_mem [OF v(3) t1] show ?thesis by simp
    qed (use True w 1(2) t1 in \<open>subst (asm) map_pages_loop.simps, auto\<close>)
  qed (use 1(2,3) in \<open>subst (asm) map_pages_loop.simps, auto\<close>)
qed

lemma map_pages_mem [memory_steps]: "map_pages pd va n pa b t = Inr (r, u) \<Longrightarrow> mem_only s t \<Longrightarrow> mem_only s u"
  by (auto simp: map_pages_def kbind_eq_Inr Let_def split: if_splits dest: memory_steps)

lemma user_vm_map_mem [memory_steps]: "user_vm_map pd va n pa b t = Inr u \<Longrightarrow> mem_only s t \<Longrightarrow> mem_only s u"
  by (auto simp: user_vm_map_def kbind_eq_Inr split: if_splits dest: memory_steps)

lemma map_segments_mem [memory_steps]: "map_segments pt tf st mi tr t = Inr u \<Longrightarrow> mem_only s t \<Longrightarrow> mem_only s u"
  by (auto simp: map_segments_def kbind_eq_Inr dest!: memory_steps)

lemma fork_heap_mem [memory_steps]: "fork_heap n c p hb bt f t = Inr u \<Longrightarrow> mem_only s t \<Longrightarrow> mem_only s u"
proof (induction n arbitrary: hb t)
  case (Suc n)
  then show ?case by (auto simp: kbind_eq_Inr Let_def split: if_splits dest!: memory_steps Suc.IH)
qed simp

lemma fork_data_mem [memory_steps]: "fork_data n c p va t = Inr u \<Longrightarrow> mem_only s t \<Longrightarrow> mem_only s u"
proof (induction n arbitrary: va t)
  case (Suc n)
  then show ?case by (auto simp: kbind_eq_Inr dest!: memory_steps Suc.IH)
qed simp

section \<open>Fork\<close>

definition births :: "nat \<Rightarrow> ('h, 'z) sysk_scheme \<Rightarrow> ('h, 'z) sysk_scheme \<Rightarrow> bool" where
  \<comment> \<open>of what the scheduler uses, only the structure of process \<open>c\<close> differs\<close>
  "births c s s' \<longleftrightarrow> (\<forall>p. p \<noteq> Proc c \<longrightarrow> pcb s' p = pcb s p) \<and> pid (pcb s' (Proc c)) = pid (pcb s (Proc c)) \<and>
     sem (pcb s' (Proc c)) = sem (pcb s (Proc c)) \<and> tick_count (pcb s' (Proc c)) = tick_count (pcb s (Proc c)) \<and>
     current s' = current s \<and> ready_queue_head s' = ready_queue_head s \<and> wait_queue_head s' = wait_queue_head s \<and>
     sem_l s' = sem_l s \<and> sem_len s' = sem_len s \<and> csr_sstatus s' = csr_sstatus s \<and> count_4 s' = count_4 s"

lemma births_mem: "mem_only t u \<Longrightarrow> births c s t \<Longrightarrow> births c s u"
  by (auto simp: mem_only_def births_def)

lemma births_upd:
  "births c s t \<Longrightarrow> (\<And>p. pid (f p) = pid p \<and> sem (f p) = sem p \<and> tick_count (f p) = tick_count p) \<Longrightarrow> births c s (upd_proc (Proc c) f t)"
  by (auto simp: births_def upd_proc_def)

lemma upd_pfiles_births: "births c s t \<Longrightarrow> births c s (upd_pfiles pf f t)"
proof -
  have "births c s t \<Longrightarrow> births c s (foldl (\<lambda>s fd. upd_file (opened_file pf fd) (f (opened_file pf fd)) s) t xs)" for xs
    by (induction xs arbitrary: t) (auto simp: births_def upd_file_def)
  then show "births c s t \<Longrightarrow> births c s (upd_pfiles pf f t)" by (simp add: upd_pfiles_def)
qed

lemma init_proc_file_management_births:
  "init_proc_file_management t = Inr (pf, u) \<Longrightarrow> births c s t \<Longrightarrow> births c s u"
proof -
  assume i: "init_proc_file_management t = Inr (pf, u)" and b: "births c s t"
  obtain t1 where t1: "alloc_page t = Inr (pf, t1)"
    "u = upd_pfiles pf (\<lambda>_ f. f\<lparr>f_status := FD_NONE\<rparr>)
       (t1\<lparr>pf_cwd := (pf_cwd t1)(pf := vfs_root_dentry t1), pf_nfiles := (pf_nfiles t1)(pf := 0)\<rparr>)"
    using i by (auto simp: init_proc_file_management_def alloc_obj_def kbind_eq_Inr Let_def split: if_splits)
  have "births c s t1" using births_mem [OF alloc_page_mem [OF t1(1) mem_onlyI(1)] b] .
  then have "births c s (t1\<lparr>pf_cwd := (pf_cwd t1)(pf := vfs_root_dentry t1), pf_nfiles := (pf_nfiles t1)(pf := 0)\<rparr>)"
    by (simp add: births_def)
  then show ?thesis unfolding t1(2) by (rule upd_pfiles_births)
qed

lemma alloc_process_births:
  assumes "alloc_process s = Inr (c, s')"
  shows "births c s s' \<and> find (\<lambda>i. status (pcb s (Proc i)) = FREE) [0..<NPROC] = Some c"
proof -
  let ?s = "s\<lparr>count_3 := count_3 s - 1\<rparr>"
  obtain tf t1 t2 pt t3 t4 ks t5 us t6 t7 inf' t8 t9 t10 t11 pf t12 where
    f: "find (\<lambda>i. status (pcb s (Proc i)) = FREE) [0..<NPROC] = Some c" and
    t: "alloc_page ?s = Inr (tf, t1)" "zero_words tf 35 t1 = Inr t2" "alloc_page t2 = Inr (pt, t3)" "memset_page pt t3 = Inr t4"
      "alloc_page t4 = Inr (ks, t5)" "alloc_page t5 = Inr (us, t6)" "store (tf + TF_sp) USER_STACK_TOP t6 = Inr t7"
      "alloc_page t7 = Inr (inf', t8)" "memset_page inf' t8 = Inr t9" "map_segments pt tf us inf' (trap_sec_start t9) t9 = Inr t10"
      "set_region inf' 3 \<lparr>mr_va = USER_FREE_ADDRESS_START, mr_npages = 0, mr_seg_type = HEAP_SEGMENT\<rparr> t10 = Inr t11"
    and i: "init_proc_file_management t11 = Inr (pf, t12)" and
    s': "s' = (upd_proc (Proc c) (\<lambda>p. p\<lparr>trapframe := tf, pagetable := pt, kstack := ks + PGSIZE, mapped_info := inf',
                    user_heap := (user_heap p)\<lparr>heap_top := USER_FREE_ADDRESS_START,
                      heap_bottom := USER_FREE_ADDRESS_START, free_pages_count := 0\<rparr>,
                    total_mapped_region := 4, pfiles := pf, status := USED\<rparr>) t12)\<lparr>count_3 := count_3 t12 + 1\<rparr>"
    using assms by (auto simp: alloc_process_def kbind_eq_Inr Let_def upd_proc_def split: if_splits option.splits)
  have "mem_only ?s t11"
    using memory_steps t mem_onlyI(1) [of ?s] by meson
  moreover have "births c s ?s" by (simp add: births_def)
  ultimately have "births c s t12" using births_mem init_proc_file_management_births [OF i] by blast
  then have "births c s s'" unfolding s' by (simp add: births_def upd_proc_def)
  with f show ?thesis by simp
qed

lemma add_region_births: "add_region c r t = Inr u \<Longrightarrow> births c s t \<Longrightarrow> births c s u"
  by (auto simp: add_region_def kbind_eq_Inr intro!: births_upd elim: births_mem [rotated] intro: set_region_mem [OF _ mem_onlyI(1)])

lemma births_memory:
  "copy_block d p n t = Inr u \<Longrightarrow> births c s t \<Longrightarrow> births c s u"
  "fork_heap n cp pp hb bt f t = Inr u \<Longrightarrow> births c s t \<Longrightarrow> births c s u"
  "set_npages m i k t = Inr u \<Longrightarrow> births c s t \<Longrightarrow> births c s u"
  "map_pages pd va sz pa b t = Inr (r, u) \<Longrightarrow> births c s t \<Longrightarrow> births c s u"
  "fork_data n cp pp va t = Inr u \<Longrightarrow> births c s t \<Longrightarrow> births c s u"
  "store a v t = Inr u \<Longrightarrow> births c s t \<Longrightarrow> births c s u"
  by (blast intro: births_mem memory_steps mem_onlyI(1))+

lemma fork_segment_births:
  "fork_segment cpu junk par c i t = Inr u \<Longrightarrow> births c s t \<Longrightarrow> births c s u"
  by (auto simp: fork_segment_def kbind_eq_Inr Let_def split: if_splits dest!: births_memory add_region_births intro!: births_upd)

lemma fork_segments_births:
  "fork_segments n i cpu junk par c t = Inr u \<Longrightarrow> births c s t \<Longrightarrow> births c s u"
  by (induction n arbitrary: i t) (auto simp: kbind_eq_Inr dest: fork_segment_births)

lemma births_run_state:
  assumes "births c s t" "run_state cpu s qs ws" "Proc c \<notin> set qs" "Proc c \<notin> set ws"
  shows "run_state cpu t qs ws"
proof -
  have *: "pcb t p = pcb s p" if "p \<in> set qs \<union> set ws" for p
    using assms(1,3,4) that unfolding births_def by (metis Un_iff)
  have set_tl: "set (tl qs) \<subseteq> set qs" by (cases qs) auto
  have "queue_rel READY (ready_queue_head s) t (tl qs) = queue_rel READY (ready_queue_head s) s (tl qs)"
    using set_tl by (intro queue_rel_cong) (use * in auto)
  moreover have "queue_rel BLOCKED (wait_queue_head s) t ws = queue_rel BLOCKED (wait_queue_head s) s ws"
    by (rule queue_rel_cong) (use * in auto)
  ultimately show ?thesis
    using assms(1,2) * by (auto simp: run_state_def ready_queue_def wait_queue_def births_def)
qed

definition pool_rel :: "('h, 'z) sysk_scheme \<Rightarrow> asched \<Rightarrow> bool" where
  \<comment> \<open>the processes of the two queues are the ones in use; all others are free or have exited\<close>
  "pool_rel s a \<longleftrightarrow> sched_rel s a \<and> (\<forall>i < NPROC. pid (pcb s (Proc i)) = of_nat i) \<and>
     set (a_run a @ a_wait a) \<subseteq> Proc ` {..<NPROC} \<and> (\<forall>p \<in> set (a_run a @ a_wait a). status (pcb s p) \<noteq> FREE) \<and>
     (\<forall>i < NPROC. Proc i \<notin> set (a_run a @ a_wait a) \<longrightarrow> status (pcb s (Proc i)) \<in> {FREE, ZOMBIE}) \<and> 0 \<le> count_4 s"

definition afork :: "nat \<Rightarrow> asched \<Rightarrow> asched" where
  "afork c a = a\<lparr>a_run := a_run a @ [Proc c]\<rparr>"

lemma do_fork_births:
  assumes "do_fork cpu junk par s = Inr (r, s')"
  obtains c t where "find (\<lambda>i. status (pcb s (Proc i)) = FREE) [0..<NPROC] = Some c" "births c s t"
    "parent (pcb t (Proc c)) = par" "status (pcb t (Proc c)) = READY" "insert_to_ready_queue (Proc c) t = Inr s'"
    "r = uint (pid (pcb s' (Proc c)))"
proof -
  obtain c t1 t2 t3 where t: "alloc_process s = Inr (c, t1)"
      "fork_segments (nat (total_mapped_region (pcb t1 par))) 0 cpu junk par c t1 = Inr t2"
      "store (trapframe (pcb t2 (Proc c)) + TF_a0) 0 (upd_proc (Proc c) (\<lambda>p. p\<lparr>status := READY\<rparr>) t2) = Inr t3"
      "insert_to_ready_queue (Proc c) (upd_proc (Proc c) (\<lambda>p. p\<lparr>parent := par\<rparr>) t3) = Inr s'"
      "r = uint (pid (pcb s' (Proc c)))"
    using assms by (auto simp: do_fork_def kbind_eq_Inr Let_def)
  have "births c s (upd_proc (Proc c) (\<lambda>p. p\<lparr>status := READY\<rparr>) t2)"
    using fork_segments_births [OF t(2)] alloc_process_births [OF t(1)] by (intro births_upd) auto
  then have "births c s (upd_proc (Proc c) (\<lambda>p. p\<lparr>parent := par\<rparr>) t3)"
    using births_memory(6) [OF t(3)] by (intro births_upd) auto
  moreover have "status (pcb t3 (Proc c)) = READY" using t(3) by (auto simp: store_def split: if_splits)
  ultimately show thesis using that t(4,5) alloc_process_births [OF t(1)] by auto
qed

lemma insert_ready_pcb:
  assumes "insert_to_ready_queue p s = Inr s'"
  shows "pid (pcb s' q) = pid (pcb s q) \<and> parent (pcb s' q) = parent (pcb s q) \<and> (q \<noteq> p \<longrightarrow> status (pcb s' q) = status (pcb s q)) \<and>
    (status (pcb s' p) = READY \<or> status (pcb s' p) = status (pcb s p)) \<and>
    current s' = current s \<and> csr_sstatus s' = csr_sstatus s \<and> count_4 s' = count_4 s"
  using assms by (auto simp: insert_to_ready_queue_def upd_proc_def split: if_splits option.splits)

lemma fork_rel:
  assumes rel: "pool_rel s a" and f: "sys_user_fork 0 junk s = Inr (r, s')"
  shows "\<exists>c < NPROC. find (\<lambda>i. status (pcb s (Proc i)) = FREE) [0..<NPROC] = Some c \<and> r = int c \<and> Proc c \<notin> set (a_run a @ a_wait a) \<and>
    parent (pcb s' (Proc c)) = hd (a_run a) \<and> (\<forall>p. p \<noteq> Proc c \<longrightarrow> parent (pcb s' p) = parent (pcb s p)) \<and>
    (ram_page (trapframe (pcb s' (Proc c))) \<longrightarrow> pool_rel s' (afork c a))"
proof -
  have srel: "sched_rel s a" using rel by (simp add: pool_rel_def)
  then obtain p xs where p: "a_run a = p # xs" "run_state 0 s (p # xs) (a_wait a)" "current s 0 = p" by (rule sched_rel_run)
  from f have "do_fork 0 junk (current s 0) s = Inr (r, s')" by (simp add: sys_user_fork_def)
  then obtain c t where c: "find (\<lambda>i. status (pcb s (Proc i)) = FREE) [0..<NPROC] = Some c" "births c s t"
    "parent (pcb t (Proc c)) = current s 0" "status (pcb t (Proc c)) = READY" "insert_to_ready_queue (Proc c) t = Inr s'"
    "r = uint (pid (pcb s' (Proc c)))" by (rule do_fork_births)
  have lt: "c < NPROC" "status (pcb s (Proc c)) = FREE" using c(1) by (auto simp: find_Some_iff)
  then have nin: "Proc c \<notin> set (a_run a)" "Proc c \<notin> set (a_wait a)" using rel by (auto simp: pool_rel_def)
  have r: "r = int c" using c(2,6) lt(1) rel insert_ready_pcb [OF c(5), of "Proc c"]
    by (simp add: pool_rel_def births_def unsigned_of_nat take_bit_nat_eq_self NPROC_def)
  have rt: "run_state 0 t (p # xs) (a_wait a)" using births_run_state [OF c(2) p(2)] nin p(1) by simp
  have k: "keeps t s'" by (rule insert_keeps(1) [OF c(5)])
  have "pool_rel s' (afork c a)" if tf: "ram_page (trapframe (pcb s' (Proc c)))"
  proof -
    from rt obtain s1 where s1: "insert_to_ready_queue (Proc c) t = Inr s1" "ready_queue s1 (xs @ [Proc c])" "wait_queue s1 (a_wait a)"
      using insert_ready_spec [of t xs "a_wait a" "Proc c"] nin p(1) by (auto simp: run_state_def)
    then have "run_state 0 s' (p # xs @ [Proc c]) (a_wait a)"
      using rt c(5) nin p(1) k tf insert_ready_pcb [OF c(5)] by (auto simp: run_state_def keeps_def)
    then have "sched_rel s' (afork c a)"
      using srel c(2) k insert_ready_pcb [OF c(5)] p(1) nin
      by (auto simp: sched_rel_def afork_def births_def keeps_def) metis+
    moreover have "\<forall>q. pid (pcb s' q) = pid (pcb s q)" "\<forall>q. q \<noteq> Proc c \<longrightarrow> status (pcb s' q) = status (pcb s q)" "status (pcb s' (Proc c)) = READY"
      "count_4 s' = count_4 s"
      using c(2,4) insert_ready_pcb [OF c(5)] by (auto simp: births_def) metis+
    ultimately show ?thesis using rel lt nin by (auto simp: pool_rel_def afork_def) (metis Un_iff)+
  qed
  moreover have "\<forall>q. q \<noteq> Proc c \<longrightarrow> parent (pcb s' q) = parent (pcb s q)" "parent (pcb s' (Proc c)) = hd (a_run a)"
    using c(2,3) insert_ready_pcb [OF c(5)] p by (auto simp: births_def)
  ultimately show ?thesis using c(1) r lt(1) nin by auto
qed

section \<open>Processes that an operation does not touch\<close>

definition calm :: "pref set \<Rightarrow> ('h, 'z) sysk_scheme \<Rightarrow> ('h, 'z) sysk_scheme \<Rightarrow> bool" where
  \<comment> \<open>at most the processes in \<open>L\<close> change their status, and none becomes free\<close>
  "calm L s s' \<longleftrightarrow> (\<forall>p. pid (pcb s' p) = pid (pcb s p) \<and> parent (pcb s' p) = parent (pcb s p) \<and>
     (p \<notin> L \<longrightarrow> status (pcb s' p) = status (pcb s p)) \<and> (status (pcb s' p) = FREE \<longrightarrow> status (pcb s p) = FREE)) \<and>
     count_4 s' = count_4 s"

lemma calm_trans: "calm K s t \<Longrightarrow> calm L t u \<Longrightarrow> K \<subseteq> M \<Longrightarrow> L \<subseteq> M \<Longrightarrow> calm M s u"
  by (auto simp: calm_def) (metis subsetD)+

lemma calm_mono: "calm K s t \<Longrightarrow> K \<subseteq> M \<Longrightarrow> calm M s t"
  by (auto simp: calm_def)

lemma insert_calm:
  "insert_to_ready_queue p s = Inr s' \<Longrightarrow> calm {p} s s' \<and> ready_queue_head s' \<in> {p, ready_queue_head s}"
  "insert_to_wait_queue p s = Inr s' \<Longrightarrow> calm {p} s s' \<and> ready_queue_head s' = ready_queue_head s"
  by (auto simp: calm_def insert_to_ready_queue_def insert_to_wait_queue_def upd_proc_def split: if_splits option.splits)

lemma switch_to_calm: "switch_to cpu p s = Inr s' \<Longrightarrow> calm {} s s'"
  by (auto simp: calm_def switch_to_def store_def kbind_eq_Inr Let_def split: if_splits)

lemma dispatch_calm: "dispatch cpu s = Inr s' \<Longrightarrow> calm {ready_queue_head s} s s' \<and> ready_queue_head s \<noteq> Null"
proof -
  assume d: "dispatch cpu s = Inr s'"
  let ?t = "upd_proc (ready_queue_head s) (\<lambda>q. q\<lparr>status := RUNNING\<rparr>)
     (s\<lparr>current := (current s)(cpu := ready_queue_head s), ready_queue_head := queue_next (pcb s (ready_queue_head s))\<rparr>)"
  have "ready_queue_head s \<noteq> Null" "switch_to cpu (ready_queue_head s) ?t = Inr s'"
    using d by (auto simp: dispatch_def nonnull_proc_def kbind_eq_Inr Let_def split: if_splits)
  moreover have "calm {ready_queue_head s} s ?t" by (simp add: calm_def upd_proc_def)
  ultimately show ?thesis using switch_to_calm calm_trans by blast
qed

lemma schedule_calm: "schedule 0 cpu s = Inr s' \<Longrightarrow> calm {ready_queue_head s} s s' \<and> ready_queue_head s \<noteq> Null"
  using dispatch_calm by (auto simp: schedule_def split: if_splits)

lemma reschedule_calm:
  assumes "insert_to_ready_queue p s = Inr t" "schedule 0 cpu t = Inr s'" "p \<in> L" "ready_queue_head s \<in> L \<union> {Null}"
  shows "calm L s s'"
proof -
  have t: "calm {p} s t" "ready_queue_head t \<in> {p, ready_queue_head s}" using insert_calm(1) [OF assms(1)] by auto
  have "calm {ready_queue_head t} t s'" "ready_queue_head t \<noteq> Null" using schedule_calm [OF assms(2)] by auto
  moreover from this(2) t(2) assms(3,4) have "{ready_queue_head t} \<subseteq> L" by auto
  ultimately show ?thesis using calm_trans [OF t(1)] assms(3) by blast
qed

lemma block_current_calm:
  assumes "block_current cpu s = Inr (r, s')" "current s cpu \<in> L" "ready_queue_head s \<in> L \<union> {Null}"
  shows "calm L s s'"
proof -
  obtain t where t: "insert_to_wait_queue (current s cpu) s = Inr t" "schedule 0 cpu t = Inr s'"
    using assms(1) by (auto simp: block_current_def kbind_eq_Inr)
  have i: "calm {current s cpu} s t" "ready_queue_head t = ready_queue_head s" using insert_calm(2) [OF t(1)] by auto
  have d: "calm {ready_queue_head t} t s'" "ready_queue_head t \<noteq> Null" using schedule_calm [OF t(2)] by auto
  have "{current s cpu} \<subseteq> L" "{ready_queue_head t} \<subseteq> L" using i(2) d(2) assms(2,3) by auto
  then show ?thesis by (rule calm_trans [OF i(1) d(1)])
qed

lemma sched_rel_heads:
  assumes "sched_rel s a"
  shows "current s 0 \<in> set (a_run a @ a_wait a)" "ready_queue_head s \<in> set (a_run a @ a_wait a) \<union> {Null}" "current s 0 \<noteq> Null"
proof -
  obtain p xs where p: "a_run a = p # xs" "run_state 0 s (p # xs) (a_wait a)" "current s 0 = p" "p \<noteq> Null"
    using assms by (rule sched_rel_run)
  then show "current s 0 \<in> set (a_run a @ a_wait a)" "current s 0 \<noteq> Null" by simp_all
  show "ready_queue_head s \<in> set (a_run a @ a_wait a) \<union> {Null}"
    using p by (cases xs) (auto simp: run_state_def queue_defs)
qed

lemma wake_calm:
  assumes "sched_rel s a" "wake_wait_queue i s = Inr s'"
  shows "calm (set (a_run a @ a_wait a)) s s'"
proof (cases "a_cnt a i < 0 \<or> find (\<lambda>p. a_sem a p = i) (a_wait a) = None")
  case True
  have "s' = s"
  proof (cases "a_cnt a i < 0")
    case True
    then show ?thesis using assms by (auto simp: wake_wait_queue_def sched_rel_def split: if_splits)
  next
    case False
    with True have "\<forall>x \<in> set (a_wait a). sem (pcb s x) \<noteq> i" using assms(1) by (auto simp: find_None_iff sched_rel_def)
    then have "find_waiter (pcb s) (\<lambda>p. sem p = i) Null (wait_queue_head s) = Some (Null, last (Null # a_wait a))"
      using assms(1) by (intro find_waiter_none) (auto simp: sched_rel_def run_state_def queue_defs)
    then show ?thesis using assms(2) by (auto simp: wake_wait_queue_def split: if_splits)
  qed
  then show ?thesis by (simp add: calm_def)
next
  case False
  then obtain w where w: "find (\<lambda>p. a_sem a p = i) (a_wait a) = Some w" "\<not> sem_l s i < 0" using assms(1) by (auto simp: sched_rel_def)
  obtain xs ys where x: "a_wait a = xs @ w # ys" "\<forall>x \<in> set xs. a_sem a x \<noteq> i" "a_sem a w = i"
    using find_split [OF w(1)] by blast
  have i: "0 \<le> i" "i < 100" using assms(2) by (auto simp: wake_wait_queue_def split: if_splits)
  have "ready_queue s (tl (a_run a))" "wait_queue s (xs @ w # ys)" "set (tl (a_run a)) \<inter> set (xs @ w # ys) = {}"
      "\<forall>x \<in> set xs. sem (pcb s x) \<noteq> i" "sem (pcb s w) = i"
    using assms(1) x by (auto simp: sched_rel_def run_state_def dest: list.set_sel(2) [rotated])
  from wake_wait_queue_moves [OF this i] assms(2) w(2) have
    r: "status (pcb s' w) = READY" "\<forall>x. x \<noteq> w \<longrightarrow> (\<exists>n. pcb s' x = (pcb s x)\<lparr>queue_next := n\<rparr>)" by auto
  have "pid (pcb s' w) = pid (pcb s w) \<and> parent (pcb s' w) = parent (pcb s w) \<and> count_4 s' = count_4 s"
    using assms(2) by (auto simp: wake_wait_queue_def insert_to_ready_queue_head_def unlink_waiter_def upd_proc_def
      split: if_splits option.splits)
  then have "pid (pcb s' p) = pid (pcb s p) \<and> parent (pcb s' p) = parent (pcb s p) \<and>
     (p \<notin> {w} \<longrightarrow> status (pcb s' p) = status (pcb s p)) \<and> (status (pcb s' p) = FREE \<longrightarrow> status (pcb s p) = FREE) \<and> count_4 s' = count_4 s" for p
    using r by (cases "p = w") (auto dest: spec [of _ p])
  then show ?thesis using x(1) by (auto simp: calm_def)
qed

lemma timer_tick_calm:
  assumes "sched_rel s a" "timer_tick fe junk stk b0 s = Inr s'"
  shows "calm (set (a_run a @ a_wait a)) s s'"
proof -
  let ?L = "set (a_run a @ a_wait a)" and ?u = "ticked s"
  obtain p xs where p: "a_run a = p # xs" "current s 0 = p" "p \<noteq> Null" "ram_page (trapframe (pcb s p))"
    using assms(1) by (rule sched_rel_run)
  have "kbind (rrsched 0 ?u) (\<lambda>(r, s). if r then switch_to 0 (current s 0) s else Inr s) = Inr s'"
    using p assms by (subst timer_tick_rrsched [symmetric]) (simp_all add: sched_rel_def)
  then obtain r t where t: "rrsched 0 ?u = Inr (r, t)" "(if r then switch_to 0 (current t 0) t else Inr t) = Inr s'"
    by (auto simp: kbind_eq_Inr)
  have u: "calm ?L s (upd_proc p (\<lambda>q. q\<lparr>tick_count := n q\<rparr>) ?u)" for n
    by (simp add: calm_def upd_proc_def ticked_def handle_mtimer_trap_def handle_timer_def)
  have "calm ?L s t"
  proof (cases "2 \<le> tick_count (pcb s p) + 1")
    case True
    let ?v = "upd_proc p (\<lambda>q. q\<lparr>tick_count := 0\<rparr>) ?u"
    obtain t1 where t1: "insert_to_ready_queue p ?v = Inr t1" "schedule 0 0 t1 = Inr t"
      using t(1) True p(2) by (auto simp: rrsched_def Let_def kbind_eq_Inr)
    have "calm ?L ?v t"
      using sched_rel_heads [OF assms(1)] p by (intro reschedule_calm [OF t1]) auto
    then show ?thesis using calm_trans [OF u [of "\<lambda>_. 0"]] by simp
  qed (use t(1) p(2) u in \<open>auto simp: rrsched_def\<close>)
  moreover have "calm ?L t s'" using t(2) by (auto split: if_splits simp: calm_def dest: switch_to_calm)
  ultimately show ?thesis using calm_trans by blast
qed

lemma kstep_calm:
  assumes "sched_rel s a" "kstep fe junk stk b0 x s = Inr s'"
  shows "calm (set (a_run a @ a_wait a)) s s'"
proof (cases x)
  case Yield
  then obtain t where "insert_to_ready_queue (current s 0) s = Inr t" "schedule 0 0 t = Inr s'"
    using assms(2) by (auto simp: sys_user_yield_def kbind_eq_Inr)
  then show ?thesis using sched_rel_heads [OF assms(1)] by (intro reschedule_calm)
next
  case (Sem_new v)
  then show ?thesis using assms(2) by (auto simp: sys_user_sem_new_def kbind_eq_Inr Let_def calm_def)
next
  case (Sem_P i)
  let ?s = "s\<lparr>sem_l := (sem_l s)(i := sem_l s i - 1)\<rparr>"
  let ?t = "upd_cur 0 (\<lambda>p. p\<lparr>sem := i\<rparr>) ?s"
  have "s' = ?s \<or> (\<exists>r. block_current 0 ?t = Inr (r, s'))"
    using Sem_P assms(2) by (auto simp: sys_user_sem_P_def kbind_eq_Inr Let_def split: if_splits)
  moreover have "calm (set (a_run a @ a_wait a)) ?t s'" if "block_current 0 ?t = Inr (r, s')" for r
    using sched_rel_heads [OF assms(1)] by (intro block_current_calm [OF that]) simp_all
  moreover have "calm (set (a_run a @ a_wait a)) s ?s" "calm (set (a_run a @ a_wait a)) s ?t"
    by (simp_all add: calm_def upd_proc_def)
  ultimately show ?thesis using calm_trans by blast
next
  case (Sem_V i)
  let ?c = "(sem_l s)(i := sem_l s i + 1)"
  let ?s = "s\<lparr>sem_s := 1, sem_l := ?c\<rparr>"
  have "wake_wait_queue i ?s = Inr s'" using Sem_V assms(2) by (auto simp: sys_user_sem_V_def kbind_eq_Inr)
  moreover have "sched_rel ?s (a\<lparr>a_cnt := ?c\<rparr>)" using assms(1) by (simp add: sched_rel_def run_state_def queue_defs)
  ultimately have "calm (set (a_run a @ a_wait a)) ?s s'" using wake_calm by fastforce
  then show ?thesis by (simp add: calm_def)
next
  case Tick
  then show ?thesis using timer_tick_calm [OF assms(1)] assms(2) by simp
qed

lemma pool_rel_calm:
  assumes "pool_rel s a" "calm (set (a_run a @ a_wait a)) s s'" "sched_rel s' a'" "set (a_run a' @ a_wait a') = set (a_run a @ a_wait a)"
  shows "pool_rel s' a'"
  using assms unfolding pool_rel_def calm_def by metis

lemma kstep_pool:
  assumes "pool_rel s a" "astep x a = Some a'"
  shows "\<exists>s'. kstep fe junk stk b0 x s = Inr s' \<and> pool_rel s' a' \<and> (\<forall>p. parent (pcb s' p) = parent (pcb s p))"
proof -
  have rel: "sched_rel s a" using assms(1) by (simp add: pool_rel_def)
  obtain s' where s': "kstep fe junk stk b0 x s = Inr s'" "sched_rel s' a'" using ks.step_ok [OF rel assms(2)] by blast
  have "a_run a \<noteq> []" using rel by (auto simp: sched_rel_def run_state_def)
  then have "set (a_run a' @ a_wait a') = set (a_run a @ a_wait a)"
    using astep_conserves [OF assms(2)] by (metis set_mset_mset)
  then show ?thesis
    using s' pool_rel_calm [OF assms(1) kstep_calm [OF rel s'(1)] s'(2)] kstep_calm [OF rel s'(1)] by (auto simp: calm_def)
qed

section \<open>Exit\<close>

lemma zombify_one:
  assumes "\<forall>i < NPROC. pid (pcb s (Proc i)) = of_nat i" "c < NPROC"
  shows "zombify (of_nat c) s = upd_proc (Proc c) (\<lambda>p. p\<lparr>status := ZOMBIE\<rparr>) s"
proof -
  let ?f = "\<lambda>s i. if pid (pcb s (Proc i)) = of_nat c then upd_proc (Proc i) (\<lambda>p. p\<lparr>status := ZOMBIE\<rparr>) s else s"
  have inj: "(of_nat i :: u64) = of_nat c \<longleftrightarrow> i = c" if "i < NPROC" for i
    using that assms(2) by (simp add: of_nat_eq_iff word_of_nat_eq_iff take_bit_nat_eq_self NPROC_def)
  have "\<forall>i < NPROC. pid (pcb t (Proc i)) = of_nat i \<Longrightarrow> set xs \<subseteq> {..<NPROC} \<Longrightarrow> distinct xs \<Longrightarrow>
      foldl ?f t xs = (if c \<in> set xs then upd_proc (Proc c) (\<lambda>p. p\<lparr>status := ZOMBIE\<rparr>) t else t)" for t xs
  proof (induction xs arbitrary: t)
    case (Cons x xs)
    then show ?case using inj [of x] by (cases "x = c") (auto simp: upd_proc_def)
  qed simp
  from this [of s "[0..<NPROC]"] show ?thesis
    using assms by (auto simp: zombify_def lessThan_atLeast0)
qed

definition aexit :: "asched \<Rightarrow> asched" where
  "aexit a = a\<lparr>a_run := tl (a_run a)\<rparr>"

definition died :: "pref \<Rightarrow> ('h, 'z) sysk_scheme \<Rightarrow> ('h, 'z) sysk_scheme" where
  \<comment> \<open>the state in which \<^verbatim>\<open>exit\<close> calls \<^verbatim>\<open>schedule(1)\<close>\<close>
  "died p s = upd_proc p (\<lambda>q. q\<lparr>status := ZOMBIE\<rparr>) (s\<lparr>count_4 := count_4 s + 1\<rparr>)"

lemma died_simps [simp]:
  "pid (pcb (died p s) q) = pid (pcb s q)" "parent (pcb (died p s) q) = parent (pcb s q)"
  "trapframe (pcb (died p s) q) = trapframe (pcb s q)" "sem (pcb (died p s) q) = sem (pcb s q)"
  "tick_count (pcb (died p s) q) = tick_count (pcb s q)" "queue_next (pcb (died p s) q) = queue_next (pcb s q)"
  "status (pcb (died p s) q) = (if q = p then ZOMBIE else status (pcb s q))"
  "current (died p s) = current s" "count_4 (died p s) = count_4 s + 1" "ready_queue_head (died p s) = ready_queue_head s"
  "wait_queue_head (died p s) = wait_queue_head s" "sem_l (died p s) = sem_l s" "sem_len (died p s) = sem_len s"
  by (auto simp: died_def upd_proc_def)

lemma exit_schedules:
  assumes "pool_rel s a" "a_run a = p # xs"
  shows "sys_user_exit 0 code s = kbind (schedule 1 0 (died p s)) (\<lambda>s. Inr (None, s))"
proof -
  obtain i where i: "p = Proc i" "i < NPROC" using assms by (auto simp: pool_rel_def)
  have "current s 0 = p" using assms by (auto simp: pool_rel_def sched_rel_def run_state_def)
  moreover have "free_process p (s\<lparr>count_4 := count_4 s + 1\<rparr>) = (0, died p s)"
    using zombify_one [of "s\<lparr>count_4 := count_4 s + 1\<rparr>" i] assms(1) i
    by (simp add: free_process_def died_def pool_rel_def) (simp add: upd_proc_def)
  ultimately show ?thesis using assms(1) by (simp add: pool_rel_def sys_user_exit_def barrier_alone_def NCPU_def)
qed

lemma died_queues:
  assumes "run_state 0 s (p # xs) ws"
  shows "ready_queue (died p s) xs" "wait_queue (died p s) ws"
proof -
  have "queue_rel st h (died p s) ys = queue_rel st h s ys" if "p \<notin> set ys" for st h ys
    using that by (intro queue_rel_cong) auto
  then show "ready_queue (died p s) xs" "wait_queue (died p s) ws"
    using assms by (auto simp: run_state_def ready_queue_def wait_queue_def)
qed

lemma schedule_died:
  \<comment> \<open>when no waiting process has the identifier of the parent\<close>
  assumes "run_state 0 s (p # xs) ws" "parent (pcb s p) = Null \<or> (\<forall>w \<in> set ws. pid (pcb s w) \<noteq> pid (pcb s (parent (pcb s p))))"
  shows "schedule 1 0 (died p s) = (if ws = [] \<and> xs = [] then if all_done (died p s) then Inl (Halt 0)
      else Inl (Panic ''Not handled: we should let system wait for unfinished processes.'') else dispatch 0 (died p s))"
proof (cases ws)
  case Nil
  then show ?thesis using died_queues [OF assms(1)] by (cases xs) (auto simp: schedule_def queue_defs)
next
  case (Cons w vs)
  have "find_waiter (pcb (died p s)) (\<lambda>q. pid q = pid (pcb s (parent (pcb s p)))) Null (wait_queue_head s) = Some (Null, last (Null # ws))"
    if "parent (pcb s p) \<noteq> Null"
    using that assms(2) died_queues(2) [OF assms(1)] by (intro find_waiter_none) (auto simp: queue_defs)
  moreover have "current s 0 = p" using assms(1) by (simp add: run_state_def)
  ultimately show ?thesis using died_queues [OF assms(1)] Cons by (auto simp: schedule_def queue_defs)
qed

lemma exit_halts:
  assumes "pool_rel s a" "a_run a = [p]" "a_wait a = []"
  shows "sys_user_exit 0 code s = Inl (Halt 0)"
proof -
  have r: "run_state 0 s [p] []" using assms by (simp add: pool_rel_def sched_rel_def)
  have "all_done (died p s)" using assms by (auto simp: all_done_def list_all_iff pool_rel_def)
  then show ?thesis using exit_schedules [OF assms(1,2)] schedule_died [OF r] by simp
qed

lemma exit_rel:
  assumes rel: "pool_rel s a" and run: "a_run a = p # x # ys"
    and par: "parent (pcb s p) = Null \<or> (\<forall>w \<in> set (a_wait a). pid (pcb s w) \<noteq> pid (pcb s (parent (pcb s p))))"
  shows "\<exists>s'. sys_user_exit 0 code s = Inr (None, s') \<and> pool_rel s' (aexit a) \<and> (\<forall>p. parent (pcb s' p) = parent (pcb s p))"
proof -
  let ?t = "died p s"
  have srel: "sched_rel s a" using rel by (simp add: pool_rel_def)
  have r: "run_state 0 s (p # x # ys) (a_wait a)" using srel run by (simp add: sched_rel_def)
  have d: "p \<notin> set (x # ys)" "p \<notin> set (a_wait a)" "set (x # ys) \<inter> set (a_wait a) = {}" using r by (auto simp: run_state_def)
  note q = died_queues [OF r]
  have "\<forall>q \<in> set (x # ys). ram_page (trapframe (pcb ?t q))" using r by (auto simp: run_state_def)
  from schedule_run_state [OF q d(3) this, of 0] obtain s' where
    s': "schedule 0 0 ?t = Inr s'" "run_state 0 s' (x # ys) (a_wait a)" by auto
  have dis: "dispatch 0 ?t = Inr s'" using s'(1) schedule_0_dispatch [OF q(1)] by simp
  have k: "keeps ?t s'" "csr_sstatus s' 0 AND SSTATUS_SPP = 0" using schedule_keeps [OF s'(1)] by auto
  have cm: "calm {x} ?t s'" using dispatch_calm [OF dis] q(1) by (auto simp: queue_defs)
  have "sched_rel s' (aexit a)"
    using srel k s'(2) run by (auto simp: sched_rel_def aexit_def keeps_def)
  moreover have "status (pcb s' q) \<noteq> FREE" if "q \<in> set (a_run (aexit a) @ a_wait (aexit a))" for q
  proof -
    have "q \<noteq> p" "status (pcb s q) \<noteq> FREE" using that rel run d by (auto simp: pool_rel_def aexit_def)
    then show ?thesis using cm by (auto simp: calm_def)
  qed
  moreover have "status (pcb s' (Proc j)) \<in> {FREE, ZOMBIE}" if j: "j < NPROC" "Proc j \<notin> set (a_run (aexit a) @ a_wait (aexit a))" for j
  proof -
    have "status (pcb s' (Proc j)) = status (pcb ?t (Proc j))" using cm j(2) run by (auto simp: calm_def aexit_def)
    then show ?thesis using j rel run by (auto simp: pool_rel_def aexit_def)
  qed
  moreover have "set (a_run (aexit a) @ a_wait (aexit a)) \<subseteq> Proc ` {..<NPROC}" using rel run by (auto simp: pool_rel_def aexit_def)
  ultimately have "pool_rel s' (aexit a)" using rel cm by (auto simp: pool_rel_def calm_def)
  then show ?thesis
    using dis cm exit_schedules [OF rel run] schedule_died [OF r par] by (auto simp: calm_def)
qed

end
