(* ===== verification/UserSys.thy ===== *)
theory UserSys
  imports Apps ProcRefine
begin

text \<open>
  Applications on top of the kernel: every process runs a program (\<open>Apps\<close>), the one that runs makes the next call of the
  user library, and timer interrupts come at any time.  The step relation covers programs that print, use
  semaphores, yield, fork and exit.
\<close>

section \<open>Library calls\<close>

lemma ecall_calls:
  "sem_new (kernel_ecall fe cpu junk stk) i s = seen (returns (sys_user_sem_new (sint i) s))"
  "sem_P (kernel_ecall fe cpu junk stk) i s = seen (sys_user_sem_P cpu (sint i) s)"
  "sem_V (kernel_ecall fe cpu junk stk) i s = seen (returns (sys_user_sem_V (sint i) s))"
  "fork (kernel_ecall fe cpu junk stk) s = seen (returns (sys_user_fork cpu junk s))"
  "exit (kernel_ecall fe cpu junk stk) i s = seen (sys_user_exit cpu (scast i) s)"
  by (simp_all add: int_routines to_int_call do_syscall_def SYS_defs)

lemma seen_simps [simp]:
  "seen (returns (Inr (v, s))) = Inr (Some (as_int v), s)" "seen (Inr (r, s)) = Inr (map_option as_int r, s)"
  "seen (Inl e) = Inl e" "seen (returns (Inl e)) = Inl e"
  by (simp_all add: seen_def returns_def)

lemma seen_eq_Inr: "seen m = Inr (r, s) \<longleftrightarrow> (\<exists>v. m = Inr (v, s) \<and> r = map_option as_int v)"
  by (cases m) (auto simp: seen_def)

lemma returns_eq_Inr: "returns m = Inr (r, s) \<longleftrightarrow> (\<exists>v. m = Inr (v, s) \<and> r = Some v)"
  by (cases m) (auto simp: returns_def)

lemma as_int_small [simp]: "0 \<le> v \<Longrightarrow> v < 2 ^ 31 \<Longrightarrow> as_int v = v"
  by (simp add: as_int_def signed_of_int signed_take_bit_int_eq_self)

lemma sint_small: "0 \<le> v \<Longrightarrow> v < 2 ^ 31 \<Longrightarrow> sint (word_of_int v :: u32) = v"
  by (simp add: signed_of_int signed_take_bit_int_eq_self)

section \<open>Output\<close>

lemma user_write_mem: "user_write cpu va cs t = Inr u \<Longrightarrow> mem_only s t \<Longrightarrow> mem_only s u"
proof (induction cs arbitrary: va t)
  case (Cons c cs)
  then show ?case by (auto simp: kbind_eq_Inr store_byte_def dest!: store_mem Cons.IH)
qed simp

lemma sprint_host: "sprint fe f vl s = Inr s' \<Longrightarrow> \<exists>h. s' = s\<lparr>hst := h\<rparr>"
  by (auto simp: sprint_def vprintk_def spike_file_write_def frontend_syscall_def kbind_eq_Inr Let_def split: prod.splits)

lemma printu_frame:
  assumes "printu (kernel_ecall fe 0 junk stk) 0 ob f vl s = Inr (r, s')"
  obtains t h where "mem_only s t" "s' = t\<lparr>hst := h\<rparr>"
proof -
  obtain t ob' where t: "user_write 0 ob ob' s = Inr t" "\<exists>v. sys_user_print fe 0 ob t = Inr (v, s')"
    using assms
    by (auto simp: printu_def kbind_eq_Inr Let_def to_int_call seen_eq_Inr returns_eq_Inr do_syscall_def SYS_user_print_def)
  have "mem_only s t" by (rule user_write_mem [OF t(1) mem_onlyI(1)])
  moreover obtain h where "s' = t\<lparr>hst := h\<rparr>" using t(2) sprint_host by (fastforce simp: sys_user_print_def kbind_eq_Inr)
  ultimately show thesis using that by blast
qed

lemma printu_rel:
  assumes "printu (kernel_ecall fe 0 junk stk) 0 ob f vl s = Inr (r, s')" "pool_rel s a"
  shows "pool_rel s' a \<and> pcb s' = pcb s"
proof -
  obtain t h where "mem_only s t" "s' = t\<lparr>hst := h\<rparr>" using assms(1) by (rule printu_frame)
  then have e: "pcb s' = pcb s" "current s' = current s" "ready_queue_head s' = ready_queue_head s" "wait_queue_head s' = wait_queue_head s"
      "sem_l s' = sem_l s" "sem_len s' = sem_len s" "csr_sstatus s' = csr_sstatus s" "count_4 s' = count_4 s"
    by (auto simp: mem_only_def)
  then have "run_state 0 s' qs ws = run_state 0 s qs ws" for qs ws
    using run_state_frame [of 0 s qs ws s'] run_state_frame [of 0 s' qs ws s] by auto
  then show ?thesis using assms(2) e by (simp add: pool_rel_def sched_rel_def)
qed

section \<open>The system\<close>

record 'h usys =
  kern :: "'h mach"
  progs :: "pref \<Rightarrow> prog"               \<comment> \<open>what each process still has to do\<close>
  out :: "cstring list"                  \<comment> \<open>the texts of the calls of \<^verbatim>\<open>printu\<close> so far\<close>

abbreviation running :: "'h usys \<Rightarrow> pref" where
  "running u \<equiv> current (kern u) 0"

abbreviation goes_on :: "'h usys \<Rightarrow> 'h mach \<Rightarrow> prog \<Rightarrow> 'h usys" where
  "goes_on u s p \<equiv> u\<lparr>kern := s, progs := (progs u)(running u := p)\<rparr>"

inductive call_step ::
  "'h frontend \<Rightarrow> (nat \<Rightarrow> int) \<Rightarrow> (int \<Rightarrow> bytes) \<Rightarrow> 'h usys \<Rightarrow> 'h usys \<Rightarrow> bool" for fe junk stk where
  \<comment> \<open>\<open>ob\<close> is the address of the buffer of \<^verbatim>\<open>printu\<close> on the stack of the process\<close>
  step_print: "progs u (running u) = Call (U_printu f vl) k \<Longrightarrow>
     printu (kernel_ecall fe 0 junk stk) 0 ob f vl (kern u) = Inr (Some v, s) \<Longrightarrow> fmt_text False False f vl = Inr t \<Longrightarrow>
     call_step fe junk stk u ((goes_on u s (k v []))\<lparr>out := out u @ [t]\<rparr>)"
| step_sem_new: "progs u (running u) = Call (U_sem_new n) k \<Longrightarrow>
     sem_new (kernel_ecall fe 0 junk stk) (word_of_int n) (kern u) = Inr (Some v, s) \<Longrightarrow>
     call_step fe junk stk u (goes_on u s (k v []))"
  \<comment> \<open>a call that does not return leaves its number in \<^verbatim>\<open>a0\<close>, which is the result when the process runs again\<close>
| step_sem_P: "progs u (running u) = Call (U_sem_P n) k \<Longrightarrow>
     sem_P (kernel_ecall fe 0 junk stk) (word_of_int n) (kern u) = Inr (r, s) \<Longrightarrow>
     call_step fe junk stk u (goes_on u s (k (case r of None \<Rightarrow> uint SYS_user_sem_P | Some v \<Rightarrow> v) []))"
| step_sem_V: "progs u (running u) = Call (U_sem_V n) k \<Longrightarrow>
     sem_V (kernel_ecall fe 0 junk stk) (word_of_int n) (kern u) = Inr (Some v, s) \<Longrightarrow>
     call_step fe junk stk u (goes_on u s (k v []))"
| step_yield: "progs u (running u) = Call U_yield k \<Longrightarrow>
     yield (kernel_ecall fe 0 junk stk) (kern u) = Inr (None, s) \<Longrightarrow>
     call_step fe junk stk u (goes_on u s (k (uint SYS_user_yield) []))"
  \<comment> \<open>the child, in the first free structure, is a copy of its parent in which the call returns 0; its trapframe is a page of RAM\<close>
| step_fork: "progs u (running u) = Call U_fork k \<Longrightarrow>
     fork (kernel_ecall fe 0 junk stk) (kern u) = Inr (Some v, s) \<Longrightarrow>
     find (\<lambda>i. status (pcb (kern u) (Proc i)) = FREE) [0..<NPROC] = Some c \<Longrightarrow> ram_page (trapframe (pcb s (Proc c))) \<Longrightarrow>
     call_step fe junk stk u ((goes_on u s (k v []))\<lparr>progs := (progs u)(running u := k v [], Proc c := k 0 [])\<rparr>)"
| step_exit: "progs u (running u) = Call (U_exit n) k \<Longrightarrow>
     exit (kernel_ecall fe 0 junk stk) (word_of_int n) (kern u) = Inr (None, s) \<Longrightarrow>
     call_step fe junk stk u (u\<lparr>kern := s\<rparr>)"

inductive sys_run ::
  "'h frontend \<Rightarrow> (nat \<Rightarrow> int) \<Rightarrow> (int \<Rightarrow> bytes) \<Rightarrow> u8 \<Rightarrow> 'h usys \<Rightarrow> nat \<Rightarrow> 'h usys \<Rightarrow> bool" for fe junk stk b0 u where
  \<comment> \<open>a run with \<open>n\<close> calls and any number of timer interrupts between them\<close>
  run_start: "sys_run fe junk stk b0 u 0 u"
| run_call: "sys_run fe junk stk b0 u n v \<Longrightarrow> call_step fe junk stk v w \<Longrightarrow> sys_run fe junk stk b0 u (Suc n) w"
| run_tick: "sys_run fe junk stk b0 u n v \<Longrightarrow> timer_tick fe junk stk b0 (kern v) = Inr s \<Longrightarrow>
     sys_run fe junk stk b0 u n (v\<lparr>kern := s\<rparr>)"

end
