(* ===== verification/SemRing.thy ===== *)
theory SemRing
  imports UserSys
begin

text \<open>
  The protocol of \<^verbatim>\<open>app_semaphore_challengex.c\<close> by itself: three processes pass one token around through three
  semaphores.  A state gives the phase of each process, the semaphore that holds the token (if no process
  does) and the number of lines printed so far.
\<close>

section \<open>States\<close>

datatype role = Par | Ch0 | Ch1

datatype phase =
    Unborn
  | Forking                 \<comment> \<open>the child, before the second fork\<close>
  | AtP nat                 \<comment> \<open>before \<^verbatim>\<open>sem_P\<close> of turn \<open>i\<close>; turn 10 is \<^verbatim>\<open>exit\<close>\<close>
  | Blocked nat             \<comment> \<open>in the wait queue, inside \<^verbatim>\<open>sem_P\<close>\<close>
  | Printing nat            \<comment> \<open>after \<^verbatim>\<open>sem_P\<close>\<close>
  | AtV nat                 \<comment> \<open>after \<^verbatim>\<open>printu\<close>\<close>
  | Gone

type_synonym phases = "role \<Rightarrow> phase"

fun printed :: "phase \<Rightarrow> nat" where
  "printed Unborn = 0"
| "printed Forking = 0"
| "printed (AtP i) = i"
| "printed (Blocked i) = i"
| "printed (Printing i) = i"
| "printed (AtV i) = Suc i"
| "printed Gone = 10"

fun in_range :: "phase \<Rightarrow> bool" where
  "in_range (AtP i) \<longleftrightarrow> i \<le> 10"
| "in_range (Blocked i) \<longleftrightarrow> i < 10"
| "in_range (Printing i) \<longleftrightarrow> i < 10"
| "in_range (AtV i) \<longleftrightarrow> i < 10"
| "in_range _ \<longleftrightarrow> True"

fun nxt :: "role \<Rightarrow> role" where
  "nxt Par = Ch0"
| "nxt Ch0 = Ch1"
| "nxt Ch1 = Par"

definition turn :: "nat \<Rightarrow> role" where
  \<comment> \<open>who prints line \<open>k\<close>\<close>
  "turn k = (if k mod 3 = 0 then Par else if k mod 3 = 1 then Ch0 else Ch1)"

fun quota :: "role \<Rightarrow> nat \<Rightarrow> nat" where
  \<comment> \<open>how many of the first \<open>n\<close> lines are of this process\<close>
  "quota Par n = (n + 2) div 3"
| "quota Ch0 n = (n + 1) div 3"
| "quota Ch1 n = n div 3"

definition printing :: "phase \<Rightarrow> bool" where "printing p \<longleftrightarrow> (\<exists>i. p = Printing i)"
definition at_V :: "phase \<Rightarrow> bool" where "at_V p \<longleftrightarrow> (\<exists>i. p = AtV i)"
definition blocked :: "phase \<Rightarrow> bool" where "blocked p \<longleftrightarrow> (\<exists>i. p = Blocked i)"
definition busy :: "phase \<Rightarrow> bool" where "busy p \<longleftrightarrow> printing p \<or> at_V p"

lemmas phase_defs = printing_def at_V_def blocked_def busy_def

definition holder :: "phases \<Rightarrow> nat \<Rightarrow> role \<Rightarrow> bool" where
  \<comment> \<open>\<open>Z\<close> is between its \<^verbatim>\<open>sem_P\<close> and its \<^verbatim>\<open>sem_V\<close>\<close>
  "holder ph n Z \<longleftrightarrow> (\<forall>Y. busy (ph Y) \<longleftrightarrow> Y = Z) \<and> (if printing (ph Z) then Z = turn n else 0 < n \<and> Z = turn (n - 1))"

definition counts_ok :: "phases \<Rightarrow> nat \<Rightarrow> bool" where
  "counts_ok ph n \<longleftrightarrow> (\<forall>X. printed (ph X) = quota X n \<and> in_range (ph X))"

definition born :: "phase \<Rightarrow> bool" where "born p \<longleftrightarrow> p \<noteq> Unborn \<and> p \<noteq> Forking"

definition family_ok :: "phases \<Rightarrow> bool" where
  "family_ok ph \<longleftrightarrow> born (ph Par) \<and> ph Ch0 \<noteq> Unborn \<and> ph Ch1 \<noteq> Forking \<and> (ph Ch1 = Unborn \<longleftrightarrow> ph Ch0 = Forking)"

definition token_ok :: "phases \<Rightarrow> role option \<Rightarrow> nat \<Rightarrow> bool" where
  "token_ok ph tok n \<longleftrightarrow>
     (case tok of Some X \<Rightarrow> X = turn n \<and> (\<forall>Z. \<not> busy (ph Z)) \<and> \<not> blocked (ph X) | None \<Rightarrow> \<exists>Z. holder ph n Z)"

definition ring_ok :: "phases \<Rightarrow> role option \<Rightarrow> nat \<Rightarrow> bool" where
  "ring_ok ph tok n \<longleftrightarrow> n \<le> 30 \<and> counts_ok ph n \<and> family_ok ph \<and> token_ok ph tok n"

primrec left :: "phase \<Rightarrow> nat" where
  \<comment> \<open>how many calls the process has still to make\<close>
  "left Unborn = 31"
| "left Forking = 32"
| "left (AtP i) = 3 * (10 - i) + 1"
| "left (Blocked i) = 3 * (10 - i)"
| "left (Printing i) = 3 * (10 - i)"
| "left (AtV i) = 3 * (10 - i) - 1"
| "left Gone = 0"

definition work :: "phases \<Rightarrow> nat" where
  "work ph = left (ph Par) + left (ph Ch0) + left (ph Ch1)"

lemma role_all: "(\<forall>X. P X) \<longleftrightarrow> P Par \<and> P Ch0 \<and> P Ch1"
  by (metis role.exhaust)

lemma turn_nxt: "turn (Suc n) = nxt (turn n)"
  by (simp add: turn_def) presburger

lemma nxt_neq [simp]: "nxt X \<noteq> X" "X \<noteq> nxt X"
  by (cases X; simp)+

lemma quota_Suc: "quota X (Suc n) = quota X n + (if X = turn n then 1 else 0)"
  by (cases X) (auto simp: turn_def, presburger+)

lemma quota_turn: "quota (turn n) n = n div 3"
  by (auto simp: turn_def, presburger+)

lemma work_upd: "work (ph(X := p)) + left (ph X) = work ph + left p"
  by (cases X) (simp_all add: work_def)

lemma work_less: "left (ph X) = Suc (left p) \<Longrightarrow> work (ph(X := p)) = work ph - 1"
  using work_upd [of ph X p] by simp

lemma left_runs: "left p = 0 \<longleftrightarrow> p = Gone" if "in_range p"
  using that by (cases p) auto

section \<open>Steps\<close>

lemma counts_upd: "counts_ok ph n \<Longrightarrow> printed p = printed (ph X) \<Longrightarrow> in_range p \<Longrightarrow> counts_ok (ph(X := p)) n"
  by (simp add: counts_ok_def)

lemma family_upd: "family_ok ph \<Longrightarrow> born (ph X) \<Longrightarrow> born p \<Longrightarrow> family_ok (ph(X := p))"
  by (cases X) (auto simp: family_ok_def born_def)

lemma token_upd:
  assumes "token_ok ph tok n" "busy p = busy (ph X)" "printing p = printing (ph X)" "blocked p \<Longrightarrow> tok \<noteq> Some X"
  shows "token_ok (ph(X := p)) tok n"
proof -
  have "busy ((ph(X := p)) Z) = busy (ph Z)" "printing ((ph(X := p)) Z) = printing (ph Z)" for Z using assms by auto
  then show ?thesis using assms by (auto simp: token_ok_def holder_def split: option.splits)
qed

lemma in_rangeD: "ring_ok ph tok n \<Longrightarrow> in_range (ph X)"
  by (simp add: ring_ok_def counts_ok_def)

lemma ring_start: "ring_ok ((\<lambda>_. Unborn)(Par := AtP 0, Ch0 := Forking)) (Some Par) 0"
  by (simp add: ring_ok_def counts_ok_def family_ok_def token_ok_def born_def role_all phase_defs turn_def)

lemma ring_fork: "ring_ok ph tok n \<Longrightarrow> ph Ch0 = Forking \<Longrightarrow> ring_ok (ph(Ch0 := AtP 0, Ch1 := AtP 0)) tok n"
proof -
  assume r: "ring_ok ph tok n" "ph Ch0 = Forking"
  then have u: "ph Ch1 = Unborn" by (simp add: ring_ok_def family_ok_def)
  then have "counts_ok (ph(Ch0 := AtP 0, Ch1 := AtP 0)) n" "family_ok (ph(Ch0 := AtP 0, Ch1 := AtP 0))"
    using r by (simp_all add: ring_ok_def counts_ok_def family_ok_def born_def role_all)
  moreover have "token_ok (ph(Ch0 := AtP 0, Ch1 := AtP 0)) tok n"
    using r u by (intro token_upd) (auto simp: ring_ok_def phase_defs)
  ultimately show ?thesis using r(1) by (simp add: ring_ok_def)
qed

lemma ring_take: "ring_ok ph (Some X) n \<Longrightarrow> ph X = AtP i \<Longrightarrow> i < 10 \<Longrightarrow> ring_ok (ph(X := Printing i)) None n"
  by (auto simp: ring_ok_def born_def token_ok_def holder_def phase_defs intro!: counts_upd family_upd)

lemma ring_block: "ring_ok ph tok n \<Longrightarrow> ph X = AtP i \<Longrightarrow> i < 10 \<Longrightarrow> tok \<noteq> Some X \<Longrightarrow> ring_ok (ph(X := Blocked i)) tok n"
  by (auto simp: ring_ok_def born_def phase_defs intro!: counts_upd family_upd token_upd)

lemma ring_exit: "ring_ok ph tok n \<Longrightarrow> ph X = AtP 10 \<Longrightarrow> ring_ok (ph(X := Gone)) tok n"
  by (auto simp: ring_ok_def born_def phase_defs intro!: counts_upd family_upd token_upd)

lemma ring_busy:
  assumes "ring_ok ph tok n" "busy (ph X)"
  shows "tok = None" "holder ph n X"
proof -
  show t: "tok = None" using assms by (auto simp: ring_ok_def token_ok_def split: option.splits)
  then obtain Z where "holder ph n Z" using assms by (auto simp: ring_ok_def token_ok_def)
  then show "holder ph n X" using assms(2) by (auto simp: holder_def)
qed

lemma ring_print:
  assumes r: "ring_ok ph tok n" and p: "ph X = Printing i"
  shows "X = turn n" "i = n div 3" "n < 30" "tok = None" "ring_ok (ph(X := AtV i)) tok (Suc n)"
proof -
  have b: "busy (ph X)" "printing (ph X)" using p by (simp_all add: phase_defs)
  show t: "tok = None" and X: "X = turn n"
    using ring_busy [OF r b(1)] b(2) by (auto simp: holder_def)
  have "printed (ph X) = quota X n" "in_range (ph X)" using r by (simp_all add: ring_ok_def counts_ok_def)
  then show i: "i = n div 3" and "n < 30"
    using p r quota_turn [of n] by (auto simp: X ring_ok_def)
  have "counts_ok (ph(X := AtV i)) (Suc n)"
    using r p X by (auto simp: ring_ok_def counts_ok_def quota_Suc) (metis in_range.simps(3) printed.simps(5))+
  moreover have "holder (ph(X := AtV i)) (Suc n) X"
    using ring_busy(2) [OF r b(1)] X by (auto simp: holder_def phase_defs split: if_splits)
  ultimately show "ring_ok (ph(X := AtV i)) tok (Suc n)"
    using r p t \<open>n < 30\<close> family_upd [of ph X "AtV i"] by (auto simp: ring_ok_def token_ok_def born_def)
qed

lemma ring_at_V:
  assumes r: "ring_ok ph tok n" and p: "ph X = AtV i"
  shows "tok = None" "turn n = nxt X" "\<forall>Y. busy (ph Y) \<longleftrightarrow> Y = X"
proof -
  have "holder ph n X" and "tok = None" using ring_busy [OF r, of X] p by (auto simp: phase_defs)
  then show "tok = None" "\<forall>Y. busy (ph Y) \<longleftrightarrow> Y = X" by (auto simp: holder_def)
  show "turn n = nxt X" using \<open>holder ph n X\<close> p turn_nxt [of "n - 1"] by (simp add: holder_def phase_defs)
qed

lemma ring_pass:
  assumes r: "ring_ok ph tok n" and p: "ph X = AtV i" and "\<not> blocked (ph (nxt X))"
  shows "ring_ok (ph(X := AtP (Suc i))) (Some (nxt X)) n"
proof -
  have "counts_ok (ph(X := AtP (Suc i))) n" "family_ok (ph(X := AtP (Suc i)))"
    using r p in_rangeD [OF r, of X] by (auto simp: ring_ok_def born_def intro!: counts_upd family_upd)
  then show ?thesis
    using r ring_at_V [OF r p] assms(3) by (auto simp: ring_ok_def token_ok_def phase_defs)
qed

lemma ring_wake:
  assumes r: "ring_ok ph tok n" and p: "ph X = AtV i" and q: "ph (nxt X) = Blocked j"
  shows "ring_ok (ph(X := AtP (Suc i), nxt X := Printing j)) None n"
proof -
  have "counts_ok (ph(X := AtP (Suc i), nxt X := Printing j)) n" "family_ok (ph(X := AtP (Suc i), nxt X := Printing j))"
    using r p q in_rangeD [OF r, of X] in_rangeD [OF r, of "nxt X"]
    by (auto simp: ring_ok_def born_def intro!: counts_upd family_upd)
  moreover have "holder (ph(X := AtP (Suc i), nxt X := Printing j)) n (nxt X)"
    using ring_at_V [OF r p] by (auto simp: holder_def phase_defs)
  ultimately show ?thesis using r by (auto simp: ring_ok_def token_ok_def)
qed

definition runnable :: "phase \<Rightarrow> bool" where
  "runnable p \<longleftrightarrow> p \<noteq> Unborn \<and> p \<noteq> Gone \<and> \<not> blocked p"

lemma quota_30: "quota X 30 = 10" by (cases X) auto

lemma quota_turn_less: "n < 30 \<Longrightarrow> quota (turn n) n < 10"
  by (simp add: quota_turn)

lemma ring_next_runs:
  \<comment> \<open>before the last line, the process with the token or the one that passes it on can run\<close>
  assumes r: "ring_ok ph tok n" and n: "n < 30"
  shows "\<exists>Y. runnable (ph Y) \<and> (busy (ph Y) \<or> tok = Some Y)"
proof (cases tok)
  case None
  then obtain Z where "holder ph n Z" using r by (auto simp: ring_ok_def token_ok_def)
  then have "busy (ph Z)" by (simp add: holder_def)
  moreover from this have "runnable (ph Z)" by (auto simp: runnable_def phase_defs)
  ultimately show ?thesis by blast
next
  case (Some X)
  then have X: "X = turn n" "\<not> blocked (ph X)" "printed (ph X) < 10"
    using r quota_turn_less [OF n] by (auto simp: ring_ok_def token_ok_def counts_ok_def)
  have "ph X \<noteq> Unborn"
  proof
    assume u: "ph X = Unborn"
    then have "ph Ch0 = Forking" "X = Ch1" using r by (cases X; auto simp: ring_ok_def family_ok_def born_def)+
    then have "quota Ch0 n = 0" using r unfolding ring_ok_def counts_ok_def by (metis printed.simps(2))
    then have "n < 2" by (simp add: div_eq_0_iff)
    then show False using X(1) \<open>X = Ch1\<close> by (auto simp: turn_def split: if_splits)
  qed
  then show ?thesis using X(2,3) Some by (auto simp: runnable_def)
qed

lemma ring_end: "ring_ok ph tok 30 \<Longrightarrow> \<not> blocked (ph X)"
  using quota_30 [of X] by (auto simp: ring_ok_def counts_ok_def blocked_def) (metis in_range.simps(2) less_irrefl printed.simps(4))

end
