(* ===== verification/AppSem.thy ===== *)
theory AppSem
  imports SemRing
begin

text \<open>
  \<^verbatim>\<open>app_semaphore_challengex.c\<close> on the kernel, from its first fork on: the invariant that links the queues, semaphores
  and programs of its three processes to the token protocol (\<open>SemRing\<close>), and that every call keeps it.
\<close>

section \<open>Programs and lines\<close>

definition say :: "role \<Rightarrow> nat \<Rightarrow> prog \<Rightarrow> prog" where
  "say X i p = (case X of
     Par \<Rightarrow> says ''Parent print %d'' [int_arg (int i)] p
   | Ch0 \<Rightarrow> says ''Child%d print %d'' [int_arg 0, int_arg (int i)] p
   | Ch1 \<Rightarrow> says ''Child%d print %d'' [int_arg 1, int_arg (int i)] p)"

definition line :: "nat \<Rightarrow> cstring" where
  \<comment> \<open>line \<open>k\<close> of the output\<close>
  "line k = (case turn k of Par \<Rightarrow> map of_char ''Parent print '' | Ch0 \<Rightarrow> map of_char ''Child0 print ''
     | Ch1 \<Rightarrow> map of_char ''Child1 print '') @ int_text (int (k div 3)) @ [10]"

definition loop_of :: "(role \<Rightarrow> int) \<Rightarrow> role \<Rightarrow> nat \<Rightarrow> prog" where
  "loop_of sm X n = (case X of
     Par \<Rightarrow> sem_parent n (sm Par) (sm Ch0)
   | Ch0 \<Rightarrow> sem_child n 1 (sm Par) (sm Ch0) (sm Ch1)
   | Ch1 \<Rightarrow> sem_child n 0 (sm Par) (sm Ch0) (sm Ch1))"

definition pass :: "(role \<Rightarrow> int) \<Rightarrow> role \<Rightarrow> nat \<Rightarrow> prog" where
  "pass sm X i = does (U_sem_V (sm (nxt X))) (loop_of sm X (9 - i))"

fun prog_of :: "(role \<Rightarrow> int) \<Rightarrow> role \<Rightarrow> phase \<Rightarrow> prog" where
  \<comment> \<open>what is left of the program in each phase\<close>
  "prog_of sm X Forking = Call U_fork (\<lambda>r _. sem_child 10 r (sm Par) (sm Ch0) (sm Ch1))"
| "prog_of sm X (AtP i) = loop_of sm X (10 - i)"
| "prog_of sm X (Blocked i) = say X i (pass sm X i)"
| "prog_of sm X (Printing i) = say X i (pass sm X i)"
| "prog_of sm X (AtV i) = pass sm X i"
| "prog_of sm X _ = Stop"

lemma sem_child_pid: "r \<noteq> 0 \<Longrightarrow> sem_child n r m c0 c1 = sem_child n 1 m c0 c1"
  by (induction n) simp_all

lemma loop_of_0: "loop_of sm X 0 = exits 0"
  by (cases X) (simp_all add: loop_of_def)

lemma loop_of_Suc: "i < 10 \<Longrightarrow> loop_of sm X (10 - i) = does (U_sem_P (sm X)) (say X i (pass sm X i))"
proof -
  assume i: "i < 10"
  then obtain n where n: "10 - i = Suc n" by (cases "10 - i") auto
  moreover from n have "9 - i = n" "9 - int n = int i" by linarith+
  ultimately show ?thesis by (cases X) (simp_all add: loop_of_def say_def pass_def)
qed

lemma fork_child: "loop_of sm Ch1 10 = sem_child 10 0 (sm Par) (sm Ch0) (sm Ch1)"
  "r \<noteq> 0 \<Longrightarrow> sem_child 10 r (sm Par) (sm Ch0) (sm Ch1) = loop_of sm Ch0 10"
  using sem_child_pid [of r 10] by (simp_all add: loop_of_def)

lemma small_arg: "k < 10 \<Longrightarrow> sint (scast (ucast (word_of_nat k :: u64) :: u32) :: u64) = int k"
proof -
  assume "k < 10"
  then have "k \<in> {0, 1, 2, 3, 4, 5, 6, 7, 8, 9}" by auto
  then show ?thesis by auto
qed

lemma fmt_line:
  assumes "n < 30"
  shows "\<exists>f vl. say (turn n) (n div 3) p = Call (U_printu f vl) (\<lambda>_ _. p) \<and> fmt_text False False f vl = Inr (line n)"
  using small_arg [of "n div 3"] assms
  by (cases "turn n") (simp_all add: say_def says_def does_def line_def int_arg_def va_num_def int_text_def dec_text.simps [of 0] dec_text.simps [of "Suc 0"])

section \<open>The protocol and the kernel\<close>

definition cnt_of :: "role option \<Rightarrow> role \<Rightarrow> phase \<Rightarrow> int" where
  "cnt_of tok X p = (if blocked p then - 1 else if tok = Some X then 1 else 0)"

definition procs_ok :: "asched \<Rightarrow> (role \<Rightarrow> pref) \<Rightarrow> phases \<Rightarrow> bool" where
  "procs_ok a rf ph \<longleftrightarrow> inj_on rf {X. ph X \<noteq> Unborn} \<and>
     set (a_run a) = rf ` {X. runnable (ph X)} \<and> set (a_wait a) = rf ` {X. blocked (ph X)}"

definition sems_ok :: "asched \<Rightarrow> (role \<Rightarrow> int) \<Rightarrow> (role \<Rightarrow> pref) \<Rightarrow> phases \<Rightarrow> role option \<Rightarrow> bool" where
  "sems_ok a sm rf ph tok \<longleftrightarrow> inj sm \<and> (\<forall>X. 0 \<le> sm X \<and> sm X < 100) \<and>
     (\<forall>X. blocked (ph X) \<longrightarrow> a_sem a (rf X) = sm X) \<and> (\<forall>X. a_cnt a (sm X) = cnt_of tok X (ph X))"

definition progs_ok :: "(pref \<Rightarrow> prog) \<Rightarrow> (role \<Rightarrow> int) \<Rightarrow> (role \<Rightarrow> pref) \<Rightarrow> phases \<Rightarrow> bool" where
  "progs_ok ps sm rf ph \<longleftrightarrow> (\<forall>X. runnable (ph X) \<or> blocked (ph X) \<longrightarrow> ps (rf X) = prog_of sm X (ph X))"

definition kin_ok :: "('h, 'z) kernel_scheme \<Rightarrow> (role \<Rightarrow> pref) \<Rightarrow> phases \<Rightarrow> bool" where
  "kin_ok s rf ph \<longleftrightarrow> rf Par = Proc 0 \<and> parent (pcb s (rf Par)) = Null \<and> parent (pcb s (rf Ch0)) = rf Par \<and>
     (ph Ch1 \<noteq> Unborn \<longrightarrow> parent (pcb s (rf Ch1)) = rf Ch0)"

definition linked :: "'h usys \<Rightarrow> asched \<Rightarrow> (role \<Rightarrow> int) \<Rightarrow> (role \<Rightarrow> pref) \<Rightarrow> phases \<Rightarrow> role option \<Rightarrow> bool" where
  "linked u a sm rf ph tok \<longleftrightarrow> pool_rel (kern u) a \<and> procs_ok a rf ph \<and> sems_ok a sm rf ph tok \<and> progs_ok (progs u) sm rf ph \<and>
     kin_ok (kern u) rf ph"


lemma pool_rel_run:
  assumes "pool_rel s a"
  shows "a_run a = current s 0 # tl (a_run a)" "distinct (a_run a @ a_wait a)"
  using assms by (auto simp: pool_rel_def sched_rel_def run_state_def neq_Nil_conv)

lemma linked_current:
  assumes "linked u a sm rf ph tok"
  obtains X where "runnable (ph X)" "running u = rf X" "progs u (running u) = prog_of sm X (ph X)"
proof -
  have "pool_rel (kern u) a" "procs_ok a rf ph" "progs_ok (progs u) sm rf ph" using assms by (simp_all add: linked_def)
  then have "running u \<in> rf ` {X. runnable (ph X)}"
    using pool_rel_run(1) [of "kern u" a] by (metis list.set_intros(1) procs_ok_def)
  then obtain X where "runnable (ph X)" "running u = rf X" by auto
  then show thesis using that \<open>progs_ok (progs u) sm rf ph\<close> by (auto simp: progs_ok_def)
qed

lemma runnable_cases:
  assumes "runnable p" "in_range p"
  obtains "p = Forking" | i where "p = AtP i" "i < 10" | "p = AtP 10" | i where "p = Printing i" "i < 10" | i where "p = AtV i" "i < 10"
  using assms by (cases p) (auto simp: runnable_def phase_defs order_le_less)

lemma procs_upd:
  assumes "procs_ok a rf ph" "runnable p = runnable (ph X)" "blocked p = blocked (ph X)" "p = Unborn \<longleftrightarrow> ph X = Unborn"
    "set (a_run a') = set (a_run a)" "set (a_wait a') = set (a_wait a)"
  shows "procs_ok a' rf (ph(X := p))"
proof -
  have "runnable ((ph(X := p)) Y) = runnable (ph Y)" "blocked ((ph(X := p)) Y) = blocked (ph Y)" "((ph(X := p)) Y = Unborn) = (ph Y = Unborn)" for Y
    using assms(2-4) by auto
  then show ?thesis using assms(1,5,6) unfolding procs_ok_def by simp
qed

lemma procs_moves:
  \<comment> \<open>the process of \<open>X\<close> goes to the wait queue, or comes out of it\<close>
  assumes p: "procs_ok a rf ph" and d: "ph X \<noteq> Unborn"
  shows "runnable (ph X) \<Longrightarrow> blocked q \<Longrightarrow> set (a_run b) = set (a_run a) - {rf X} \<Longrightarrow> set (a_wait b) = insert (rf X) (set (a_wait a)) \<Longrightarrow>
      procs_ok b rf (ph(X := q))"
    and "blocked (ph X) \<Longrightarrow> runnable q \<Longrightarrow> set (a_run b) = insert (rf X) (set (a_run a)) \<Longrightarrow> set (a_wait b) = set (a_wait a) - {rf X} \<Longrightarrow>
      procs_ok b rf (ph(X := q))"
    and "runnable (ph X) \<Longrightarrow> q = Gone \<Longrightarrow> set (a_run b) = set (a_run a) - {rf X} \<Longrightarrow> set (a_wait b) = set (a_wait a) \<Longrightarrow>
      procs_ok b rf (ph(X := q))"
proof -
  have inj: "inj_on rf {Y. ph Y \<noteq> Unborn}" using p by (simp add: procs_ok_def)
  have rm: "rf ` {Y. P (ph Y)} - {rf X} = rf ` {Y. P (ph Y) \<and> Y \<noteq> X}" if "\<And>p. P p \<Longrightarrow> p \<noteq> Unborn" for P
    using inj d that by (auto simp: inj_on_def)
  have u: "inj_on rf {Y. (ph(X := q)) Y \<noteq> Unborn}" if "q \<noteq> Unborn"
    using inj that d by (auto simp: inj_on_def)
  have r: "runnable p \<Longrightarrow> p \<noteq> Unborn" "blocked p \<Longrightarrow> p \<noteq> Unborn" "blocked p \<Longrightarrow> \<not> runnable p" "\<not> runnable Gone" "\<not> blocked Gone" for p
    by (auto simp: runnable_def phase_defs)
  note s = rm [of runnable, OF r(1)] rm [of blocked, OF r(2)]
  show "runnable (ph X) \<Longrightarrow> blocked q \<Longrightarrow> set (a_run b) = set (a_run a) - {rf X} \<Longrightarrow> set (a_wait b) = insert (rf X) (set (a_wait a)) \<Longrightarrow>
      procs_ok b rf (ph(X := q))"
    using p u r s by (auto simp: procs_ok_def)
  show "blocked (ph X) \<Longrightarrow> runnable q \<Longrightarrow> set (a_run b) = insert (rf X) (set (a_run a)) \<Longrightarrow> set (a_wait b) = set (a_wait a) - {rf X} \<Longrightarrow>
      procs_ok b rf (ph(X := q))"
    using p u r s by (auto simp: procs_ok_def)
  show "runnable (ph X) \<Longrightarrow> q = Gone \<Longrightarrow> set (a_run b) = set (a_run a) - {rf X} \<Longrightarrow> set (a_wait b) = set (a_wait a) \<Longrightarrow>
      procs_ok b rf (ph(X := q))"
    using p u r s by (auto simp: procs_ok_def)
qed

section \<open>Calls of the three processes\<close>

lemma progs_upd:
  assumes "progs_ok ps sm rf ph" "procs_ok a rf ph" "ph X \<noteq> Unborn"
  shows "progs_ok (ps(rf X := prog_of sm X p)) sm rf (ph(X := p))"
  using assms by (auto simp: progs_ok_def procs_ok_def inj_on_def runnable_def phase_defs)

lemma progs_woken:
  assumes "progs_ok ps sm rf ph" "ph Y = Blocked j"
  shows "progs_ok ps sm rf (ph(Y := Printing j))"
  unfolding progs_ok_def
proof (intro allI impI)
  fix Z assume "runnable ((ph(Y := Printing j)) Z) \<or> blocked ((ph(Y := Printing j)) Z)"
  then show "ps (rf Z) = prog_of sm Z ((ph(Y := Printing j)) Z)"
    using assms by (cases "Z = Y") (auto simp: progs_ok_def phase_defs)
qed

lemma kin_upd: "kin_ok s rf ph \<Longrightarrow> \<forall>p. parent (pcb s' p) = parent (pcb s p) \<Longrightarrow> (p = Unborn \<longleftrightarrow> ph X = Unborn) \<Longrightarrow> kin_ok s' rf (ph(X := p))"
  by (auto simp: kin_ok_def)

lemma kstep_back:
  assumes "pool_rel s a" "kstep fe junk stk b0 x s = Inr s'"
  obtains a' where "astep x a = Some a'" "pool_rel s' a'" "\<forall>p. parent (pcb s' p) = parent (pcb s p)"
proof (cases "astep x a")
  case None
  then show thesis using ks.step_stops [of s a x fe junk stk b0] assms by (auto simp: pool_rel_def)
next
  case (Some a')
  then show thesis using kstep_pool [OF assms(1) Some, of fe junk stk b0] assms(2) that by auto
qed

lemma linked_tick:
  assumes l: "linked u a sm rf ph tok" and a': "astep Tick a = Some a'" "pool_rel s a'" "\<forall>p. parent (pcb s p) = parent (pcb (kern u) p)"
  shows "linked (u\<lparr>kern := s\<rparr>) a' sm rf ph tok"
proof -
  have "set (a_run a') = set (a_run a)" "a_wait a' = a_wait a" "a_sem a' = a_sem a" "a_cnt a' = a_cnt a"
    using a'(1) by (auto simp: Let_def rotates_def split: if_splits)
  then show ?thesis using l a'(2,3) by (auto simp: linked_def procs_ok_def sems_ok_def kin_ok_def)
qed

lemma linked_print:
  assumes l: "linked u a sm rf ph tok" and X: "running u = rf X" "ph X = Printing i" and s: "pool_rel s a" "pcb s = pcb (kern u)"
  shows "linked (goes_on u s (prog_of sm X (AtV i))) a sm rf (ph(X := AtV i)) tok"
proof -
  have "procs_ok a rf (ph(X := AtV i))"
    using l X by (intro procs_upd) (auto simp: linked_def runnable_def phase_defs)
  moreover have "progs_ok ((progs u)(rf X := prog_of sm X (AtV i))) sm rf (ph(X := AtV i))"
    using l X by (intro progs_upd) (auto simp: linked_def)
  moreover have "sems_ok a sm rf (ph(X := AtV i)) tok"
    using l X by (auto simp: linked_def sems_ok_def cnt_of_def phase_defs)
  moreover have "kin_ok s rf (ph(X := AtV i))" using l X s(2) by (intro kin_upd) (auto simp: linked_def)
  ultimately show ?thesis using s(1) X by (simp add: linked_def)
qed

lemma linked_take:
  assumes l: "linked u a sm rf ph tok" and True: "tok = Some X" and X: "running u = rf X" "ph X = AtP i" "i < 10"
    and a': "astep (Sem_P (sm X)) a = Some a'" "pool_rel s a'" "\<forall>p. parent (pcb s p) = parent (pcb (kern u) p)"
  shows "linked (goes_on u s (prog_of sm X (Printing i))) a' sm rf (ph(X := Printing i)) None"
proof -
  have c: "a_cnt a (sm X) = 1" "inj sm" using l X True by (auto simp: linked_def sems_ok_def cnt_of_def phase_defs)
  have e: "a' = a\<lparr>a_cnt := (a_cnt a)(sm X := 0)\<rparr>" using a'(1) c by (auto simp: Let_def split: if_splits)
  have "procs_ok a' rf (ph(X := Printing i))"
    using l X by (intro procs_upd) (auto simp: linked_def runnable_def phase_defs e)
  moreover have "progs_ok ((progs u)(rf X := prog_of sm X (Printing i))) sm rf (ph(X := Printing i))"
    using l X by (intro progs_upd) (auto simp: linked_def)
  moreover have "sems_ok a' sm rf (ph(X := Printing i)) None"
    using l X c(2) True by (auto simp: linked_def sems_ok_def cnt_of_def phase_defs e inj_eq)
  moreover have "kin_ok s rf (ph(X := Printing i))" using l X a'(3) by (intro kin_upd) (auto simp: linked_def)
  ultimately show ?thesis using a'(2) X by (simp add: linked_def)
qed

lemma linked_block:
  assumes l: "linked u a sm rf ph tok" and False: "tok \<noteq> Some X" and X: "running u = rf X" "ph X = AtP i" "i < 10"
    and a': "astep (Sem_P (sm X)) a = Some a'" "pool_rel s a'" "\<forall>p. parent (pcb s p) = parent (pcb (kern u) p)"
  shows "linked (goes_on u s (prog_of sm X (Printing i))) a' sm rf (ph(X := Blocked i)) tok"
proof -
  have c: "a_cnt a (sm X) = 0" "inj sm" "0 \<le> sm X" "sm X < 100" using l X False by (auto simp: linked_def sems_ok_def cnt_of_def phase_defs)
  have run: "a_run a = rf X # tl (a_run a)" "distinct (a_run a @ a_wait a)"
    using pool_rel_run [of "kern u" a] l X(1) by (auto simp: linked_def)
  have e: "a' = a\<lparr>a_cnt := (a_cnt a)(sm X := - 1), a_sem := (a_sem a)(rf X := sm X), a_run := tl (a_run a), a_wait := a_wait a @ [rf X]\<rparr>"
    using a'(1) c run by (auto simp: Let_def split: if_splits) (metis list.sel(1))+
  have "set (tl (a_run a)) = set (a_run a) - {rf X}" using run by (metis Diff_insert_absorb distinct.simps(2) distinct_append list.simps(15))
  then have "procs_ok a' rf (ph(X := Blocked i))"
    using l X by (intro procs_moves(1)) (auto simp: linked_def runnable_def phase_defs e)
  moreover have "progs_ok ((progs u)(rf X := prog_of sm X (Blocked i))) sm rf (ph(X := Blocked i))"
    using l X by (intro progs_upd) (auto simp: linked_def)
  moreover have "sems_ok a' sm rf (ph(X := Blocked i)) tok"
  proof -
    have "rf Y \<noteq> rf X" if "blocked (ph Y)" "Y \<noteq> X" for Y
      using l X that by (auto simp: linked_def procs_ok_def inj_on_def phase_defs)
    then show ?thesis using l X c False by (auto simp: linked_def sems_ok_def cnt_of_def e inj_eq) (auto simp: phase_defs)
  qed
  moreover have "kin_ok s rf (ph(X := Blocked i))" using l X a'(3) by (intro kin_upd) (auto simp: linked_def)
  ultimately show ?thesis using a'(2) X by (simp add: linked_def)
qed

lemma linked_pass:
  assumes l: "linked u a sm rf ph None" and X: "running u = rf X" "ph X = AtV i" "\<not> blocked (ph (nxt X))"
    and a': "astep (Sem_V (sm (nxt X))) a = Some a'" "pool_rel s a'" "\<forall>p. parent (pcb s p) = parent (pcb (kern u) p)"
  shows "linked (goes_on u s (prog_of sm X (AtP (Suc i)))) a' sm rf (ph(X := AtP (Suc i))) (Some (nxt X))"
proof -
  let ?Y = "nxt X"
  let ?b = "a\<lparr>a_cnt := (a_cnt a)(sm ?Y := 1)\<rparr>"
  have c: "a_cnt a (sm ?Y) = 0" "inj sm" using l X by (auto simp: linked_def sems_ok_def cnt_of_def)
  have "find (\<lambda>p. a_sem a p = sm ?Y) (a_wait a) = None"
    using l X(3) by (auto simp: find_None_iff linked_def procs_ok_def sems_ok_def inj_eq)
  then have e: "a' = ?b" using a'(1) c by (auto simp: Let_def wakes_def split: if_splits)
  have "procs_ok a' rf (ph(X := AtP (Suc i)))"
    using l X by (intro procs_upd) (auto simp: linked_def runnable_def phase_defs e)
  moreover have "progs_ok ((progs u)(rf X := prog_of sm X (AtP (Suc i)))) sm rf (ph(X := AtP (Suc i)))"
    using l X by (intro progs_upd) (auto simp: linked_def)
  moreover have "sems_ok a' sm rf (ph(X := AtP (Suc i))) (Some ?Y)"
    using l X c(2) by (auto simp: linked_def sems_ok_def cnt_of_def e inj_eq) (auto simp: phase_defs)
  moreover have "kin_ok s rf (ph(X := AtP (Suc i)))" using l X a'(3) by (intro kin_upd) (auto simp: linked_def)
  ultimately show ?thesis using a'(2) X by (simp add: linked_def)
qed

lemma find_waiting:
  assumes l: "linked u a sm rf ph tok" and Y: "blocked (ph Y)"
  shows "find (\<lambda>p. a_sem a p = sm Y) (a_wait a) = Some (rf Y)"
proof (cases "find (\<lambda>p. a_sem a p = sm Y) (a_wait a)")
  case None
  then show ?thesis using l Y by (auto simp: find_None_iff linked_def procs_ok_def sems_ok_def)
next
  case (Some w)
  then have "w \<in> set (a_wait a)" "a_sem a w = sm Y" by (auto simp: find_Some_iff)
  then show ?thesis using l Some by (auto simp: linked_def procs_ok_def sems_ok_def inj_eq)
qed

lemma linked_wake:
  assumes l: "linked u a sm rf ph None" and X: "running u = rf X" "ph X = AtV i" "ph (nxt X) = Blocked j"
    and a': "astep (Sem_V (sm (nxt X))) a = Some a'" "pool_rel s a'" "\<forall>p. parent (pcb s p) = parent (pcb (kern u) p)"
  shows "linked (goes_on u s (prog_of sm X (AtP (Suc i)))) a' sm rf (ph(X := AtP (Suc i), nxt X := Printing j)) None"
proof -
  let ?Y = "nxt X"
  let ?ph = "ph(X := AtP (Suc i))"
  have bl: "blocked (ph ?Y)" "ph ?Y \<noteq> Unborn" using X(3) by (simp_all add: phase_defs)
  have c: "a_cnt a (sm ?Y) = - 1" "inj sm" using l bl by (auto simp: linked_def sems_ok_def cnt_of_def)
  have run: "a_run a = rf X # tl (a_run a)" "distinct (a_run a @ a_wait a)"
    using pool_rel_run [of "kern u" a] l X(1) by (auto simp: linked_def)
  have e: "a' = a\<lparr>a_cnt := (a_cnt a)(sm ?Y := 0), a_run := rf X # rf ?Y # tl (a_run a), a_wait := remove1 (rf ?Y) (a_wait a)\<rparr>"
    using a'(1) c find_waiting [OF l bl(1)] run(1) by (auto simp: Let_def wakes_def split: if_splits) (metis list.sel(1))+
  have "procs_ok a rf ?ph"
    using l X by (intro procs_upd) (auto simp: linked_def runnable_def phase_defs)
  moreover have "set (a_run a') = insert (rf ?Y) (set (a_run a))"
    by (simp add: e) (metis insert_commute list.simps(15) run(1))
  moreover have "set (a_wait a') = set (a_wait a) - {rf ?Y}" using run(2) by (simp add: e)
  ultimately have "procs_ok a' rf (?ph(?Y := Printing j))"
    using X(3) by (intro procs_moves(2) [where a = a and ph = ?ph and X = ?Y]) (auto simp: runnable_def phase_defs)
  moreover have "progs_ok ((progs u)(rf X := prog_of sm X (AtP (Suc i)))) sm rf ?ph"
    using l X by (intro progs_upd) (auto simp: linked_def)
  then have "progs_ok ((progs u)(rf X := prog_of sm X (AtP (Suc i)))) sm rf (?ph(?Y := Printing j))"
    by (rule progs_woken) (simp add: X(3))
  moreover have "sems_ok a' sm rf (?ph(?Y := Printing j)) None"
    using l X c(2) by (auto simp: linked_def sems_ok_def cnt_of_def e inj_eq) (auto simp: phase_defs)
  moreover have "kin_ok s rf (?ph(?Y := Printing j))" using l X a'(3) by (intro kin_upd [where s = "kern u"]) (auto simp: linked_def kin_ok_def)
  ultimately show ?thesis using a'(2) X by (simp add: linked_def)
qed

lemma linked_exit:
  assumes l: "linked u a sm rf ph tok" and X: "running u = rf X" "ph X = AtP 10"
    and s: "pool_rel s (aexit a)" "\<forall>p. parent (pcb s p) = parent (pcb (kern u) p)"
  shows "linked (u\<lparr>kern := s\<rparr>) (aexit a) sm rf (ph(X := Gone)) tok"
proof -
  have run: "a_run a = rf X # tl (a_run a)" "distinct (a_run a @ a_wait a)"
    using pool_rel_run [of "kern u" a] l X(1) by (auto simp: linked_def)
  have "set (tl (a_run a)) = set (a_run a) - {rf X}" using run by (metis Diff_insert_absorb distinct.simps(2) distinct_append list.simps(15))
  then have "procs_ok (aexit a) rf (ph(X := Gone))"
    using l X by (intro procs_moves(3) [where a = a]) (auto simp: linked_def runnable_def phase_defs aexit_def)
  moreover have "progs_ok (progs u) sm rf (ph(X := Gone))"
    using l by (auto simp: linked_def progs_ok_def runnable_def phase_defs)
  moreover have "sems_ok (aexit a) sm rf (ph(X := Gone)) tok"
    using l X by (auto simp: linked_def sems_ok_def cnt_of_def aexit_def phase_defs)
  moreover have "kin_ok s rf (ph(X := Gone))" using l X s(2) by (intro kin_upd) (auto simp: linked_def)
  ultimately show ?thesis using s(1) by (simp add: linked_def)
qed

lemma forking_alive:
  assumes "ring_ok ph tok n" "ph Ch0 = Forking" "ph X \<noteq> Unborn"
  shows "runnable (ph X) \<or> blocked (ph X)"
proof -
  have "quota Ch0 n = 0" using assms(1,2) unfolding ring_ok_def counts_ok_def by (metis printed.simps(2))
  then have "n < 2" by (simp add: div_eq_0_iff)
  then have "quota X n < 10" by (cases X) auto
  then have "printed (ph X) < 10" using assms(1) by (simp add: ring_ok_def counts_ok_def)
  then show ?thesis using assms(3) by (auto simp: runnable_def)
qed

lemma linked_fork:
  assumes l: "linked u a sm rf ph tok" and r: "ring_ok ph tok n" and X: "running u = rf Ch0" "ph Ch0 = Forking"
    and c: "Proc c \<notin> set (a_run a @ a_wait a)" "pool_rel s (afork c a)" "parent (pcb s (Proc c)) = rf Ch0"
      "\<forall>p. p \<noteq> Proc c \<longrightarrow> parent (pcb s p) = parent (pcb (kern u) p)"
  shows "linked (u\<lparr>kern := s, progs := (progs u)(rf Ch0 := prog_of sm Ch0 (AtP 0), Proc c := prog_of sm Ch1 (AtP 0))\<rparr>)
    (afork c a) sm (rf(Ch1 := Proc c)) (ph(Ch0 := AtP 0, Ch1 := AtP 0)) tok"
proof -
  have u: "ph Ch1 = Unborn" "ph Par \<noteq> Unborn" using r X(2) by (auto simp: ring_ok_def family_ok_def born_def)
  have live: "rf Y \<in> set (a_run a @ a_wait a)" if "ph Y \<noteq> Unborn" for Y
    using forking_alive [OF r X(2) that] l by (auto simp: linked_def procs_ok_def)
  have "rf Ch0 \<in> set (a_run a @ a_wait a)" by (rule live) (simp add: X(2))
  moreover have "rf Par \<in> set (a_run a @ a_wait a)" by (rule live [OF u(2)])
  ultimately have ne: "rf Ch0 \<noteq> Proc c" "rf Par \<noteq> Proc c" using c(1) by metis+
  have ne': "rf Par \<noteq> rf Ch0"
    using l X(2) u(2) by (auto simp: linked_def procs_ok_def dest: inj_onD [of rf _ Par Ch0])
  have sets: "{Y. runnable ((ph(Ch0 := AtP 0, Ch1 := AtP 0)) Y)} = insert Ch1 {Y. runnable (ph Y)}"
      "{Y. blocked ((ph(Ch0 := AtP 0, Ch1 := AtP 0)) Y)} = {Y. blocked (ph Y)}" "Ch1 \<notin> {Y. runnable (ph Y)}" "Ch1 \<notin> {Y. blocked (ph Y)}"
    using u X(2) by (auto simp: runnable_def phase_defs)
  have im: "(rf(Ch1 := Proc c)) ` {Y. blocked (ph Y)} = rf ` {Y. blocked (ph Y)}"
      "(rf(Ch1 := Proc c)) ` insert Ch1 {Y. runnable (ph Y)} = insert (Proc c) (rf ` {Y. runnable (ph Y)})"
    using sets(3,4) by (auto simp: image_iff)
  have "inj (rf(Ch1 := Proc c))" using ne ne' by (simp add: inj_def role_all)
  then have "procs_ok (afork c a) (rf(Ch1 := Proc c)) (ph(Ch0 := AtP 0, Ch1 := AtP 0))"
    using l unfolding procs_ok_def sets(1,2) im by (simp add: procs_ok_def linked_def afork_def inj_on_subset [OF _ subset_UNIV])
  moreover have "progs_ok ((progs u)(rf Ch0 := prog_of sm Ch0 (AtP 0), Proc c := prog_of sm Ch1 (AtP 0))) sm (rf(Ch1 := Proc c))
      (ph(Ch0 := AtP 0, Ch1 := AtP 0))"
    using l ne ne' by (simp add: linked_def progs_ok_def role_all)
  moreover have "sems_ok (afork c a) sm (rf(Ch1 := Proc c)) (ph(Ch0 := AtP 0, Ch1 := AtP 0)) tok"
    using l u X(2) by (auto simp: linked_def sems_ok_def afork_def cnt_of_def phase_defs)
  moreover have "kin_ok s (rf(Ch1 := Proc c)) (ph(Ch0 := AtP 0, Ch1 := AtP 0))"
    using l ne c(3,4) by (auto simp: linked_def kin_ok_def)
  ultimately show ?thesis using c(2) by (simp add: linked_def)
qed

section \<open>Steps of the system\<close>

lemma call_kstep:
  assumes "0 \<le> n" "n < 100"
  shows "sem_P (kernel_ecall fe 0 junk stk) (word_of_int n) s = Inr (r, s') \<Longrightarrow> kstep fe junk stk b0 (Sem_P n) s = Inr s'"
    and "sem_V (kernel_ecall fe 0 junk stk) (word_of_int n) s = Inr (q, s') \<Longrightarrow> kstep fe junk stk b0 (Sem_V n) s = Inr s'"
    and "sem_new (kernel_ecall fe 0 junk stk) (word_of_int n) s = Inr (q, s') \<Longrightarrow>
      kstep fe junk stk b0 (Sem_new n) s = Inr s' \<and> q = Some (as_int (sem_len s + 1))"
proof -
  have n: "sint (word_of_int n :: u32) = n" using assms by (intro sint_small) auto
  show "sem_P (kernel_ecall fe 0 junk stk) (word_of_int n) s = Inr (r, s') \<Longrightarrow> kstep fe junk stk b0 (Sem_P n) s = Inr s'"
    by (auto simp: ecall_calls n seen_eq_Inr)
  show "sem_V (kernel_ecall fe 0 junk stk) (word_of_int n) s = Inr (q, s') \<Longrightarrow> kstep fe junk stk b0 (Sem_V n) s = Inr s'"
    by (auto simp: ecall_calls n seen_eq_Inr returns_eq_Inr)
  show "sem_new (kernel_ecall fe 0 junk stk) (word_of_int n) s = Inr (q, s') \<Longrightarrow>
      kstep fe junk stk b0 (Sem_new n) s = Inr s' \<and> q = Some (as_int (sem_len s + 1))"
    by (auto simp: ecall_calls n seen_eq_Inr returns_eq_Inr sys_user_sem_new_def kbind_eq_Inr Let_def)
qed

lemma call_fork:
  assumes "fork (kernel_ecall fe 0 junk stk) s = Inr (Some v, s')" "pool_rel s a"
    and "find (\<lambda>i. status (pcb s (Proc i)) = FREE) [0..<NPROC] = Some c" "ram_page (trapframe (pcb s' (Proc c)))"
  shows "v = int c" "Proc c \<notin> set (a_run a @ a_wait a)" "pool_rel s' (afork c a)" "parent (pcb s' (Proc c)) = hd (a_run a)"
    "\<forall>p. p \<noteq> Proc c \<longrightarrow> parent (pcb s' p) = parent (pcb s p)"
proof -
  obtain r where r: "sys_user_fork 0 junk s = Inr (r, s')" "v = as_int r"
    using assms(1) by (auto simp: ecall_calls seen_eq_Inr returns_eq_Inr)
  from fork_rel [OF assms(2) r(1)] assms(3,4) show "v = int c" "Proc c \<notin> set (a_run a @ a_wait a)" "pool_rel s' (afork c a)"
    "parent (pcb s' (Proc c)) = hd (a_run a)" "\<forall>p. p \<noteq> Proc c \<longrightarrow> parent (pcb s' p) = parent (pcb s p)"
    using r(2) by (auto simp: NPROC_def)
qed

lemma prog_of_calls:
  assumes "prog_of sm X p = Call r k" "runnable p" "in_range p"
  shows "(p = Forking \<and> r = U_fork \<and> k = (\<lambda>v _. sem_child 10 v (sm Par) (sm Ch0) (sm Ch1))) \<or>
    (\<exists>i < 10. p = AtP i \<and> r = U_sem_P (sm X) \<and> k = (\<lambda>_ _. prog_of sm X (Printing i))) \<or>
    (p = AtP 10 \<and> r = U_exit 0) \<or>
    (\<exists>i < 10. p = Printing i \<and> Call r k = say X i (prog_of sm X (AtV i)) \<and> (\<exists>f vl. r = U_printu f vl)) \<or>
    (\<exists>i < 10. p = AtV i \<and> r = U_sem_V (sm (nxt X)) \<and> k = (\<lambda>_ _. prog_of sm X (AtP (Suc i))))"
  using assms(2,3)
proof (cases rule: runnable_cases)
  case (2 i)
  then show ?thesis using assms(1) loop_of_Suc [of i sm X] by (simp add: does_def)
next
  case 3
  then show ?thesis using assms(1) by (simp add: loop_of_0 exits_def does_def)
next
  case (4 i)
  then show ?thesis using assms(1) by (auto simp: say_def says_def does_def split: role.splits)
qed (use assms(1) in \<open>auto simp: pass_def does_def\<close>)

definition ring_at :: "'h usys \<Rightarrow> asched \<Rightarrow> (role \<Rightarrow> int) \<Rightarrow> (role \<Rightarrow> pref) \<Rightarrow> phases \<Rightarrow> role option \<Rightarrow> nat \<Rightarrow> bool" where
  "ring_at u a sm rf ph tok n \<longleftrightarrow> linked u a sm rf ph tok \<and> ring_ok ph tok n \<and> out u = map line [0..<n]"

definition ring_inv :: "nat \<Rightarrow> 'h usys \<Rightarrow> bool" where
  \<comment> \<open>with \<open>w\<close> calls to go\<close>
  "ring_inv w u \<longleftrightarrow> (\<exists>a sm rf ph tok n. ring_at u a sm rf ph tok n \<and> work ph = w)"

lemma ring_invI: "ring_at u a sm rf ph tok n \<Longrightarrow> work ph = w \<Longrightarrow> ring_inv w u"
  unfolding ring_inv_def by blast

lemma ring_at_pool: "ring_at u a sm rf ph tok n \<Longrightarrow> pool_rel (kern u) a \<and> 0 \<le> sm X \<and> sm X < 100"
  by (auto simp: ring_at_def linked_def sems_ok_def)

lemma ring_print_step:
  assumes r: "ring_at u a sm rf ph tok n" and X: "running u = rf X" "ph X = Printing i"
    and c: "Call (U_printu f vl) k = say X i (prog_of sm X (AtV i))"
      "printu (kernel_ecall fe 0 junk stk) 0 ob f vl (kern u) = Inr (Some v, s)" "fmt_text False False f vl = Inr t"
  shows "ring_at ((goes_on u s (k v []))\<lparr>out := out u @ [t]\<rparr>) a sm rf (ph(X := AtV i)) tok (Suc n)"
proof -
  have ok: "ring_ok ph tok n" "linked u a sm rf ph tok" using r by (simp_all add: ring_at_def)
  note p = ring_print [OF ok(1) X(2)]
  obtain f' vl' where "say X i (prog_of sm X (AtV i)) = Call (U_printu f' vl') (\<lambda>_ _. prog_of sm X (AtV i))"
    "fmt_text False False f' vl' = Inr (line n)" using fmt_line [OF p(3)] p(1,2) by metis
  then have "k v [] = prog_of sm X (AtV i)" "t = line n" using c(1,3) by auto
  moreover have "linked (goes_on u s (prog_of sm X (AtV i))) a sm rf (ph(X := AtV i)) tok"
    using linked_print [OF ok(2) X] printu_rel [OF c(2)] ring_at_pool [OF r] by blast
  ultimately show ?thesis using p(5) r by (simp add: ring_at_def linked_def)
qed

lemma ring_P_step:
  assumes r: "ring_at u a sm rf ph tok n" and X: "running u = rf X" "ph X = AtP i" "i < 10"
    and c: "sem_P (kernel_ecall fe 0 junk stk) (word_of_int (sm X)) (kern u) = Inr (q, s)"
  shows "ring_inv (work ph - 1) (goes_on u s (prog_of sm X (Printing i)))"
proof -
  have ok: "ring_ok ph tok n" "linked u a sm rf ph tok" and pool: "pool_rel (kern u) a" "0 \<le> sm X" "sm X < 100"
    using r ring_at_pool [OF r] by (simp_all add: ring_at_def)
  obtain a' where a': "astep (Sem_P (sm X)) a = Some a'" "pool_rel s a'" "\<forall>p. parent (pcb s p) = parent (pcb (kern u) p)"
    using kstep_back [OF pool(1) call_kstep(1) [OF pool(2,3) c]] by blast
  show ?thesis
  proof (cases "tok = Some X")
    case True
    then have "ring_at (goes_on u s (prog_of sm X (Printing i))) a' sm rf (ph(X := Printing i)) None n"
      using linked_take [OF ok(2) True X a'] ring_take [of ph X n i] ok(1) X r by (simp add: ring_at_def)
    then show ?thesis by (rule ring_invI) (use work_less [of ph X "Printing i"] X(2) in simp)
  next
    case False
    then have "ring_at (goes_on u s (prog_of sm X (Printing i))) a' sm rf (ph(X := Blocked i)) tok n"
      using linked_block [OF ok(2) False X a'] ring_block [OF ok(1) X(2,3) False] r by (simp add: ring_at_def)
    then show ?thesis by (rule ring_invI) (use work_less [of ph X "Blocked i"] X(2) in simp)
  qed
qed

lemma ring_V_step:
  assumes r: "ring_at u a sm rf ph tok n" and X: "running u = rf X" "ph X = AtV i"
    and c: "sem_V (kernel_ecall fe 0 junk stk) (word_of_int (sm (nxt X))) (kern u) = Inr (q, s)"
  shows "ring_inv (work ph - 1) (goes_on u s (prog_of sm X (AtP (Suc i))))"
proof -
  have ok: "ring_ok ph tok n" "linked u a sm rf ph tok" and pool: "pool_rel (kern u) a" "0 \<le> sm (nxt X)" "sm (nxt X) < 100"
    using r ring_at_pool [OF r] by (simp_all add: ring_at_def)
  obtain a' where a': "astep (Sem_V (sm (nxt X))) a = Some a'" "pool_rel s a'" "\<forall>p. parent (pcb s p) = parent (pcb (kern u) p)"
    using kstep_back [OF pool(1) call_kstep(2) [OF pool(2,3) c]] by blast
  have i: "left (ph X) = Suc (left (AtP (Suc i)))" using in_rangeD [OF ok(1), of X] X(2) by simp
  have t: "tok = None" using ring_at_V [OF ok(1) X(2)] by blast
  show ?thesis
  proof (cases "blocked (ph (nxt X))")
    case True
    then obtain j where j: "ph (nxt X) = Blocked j" by (auto simp: blocked_def)
    have "ring_at (goes_on u s (prog_of sm X (AtP (Suc i)))) a' sm rf (ph(X := AtP (Suc i), nxt X := Printing j)) None n"
      using linked_wake [OF ok(2) [unfolded t] X j a'] ring_wake [OF ok(1) X(2) j] r by (simp add: ring_at_def)
    moreover have "work (ph(X := AtP (Suc i), nxt X := Printing j)) = work ph - 1"
      using work_upd [of "ph(X := AtP (Suc i))" "nxt X" "Printing j"] work_less [of ph X "AtP (Suc i)", OF i] j by simp
    ultimately show ?thesis by (rule ring_invI)
  next
    case False
    have "ring_at (goes_on u s (prog_of sm X (AtP (Suc i)))) a' sm rf (ph(X := AtP (Suc i))) (Some (nxt X)) n"
      using linked_pass [OF ok(2) [unfolded t] X False a'] ring_pass [OF ok(1) X(2) False] r by (simp add: ring_at_def)
    then show ?thesis using work_less [of ph X "AtP (Suc i)", OF i] by (rule ring_invI)
  qed
qed

lemma ring_fork_step:
  assumes r: "ring_at u a sm rf ph tok n" and X: "running u = rf Ch0" "ph Ch0 = Forking"
    and c: "fork (kernel_ecall fe 0 junk stk) (kern u) = Inr (Some v, s)"
      "find (\<lambda>i. status (pcb (kern u) (Proc i)) = FREE) [0..<NPROC] = Some c" "ram_page (trapframe (pcb s (Proc c)))"
    and k: "k = (\<lambda>v _. sem_child 10 v (sm Par) (sm Ch0) (sm Ch1))"
  shows "ring_inv (work ph - 1) ((goes_on u s (k v []))\<lparr>progs := (progs u)(running u := k v [], Proc c := k 0 [])\<rparr>)"
proof -
  have ok: "ring_ok ph tok n" "linked u a sm rf ph tok" and pool: "pool_rel (kern u) a"
    using r ring_at_pool [OF r] by (simp_all add: ring_at_def)
  note f = call_fork [OF c(1) pool c(2,3)]
  have par: "hd (a_run a) = rf Ch0" using pool_rel_run(1) [OF pool] X(1) by (metis list.sel(1))
  have "ph Par \<noteq> Unborn" using ok(1) by (simp add: ring_ok_def family_ok_def born_def)
  then have "Proc 0 \<in> set (a_run a @ a_wait a)"
    using forking_alive [OF ok(1) X(2)] ok(2) by (auto simp: linked_def procs_ok_def kin_ok_def image_iff) metis+
  then have "v \<noteq> 0" using f(1,2) by (cases "c = 0") auto
  then have "k v [] = prog_of sm Ch0 (AtP 0)" "k 0 [] = prog_of sm Ch1 (AtP 0)" using fork_child by (simp_all add: k)
  then have "ring_at ((goes_on u s (k v []))\<lparr>progs := (progs u)(running u := k v [], Proc c := k 0 [])\<rparr>)
      (afork c a) sm (rf(Ch1 := Proc c)) (ph(Ch0 := AtP 0, Ch1 := AtP 0)) tok n"
    using linked_fork [OF ok(2,1) X f(2,3) _ f(5)] f(4) par ring_fork [OF ok(1) X(2)] r X(1) by (simp add: ring_at_def)
  moreover have "work (ph(Ch0 := AtP 0, Ch1 := AtP 0)) = work ph - 1"
    using X(2) ok(1) by (simp add: work_def ring_ok_def family_ok_def)
  ultimately show ?thesis by (rule ring_invI)
qed

lemma quota_done:
  assumes "quota X n = 10" "n \<le> 30"
  shows "X = Ch0 \<Longrightarrow> quota Par n = 10" "X = Ch1 \<Longrightarrow> n = 30"
  using assms by auto

lemma pid_eq:
  assumes "pool_rel s a" "p \<in> set (a_run a @ a_wait a)" "pid (pcb s p) = pid (pcb s (Proc 0))"
  shows "p = Proc 0"
proof -
  obtain i where i: "p = Proc i" "i < NPROC" using assms(1,2) by (auto simp: pool_rel_def)
  moreover have "pid (pcb s (Proc i)) = of_nat i" "pid (pcb s (Proc 0)) = of_nat 0" using assms(1) i(2) by (auto simp: pool_rel_def NPROC_def)
  ultimately have "(of_nat i :: u64) = of_nat 0" using assms(3) by simp
  then have "i = 0" using i(2) unfolding word_of_nat_eq_iff by (simp add: take_bit_nat_eq_self NPROC_def)
  then show ?thesis using i(1) by simp
qed

lemma ring_others_run:
  assumes r: "ring_at u a sm rf ph tok n" and n: "n < 30" and X: "running u = rf X" "ph X = AtP i" "tok \<noteq> Some X"
  shows "tl (a_run a) \<noteq> []"
proof -
  have ok: "ring_ok ph tok n" "procs_ok a rf ph" and pool: "pool_rel (kern u) a"
    using r ring_at_pool [OF r] by (simp_all add: ring_at_def linked_def)
  obtain Y where Y: "runnable (ph Y)" "busy (ph Y) \<or> tok = Some Y" using ring_next_runs [OF ok(1) n] by blast
  have "Y \<noteq> X" using Y(2) X(2,3) by (auto simp: phase_defs)
  moreover have "ph Y \<noteq> Unborn" "ph X \<noteq> Unborn" using Y(1) X(2) by (auto simp: runnable_def)
  ultimately have "rf Y \<noteq> rf X" using ok(2) by (auto simp: procs_ok_def inj_on_def)
  moreover have "rf Y \<in> set (rf X # tl (a_run a))"
    using pool_rel_run(1) [OF pool] Y(1) ok(2) X(1) by (metis (mono_tags) imageI mem_Collect_eq procs_ok_def)
  ultimately show ?thesis by auto
qed

lemma ring_exit_ready:
  assumes r: "ring_at u a sm rf ph tok n" and X: "running u = rf X" "ph X = AtP 10"
  shows "n = 30 \<Longrightarrow> a_wait a = []" "n < 30 \<Longrightarrow> tl (a_run a) \<noteq> []"
    "parent (pcb (kern u) (rf X)) = Null \<or> (\<forall>w \<in> set (a_wait a). pid (pcb (kern u) w) \<noteq> pid (pcb (kern u) (parent (pcb (kern u) (rf X)))))"
proof -
  have ok: "ring_ok ph tok n" "linked u a sm rf ph tok" and pool: "pool_rel (kern u) a"
    using r ring_at_pool [OF r] by (simp_all add: ring_at_def)
  have p: "procs_ok a rf ph" "kin_ok (kern u) rf ph" using ok(2) by (simp_all add: linked_def)
  have w: "set (a_wait a) = rf ` {Y. blocked (ph Y)}" using p(1) by (simp add: procs_ok_def)
  have q: "quota X n = 10" "n \<le> 30" using ok(1) X(2) by (auto simp: ring_ok_def counts_ok_def) (metis printed.simps(3))
  show end_wait: "a_wait a = []" if "n = 30" using w ring_end [of ph tok] ok(1) that by auto
  have "tok \<noteq> Some X" if "n < 30" using ok(1) quota_turn_less [OF that] q(1) by (auto simp: ring_ok_def token_ok_def)
  then show "tl (a_run a) \<noteq> []" if "n < 30" using ring_others_run [OF r that X] that by blast
  show "parent (pcb (kern u) (rf X)) = Null \<or> (\<forall>w \<in> set (a_wait a). pid (pcb (kern u) w) \<noteq> pid (pcb (kern u) (parent (pcb (kern u) (rf X)))))"
  proof (cases X)
    case Ch0
    have "\<not> blocked (ph Par)"
      using quota_done(1) [OF q Ch0] ok(1) in_rangeD [OF ok(1), of Par] unfolding ring_ok_def counts_ok_def
      by (metis blocked_def in_range.simps(2) less_irrefl printed.simps(4))
    moreover have "ph Par \<noteq> Unborn" using ok(1) by (simp add: ring_ok_def family_ok_def born_def)
    moreover have "Y = Par" if "blocked (ph Y)" "rf Y = rf Par" for Y
      using p(1) that \<open>ph Par \<noteq> Unborn\<close> unfolding procs_ok_def by (metis (mono_tags) blocked_def inj_onD mem_Collect_eq phase.distinct(5))
    ultimately have "w \<noteq> Proc 0" if "w \<in> set (a_wait a)" for w
      using that w p(2) unfolding kin_ok_def by (metis (mono_tags) imageE mem_Collect_eq)
    then have "\<forall>w \<in> set (a_wait a). pid (pcb (kern u) w) \<noteq> pid (pcb (kern u) (Proc 0))" using pid_eq [OF pool] by auto
    then show ?thesis using p(2) Ch0 by (simp add: kin_ok_def)
  qed (use p(2) end_wait quota_done(2) [OF q] in \<open>auto simp: kin_ok_def\<close>)
qed

lemma ring_exit_step:
  assumes r: "ring_at u a sm rf ph tok n" and X: "running u = rf X" "ph X = AtP 10"
  shows "(\<exists>s. exit (kernel_ecall fe 0 junk stk) m (kern u) = Inr (None, s) \<and> ring_inv (work ph - 1) (u\<lparr>kern := s\<rparr>)) \<or>
    n = 30 \<and> exit (kernel_ecall fe 0 junk stk) m (kern u) = Inl (Halt 0)"
proof -
  have ok: "ring_ok ph tok n" "linked u a sm rf ph tok" and pool: "pool_rel (kern u) a"
    using r ring_at_pool [OF r] by (simp_all add: ring_at_def)
  note e = ring_exit_ready [OF r X]
  have run: "a_run a = rf X # tl (a_run a)" using pool_rel_run(1) [OF pool] X(1) by simp
  show ?thesis
  proof (cases "tl (a_run a)")
    case Nil
    then have "n = 30" using e(2) ok(1) by (cases "n < 30") (auto simp: ring_ok_def)
    then show ?thesis using exit_halts [OF pool _ e(1)] run Nil by (simp add: ecall_calls)
  next
    case (Cons x ys)
    then obtain s where s: "sys_user_exit 0 (scast m) (kern u) = Inr (None, s)" "pool_rel s (aexit a)"
        "\<forall>p. parent (pcb s p) = parent (pcb (kern u) p)"
      using exit_rel [OF pool _ e(3), of x ys] run by metis
    have "ring_at (u\<lparr>kern := s\<rparr>) (aexit a) sm rf (ph(X := Gone)) tok n"
      using linked_exit [OF ok(2) X s(2,3)] ring_exit [OF ok(1) X(2)] r by (simp add: ring_at_def)
    then have "ring_inv (work ph - 1) (u\<lparr>kern := s\<rparr>)" by (rule ring_invI) (use work_less [of ph X Gone] X(2) in simp)
    then show ?thesis using s(1) by (simp add: ecall_calls)
  qed
qed

lemma ring_tick_step:
  assumes r: "ring_at u a sm rf ph tok n" and c: "timer_tick fe junk stk b0 (kern u) = Inr s"
  shows "ring_inv (work ph) (u\<lparr>kern := s\<rparr>)"
proof -
  have "kstep fe junk stk b0 Tick (kern u) = Inr s" using c by simp
  then obtain a' where "astep Tick a = Some a'" "pool_rel s a'" "\<forall>p. parent (pcb s p) = parent (pcb (kern u) p)"
    using ring_at_pool [OF r] kstep_back by blast
  then have "ring_at (u\<lparr>kern := s\<rparr>) a' sm rf ph tok n" using linked_tick [of u a] r by (simp add: ring_at_def del: astep.simps)
  then show ?thesis using refl by (rule ring_invI)
qed

lemma ring_current:
  assumes "ring_at u a sm rf ph tok n" "progs u (running u) = Call q k"
  obtains "running u = rf Ch0" "ph Ch0 = Forking" "q = U_fork" "k = (\<lambda>v _. sem_child 10 v (sm Par) (sm Ch0) (sm Ch1))"
  | X i where "running u = rf X" "ph X = AtP i" "i < 10" "q = U_sem_P (sm X)" "k = (\<lambda>_ _. prog_of sm X (Printing i))"
  | X where "running u = rf X" "ph X = AtP 10" "q = U_exit 0"
  | X i f vl where "running u = rf X" "ph X = Printing i" "q = U_printu f vl" "Call q k = say X i (prog_of sm X (AtV i))"
  | X i where "running u = rf X" "ph X = AtV i" "i < 10" "q = U_sem_V (sm (nxt X))" "k = (\<lambda>_ _. prog_of sm X (AtP (Suc i)))"
proof -
  have ok: "ring_ok ph tok n" "linked u a sm rf ph tok" using assms(1) by (simp_all add: ring_at_def)
  obtain X where X: "runnable (ph X)" "running u = rf X" "progs u (running u) = prog_of sm X (ph X)" using ok(2) by (rule linked_current)
  have F: "X = Ch0" if "ph X = Forking" using ok(1) that by (cases X) (auto simp: ring_ok_def family_ok_def born_def)
  have "prog_of sm X (ph X) = Call q k" using X(3) assms(2) by simp
  from prog_of_calls [OF this X(1) in_rangeD [OF ok(1)]] show thesis
  proof (elim disjE exE conjE)
    assume "ph X = Forking" "q = U_fork" "k = (\<lambda>v _. sem_child 10 v (sm Par) (sm Ch0) (sm Ch1))"
    then show thesis using that(1) X(2) F by auto
  qed (use that(2-5) X(2) in blast)+
qed

lemma ring_step:
  assumes "call_step fe junk stk u u'" "ring_inv w u"
  shows "ring_inv (w - 1) u'"
proof -
  from assms(2) obtain a sm rf ph tok n where r: "ring_at u a sm rf ph tok n" and w: "w = work ph" by (auto simp: ring_inv_def)
  from assms(1) show ?thesis
  proof cases
    case (step_print f vl k ob v s t)
    obtain X i where X: "running u = rf X" "ph X = Printing i" "Call (U_printu f vl) k = say X i (prog_of sm X (AtV i))"
      by (rule ring_current [OF r step_print(2)]) blast+
    have "work (ph(X := AtV i)) = work ph - 1" using X(2) in_rangeD [of ph tok n X] work_less [of ph X "AtV i"] r by (simp add: ring_at_def)
    from ring_invI [OF ring_print_step [OF r X step_print(3,4)] this] show ?thesis unfolding w step_print(1) .
  next
    case (step_sem_P m k q s)
    from ring_current [OF r step_sem_P(2)] obtain X i where
      X: "running u = rf X" "ph X = AtP i" "i < 10" "m = sm X" "k = (\<lambda>_ _. prog_of sm X (Printing i))" by auto
    from ring_P_step [OF r X(1-3) step_sem_P(3) [unfolded X(4)]] show ?thesis unfolding w step_sem_P(1) X(5) .
  next
    case (step_sem_V m k v s)
    obtain X i where X: "running u = rf X" "ph X = AtV i" "m = sm (nxt X)" "k = (\<lambda>_ _. prog_of sm X (AtP (Suc i)))"
      by (rule ring_current [OF r step_sem_V(2)]) blast+
    from ring_V_step [OF r X(1,2) step_sem_V(3) [unfolded X(3)]] show ?thesis unfolding w step_sem_V(1) X(4) .
  next
    case (step_fork k v s c)
    from ring_current [OF r step_fork(2)] have
      X: "running u = rf Ch0" "ph Ch0 = Forking" "k = (\<lambda>v _. sem_child 10 v (sm Par) (sm Ch0) (sm Ch1))" by auto
    from ring_fork_step [OF r X(1,2) step_fork(3-5) X(3)] show ?thesis unfolding w step_fork(1) .
  next
    case (step_exit m k s)
    from ring_current [OF r step_exit(2)] obtain X where X: "running u = rf X" "ph X = AtP 10" by auto
    from ring_exit_step [OF r X, of fe junk stk "word_of_int m"] step_exit show ?thesis unfolding w by auto
  next
    case (step_sem_new m k v s)
    from ring_current [OF r step_sem_new(2)] show ?thesis by auto
  next
    case (step_yield k s)
    from ring_current [OF r step_yield(2)] show ?thesis by auto
  qed
qed

end
