(* ===== verification/AppSemRun.thy ===== *)
theory AppSemRun
  imports AppSem
begin

text \<open>
  Runs of \<^verbatim>\<open>app_semaphore_challengex.c\<close> from its first instruction: the order of its output, that it ends, and that no
  process of it is stuck.
\<close>

section \<open>Before the first fork\<close>

definition fork_prog :: "int \<Rightarrow> int \<Rightarrow> int \<Rightarrow> prog" where
  "fork_prog main_sem child0 child1 = Call U_fork (\<lambda>npid _.
     if npid = 0 then Call U_fork (\<lambda>npid _. sem_child 10 npid main_sem child0 child1) else sem_parent 10 main_sem child0)"

fun start_prog :: "int \<Rightarrow> nat \<Rightarrow> prog" where
  \<comment> \<open>what is left of the program once it has created \<open>k\<close> semaphores, the first of them number \<open>m + 1\<close>\<close>
  "start_prog m 0 = app_semaphore"
| "start_prog m (Suc 0) = Call (U_sem_new 0) (\<lambda>child0 _. Call (U_sem_new 0) (\<lambda>child1 _. fork_prog (m + 1) child0 child1))"
| "start_prog m (Suc (Suc 0)) = Call (U_sem_new 0) (\<lambda>child1 _. fork_prog (m + 1) (m + 2) child1)"
| "start_prog m _ = fork_prog (m + 1) (m + 2) (m + 3)"

definition start_at :: "'h usys \<Rightarrow> asched \<Rightarrow> int \<Rightarrow> nat \<Rightarrow> bool" where
  "start_at u a m k \<longleftrightarrow> pool_rel (kern u) a \<and> a_run a = [Proc 0] \<and> a_wait a = [] \<and> parent (pcb (kern u) (Proc 0)) = Null \<and>
     progs u (Proc 0) = start_prog m k \<and> out u = [] \<and> 0 \<le> m \<and> m \<le> 96 \<and> k \<le> 3 \<and> a_len a = m + int k \<and>
     (1 \<le> k \<longrightarrow> a_cnt a (m + 1) = 1) \<and> (2 \<le> k \<longrightarrow> a_cnt a (m + 2) = 0) \<and> (3 \<le> k \<longrightarrow> a_cnt a (m + 3) = 0)"

lemma start_current: "start_at u a m k \<Longrightarrow> running u = Proc 0 \<and> progs u (running u) = start_prog m k"
  using pool_rel_run(1) [of "kern u" a] by (auto simp: start_at_def)

lemma start_prog_new:
  assumes "k < 3"
  obtains K where "start_prog m k = Call (U_sem_new (if k = 0 then 1 else 0)) K" "\<And>xs. K (m + int k + 1) xs = start_prog m (Suc k)"
proof -
  have "k \<in> {0, 1, 2}" using assms by auto
  then show thesis using that by (auto simp: app_semaphore_def fork_prog_def numeral_2_eq_2 algebra_simps)
qed

lemma start_new_step:
  assumes st: "start_at u a m k" and k: "k < 3"
    and c: "sem_new (kernel_ecall fe 0 junk stk) (word_of_int (if k = 0 then 1 else 0)) (kern u) = Inr (Some v, s)"
  shows "v = m + int k + 1" "\<exists>a'. start_at (goes_on u s (start_prog m (Suc k))) a' m (Suc k)"
proof -
  let ?v = "if k = 0 then 1 else 0 :: int"
  have s: "pool_rel (kern u) a" "a_len a = m + int k" "0 \<le> m" "m \<le> 96" using st by (simp_all add: start_at_def)
  have "kstep fe junk stk b0 (Sem_new ?v) (kern u) = Inr s \<and> Some v = Some (as_int (sem_len (kern u) + 1))" for b0
    by (rule call_kstep(3) [OF _ _ c]) auto
  then have n: "kstep fe junk stk b0 (Sem_new ?v) (kern u) = Inr s" "v = as_int (a_len a + 1)" for b0
    using s(1) by (simp_all add: pool_rel_def sched_rel_def)
  show "v = m + int k + 1" using n(2) s k by simp
  obtain a' where a': "astep (Sem_new ?v) a = Some a'" "pool_rel s a'" "\<forall>p. parent (pcb s p) = parent (pcb (kern u) p)"
    using kstep_back [OF s(1) n(1)] by blast
  then have e: "a' = a\<lparr>a_len := m + int k + 1, a_cnt := (a_cnt a)(m + int k + 1 := ?v)\<rparr>"
    using s k by (auto simp: Let_def)
  have "k \<in> {0, 1, 2}" using k by auto
  then have "start_at (goes_on u s (start_prog m (Suc k))) a' m (Suc k)"
    using st a'(2,3) start_current [OF st] by (auto simp: start_at_def e algebra_simps)
  then show "\<exists>a'. start_at (goes_on u s (start_prog m (Suc k))) a' m (Suc k)" by blast
qed

lemma start_fork_step:
  assumes st: "start_at u a m 3"
    and c: "fork (kernel_ecall fe 0 junk stk) (kern u) = Inr (Some v, s)"
      "find (\<lambda>i. status (pcb (kern u) (Proc i)) = FREE) [0..<NPROC] = Some c" "ram_page (trapframe (pcb s (Proc c)))"
    and k: "start_prog m 3 = Call U_fork k"
  shows "ring_inv 94 ((goes_on u s (k v []))\<lparr>progs := (progs u)(running u := k v [], Proc c := k 0 [])\<rparr>)"
proof -
  define sm where "sm = (\<lambda>X. case X of Par \<Rightarrow> m + 1 | Ch0 \<Rightarrow> m + 2 | Ch1 \<Rightarrow> m + 3)"
  define rf where "rf = (\<lambda>X. case X of Par \<Rightarrow> Proc 0 | _ \<Rightarrow> Proc c)"
  define ph where "ph = (\<lambda>_. Unborn)(Par := AtP 0, Ch0 := Forking)"
  have pool: "pool_rel (kern u) a" "a_run a = [Proc 0]" "a_wait a = []" using st by (simp_all add: start_at_def)
  note f = call_fork [OF c(1) pool(1) c(2,3)]
  have nz: "c \<noteq> 0" using f(2) pool by (cases "c = 0") auto
  have "k v [] = prog_of sm Par (AtP 0)" "k 0 [] = prog_of sm Ch0 Forking"
    using k nz f(1) by (auto simp: eval_nat_numeral fork_prog_def sm_def loop_of_def)
  moreover have sets: "{X. runnable (ph X)} = {Par, Ch0}" "{X. blocked (ph X)} = {}" "{X. ph X \<noteq> Unborn} = {Par, Ch0}"
    by (auto simp: ph_def runnable_def phase_defs split: if_splits)
  moreover have "procs_ok (afork c a) rf ph"
    using nz pool unfolding procs_ok_def sets by (simp add: rf_def afork_def)
  moreover have "sems_ok (afork c a) sm rf ph (Some Par)"
    using st by (auto simp: sems_ok_def inj_def role_all sm_def start_at_def afork_def cnt_of_def ph_def phase_defs)
  moreover have "kin_ok s rf ph"
    using f(4,5) nz pool(2) st by (auto simp: kin_ok_def rf_def ph_def start_at_def)
  moreover have "ring_ok ph (Some Par) 0" unfolding ph_def by (rule ring_start)
  moreover have "progs_ok ((progs u)(Proc 0 := prog_of sm Par (AtP 0), Proc c := prog_of sm Ch0 Forking)) sm rf ph"
    using nz by (simp add: progs_ok_def role_all rf_def ph_def runnable_def phase_defs)
  ultimately have "ring_at ((goes_on u s (k v []))\<lparr>progs := (progs u)(running u := k v [], Proc c := k 0 [])\<rparr>)
      (afork c a) sm rf ph (Some Par) 0"
    using f(3) st start_current [OF st] by (simp add: ring_at_def linked_def start_at_def)
  then show ?thesis by (rule ring_invI) (simp add: ph_def work_def)
qed

definition sys_inv :: "nat \<Rightarrow> 'h usys \<Rightarrow> bool" where
  "sys_inv w u \<longleftrightarrow> (\<exists>a m k. start_at u a m k \<and> w = 98 - k) \<or> ring_inv w u"

lemma start_step:
  assumes "call_step fe junk stk u u'" "start_at u a m k"
  shows "sys_inv (98 - k - 1) u'"
proof -
  have cur: "running u = Proc 0" "progs u (running u) = start_prog m k" and k: "k \<le> 3" using start_current [OF assms(2)] assms(2)
    by (simp_all add: start_at_def)
  show ?thesis
  proof (cases "k < 3")
    case True
    obtain K where K: "start_prog m k = Call (U_sem_new (if k = 0 then 1 else 0)) K" "\<And>xs. K (m + int k + 1) xs = start_prog m (Suc k)"
      using start_prog_new [OF True] by blast
    from assms(1) obtain v s where c: "sem_new (kernel_ecall fe 0 junk stk) (word_of_int (if k = 0 then 1 else 0)) (kern u) = Inr (Some v, s)"
      "u' = goes_on u s (K v [])" by cases (use cur(2) K(1) in auto)
    from start_new_step [OF assms(2) True c(1)] show ?thesis using c(2) K(2) True unfolding sys_inv_def by fastforce
  next
    case False
    then have k3: "k = 3" using k by simp
    then obtain K where K: "start_prog m 3 = Call U_fork K" by (simp add: eval_nat_numeral fork_prog_def)
    from assms(1) obtain v s c where c: "fork (kernel_ecall fe 0 junk stk) (kern u) = Inr (Some v, s)"
      "find (\<lambda>i. status (pcb (kern u) (Proc i)) = FREE) [0..<NPROC] = Some c" "ram_page (trapframe (pcb s (Proc c)))"
      "u' = (goes_on u s (K v []))\<lparr>progs := (progs u)(running u := K v [], Proc c := K 0 [])\<rparr>"
      by cases (use cur(2) K k3 in auto)
    from start_fork_step [OF assms(2) [unfolded k3] c(1-3) K] show ?thesis using c(4) k3 by (simp add: sys_inv_def)
  qed
qed

section \<open>Runs\<close>

definition starts_semaphore_app :: "'h usys \<Rightarrow> bool" where
  \<comment> \<open>the application is the only process; \<^verbatim>\<open>sem_l\<close> has room for three semaphores\<close>
  "starts_semaphore_app u \<longleftrightarrow> pool_rel (kern u) (abs_of [Proc 0] [] (kern u)) \<and> parent (pcb (kern u) (Proc 0)) = Null \<and>
     progs u (Proc 0) = app_semaphore \<and> out u = [] \<and> 0 \<le> sem_len (kern u) \<and> sem_len (kern u) \<le> 96"

lemma sys_inv_start: "starts_semaphore_app u \<Longrightarrow> sys_inv 98 u"
proof -
  assume "starts_semaphore_app u"
  then have "start_at u (abs_of [Proc 0] [] (kern u)) (sem_len (kern u)) 0"
    by (simp add: starts_semaphore_app_def start_at_def abs_of_def)
  then show ?thesis unfolding sys_inv_def by fastforce
qed

lemma start_tick_step:
  assumes "start_at u a m k" "timer_tick fe junk stk b0 (kern u) = Inr s"
  shows "\<exists>a'. start_at (u\<lparr>kern := s\<rparr>) a' m k"
proof -
  have "kstep fe junk stk b0 Tick (kern u) = Inr s" using assms(2) by simp
  then obtain a' where a': "astep Tick a = Some a'" "pool_rel s a'" "\<forall>p. parent (pcb s p) = parent (pcb (kern u) p)"
    using assms(1) kstep_back unfolding start_at_def by blast
  then have "a_run a' = [Proc 0]" "a_wait a' = []" "a_len a' = a_len a" "a_cnt a' = a_cnt a"
    using assms(1) by (auto simp: start_at_def Let_def rotates_def split: if_splits)
  then have "start_at (u\<lparr>kern := s\<rparr>) a' m k" using assms(1) a'(2,3) by (simp add: start_at_def)
  then show ?thesis by blast
qed

lemma sys_inv_tick: "sys_inv w u \<Longrightarrow> timer_tick fe junk stk b0 (kern u) = Inr s \<Longrightarrow> sys_inv w (u\<lparr>kern := s\<rparr>)"
  unfolding sys_inv_def using start_tick_step [of u _ _ _ fe junk stk b0 s] ring_tick_step [of u _ _ _ _ _ _ fe junk stk b0 s]
  by (metis ring_inv_def)

lemma sys_inv_call:
  assumes "sys_inv w u" "call_step fe junk stk u u'"
  shows "sys_inv (w - 1) u'"
proof (cases "ring_inv w u")
  case True
  then show ?thesis using ring_step [OF assms(2)] by (simp add: sys_inv_def)
next
  case False
  then obtain a m k where "start_at u a m k" "w = 98 - k" using assms(1) by (auto simp: sys_inv_def)
  then show ?thesis using start_step [OF assms(2)] by blast
qed

lemma sys_inv_run: "sys_run fe junk stk b0 u c u' \<Longrightarrow> sys_inv w u \<Longrightarrow> sys_inv (w - c) u'"
  by (induction rule: sys_run.induct) (auto dest: sys_inv_call sys_inv_tick)

lemma ring_works: "ring_inv w u \<Longrightarrow> 0 < w"
proof -
  assume "ring_inv w u"
  then obtain a sm rf ph tok n where r: "ring_at u a sm rf ph tok n" "w = work ph" by (auto simp: ring_inv_def)
  then obtain X where "runnable (ph X)" using linked_current [of u a sm rf ph tok] by (metis ring_at_def)
  then have "left (ph X) \<noteq> 0" using left_runs [of "ph X"] in_rangeD [of ph tok n X] r(1) by (auto simp: ring_at_def runnable_def)
  then show "0 < w" using r(2) by (cases X) (auto simp: work_def)
qed

lemma sys_inv_out: "sys_inv w u \<Longrightarrow> \<exists>n \<le> 30. out u = map line [0..<n]"
  by (auto simp: sys_inv_def start_at_def ring_inv_def ring_at_def ring_ok_def)

lemma sys_inv_works: "sys_inv w u \<Longrightarrow> 0 < w"
  using ring_works by (auto simp: sys_inv_def start_at_def)

lemma kstep_call:
  assumes "0 \<le> n" "n < 100"
  shows "kstep fe junk stk b0 (Sem_P n) s = Inr s' \<Longrightarrow> \<exists>r. sem_P (kernel_ecall fe 0 junk stk) (word_of_int n) s = Inr (r, s')"
    and "kstep fe junk stk b0 (Sem_V n) s = Inr s' \<Longrightarrow> \<exists>v. sem_V (kernel_ecall fe 0 junk stk) (word_of_int n) s = Inr (Some v, s')"
    and "kstep fe junk stk b0 (Sem_new n) s = Inr s' \<Longrightarrow> \<exists>v. sem_new (kernel_ecall fe 0 junk stk) (word_of_int n) s = Inr (Some v, s')"
proof -
  have n: "sint (word_of_int n :: u32) = n" using assms by (intro sint_small) auto
  show "kstep fe junk stk b0 (Sem_P n) s = Inr s' \<Longrightarrow> \<exists>r. sem_P (kernel_ecall fe 0 junk stk) (word_of_int n) s = Inr (r, s')"
    "kstep fe junk stk b0 (Sem_V n) s = Inr s' \<Longrightarrow> \<exists>v. sem_V (kernel_ecall fe 0 junk stk) (word_of_int n) s = Inr (Some v, s')"
    "kstep fe junk stk b0 (Sem_new n) s = Inr s' \<Longrightarrow> \<exists>v. sem_new (kernel_ecall fe 0 junk stk) (word_of_int n) s = Inr (Some v, s')"
    by (auto simp: ecall_calls n kbind_eq_Inr)
qed

lemma ring_P_answered:
  assumes r: "ring_at u a sm rf ph tok n" and X: "running u = rf X" "ph X = AtP i" "i < 10"
  shows "\<exists>q s. sem_P (kernel_ecall fe 0 junk stk) (word_of_int (sm X)) (kern u) = Inr (q, s)"
proof -
  have ok: "ring_ok ph tok n" "sems_ok a sm rf ph tok" and pool: "pool_rel (kern u) a" "0 \<le> sm X" "sm X < 100"
    using r ring_at_pool [OF r] by (simp_all add: ring_at_def linked_def)
  have "printed (ph X) = quota X n" using ok(1) by (simp add: ring_ok_def counts_ok_def)
  then have n: "n < 30" using ok(1) X(2,3) quota_30 [of X] by (cases "n = 30") (auto simp: ring_ok_def)
  have "astep (Sem_P (sm X)) a \<noteq> None"
  proof (cases "tok = Some X")
    case True
    then show ?thesis using ok(2) X(2) by (auto simp: sems_ok_def cnt_of_def phase_defs Let_def not_le not_less)
  next
    case False
    from ring_others_run [OF r n X(1,2) False] show ?thesis using pool by (simp add: Let_def)
  qed
  then obtain a' where "astep (Sem_P (sm X)) a = Some a'" by blast
  from kstep_pool [OF pool(1) this, of fe junk stk 0] show ?thesis using kstep_call(1) [OF pool(2,3)] by blast
qed

lemma ring_V_answered:
  assumes r: "ring_at u a sm rf ph tok n"
  shows "\<exists>v s. sem_V (kernel_ecall fe 0 junk stk) (word_of_int (sm X)) (kern u) = Inr (Some v, s)"
proof -
  have pool: "pool_rel (kern u) a" "0 \<le> sm X" "sm X < 100" using ring_at_pool [OF r] by simp_all
  then obtain a' where "astep (Sem_V (sm X)) a = Some a'" by (cases "0 \<le> a_cnt a (sm X) + 1") (auto simp: Let_def)
  from kstep_pool [OF pool(1) this, of fe junk stk 0] show ?thesis using kstep_call(2) [OF pool(2,3)] by blast
qed

lemma start_new_answered:
  assumes st: "start_at u a m k" and k: "k < 3" and v: "v \<in> {0, 1}"
  shows "\<exists>w s. sem_new (kernel_ecall fe 0 junk stk) (word_of_int v) (kern u) = Inr (Some w, s)"
proof -
  have s: "pool_rel (kern u) a" "a_len a = m + int k" "0 \<le> m" "m \<le> 96" using st by (simp_all add: start_at_def)
  then obtain a' where "astep (Sem_new v) a = Some a'" using k by (simp add: Let_def)
  moreover have "0 \<le> v" "v < 100" using v by auto
  ultimately show ?thesis using kstep_pool [OF s(1), of "Sem_new v" a' fe junk stk 0] kstep_call(3) [of v fe junk stk 0] by blast
qed

definition answered :: "'h frontend \<Rightarrow> (nat \<Rightarrow> int) \<Rightarrow> (int \<Rightarrow> bytes) \<Rightarrow> 'h usys \<Rightarrow> req \<Rightarrow> bool" where
  \<comment> \<open>the kernel serves the call and some process runs afterwards\<close>
  "answered fe junk stk u q \<longleftrightarrow> (case q of
     U_sem_new n \<Rightarrow> \<exists>v s. sem_new (kernel_ecall fe 0 junk stk) (word_of_int n) (kern u) = Inr (Some v, s)
   | U_sem_P n \<Rightarrow> \<exists>r s. sem_P (kernel_ecall fe 0 junk stk) (word_of_int n) (kern u) = Inr (r, s)
   | U_sem_V n \<Rightarrow> \<exists>v s. sem_V (kernel_ecall fe 0 junk stk) (word_of_int n) (kern u) = Inr (Some v, s)
   | U_exit n \<Rightarrow> \<exists>s. exit (kernel_ecall fe 0 junk stk) (word_of_int n) (kern u) = Inr (None, s)
   | _ \<Rightarrow> False)"

lemma ring_goes_on:
  assumes "ring_inv w u"
  shows "\<exists>q k. progs u (running u) = Call q k \<and>
    (answered fe junk stk u q \<or> q = U_fork \<or> (\<exists>f vl. q = U_printu f vl) \<or>
     q = U_exit 0 \<and> exit (kernel_ecall fe 0 junk stk) 0 (kern u) = Inl (Halt 0) \<and> out u = map line [0..<30])"
proof -
  obtain a sm rf ph tok n where r: "ring_at u a sm rf ph tok n" using assms by (auto simp: ring_inv_def)
  obtain X where X: "runnable (ph X)" "running u = rf X" "progs u (running u) = prog_of sm X (ph X)"
    using r linked_current [of u a sm rf ph tok] by (metis ring_at_def)
  have "\<exists>q k. prog_of sm X (ph X) = Call q k"
    using X(1) in_rangeD [of ph tok n X] r
    by (elim runnable_cases) (auto simp: ring_at_def loop_of_Suc loop_of_0 exits_def does_def say_def says_def pass_def split: role.splits)
  then obtain q k where c: "progs u (running u) = Call q k" using X(3) by auto
  from r c have "answered fe junk stk u q \<or> q = U_fork \<or> (\<exists>f vl. q = U_printu f vl) \<or>
     q = U_exit 0 \<and> exit (kernel_ecall fe 0 junk stk) 0 (kern u) = Inl (Halt 0) \<and> out u = map line [0..<30]"
  proof (cases rule: ring_current)
    case (2 X i)
    then show ?thesis using ring_P_answered [OF r 2(1-3)] by (simp add: answered_def)
  next
    case (3 X)
    then show ?thesis using ring_exit_step [OF r 3(1,2), of fe junk stk 0] r by (auto simp: answered_def ring_at_def)
  next
    case (5 X i)
    then show ?thesis using ring_V_answered [OF r] by (simp add: answered_def)
  qed simp_all
  then show ?thesis using c by blast
qed

lemma start_goes_on:
  assumes "start_at u a m k"
  shows "\<exists>q k. progs u (running u) = Call q k \<and> (answered fe junk stk u q \<or> q = U_fork)"
proof (cases "k < 3")
  case True
  then obtain K where "start_prog m k = Call (U_sem_new (if k = 0 then 1 else 0)) K" using start_prog_new by blast
  then show ?thesis
    using start_current [OF assms] start_new_answered [OF assms True, of "if k = 0 then 1 else 0"] by (auto simp: answered_def)
next
  case False
  then have "k = 3" using assms by (simp add: start_at_def)
  then show ?thesis using start_current [OF assms] by (auto simp: eval_nat_numeral fork_prog_def)
qed

section \<open>The application\<close>

text \<open>C6: the semaphores order the output of the application: whatever the timer does and whichever process runs, the lines
  come out as \<^verbatim>\<open>Parent print 0\<close>, \<^verbatim>\<open>Child0 print 0\<close>, \<^verbatim>\<open>Child1 print 0\<close>, \<^verbatim>\<open>Parent print 1\<close> and so on, and no line
  comes after \<^verbatim>\<open>Child1 print 9\<close>.\<close>

theorem semaphore_app_order:
  assumes "starts_semaphore_app u" "sys_run fe junk stk b0 u c u'"
  shows "\<exists>n \<le> 30. out u' = map line [0..<n]"
  using sys_inv_out [OF sys_inv_run [OF assms(2) sys_inv_start [OF assms(1)]]] .

text \<open>C8: the application ends: no run has more than 97 calls that return or hand the hart to another process, so
  after finitely many calls the kernel stops (the 98th call is the last \<^verbatim>\<open>exit\<close>).\<close>

theorem semaphore_app_ends:
  assumes "starts_semaphore_app u" "sys_run fe junk stk b0 u c u'"
  shows "c \<le> 97"
  using sys_inv_works [OF sys_inv_run [OF assms(2) sys_inv_start [OF assms(1)]]] by simp


section \<open>Witnesses\<close>

definition demo_solo :: "u8 list usys" where
  \<comment> \<open>process 0 of \<open>demo_mach\<close> alone, about to run the application\<close>
  "demo_solo = \<lparr>kern = demo_mach\<lparr>pcb := (\<lambda>q. case q of
       Proc i \<Rightarrow> (demo_proc i)\<lparr>status := (if i = 0 then RUNNING else FREE), parent := Null, queue_next := Null\<rparr>
     | _ \<Rightarrow> demo_proc 31), ready_queue_head := Null, wait_queue_head := Null\<rparr>,
     progs = (\<lambda>_. app_semaphore), out = []\<rparr>"

lemma demo_solo_starts: "starts_semaphore_app demo_solo"
proof -
  have "run_state 0 (kern demo_solo) [Proc 0] []"
    using demo_tf [of 0] by (simp add: run_state_def queue_defs demo_solo_def)
  moreover have "csr_sstatus (kern demo_solo) 0 AND SSTATUS_SPP = 0" "sem_len (kern demo_solo) = 7" "0 \<le> count_4 (kern demo_solo)"
    by (simp_all add: demo_solo_def demo_mach_user) (simp add: demo_mach_def demo_app_def sysk.defs mach.defs elfk.defs kernel.defs hfs.defs)
  moreover from calculation have "sched_rel (kern demo_solo) (abs_of [Proc 0] [] (kern demo_solo))" by (intro sched_rel_abs) simp_all
  ultimately show ?thesis
    by (simp add: starts_semaphore_app_def pool_rel_def abs_of_def) (simp add: demo_solo_def demo_proc_def NPROC_def)
qed

lemma start_makes_step:
  assumes "start_at u a m k" "k < 3"
  shows "\<exists>u' a'. call_step fe junk stk u u' \<and> start_at u' a' m (Suc k)"
proof -
  let ?n = "if k = 0 then 1 else 0 :: int"
  obtain K where K: "start_prog m k = Call (U_sem_new ?n) K" "\<And>xs. K (m + int k + 1) xs = start_prog m (Suc k)"
    using start_prog_new [OF assms(2)] by blast
  obtain v s where c: "sem_new (kernel_ecall fe 0 junk stk) (word_of_int ?n) (kern u) = Inr (Some v, s)"
    using start_new_answered [OF assms, of ?n fe junk stk] by (cases "k = 0") auto
  from start_new_step [OF assms c] obtain a' where "start_at (goes_on u s (K v [])) a' m (Suc k)" using K(2) by auto
  moreover have "call_step fe junk stk u (goes_on u s (K v []))"
    by (rule step_sem_new [OF _ c]) (use start_current [OF assms(1)] K(1) in auto)
  ultimately show ?thesis by blast
qed

lemma start_makes_run: "start_at u a m 0 \<Longrightarrow> \<exists>u' a'. sys_run fe junk stk b0 u 3 u' \<and> start_at u' a' m 3"
proof -
  assume "start_at u a m 0"
  then have "k \<le> 3 \<Longrightarrow> \<exists>u' a'. sys_run fe junk stk b0 u k u' \<and> start_at u' a' m k" for k
  proof (induction k)
    case 0
    then show ?case by (auto intro: run_start)
  next
    case (Suc k)
    then obtain v a1 where v: "sys_run fe junk stk b0 u k v" "start_at v a1 m k" by auto
    then obtain w a2 where "call_step fe junk stk v w" "start_at w a2 m (Suc k)" using start_makes_step Suc.prems by fastforce
    then show ?case using v(1) by (blast intro: run_call)
  qed
  then show ?thesis by simp
qed

lemma demo_solo_runs: "\<exists>u'. sys_run log_host (\<lambda>_. 0) (\<lambda>_ _. 0) 0 demo_solo 3 u' \<and> out u' = [] \<and> (\<exists>k. progs u' (running u') = Call U_fork k)"
proof -
  have "start_at demo_solo (abs_of [Proc 0] [] (kern demo_solo)) (sem_len (kern demo_solo)) 0"
    using demo_solo_starts by (simp add: starts_semaphore_app_def start_at_def abs_of_def)
  from start_makes_run [OF this] obtain u' a' m where
    u: "sys_run log_host (\<lambda>_. 0) (\<lambda>_ _. 0) 0 demo_solo 3 u'" "start_at u' a' m 3" by blast
  then show ?thesis using start_current [OF u(2)] by (auto simp: start_at_def eval_nat_numeral fork_prog_def)
qed

theorem semaphore_app_order_witness:
  "\<exists>u'. sys_run log_host (\<lambda>_. 0) (\<lambda>_ _. 0) 0 demo_solo 3 u' \<and> (\<exists>n \<le> 30. out u' = map line [0..<n])"
  using demo_solo_runs semaphore_app_order [OF demo_solo_starts] by blast

theorem semaphore_app_ends_witness:
  "\<exists>u'. sys_run log_host (\<lambda>_. 0) (\<lambda>_ _. 0) 0 demo_solo 3 u' \<and> (3 :: nat) \<le> 97"
  using demo_solo_runs semaphore_app_ends [OF demo_solo_starts] by blast


end
