(* ===== verification/Spec2Isabelle.thy ===== *)
theory Spec2Isabelle
  imports Sync ElfProps KernMap Scanf BlockProps AppSemRun
begin

text \<open>
  Verification of the HUST variant of the RISC-V proxy kernel (PKE).

  \<^bold>\<open>The program.\<close>  The kernel boots on an emulated RISC-V machine, builds a free list of physical pages, a
  kernel page table, a RAM disk file system and a host file system behind one virtual file system,
  loads an ELF application into a process and then only runs inside traps: a system call, a timer
  tick or a page fault of the process that runs.  The trap handler ends by entering user mode again,
  in the same or in another process.

  \<^bold>\<open>Theories and sources.\<close>
  \<^item> \<open>KPrelude\<close>: errors (\<open>kerr\<close>: panic, fault, non-termination, halt), the error monad \<open>kbind\<close>, memory
    layout (\<^verbatim>\<open>kernel/config.h\<close>, \<^verbatim>\<open>kernel/memlayout.h\<close>, \<^verbatim>\<open>util/functions.h\<close>).
  \<^item> \<open>Pmm\<close>: \<^verbatim>\<open>kernel/pmm.c\<close>.  The record \<open>pmm\<close> holds physical memory as words of 64 bits and the globals of
    the file; the free list is threaded through the pages.  \<open>pmm_rel\<close> relates it to a list of pages, and
    the locale \<open>page_stack\<close> is its contract.
  \<^item> \<open>Vmm\<close>, \<open>PageTable\<close>: \<^verbatim>\<open>kernel/vmm.c\<close>, the macros of \<^verbatim>\<open>kernel/riscv.h\<close>.  \<open>PageTable\<close> abstracts the Sv39 tree in
    memory to a map from addresses to page table entries (\<open>pte_of\<close>) with the invariant \<open>pt_ok\<close>, and
    shows what mapping, lookup and unmapping do to it.
  \<^item> \<open>Sync\<close>: \<^verbatim>\<open>kernel/sync_utils.h\<close>, \<^verbatim>\<open>spike_interface/atomic.h\<close> as step relations that interleave the memory
    accesses of several harts.
  \<^item> \<open>CString\<close>: \<^verbatim>\<open>util/string.c\<close> on a byte memory, with bytewise reference definitions.
  \<^item> \<open>HashTable\<close>: \<^verbatim>\<open>util/hash_table.c\<close>, buckets of linked pages; \<open>FsState\<close> holds the objects of the file
    systems (vinodes, dentries, super blocks, open files, RAM disks) as maps from the address of
    their page, and interprets the hash table locale for dentries and vinodes.
  \<^item> \<open>Rfs\<close>, \<open>RfsProps\<close>, \<open>RfsFile\<close>, \<open>RfsTheorems\<close>: \<^verbatim>\<open>kernel/ramdev.c\<close>, \<^verbatim>\<open>kernel/rfs.c\<close>; disk inodes, blocks, files,
    directories, formatting and mounting.
  \<^item> \<open>SpikeFile\<close>, \<open>Hostfs\<close>: \<^verbatim>\<open>spike_interface/spike_file.c\<close>, \<^verbatim>\<open>kernel/hostfs.c\<close>.  The host behind
    \<^verbatim>\<open>frontend_syscall\<close> is the parameter \<open>fe\<close>, a function on its own state of type \<open>'h\<close>.
  \<^item> \<open>Vfs\<close>, \<open>VfsProps\<close>: \<^verbatim>\<open>kernel/vfs.c\<close>; the tables of operations of an inode are the constructors \<open>Rfs_ops\<close>
    and \<open>Hostfs_ops\<close>.
  \<^item> \<open>Sched\<close>, \<open>SchedProps\<close>: process structures (\<^verbatim>\<open>kernel/process.h\<close>), \<^verbatim>\<open>kernel/sched.c\<close> and \<^verbatim>\<open>switch_to\<close>.  A
    reference to a process is \<open>Proc i\<close> for \<^verbatim>\<open>procs[i]\<close>, \<open>Local sp\<close> for the copy that \<^verbatim>\<open>schedule\<close> makes on the
    kernel stack \<open>sp\<close>, or \<open>Null\<close>.  The locale \<open>tail_queue\<close> is the contract of an insertion into a queue.
  \<^item> \<open>ProcFile\<close>, \<open>Process\<close>: \<^verbatim>\<open>kernel/proc_file.c\<close>, \<^verbatim>\<open>kernel/process.c\<close>.
  \<^item> \<open>UserMem\<close>, \<open>Elf\<close>, \<open>ElfProps\<close>: bytes of physical memory, \<^verbatim>\<open>kernel/elf.c\<close> with the symbol table and the
    decoder of the DWARF line number program.
  \<^item> \<open>BlockAlloc\<close>, \<open>Syscall\<close>: \<^verbatim>\<open>kernel/syscall.c\<close>, the allocator of parts of pages and every system call.
  \<^item> \<open>Strap\<close>: \<^verbatim>\<open>kernel/strap.c\<close>; \<open>smode_trap_handler\<close> is a step of the whole kernel.
  \<^item> \<open>ProcProps\<close>, \<open>HeapProps\<close>, \<open>BlockProps\<close>, \<open>KernMap\<close>: properties of processes, semaphores, page faults, the heap by
    pages and by blocks, and the kernel page table.
  \<^item> \<open>Snprintf\<close>, \<open>Scanf\<close>: \<^verbatim>\<open>util/snprintf.c\<close>, \<^verbatim>\<open>util/vsscanf.c\<close>, with the text that a format denotes (\<open>fmt_text\<close>).
  \<^item> \<open>Htif\<close>, \<open>Console\<close>, \<open>ConsoleProps\<close>: \<^verbatim>\<open>spike_interface/spike_htif.c\<close>, \<^verbatim>\<open>spike_utils.c\<close>.  In \<open>Htif\<close> the host is a step
    function on the shared registers that runs before each read of them; \<open>Console\<close> prints through the
    files of \<open>SpikeFile\<close>.
  \<^item> \<open>DeviceTree\<close>, \<open>FdtProps\<close>: \<^verbatim>\<open>spike_interface/dts_parse.c\<close>, \<^verbatim>\<open>spike_memory.c\<close> and the discovery in \<^verbatim>\<open>spike_htif.c\<close>.
  \<^item> \<open>UserLib\<close>, \<open>UserProps\<close>: \<^verbatim>\<open>user/user_lib.c\<close>; \<open>kernel_ecall\<close> puts the kernel behind the instruction \<^verbatim>\<open>ecall\<close>.
  \<^item> \<open>Machine\<close>, \<open>Boot\<close>, \<open>MachineProps\<close>: \<^verbatim>\<open>kernel/machine/minit.c\<close>, \<^verbatim>\<open>kernel/machine/mtrap.c\<close>, \<^verbatim>\<open>kernel/kernel.c\<close>; the
    state \<open>mach\<close> adds the registers of machine mode to the state of the kernel.
  \<^item> \<open>SchedRefine\<close>: the scheduler as an abstract machine on two lists; the locale \<open>simulation\<close> lifts the refinement
    of single operations (\<open>kstep\<close>) to sequences of them.  \<open>ProcRefine\<close>: \<^verbatim>\<open>fork\<close> and \<^verbatim>\<open>exit\<close> on top of it, with the
    relation \<open>pool_rel\<close> between all process structures and the two lists.
  \<^item> \<open>Apps\<close>: the applications \<^verbatim>\<open>user/app*.c\<close>, each a tree of calls of the user library (\<open>prog\<close>).  \<open>UserSys\<close>: processes
    that run programs on the kernel; \<open>call_step\<close> is a call of the process on the hart, \<open>sys_run\<close> a run of calls and
    timer interrupts.  The calls are those of programs that print, use semaphores, yield, fork and exit.
  \<^item> \<open>SemRing\<close>, \<open>AppSem\<close>, \<open>AppSemRun\<close>: \<^verbatim>\<open>user/app_semaphore_challengex.c\<close>.  \<open>SemRing\<close> is its protocol, one token that three
    processes pass around; \<open>AppSem\<close> links it to queues, semaphores and programs; \<open>AppSemRun\<close> has the properties.

  \<^bold>\<open>What is shown.\<close>  Memory: the page allocator is a stack of distinct pages; mapping translates exactly the
  requested range, isolates address spaces and unmapping returns the frame; a store fault maps a
  fresh page and nothing else; a freed heap page is the next one to be allocated, and a freed first block
  of a page is reused.  Files: text written is
  read back, through the RAM disk and through the virtual file system, other files are untouched;
  disk inodes, blocks and directory entries round trip; path lookup follows the cached dentries.
  Processes: both queues stay well formed, the head of the ready queue enters user mode with its own
  page table, yields are fair, semaphores block and wake in order; sequences of yields, semaphore calls and
  timer ticks refine a machine on two lists, lose no process, and the timer alone is fair.  Loader: symbols are sorted, line
  tables are well formed for any input.  Library: the string routines and the hash table meet their
  reference definitions, formatted text is what the format denotes and numbers are read back.  Harts: the
  barrier is safe and live.  Boot: the device tree is traversed in document order, start-up delegates
  the intended traps, the kernel page table is an identity map with writable and executable parts
  apart.  Across components: a text printed by an application reaches the host, every library routine
  reaches its system call, a timer interrupt preempts a process after its slice, a request to the host
  is answered once; an application whose three processes synchronise through semaphores prints its
  lines in the intended order under every timing of the interrupts, does not deadlock, and ends.  Behaviour that is not what the code
  intends is stated as such (races of the locks on two harts, the stack copy of an exiting child,
  lost wake-ups, unfreed zombies, stale bytes in overwritten blocks, blocks of the heap at the wrong address).

  \<^bold>\<open>Loops and bounds.\<close>  Every loop with a bound is a terminating function; a walk through a linked structure
  that can be cyclic is a \<^verbatim>\<open>partial_function\<close> whose \<open>None\<close> becomes the error \<open>Spin\<close>, and the properties show
  that it returns on well-formed structures.  There is no fuel.  Words have the width of the source; the
  counters and file offsets of type int are integers, range conditions are hypotheses where they
  matter.  Local arrays that the source leaves uninitialised are the parameters \<open>junk\<close> and \<open>stk\<close>.

  \<^bold>\<open>Not modelled.\<close>  Messages that the kernel prints for its own progress (those of start-up, of a user's
  \<^verbatim>\<open>printu\<close> and of an illegal instruction are), assembly (the saving and restoring of registers is the
  assumption that the trapframe of a trap holds them) and \<^verbatim>\<open>poweroff\<close>.  The code of an application is not executed
  instruction by instruction: \<open>call_step\<close> makes its calls one after the other and gives the child of a fork
  the rest of its parent's program; applications other than the one with semaphores are
  definitions only.  The kernel proper is modelled for one hart (\<^verbatim>\<open>NCPU\<close> is 1); several harts occur in \<open>Sync\<close>.  The hart reads the
  page tables in memory: there is no translation cache, so the flush of \<^verbatim>\<open>enable_paging\<close> has no effect here.
\<close>

end
